(* ===== verification/Prelude.thy ===== *)
theory Prelude
  imports Main "HOL-Library.Sublist" "HOL-Library.Char_ord" "HOL-Library.List_Lexorder"
    "HOL-Library.Code_Target_Numeral"
begin

text \<open>
  Shared vocabulary of the development: the byte strings of Go, the parts of the Go
  package \<open>strings\<close> that the sources call, and the generic lemmas on lists that the
  component theories share.

  A Go \<open>string\<close> and a Go \<open>[]byte\<close> are both sequences of bytes, and the code converts
  between them freely; both are \<open>string\<close> here, a list of 8-bit characters.
\<close>

type_synonym bytes = string

text \<open>
  The collections of the development: \<open>str_simps\<close> for the string functions,
  \<open>barrier\<close> for occurrences that cannot cross a separating character.
\<close>

named_theorems str_simps
named_theorems barrier

section \<open>The package strings\<close>

definition HasPrefix :: "string \<Rightarrow> string \<Rightarrow> bool" where
  "HasPrefix s p = prefix p s"

definition HasSuffix :: "string \<Rightarrow> string \<Rightarrow> bool" where
  "HasSuffix s p = suffix p s"

definition TrimPrefix :: "string \<Rightarrow> string \<Rightarrow> string" where
  "TrimPrefix s p = (if prefix p s then drop (length p) s else s)"

definition TrimSuffix :: "string \<Rightarrow> string \<Rightarrow> string" where
  "TrimSuffix s p = (if suffix p s then take (length s - length p) s else s)"

text \<open>\<open>TrimRight (s, cutset)\<close>: every trailing character of the cutset is removed.\<close>

definition TrimRight :: "string \<Rightarrow> string \<Rightarrow> string" where
  "TrimRight s cutset = rev (dropWhile (\<lambda>c. c \<in> set cutset) (rev s))"

text \<open>\<open>Index\<close>: the position of the first occurrence; Go's \<open>-1\<close> is \<open>None\<close>.\<close>

fun index_of :: "'a list \<Rightarrow> 'a list \<Rightarrow> nat option" where
  "index_of [] nd = (if nd = [] then Some 0 else None)"
| "index_of (x # xs) nd =
     (if prefix nd (x # xs) then Some 0 else map_option Suc (index_of xs nd))"

text \<open>\<open>Split (s, sep)\<close> for a separator of one byte.\<close>

fun split_on :: "'a \<Rightarrow> 'a list \<Rightarrow> 'a list list" where
  "split_on c [] = [[]]"
| "split_on c (x # xs) =
     (if x = c then [] # split_on c xs
      else (case split_on c xs of p # ps \<Rightarrow> (x # p) # ps | [] \<Rightarrow> [[x]]))"

text \<open>\<open>SplitN (s, sep, 2)\<close> and \<open>Cut\<close>: the text before and after the first separator.\<close>

fun cut_at :: "'a \<Rightarrow> 'a list \<Rightarrow> ('a list \<times> 'a list) option" where
  "cut_at c [] = None"
| "cut_at c (x # xs) =
     (if x = c then Some ([], xs)
      else (case cut_at c xs of Some (a, b) \<Rightarrow> Some (x # a, b) | None \<Rightarrow> None))"

fun join_with :: "string \<Rightarrow> string list \<Rightarrow> string" where
  "join_with sep [] = []"
| "join_with sep [s] = s"
| "join_with sep (s # t # ss) = s @ sep @ join_with sep (t # ss)"

text \<open>\<open>fmt.Sprintf ("%d", n)\<close>.\<close>

fun nat_digits :: "nat \<Rightarrow> string" where
  "nat_digits n =
     (if n < 10 then [char_of (48 + n)] else nat_digits (n div 10) @ [char_of (48 + n mod 10)])"

declare nat_digits.simps [simp del]

definition itoa :: "int \<Rightarrow> string" where
  "itoa i = (if i < 0 then ''-'' @ nat_digits (nat (- i)) else nat_digits (nat i))"

text \<open>The byte value of a character, and the usual classes.\<close>

abbreviation byte :: "char \<Rightarrow> nat" where
  "byte c \<equiv> of_char c"

definition is_upper :: "char \<Rightarrow> bool" where
  "is_upper c \<longleftrightarrow> 65 \<le> byte c \<and> byte c \<le> 90"

definition is_lower :: "char \<Rightarrow> bool" where
  "is_lower c \<longleftrightarrow> 97 \<le> byte c \<and> byte c \<le> 122"

definition is_digit :: "char \<Rightarrow> bool" where
  "is_digit c \<longleftrightarrow> 48 \<le> byte c \<and> byte c \<le> 57"

definition is_alnum :: "char \<Rightarrow> bool" where
  "is_alnum c \<longleftrightarrow> is_upper c \<or> is_lower c \<or> is_digit c"

definition to_lower :: "char \<Rightarrow> char" where
  "to_lower c = (if is_upper c then char_of (byte c + 32) else c)"

definition to_upper :: "char \<Rightarrow> char" where
  "to_upper c = (if is_lower c then char_of (byte c - 32) else c)"

lemmas char_class_defs = is_upper_def is_lower_def is_digit_def is_alnum_def

section \<open>Lemmas on the string functions\<close>

lemma split_on_nonempty [simp]: "split_on c xs \<noteq> []"
  by (induction xs) (auto split: list.splits)

lemma split_on_no_sep [str_simps]: "c \<notin> set xs \<Longrightarrow> split_on c xs = [xs]"
  by (induction xs) auto

lemma split_on_append_sep [str_simps]:
  "c \<notin> set xs \<Longrightarrow> split_on c (xs @ c # ys) = xs # split_on c ys"
  by (induction xs) auto

lemma cut_at_append [str_simps]: "c \<notin> set a \<Longrightarrow> cut_at c (a @ c # b) = Some (a, b)"
  by (induction a) auto

lemma cut_at_Some_D: "cut_at c xs = Some (a, b) \<Longrightarrow> xs = a @ c # b \<and> c \<notin> set a"
proof (induction xs arbitrary: a)
  case (Cons x xs)
  show ?case
  proof (cases "x = c")
    case True
    then show ?thesis using Cons.prems by simp
  next
    case False
    then obtain a' where "cut_at c xs = Some (a', b)" "a = x # a'"
      using Cons.prems by (auto split: option.splits)
    then show ?thesis using Cons.IH [of a'] False by simp
  qed
qed simp

lemma cut_at_Some_iff: "cut_at c xs = Some (a, b) \<longleftrightarrow> xs = a @ c # b \<and> c \<notin> set a"
  using cut_at_Some_D cut_at_append by metis

lemma cut_at_None_iff: "cut_at c xs = None \<longleftrightarrow> c \<notin> set xs"
  by (induction xs) (auto split: option.splits)

lemma TrimPrefix_append [simp]: "TrimPrefix (p @ s) p = s"
  by (simp add: TrimPrefix_def)

lemma nat_digits_nonempty [simp]: "nat_digits n \<noteq> []"
  by (subst nat_digits.simps) simp

section \<open>Occurrences of a needle\<close>

text \<open>
  \<open>sublist nd out\<close> of the library says that \<open>nd\<close> occurs in \<open>out\<close>; \<open>index_of\<close> finds the
  first occurrence. \<open>occ nd out\<close> counts the positions at which \<open>nd\<close> occurs.
\<close>

fun occ :: "'a list \<Rightarrow> 'a list \<Rightarrow> nat" where
  "occ nd [] = 0"
| "occ nd (x # xs) = (if prefix nd (x # xs) then 1 else 0) + occ nd xs"

lemma index_of_None_iff: "index_of xs nd = None \<longleftrightarrow> \<not> sublist nd xs"
  by (induction xs) (auto simp: sublist_Cons_right)

lemma index_of_Some_D:
  "index_of xs nd = Some i \<Longrightarrow>
    xs = take i xs @ nd @ drop (i + length nd) xs \<and> i + length nd \<le> length xs"
proof (induction xs arbitrary: i)
  case (Cons x xs)
  show ?case
  proof (cases "prefix nd (x # xs)")
    case True
    with Cons.prems have "i = 0" by simp
    moreover from True obtain zs where "x # xs = nd @ zs" by (auto simp: prefix_def)
    ultimately show ?thesis by simp
  next
    case False
    with Cons.prems obtain k where k: "index_of xs nd = Some k" "i = Suc k" by auto
    then show ?thesis using Cons.IH by simp
  qed
qed (simp split: if_splits)

lemma sublist_pos: "nd \<noteq> [] \<Longrightarrow> sublist nd xs \<longleftrightarrow> 0 < occ nd xs"
  by (induction xs) (auto simp: sublist_Cons_right)

lemma prefix_barrier:
  "c \<notin> set nd \<Longrightarrow> prefix nd (a @ c # b) \<longleftrightarrow> prefix nd a"
proof (induction a arbitrary: nd)
  case Nil
  then show ?case by (cases nd) auto
next
  case (Cons x a)
  then show ?case by (cases nd) auto
qed

lemma occ_barrier [barrier]:
  "c \<notin> set nd \<Longrightarrow> nd \<noteq> [] \<Longrightarrow> occ nd (a @ c # b) = occ nd a + occ nd b"
proof (induction a)
  case Nil
  then show ?case by (cases nd) auto
next
  case (Cons x a)
  moreover have "prefix nd (x # a @ c # b) \<longleftrightarrow> prefix nd (x # a)"
    using prefix_barrier [of c nd "x # a" b] Cons.prems by simp
  ultimately show ?case by simp
qed

lemma sublist_barrier [barrier]:
  "c \<notin> set nd \<Longrightarrow> nd \<noteq> [] \<Longrightarrow> sublist nd (a @ c # b) \<longleftrightarrow> sublist nd a \<or> sublist nd b"
  by (simp add: sublist_pos occ_barrier)

lemma occ_append_ge: "occ nd xs + occ nd ys \<le> occ nd (xs @ ys)"
proof (induction xs)
  case (Cons x xs)
  have "prefix nd (x # xs) \<Longrightarrow> prefix nd (x # xs @ ys)"
    using prefix_prefix [of nd "x # xs" ys] by simp
  then show ?case using Cons.IH by auto
qed simp

lemma occ_self: "nd \<noteq> [] \<Longrightarrow> 0 < occ nd (nd @ ys)"
  by (simp flip: sublist_pos)

lemma occ_split_less:
  assumes "nd \<noteq> []"
  shows "occ nd pre + occ nd post < occ nd (pre @ nd @ post)"
proof -
  obtain x xs where nd: "nd = x # xs" using assms by (cases nd) auto
  have "Suc (occ nd post) \<le> occ nd (nd @ post)"
    using occ_append_ge [of nd xs post] by (auto simp: nd)
  then show ?thesis
    using occ_append_ge [of nd pre "nd @ post"] by simp
qed

end
