(* ===== verification/Encoding.thy ===== *)
theory Encoding
  imports Prelude
begin

text \<open>
  The codecs of the Go standard library that the sources call: \<open>encoding/base64\<close> with its
  standard and URL alphabets, padded and raw, \<open>encoding/hex\<close>, and the decoding of UTF-8
  (\<open>unicode/utf8\<close>). \<open>pkg/protocol/protocol.go\<close> adds \<open>b64\<close> and \<open>b64decode\<close>, the base64url
  form of RFC 7515 that tolerates padding on input.

  The lemmas show that every codec decodes what it encodes, and which characters an
  encoding can contain; the redaction theory needs the second to know that no encoding of
  a secret overlaps the placeholder that replaces it.
\<close>

section \<open>Base64\<close>

datatype base64 = StdEncoding | RawStdEncoding | URLEncoding | RawURLEncoding

fun b64_is_url :: "base64 \<Rightarrow> bool" where
  "b64_is_url e = (e = URLEncoding \<or> e = RawURLEncoding)"

fun b64_padded :: "base64 \<Rightarrow> bool" where
  "b64_padded e = (e = StdEncoding \<or> e = URLEncoding)"

definition b64_char :: "bool \<Rightarrow> nat \<Rightarrow> char" where
  "b64_char url n =
     (if n < 26 then char_of (65 + n)
      else if n < 52 then char_of (71 + n)
      else if n < 62 then char_of (n - 4)
      else if n = 62 then (if url then CHR ''-'' else CHR ''+'')
      else (if url then CHR ''_'' else CHR ''/''))"

definition b64_val :: "bool \<Rightarrow> char \<Rightarrow> nat option" where
  "b64_val url c =
     (if is_upper c then Some (byte c - 65)
      else if is_lower c then Some (byte c - 71)
      else if is_digit c then Some (byte c + 4)
      else if c = (if url then CHR ''-'' else CHR ''+'') then Some 62
      else if c = (if url then CHR ''_'' else CHR ''/'') then Some 63
      else None)"

fun b64_encode_groups :: "bool \<Rightarrow> bool \<Rightarrow> bytes \<Rightarrow> string" where
  "b64_encode_groups url pad [] = []"
| "b64_encode_groups url pad [a] =
     [b64_char url (byte a div 4), b64_char url (byte a mod 4 * 16)]
       @ (if pad then ''=='' else [])"
| "b64_encode_groups url pad [a, b] =
     [b64_char url (byte a div 4), b64_char url (byte a mod 4 * 16 + byte b div 16),
      b64_char url (byte b mod 16 * 4)] @ (if pad then ''='' else [])"
| "b64_encode_groups url pad (a # b # c # r) =
     [b64_char url (byte a div 4), b64_char url (byte a mod 4 * 16 + byte b div 16),
      b64_char url (byte b mod 16 * 4 + byte c div 64), b64_char url (byte c mod 64)]
       @ b64_encode_groups url pad r"

definition EncodeToString :: "base64 \<Rightarrow> bytes \<Rightarrow> string" where
  "EncodeToString e b = b64_encode_groups (b64_is_url e) (b64_padded e) b"

text \<open>
  Decoding skips carriage returns and newlines, accepts padding only at the end of a padded
  form, and does not check that the unused bits of the last character are zero (the
  library's default, not its strict mode).
\<close>

definition b64_bytes2 :: "nat \<Rightarrow> nat \<Rightarrow> bytes" where
  "b64_bytes2 v w = [char_of (v * 4 + w div 16)]"

definition b64_bytes3 :: "nat \<Rightarrow> nat \<Rightarrow> nat \<Rightarrow> bytes" where
  "b64_bytes3 v w x = [char_of (v * 4 + w div 16), char_of (w mod 16 * 16 + x div 4)]"

definition b64_bytes4 :: "nat \<Rightarrow> nat \<Rightarrow> nat \<Rightarrow> nat \<Rightarrow> bytes" where
  "b64_bytes4 v w x y =
     [char_of (v * 4 + w div 16), char_of (w mod 16 * 16 + x div 4), char_of (x mod 4 * 64 + y)]"

definition b64_group2 :: "bool \<Rightarrow> char \<Rightarrow> char \<Rightarrow> bytes option" where
  "b64_group2 url a b =
     (case (b64_val url a, b64_val url b) of
        (Some v, Some w) \<Rightarrow> Some (b64_bytes2 v w) | _ \<Rightarrow> None)"

definition b64_group3 :: "bool \<Rightarrow> char \<Rightarrow> char \<Rightarrow> char \<Rightarrow> bytes option" where
  "b64_group3 url a b c =
     (case (b64_val url a, b64_val url b, b64_val url c) of
        (Some v, Some w, Some x) \<Rightarrow> Some (b64_bytes3 v w x) | _ \<Rightarrow> None)"

definition b64_group4 :: "bool \<Rightarrow> char \<Rightarrow> char \<Rightarrow> char \<Rightarrow> char \<Rightarrow> bytes option" where
  "b64_group4 url a b c d =
     (case (b64_val url a, b64_val url b, b64_val url c, b64_val url d) of
        (Some v, Some w, Some x, Some y) \<Rightarrow> Some (b64_bytes4 v w x y) | _ \<Rightarrow> None)"

fun b64_decode_groups :: "bool \<Rightarrow> bool \<Rightarrow> string \<Rightarrow> bytes option" where
  "b64_decode_groups url pad [] = Some []"
| "b64_decode_groups url pad [a] = None"
| "b64_decode_groups url pad [a, b] = (if pad then None else b64_group2 url a b)"
| "b64_decode_groups url pad [a, b, c] = (if pad then None else b64_group3 url a b c)"
| "b64_decode_groups url pad (a # b # c # d # r) =
     (if pad \<and> r = [] \<and> c = CHR ''='' \<and> d = CHR ''='' then b64_group2 url a b
      else if pad \<and> r = [] \<and> d = CHR ''='' then b64_group3 url a b c
      else (case b64_group4 url a b c d of
              None \<Rightarrow> None
            | Some xs \<Rightarrow>
                (case b64_decode_groups url pad r of
                   None \<Rightarrow> None | Some ys \<Rightarrow> Some (xs @ ys))))"

definition is_crlf :: "char \<Rightarrow> bool" where
  "is_crlf c \<longleftrightarrow> c = CHR 0x0D \<or> c = CHR 0x0A"

definition DecodeString :: "base64 \<Rightarrow> string \<Rightarrow> bytes option" where
  "DecodeString e s =
     b64_decode_groups (b64_is_url e) (b64_padded e) (filter (\<lambda>c. \<not> is_crlf c) s)"

subsection \<open>protocol.go: b64 and b64decode\<close>

definition b64 :: "bytes \<Rightarrow> string" where
  "b64 b = EncodeToString RawURLEncoding b"

definition b64decode :: "string \<Rightarrow> bytes option" where
  "b64decode s =
     (case DecodeString RawURLEncoding s of
        Some b \<Rightarrow> Some b
      | None \<Rightarrow> DecodeString URLEncoding s)"

section \<open>Hexadecimal\<close>

definition hex_digit :: "nat \<Rightarrow> char" where
  "hex_digit n = (if n < 10 then char_of (48 + n) else char_of (87 + n))"

definition HEX_digit :: "nat \<Rightarrow> char" where
  "HEX_digit n = (if n < 10 then char_of (48 + n) else char_of (55 + n))"

definition hex_val :: "char \<Rightarrow> nat option" where
  "hex_val c =
     (if is_digit c then Some (byte c - 48)
      else if 97 \<le> byte c \<and> byte c \<le> 102 then Some (byte c - 87)
      else if 65 \<le> byte c \<and> byte c \<le> 70 then Some (byte c - 55)
      else None)"

definition hex_EncodeToString :: "bytes \<Rightarrow> string" where
  "hex_EncodeToString b = concat (map (\<lambda>c. [hex_digit (byte c div 16), hex_digit (byte c mod 16)]) b)"

fun hex_DecodeString :: "string \<Rightarrow> bytes option" where
  "hex_DecodeString [] = Some []"
| "hex_DecodeString [a] = None"
| "hex_DecodeString (a # b # r) =
     (case (hex_val a, hex_val b, hex_DecodeString r) of
        (Some v, Some w, Some ys) \<Rightarrow> Some (char_of (v * 16 + w) # ys) | _ \<Rightarrow> None)"

section \<open>UTF-8\<close>

text \<open>
  \<open>utf8.DecodeRune\<close>: the code point at the head and the number of bytes it takes, or
  \<open>None\<close> for an invalid encoding (overlong forms, surrogates and values beyond 0x10FFFF
  are invalid).
\<close>

definition is_cont :: "char \<Rightarrow> bool" where
  "is_cont c \<longleftrightarrow> 128 \<le> byte c \<and> byte c \<le> 191"

definition second_ok :: "nat \<Rightarrow> char \<Rightarrow> bool" where
  "second_ok b0 c \<longleftrightarrow>
     (if b0 = 224 then 160 \<le> byte c \<and> byte c \<le> 191
      else if b0 = 237 then 128 \<le> byte c \<and> byte c \<le> 159
      else if b0 = 240 then 144 \<le> byte c \<and> byte c \<le> 191
      else if b0 = 244 then 128 \<le> byte c \<and> byte c \<le> 143
      else is_cont c)"

fun decode_rune :: "string \<Rightarrow> (nat \<times> nat) option" where
  "decode_rune [] = None"
| "decode_rune (c # r) =
     (let b0 = byte c in
      if b0 < 128 then Some (b0, 1)
      else if 194 \<le> b0 \<and> b0 \<le> 223 then
        (case r of d # _ \<Rightarrow>
           if second_ok b0 d then Some ((b0 - 192) * 64 + (byte d - 128), 2) else None
         | _ \<Rightarrow> None)
      else if 224 \<le> b0 \<and> b0 \<le> 239 then
        (case r of d # e # _ \<Rightarrow>
           if second_ok b0 d \<and> is_cont e
           then Some ((b0 - 224) * 4096 + (byte d - 128) * 64 + (byte e - 128), 3) else None
         | _ \<Rightarrow> None)
      else if 240 \<le> b0 \<and> b0 \<le> 244 then
        (case r of d # e # f # _ \<Rightarrow>
           if second_ok b0 d \<and> is_cont e \<and> is_cont f
           then Some ((b0 - 240) * 262144 + (byte d - 128) * 4096 + (byte e - 128) * 64
                        + (byte f - 128), 4) else None
         | _ \<Rightarrow> None)
      else None)"

lemma decode_rune_size: "decode_rune s = Some (r, n) \<Longrightarrow> 0 < n \<and> n \<le> length s"
  by (cases s) (auto simp: Let_def split: if_splits list.splits)

text \<open>\<open>utf8.Valid\<close>.\<close>

function utf8_Valid :: "string \<Rightarrow> bool" where
  "utf8_Valid s =
     (if s = [] then True
      else (case decode_rune s of None \<Rightarrow> False | Some (r, n) \<Rightarrow> utf8_Valid (drop n s)))"
  by pat_completeness auto
termination
  by (relation "measure length") (auto dest: decode_rune_size)

declare utf8_Valid.simps [simp del]

section \<open>Lemmas: round trips and alphabets\<close>

lemma byte_eq_iff: "c = d \<longleftrightarrow> byte c = byte d"
  by (metis char_of_char)

lemma byte_char_of [simp]: "n < 256 \<Longrightarrow> byte (char_of n) = n"
  by (simp add: of_char_of)

lemma char_of_eq_iff: "n < 256 \<Longrightarrow> char_of n = c \<longleftrightarrow> n = byte c"
  by auto

lemma b64_val_char: "n < 64 \<Longrightarrow> b64_val url (b64_char url n) = Some n"
proof -
  assume n: "n < 64"
  consider "n < 26" | "26 \<le> n" "n < 52" | "52 \<le> n" "n < 62" | "n = 62" | "n = 63"
    using n by linarith
  then show ?thesis
    by cases (auto simp: b64_val_def b64_char_def char_class_defs)
qed

lemma b64_char_not_pad: "n < 64 \<Longrightarrow> b64_char url n \<noteq> CHR ''=''"
  by (auto simp: b64_char_def char_of_eq_iff)

lemma b64_char_not_crlf: "n < 64 \<Longrightarrow> \<not> is_crlf (b64_char url n)"
  by (auto simp: b64_char_def is_crlf_def char_of_eq_iff)

lemma sextets:
  "byte a div 4 < 64" "byte a mod 4 * 16 < 64" "byte a mod 4 * 16 + byte b div 16 < 64"
  "byte b mod 16 * 4 < 64" "byte b mod 16 * 4 + byte c div 64 < 64" "byte c mod 64 < 64"
proof -
  have "byte a < 256" "byte b < 256" "byte c < 256" by simp_all
  then show "byte a div 4 < 64" "byte a mod 4 * 16 < 64"
    "byte a mod 4 * 16 + byte b div 16 < 64" "byte b mod 16 * 4 < 64"
    "byte b mod 16 * 4 + byte c div 64 < 64" "byte c mod 64 < 64"
    by linarith+
qed

lemma b64_group2_encode:
  "b64_group2 url (b64_char url (byte a div 4)) (b64_char url (byte a mod 4 * 16)) = Some [a]"
  by (simp add: b64_group2_def b64_val_char sextets b64_bytes2_def)

lemma b64_group3_encode:
  "b64_group3 url (b64_char url (byte a div 4))
     (b64_char url (byte a mod 4 * 16 + byte b div 16)) (b64_char url (byte b mod 16 * 4))
   = Some [a, b]"
proof -
  have "byte b div 16 < 16" using nat_of_char_less_256 [of b] by linarith
  then have "(byte a mod 4 * 16 + byte b div 16) div 16 = byte a mod 4"
    "(byte a mod 4 * 16 + byte b div 16) mod 16 = byte b div 16"
    by simp_all
  moreover have "byte b div 16 * 16 + byte b mod 16 * 4 div 4 = byte b" by simp
  ultimately show ?thesis
    by (simp add: b64_group3_def b64_val_char sextets b64_bytes3_def)
qed

lemma b64_group4_encode:
  "b64_group4 url (b64_char url (byte a div 4))
     (b64_char url (byte a mod 4 * 16 + byte b div 16))
     (b64_char url (byte b mod 16 * 4 + byte c div 64)) (b64_char url (byte c mod 64))
   = Some [a, b, c]"
proof -
  have "byte b div 16 < 16" "byte c div 64 < 4"
    using nat_of_char_less_256 [of b] nat_of_char_less_256 [of c] by linarith+
  then have "(byte a mod 4 * 16 + byte b div 16) div 16 = byte a mod 4"
    "(byte a mod 4 * 16 + byte b div 16) mod 16 = byte b div 16"
    "(byte b mod 16 * 4 + byte c div 64) div 4 = byte b mod 16"
    "(byte b mod 16 * 4 + byte c div 64) mod 4 = byte c div 64"
    by simp_all
  then show ?thesis
    by (simp add: b64_group4_def b64_val_char sextets b64_bytes4_def)
qed

lemmas b64_char_facts = b64_char_not_pad b64_char_not_crlf sextets

lemma b64_decode_groups_encode:
  "b64_decode_groups url pad (b64_encode_groups url pad b) = Some b"
proof (induction url pad b rule: b64_encode_groups.induct)
  case (4 url pad a b c r)
  then show ?case
    by (simp add: b64_char_facts b64_group4_encode)
qed (simp_all add: b64_char_facts b64_group2_encode b64_group3_encode)

lemma set_b64_encode_groups:
  "set (b64_encode_groups url pad b) \<subseteq> b64_char url ` {0..<64} \<union> (if pad then {CHR ''=''} else {})"
  by (induction url pad b rule: b64_encode_groups.induct) (auto simp: sextets)

lemma filter_crlf_encode:
  "filter (\<lambda>c. \<not> is_crlf c) (b64_encode_groups url pad b) = b64_encode_groups url pad b"
  by (induction url pad b rule: b64_encode_groups.induct)
    (auto simp: b64_char_facts, auto simp: is_crlf_def)

lemma DecodeString_EncodeToString [simp]: "DecodeString e (EncodeToString e b) = Some b"
  by (simp add: DecodeString_def EncodeToString_def filter_crlf_encode b64_decode_groups_encode)

lemma b64decode_b64 [simp]: "b64decode (b64 b) = Some b"
  by (simp add: b64decode_def b64_def)

definition b64_safe_char :: "char \<Rightarrow> bool" where
  "b64_safe_char c \<longleftrightarrow> is_alnum c \<or> c \<in> {CHR ''-'', CHR ''_'', CHR ''+'', CHR ''/'', CHR ''=''}"

lemma b64_char_safe: "n < 64 \<Longrightarrow> b64_safe_char (b64_char url n)"
  by (auto simp: b64_safe_char_def b64_char_def char_class_defs)

lemma EncodeToString_chars: "c \<in> set (EncodeToString e b) \<Longrightarrow> b64_safe_char c"
proof -
  assume "c \<in> set (EncodeToString e b)"
  then have "c \<in> b64_char (b64_is_url e) ` {0..<64} \<or> c = CHR ''=''"
    using set_b64_encode_groups [of "b64_is_url e" "b64_padded e" b]
    by (auto simp: EncodeToString_def split: if_splits)
  then show ?thesis
    using b64_char_safe by (auto simp: b64_safe_char_def [of "CHR ''=''"])
qed

lemma length_b64_encode_groups:
  "length b + length b div 3 \<le> length (b64_encode_groups url pad b)"
  by (induction url pad b rule: b64_encode_groups.induct) auto

lemma length_EncodeToString: "length b + length b div 3 \<le> length (EncodeToString e b)"
  by (simp add: EncodeToString_def length_b64_encode_groups)

lemma hex_val_digit: "n < 16 \<Longrightarrow> hex_val (hex_digit n) = Some n"
proof -
  assume "n < 16"
  then consider "n < 10" | "10 \<le> n" "n < 16" by linarith
  then show ?thesis by cases (auto simp: hex_val_def hex_digit_def is_digit_def)
qed

lemma hex_roundtrip [simp]: "hex_DecodeString (hex_EncodeToString b) = Some b"
proof (induction b)
  case (Cons c b)
  have "byte c div 16 < 16" "byte c mod 16 < 16"
    using nat_of_char_less_256 [of c] by linarith+
  then show ?case
    using Cons.IH by (simp add: hex_EncodeToString_def hex_val_digit)
qed (simp add: hex_EncodeToString_def)

lemma length_hex: "length (hex_EncodeToString b) = 2 * length b"
  by (induction b) (auto simp: hex_EncodeToString_def)

lemma hex_digit_alnum: "n < 16 \<Longrightarrow> is_alnum (hex_digit n)"
  by (cases "n < 10") (auto simp: hex_digit_def char_class_defs)

lemma hex_chars: "c \<in> set (hex_EncodeToString b) \<Longrightarrow> is_alnum c"
proof -
  assume "c \<in> set (hex_EncodeToString b)"
  then obtain x where c: "c = hex_digit (byte x div 16) \<or> c = hex_digit (byte x mod 16)"
    by (auto simp: hex_EncodeToString_def)
  have "byte x div 16 < 16" "byte x mod 16 < 16"
    using nat_of_char_less_256 [of x] by linarith+
  then show ?thesis using c hex_digit_alnum by auto
qed

lemma utf8_ascii: "(\<And>c. c \<in> set s \<Longrightarrow> byte c < 128) \<Longrightarrow> utf8_Valid s"
  by (induction s) (auto simp: utf8_Valid.simps [of "_ # _"] utf8_Valid.simps [of "[]"])

end
