(* ===== verification/Redact.thy ===== *)
theory Redact
  imports Encoding
begin

text \<open>
  \<open>pkg/redact/redact.go\<close>: the scanner that removes every rendering of a resolved secret
  from the output a sidecar relays. The definitions follow the file: the match set built
  by \<open>New\<close>, the literal pass, the pass over the whitespace-elided view, and \<open>Scan\<close>, which
  runs both.

  The two replacement loops of the Go code search again from the start after every
  replacement. Whether they end depends on the needle: they are partial functions into
  \<open>option\<close>, \<open>None\<close> meaning that the loop never returns. The lemmas show when they return
  (no needle overlaps the placeholder), what they then compute (the same as
  \<open>strings.ReplaceAll\<close>), that a whole scan leaves none of its needles in the output or in
  its elided view, and that a value which occurs in the placeholder makes the scan
  diverge.
\<close>

section \<open>Types\<close>

definition Placeholder :: string where
  "Placeholder = ''[REDACTED:safekeys]''"

definition minSubstringLen :: nat where
  "minSubstringLen = 8"

record report =
  Matches :: nat
  Encodings :: "string list"

definition Redacted :: "report \<Rightarrow> bool" where
  "Redacted r \<longleftrightarrow> Matches r > 0"

record needle =
  nd_b :: bytes
  nd_encoding :: string

record scanner =
  needles :: "needle list"
  jsonEscaped :: string
  rawJSONEscapable :: bool
  valueLen :: nat

section \<open>Renderings of a value\<close>

definition unreserved :: "char \<Rightarrow> bool" where
  "unreserved c \<longleftrightarrow> is_alnum c \<or> c = CHR ''-'' \<or> c = CHR ''_'' \<or> c = CHR ''.'' \<or> c = CHR ''~''"

definition percentEncode :: "bytes \<Rightarrow> string" where
  "percentEncode v =
     concat (map (\<lambda>c. if unreserved c then [c]
                      else [CHR ''%'', HEX_digit (byte c div 16), HEX_digit (byte c mod 16)]) v)"

definition json_escape_byte :: "char \<Rightarrow> string" where
  "json_escape_byte c =
     (if c = CHR 0x22 then [CHR 0x5C, CHR 0x22]
      else if c = CHR 0x5C then [CHR 0x5C, CHR 0x5C]
      else if c = CHR 0x0A then [CHR 0x5C, CHR ''n'']
      else if c = CHR 0x0D then [CHR 0x5C, CHR ''r'']
      else if c = CHR 0x09 then [CHR 0x5C, CHR ''t'']
      else if c = CHR 0x08 then [CHR 0x5C, CHR ''b'']
      else if c = CHR 0x0C then [CHR 0x5C, CHR ''f'']
      else if byte c < 32 then
        [CHR 0x5C, CHR ''u'', CHR ''0'', CHR ''0'', hex_digit (byte c div 16), hex_digit (byte c mod 16)]
      else [c])"

definition jsonEscape :: "bytes \<Rightarrow> string" where
  "jsonEscape v = concat (map json_escape_byte v)"

definition json_plain :: "char \<Rightarrow> bool" where
  "json_plain c \<longleftrightarrow> \<not> (byte c < 32 \<or> c = CHR 0x22 \<or> c = CHR 0x5C)"

definition jsonVerbatim :: "bytes \<Rightarrow> bool" where
  "jsonVerbatim v \<longleftrightarrow> utf8_Valid v \<and> list_all json_plain v"

text \<open>The substrings of at least \<open>minSubstringLen\<close> bytes, longest first.\<close>

definition windows :: "nat \<Rightarrow> bytes \<Rightarrow> bytes list" where
  "windows l v = map (\<lambda>i. take l (drop i v)) [0..<Suc (length v) - l]"

definition substrings :: "bytes \<Rightarrow> bytes list" where
  "substrings v =
     (if v = [] then []
      else if length v < minSubstringLen then [v]
      else concat (map (\<lambda>l. windows l v) (rev [minSubstringLen..<Suc (length v)])))"

section \<open>New\<close>

definition encoded_forms :: "bytes \<Rightarrow> needle list" where
  "encoded_forms v =
     [\<lparr>nd_b = EncodeToString StdEncoding v, nd_encoding = ''base64''\<rparr>,
      \<lparr>nd_b = EncodeToString URLEncoding v, nd_encoding = ''base64url''\<rparr>,
      \<lparr>nd_b = EncodeToString RawURLEncoding v, nd_encoding = ''base64url''\<rparr>,
      \<lparr>nd_b = hex_EncodeToString v, nd_encoding = ''hex''\<rparr>,
      \<lparr>nd_b = hex_EncodeToString v, nd_encoding = ''hex''\<rparr>,
      \<lparr>nd_b = map to_upper (hex_EncodeToString v), nd_encoding = ''hex''\<rparr>,
      \<lparr>nd_b = percentEncode v, nd_encoding = ''percent''\<rparr>]"

definition encoded_sub :: "bytes \<Rightarrow> needle list" where
  "encoded_sub sub =
     [\<lparr>nd_b = EncodeToString StdEncoding sub, nd_encoding = ''base64''\<rparr>,
      \<lparr>nd_b = EncodeToString URLEncoding sub, nd_encoding = ''base64url''\<rparr>,
      \<lparr>nd_b = EncodeToString RawURLEncoding sub, nd_encoding = ''base64url''\<rparr>,
      \<lparr>nd_b = hex_EncodeToString sub, nd_encoding = ''hex''\<rparr>,
      \<lparr>nd_b = map to_upper (hex_EncodeToString sub), nd_encoding = ''hex''\<rparr>,
      \<lparr>nd_b = percentEncode sub, nd_encoding = ''percent''\<rparr>]"

definition json_forms :: "bytes \<Rightarrow> needle list" where
  "json_forms v =
     (if jsonVerbatim v then []
      else \<lparr>nd_b = jsonEscape v, nd_encoding = ''json''\<rparr>
           # map (\<lambda>sub. \<lparr>nd_b = jsonEscape sub, nd_encoding = ''json''\<rparr>)
               (filter (\<lambda>sub. \<not> jsonVerbatim sub) (substrings v)))"

text \<open>\<open>New\<close>; the closure \<open>add\<close> of the source drops empty needles.\<close>

definition New :: "bytes \<Rightarrow> scanner" where
  "New v =
     (if v = [] then \<lparr>needles = [], jsonEscaped = [], rawJSONEscapable = False, valueLen = 0\<rparr>
      else
        \<lparr>needles = filter (\<lambda>nd. nd_b nd \<noteq> [])
           (map (\<lambda>sub. \<lparr>nd_b = sub, nd_encoding = ''raw''\<rparr>) (substrings v)
            @ encoded_forms v
            @ concat (map encoded_sub (substrings v))
            @ json_forms v),
         jsonEscaped = jsonEscape v,
         rawJSONEscapable = jsonVerbatim v,
         valueLen = length v\<rparr>)"

section \<open>Scan\<close>

text \<open>\<open>note\<close>: an encoding class is recorded once, in the order of its first match.\<close>

definition note_encoding :: "string \<Rightarrow> report \<Rightarrow> report" where
  "note_encoding enc r =
     (if enc \<in> set (Encodings r) then r else r\<lparr>Encodings := Encodings r @ [enc]\<rparr>)"

definition replaceRange :: "bytes \<Rightarrow> nat \<Rightarrow> nat \<Rightarrow> bytes \<Rightarrow> bytes" where
  "replaceRange out a b repl = take a out @ repl @ drop b out"

definition matched :: "string \<Rightarrow> report \<Rightarrow> report" where
  "matched enc r = note_encoding enc (r\<lparr>Matches := Matches r + 1\<rparr>)"

type_synonym lit_state = "bytes \<times> report \<times> nat"

partial_function (option) literal_loop :: "bytes \<Rightarrow> string \<Rightarrow> lit_state \<Rightarrow> lit_state option" where
  "literal_loop nd enc st =
     (case st of (out, rep, tot) \<Rightarrow>
        (case index_of out nd of
           None \<Rightarrow> Some (out, rep, tot)
         | Some idx \<Rightarrow>
             literal_loop nd enc
               (replaceRange out idx (idx + length nd) Placeholder, matched enc rep, tot + 1)))"

text \<open>Both passes visit the needles in order; a pass may skip some.\<close>

fun run_needles :: "(bytes \<Rightarrow> string \<Rightarrow> 's \<Rightarrow> 's option) \<Rightarrow> (needle \<Rightarrow> bool) \<Rightarrow> needle list \<Rightarrow> 's \<Rightarrow> 's option"
where
  "run_needles loop skip [] st = Some st"
| "run_needles loop skip (nd # nds) st =
     (if skip nd then run_needles loop skip nds st
      else (case loop (nd_b nd) (nd_encoding nd) st of
              None \<Rightarrow> None
            | Some st' \<Rightarrow> run_needles loop skip nds st'))"

definition scanLiteral :: "scanner \<Rightarrow> bytes \<Rightarrow> report \<Rightarrow> lit_state option" where
  "scanLiteral s out rep =
     (case run_needles literal_loop (\<lambda>_. False) (needles s) (out, rep, 0) of
        None \<Rightarrow> None
      | Some st \<Rightarrow>
          if jsonEscaped s \<noteq> [] \<and> \<not> rawJSONEscapable s
          then literal_loop (jsonEscaped s) ''json'' st
          else Some st)"

definition is_ws :: "char \<Rightarrow> bool" where
  "is_ws c \<longleftrightarrow> c = CHR 0x0D \<or> c = CHR 0x0A \<or> c = CHR 0x09 \<or> c = CHR 0x20"

text \<open>\<open>elide\<close>: the bytes that are not whitespace, and the index each came from.\<close>

fun elide_from :: "nat \<Rightarrow> bytes \<Rightarrow> bytes \<times> nat list" where
  "elide_from i [] = ([], [])"
| "elide_from i (c # cs) =
     (case elide_from (Suc i) cs of
        (norm, origs) \<Rightarrow> if is_ws c then (norm, origs) else (c # norm, i # origs))"

definition elide :: "bytes \<Rightarrow> bytes \<times> nat list" where
  "elide out = elide_from 0 out"

type_synonym split_state = "bytes \<times> bytes \<times> nat list \<times> report \<times> nat"

text \<open>One replacement of the split pass: the span of the original that the match covers.\<close>

definition split_replace :: "bytes \<Rightarrow> nat list \<Rightarrow> nat \<Rightarrow> nat \<Rightarrow> bytes" where
  "split_replace out origs idx n =
     (let start = origs ! idx;
          endIdx = idx + n - 1;
          stop = (if endIdx + 1 < length origs then origs ! (endIdx + 1) else length out)
      in replaceRange out start stop Placeholder)"

partial_function (option) split_loop :: "bytes \<Rightarrow> string \<Rightarrow> split_state \<Rightarrow> split_state option" where
  "split_loop nd enc st =
     (case st of (out, norm, origs, rep, tot) \<Rightarrow>
        (case index_of norm nd of
           None \<Rightarrow> Some (out, norm, origs, rep, tot)
         | Some idx \<Rightarrow>
             split_loop nd enc
               (split_replace out origs idx (length nd),
                fst (elide (split_replace out origs idx (length nd))),
                snd (elide (split_replace out origs idx (length nd))),
                matched enc rep, tot + 1)))"

definition scanSplit :: "scanner \<Rightarrow> bytes \<Rightarrow> report \<Rightarrow> (bytes \<times> report \<times> nat) option" where
  "scanSplit s out rep =
     (case run_needles split_loop (\<lambda>nd. length (nd_b nd) < 8) (needles s)
             (out, fst (elide out), snd (elide out), rep, 0) of
        None \<Rightarrow> None
      | Some (out', _, _, rep', tot) \<Rightarrow> Some (out', rep', tot))"

definition Scan :: "scanner \<Rightarrow> bytes \<Rightarrow> (bytes \<times> report) option" where
  "Scan s out =
     (let rep = \<lparr>Matches = 0, Encodings = []\<rparr> in
      if out = [] \<or> needles s = [] then Some (out, rep)
      else (case scanLiteral s out rep of
              None \<Rightarrow> None
            | Some (out1, rep1, n) \<Rightarrow>
                (case scanSplit s out1 rep1 of
                   None \<Rightarrow> None
                 | Some (out2, rep2, n2) \<Rightarrow>
                     Some (out2, rep2\<lparr>Matches := Matches rep2 + n2\<rparr>))))"

declare literal_loop.simps [code] split_loop.simps [code]

section \<open>Needles that do not overlap the placeholder\<close>

text \<open>
  The placeholder is delimited by two brackets. A needle without brackets that does not
  occur between them can neither lie inside a placeholder nor overlap one.
\<close>

definition ph_interior :: string where
  "ph_interior = ''REDACTED:safekeys''"

definition ph_safe :: "bytes \<Rightarrow> bool" where
  "ph_safe nd \<longleftrightarrow>
     nd \<noteq> [] \<and> CHR ''['' \<notin> set nd \<and> CHR '']'' \<notin> set nd \<and> \<not> sublist nd ph_interior"

definition scanner_safe :: "scanner \<Rightarrow> bool" where
  "scanner_safe s \<longleftrightarrow> (\<forall>nd \<in> set (needles s). ph_safe (nd_b nd))"

lemma Placeholder_eq: "Placeholder = CHR ''['' # ph_interior @ [CHR '']'']"
  by (simp add: Placeholder_def ph_interior_def)

lemma occ_placeholder [barrier]:
  "ph_safe nd \<Longrightarrow> occ nd (a @ Placeholder @ b) = occ nd a + occ nd b"
proof -
  assume nd: "ph_safe nd"
  have "occ nd (a @ Placeholder @ b) = occ nd a + occ nd (ph_interior @ CHR '']'' # b)"
    using nd occ_barrier [of "CHR ''[''" nd a "ph_interior @ CHR '']'' # b"]
    by (simp add: Placeholder_eq ph_safe_def)
  also have "\<dots> = occ nd a + (occ nd ph_interior + occ nd b)"
    using nd occ_barrier [of "CHR '']''" nd ph_interior b] by (simp add: ph_safe_def)
  also have "occ nd ph_interior = 0"
    using nd sublist_pos [of nd ph_interior] by (simp add: ph_safe_def)
  finally show ?thesis by simp
qed

lemma sublist_placeholder [barrier]:
  "ph_safe nd \<Longrightarrow> sublist nd (a @ Placeholder @ b) \<longleftrightarrow> sublist nd a \<or> sublist nd b"
  using occ_placeholder [of nd a b] sublist_pos [of nd] by (simp add: ph_safe_def)

lemma sublist_replaced:
  assumes "ph_safe nd" and "sublist nd (take i out @ Placeholder @ drop j out)"
  shows "sublist nd out"
  using assms by (metis sublist_placeholder sublist_order.order_trans sublist_take sublist_drop)

lemma index_of_barrier:
  "c \<notin> set nd \<Longrightarrow> nd \<noteq> [] \<Longrightarrow> \<not> sublist nd a \<Longrightarrow>
    index_of (a @ c # b) nd = map_option (\<lambda>j. Suc (length a) + j) (index_of b nd)"
proof (induction a)
  case Nil
  then show ?case by (cases nd) (auto simp: option.map_comp comp_def)
next
  case (Cons x a)
  have "prefix nd (x # a @ c # b) \<longleftrightarrow> prefix nd (x # a)"
    using prefix_barrier [of c nd "x # a" b] Cons.prems by simp
  then show ?case
    using Cons by (simp add: sublist_Cons_right option.map_comp comp_def)
qed

lemma index_of_placeholder:
  assumes nd: "ph_safe nd" and a: "\<not> sublist nd a"
  shows "index_of (a @ Placeholder @ b) nd
    = map_option (\<lambda>j. length a + length Placeholder + j) (index_of b nd)"
proof -
  have "index_of (a @ Placeholder @ b) nd
      = map_option (\<lambda>j. Suc (length a) + j) (index_of (ph_interior @ CHR '']'' # b) nd)"
    using nd a index_of_barrier [of "CHR ''[''" nd a "ph_interior @ CHR '']'' # b"]
    by (simp add: Placeholder_eq ph_safe_def)
  also have "index_of (ph_interior @ CHR '']'' # b) nd
      = map_option (\<lambda>j. Suc (length ph_interior) + j) (index_of b nd)"
    using nd index_of_barrier [of "CHR '']''" nd ph_interior b] by (simp add: ph_safe_def)
  finally show ?thesis
    by (simp add: option.map_comp comp_def Placeholder_eq algebra_simps)
qed

section \<open>The reference: strings.ReplaceAll\<close>

text \<open>Every non-overlapping occurrence, from the left, in one pass over the input.\<close>

function replace_all :: "bytes \<Rightarrow> bytes \<Rightarrow> bytes \<Rightarrow> bytes" where
  "replace_all nd ph xs =
     (case index_of xs nd of
        None \<Rightarrow> xs
      | Some i \<Rightarrow>
          if nd = [] then xs
          else take i xs @ ph @ replace_all nd ph (drop (i + length nd) xs))"
  by pat_completeness auto
termination
proof (relation "measure (\<lambda>(nd, ph, xs). length xs)")
  fix nd ph xs :: bytes and i
  assume "index_of xs nd = Some i" "nd \<noteq> []"
  then show "((nd, ph, drop (i + length nd) xs), nd, ph, xs) \<in> measure (\<lambda>(nd, ph, xs). length xs)"
    using index_of_Some_D [of xs nd i] by (cases nd) auto
qed simp

declare replace_all.simps [simp del]

lemma index_of_first:
  "index_of xs nd = Some i \<Longrightarrow> nd \<noteq> [] \<Longrightarrow> \<not> sublist nd (take i xs)"
proof (induction xs arbitrary: i)
  case (Cons x xs)
  show ?case
  proof (cases "prefix nd (x # xs)")
    case True
    then show ?thesis using Cons.prems by simp
  next
    case False
    then obtain k where k: "index_of xs nd = Some k" "i = Suc k" using Cons.prems by auto
    have "\<not> prefix nd (x # take k xs)"
      using False prefix_order.order_trans [of nd "x # take k xs" "x # xs"]
      by (auto simp: take_is_prefix)
    then show ?thesis using Cons.IH [OF k(1)] Cons.prems k by (simp add: sublist_Cons_right)
  qed
qed (simp split: if_splits)

lemma replace_all_after_placeholder:
  assumes nd: "ph_safe nd" and a: "\<not> sublist nd a"
  shows "replace_all nd Placeholder (a @ Placeholder @ b) = a @ Placeholder @ replace_all nd Placeholder b"
proof (cases "index_of b nd")
  case None
  then show ?thesis
    by (simp add: replace_all.simps [of nd _ "a @ _"] replace_all.simps [of nd _ b]
        index_of_placeholder [OF nd a])
next
  case (Some j)
  have "nd \<noteq> []" using nd by (simp add: ph_safe_def)
  then show ?thesis
    using Some
    by (simp add: replace_all.simps [of nd _ "a @ _"] replace_all.simps [of nd _ b]
        index_of_placeholder [OF nd a] add.assoc)
qed

lemma replace_all_removes:
  "ph_safe nd \<Longrightarrow> \<not> sublist nd (replace_all nd Placeholder xs)"
proof (induction nd Placeholder xs rule: replace_all.induct)
  case (1 nd xs)
  have nd: "nd \<noteq> []" using 1 by (simp add: ph_safe_def)
  show ?case
  proof (cases "index_of xs nd")
    case None
    then have "\<not> sublist nd xs" by (simp add: index_of_None_iff)
    then show ?thesis using None by (simp add: replace_all.simps [of nd _ xs])
  next
    case (Some i)
    then have "\<not> sublist nd (replace_all nd Placeholder (drop (i + length nd) xs))"
      using 1 nd by blast
    then show ?thesis
      using Some nd 1 index_of_first [OF Some nd]
      by (simp add: replace_all.simps [of nd _ xs] sublist_placeholder)
  qed
qed

lemma replace_all_keeps:
  "ph_safe m \<Longrightarrow> sublist m (replace_all nd Placeholder xs) \<Longrightarrow> sublist m xs"
proof (induction nd Placeholder xs rule: replace_all.induct)
  case (1 nd xs)
  show ?case
  proof (cases "index_of xs nd")
    case None
    then show ?thesis using 1 by (simp add: replace_all.simps [of nd _ xs])
  next
    case (Some i)
    show ?thesis
    proof (cases "nd = []")
      case True
      then show ?thesis using 1 Some by (simp add: replace_all.simps [of "[]" _ xs])
    next
      case False
      then have "sublist m (take i xs) \<or> sublist m (drop (i + length nd) xs)"
        using 1 Some by (auto simp: replace_all.simps [of nd _ xs] sublist_placeholder)
      then show ?thesis
        by (metis sublist_order.order_trans sublist_take sublist_drop)
    qed
  qed
qed

section \<open>The literal pass\<close>

lemma occ_replaced_less:
  assumes "ph_safe nd" and "index_of xs nd = Some i"
  shows "occ nd (replaceRange xs i (i + length nd) Placeholder) < occ nd xs"
proof -
  have "xs = take i xs @ nd @ drop (i + length nd) xs"
    using index_of_Some_D [OF assms(2)] by simp
  then have "occ nd (take i xs) + occ nd (drop (i + length nd) xs) < occ nd xs"
    using occ_split_less [of nd "take i xs"] assms(1) by (metis ph_safe_def)
  then show ?thesis by (simp add: replaceRange_def occ_placeholder assms(1))
qed

lemma literal_loop_replace_all:
  assumes nd: "ph_safe nd"
  shows "\<exists>rep' k. literal_loop nd enc (out, rep, tot)
           = Some (replace_all nd Placeholder out, rep', tot + k)"
proof (induction "occ nd out" arbitrary: out rep tot rule: less_induct)
  case less
  have nd': "nd \<noteq> []" using nd by (simp add: ph_safe_def)
  show ?case
  proof (cases "index_of out nd")
    case None
    then show ?thesis
      by (intro exI [of _ rep] exI [of _ 0])
        (simp add: literal_loop.simps replace_all.simps [of nd _ out])
  next
    case (Some i)
    let ?out = "replaceRange out i (i + length nd) Placeholder"
    obtain rep' k where IH: "literal_loop nd enc (?out, matched enc rep, tot + 1)
        = Some (replace_all nd Placeholder ?out, rep', tot + 1 + k)"
      using less [OF occ_replaced_less [OF nd Some]] by blast
    have "replace_all nd Placeholder ?out = replace_all nd Placeholder out"
      using Some nd' replace_all_after_placeholder [OF nd index_of_first [OF Some nd']]
      by (simp add: replaceRange_def replace_all.simps [of nd _ out])
    then show ?thesis
      using IH Some
      by (intro exI [of _ rep'] exI [of _ "k + 1"]) (simp add: literal_loop.simps [of nd _ "(out, _, _)"])
  qed
qed

section \<open>The split pass\<close>

text \<open>\<open>norm out\<close> is the whitespace-elided view of the output.\<close>

definition norm_view :: "bytes \<Rightarrow> bytes" where
  "norm_view out = filter (\<lambda>c. \<not> is_ws c) out"

lemma elide_from_Cons:
  "fst (elide_from i (c # cs)) =
     (if is_ws c then fst (elide_from (Suc i) cs) else c # fst (elide_from (Suc i) cs))"
  "snd (elide_from i (c # cs)) =
     (if is_ws c then snd (elide_from (Suc i) cs) else i # snd (elide_from (Suc i) cs))"
  by (simp_all split: prod.splits)

lemma norm_view_simps [simp]:
  "norm_view [] = []"
  "norm_view (c # cs) = (if is_ws c then norm_view cs else c # norm_view cs)"
  by (simp_all add: norm_view_def)

lemma fst_elide_from: "fst (elide_from i out) = norm_view out"
  by (induction out arbitrary: i) (simp_all add: elide_from_Cons del: elide_from.simps(2))

lemma length_snd_elide_from: "length (snd (elide_from i out)) = length (norm_view out)"
  by (induction out arbitrary: i) (simp_all add: elide_from_Cons del: elide_from.simps(2))

lemma fst_elide [simp]: "fst (elide out) = norm_view out"
  by (simp add: elide_def fst_elide_from)

lemma length_snd_elide [simp]: "length (snd (elide out)) = length (norm_view out)"
  by (simp add: elide_def length_snd_elide_from)

lemma norm_view_append [simp]: "norm_view (a @ b) = norm_view a @ norm_view b"
  by (simp add: norm_view_def)

lemma norm_view_placeholder [simp]: "norm_view Placeholder = Placeholder"
  by (simp add: norm_view_def Placeholder_def is_ws_def)

lemma elide_from_index:
  assumes "k < length (norm_view out)"
  shows "\<exists>j. snd (elide_from i out) ! k = i + j \<and> j \<le> length out
       \<and> norm_view (take j out) = take k (norm_view out)
       \<and> norm_view (drop j out) = drop k (norm_view out)"
  using assms
proof (induction out arbitrary: i k)
  case (Cons c cs)
  show ?case
  proof (cases "is_ws c")
    case True
    then obtain j where "snd (elide_from (Suc i) cs) ! k = Suc i + j" "j \<le> length cs"
      "norm_view (take j cs) = take k (norm_view cs)" "norm_view (drop j cs) = drop k (norm_view cs)"
      using Cons.IH [of k "Suc i"] Cons.prems by auto
    then show ?thesis
      using True by (intro exI [of _ "Suc j"]) (auto simp: elide_from_Cons simp del: elide_from.simps(2))
  next
    case False
    show ?thesis
    proof (cases k)
      case 0
      then show ?thesis
        using False by (intro exI [of _ 0]) (auto simp: elide_from_Cons simp del: elide_from.simps(2))
    next
      case (Suc k')
      then obtain j where "snd (elide_from (Suc i) cs) ! k' = Suc i + j" "j \<le> length cs"
        "norm_view (take j cs) = take k' (norm_view cs)" "norm_view (drop j cs) = drop k' (norm_view cs)"
        using Cons.IH [of k' "Suc i"] Cons.prems False by auto
      then show ?thesis
        using False Suc by (intro exI [of _ "Suc j"]) (auto simp: elide_from_Cons simp del: elide_from.simps(2))
    qed
  qed
qed simp

lemma elide_index:
  "k < length (norm_view out) \<Longrightarrow>
     norm_view (take (snd (elide out) ! k) out) = take k (norm_view out)
   \<and> norm_view (drop (snd (elide out) ! k) out) = drop k (norm_view out)"
  using elide_from_index [of k out 0] by (auto simp: elide_def)

text \<open>A replacement in the original is a replacement in the elided view.\<close>

lemma split_replace_cuts:
  obtains i j where "split_replace out (snd (elide out)) idx n = take i out @ Placeholder @ drop j out"
  by (auto simp: split_replace_def replaceRange_def Let_def)

lemma norm_view_split_replace:
  assumes "idx + n \<le> length (norm_view out)" and "0 < n"
  shows "norm_view (split_replace out (snd (elide out)) idx n)
       = replaceRange (norm_view out) idx (idx + n) Placeholder"
proof -
  let ?o = "snd (elide out)"
  have "norm_view (take (?o ! idx) out) = take idx (norm_view out)"
    using elide_index assms by simp
  moreover have "norm_view (drop (if idx + n < length ?o then ?o ! (idx + n) else length out) out)
      = drop (idx + n) (norm_view out)"
    using elide_index [of "idx + n" out] assms by auto
  ultimately show ?thesis
    using assms by (simp add: split_replace_def replaceRange_def Let_def split: if_splits)
qed

lemma split_loop_replace_all:
  assumes nd: "ph_safe nd"
  shows "\<exists>out' rep' k.
           split_loop nd enc (out, norm_view out, snd (elide out), rep, tot)
             = Some (out', norm_view out', snd (elide out'), rep', tot + k)
         \<and> norm_view out' = replace_all nd Placeholder (norm_view out)
         \<and> (\<forall>m. ph_safe m \<longrightarrow> sublist m out' \<longrightarrow> sublist m out)"
proof (induction "occ nd (norm_view out)" arbitrary: out rep tot rule: less_induct)
  case less
  have nd': "nd \<noteq> []" using nd by (simp add: ph_safe_def)
  let ?st = "(out, norm_view out, snd (elide out), rep, tot)"
  show ?case
  proof (cases "index_of (norm_view out) nd")
    case None
    then show ?thesis
      by (intro exI [of _ out] exI [of _ rep] exI [of _ 0])
        (simp add: split_loop.simps [of nd enc ?st] replace_all.simps [of nd _ "norm_view out"])
  next
    case (Some i)
    let ?out = "split_replace out (snd (elide out)) i (length nd)"
    have bound: "i + length nd \<le> length (norm_view out)" "0 < length nd"
      using index_of_Some_D [OF Some] nd' by auto
    note norm = norm_view_split_replace [OF bound]
    obtain out' rep' k where IH:
      "split_loop nd enc (?out, norm_view ?out, snd (elide ?out), matched enc rep, tot + 1)
         = Some (out', norm_view out', snd (elide out'), rep', tot + 1 + k)"
      "norm_view out' = replace_all nd Placeholder (norm_view ?out)"
      "\<forall>m. ph_safe m \<longrightarrow> sublist m out' \<longrightarrow> sublist m ?out"
      using less [of ?out] occ_replaced_less [OF nd Some] norm by metis
    have "replace_all nd Placeholder (norm_view ?out) = replace_all nd Placeholder (norm_view out)"
      using Some nd' replace_all_after_placeholder [OF nd index_of_first [OF Some nd']]
      by (simp add: norm replaceRange_def replace_all.simps [of nd _ "norm_view out"])
    moreover have "sublist m ?out \<Longrightarrow> ph_safe m \<Longrightarrow> sublist m out" for m
      using split_replace_cuts [of out i "length nd"] sublist_replaced by metis
    ultimately show ?thesis
      using IH Some
      by (intro exI [of _ out'] exI [of _ rep'] exI [of _ "k + 1"])
        (auto simp: split_loop.simps [of nd enc ?st])
  qed
qed

section \<open>The contract of a pass, and a run over all needles\<close>

text \<open>
  What a pass promises for a needle that cannot overlap the placeholder: it returns, the
  needle is gone from the view the pass searches, and no other such needle appears in the
  view or in the output.
\<close>

locale needle_pass =
  fixes loop :: "bytes \<Rightarrow> string \<Rightarrow> 's \<Rightarrow> 's option"
    and view :: "'s \<Rightarrow> bytes"
    and sink :: "'s \<Rightarrow> bytes"
    and inv :: "'s \<Rightarrow> bool"
  assumes pass: "ph_safe nd \<Longrightarrow> inv s \<Longrightarrow>
      \<exists>s'. loop nd enc s = Some s' \<and> inv s' \<and> \<not> sublist nd (view s')
        \<and> (\<forall>m. ph_safe m \<longrightarrow> sublist m (view s') \<longrightarrow> sublist m (view s))
        \<and> (\<forall>m. ph_safe m \<longrightarrow> sublist m (sink s') \<longrightarrow> sublist m (sink s))"
begin

lemma run_all:
  assumes "\<forall>nd \<in> set nds. \<not> skip nd \<longrightarrow> ph_safe (nd_b nd)" and "inv s"
  shows "\<exists>s'. run_needles loop skip nds s = Some s' \<and> inv s'
        \<and> (\<forall>nd \<in> set nds. \<not> skip nd \<longrightarrow> \<not> sublist (nd_b nd) (view s'))
        \<and> (\<forall>m. ph_safe m \<longrightarrow> sublist m (view s') \<longrightarrow> sublist m (view s))
        \<and> (\<forall>m. ph_safe m \<longrightarrow> sublist m (sink s') \<longrightarrow> sublist m (sink s))"
  using assms
proof (induction nds arbitrary: s)
  case (Cons nd nds)
  show ?case
  proof (cases "skip nd")
    case True
    then show ?thesis using Cons by simp
  next
    case False
    then have nd: "ph_safe (nd_b nd)" using Cons.prems by simp
    then obtain t where t: "loop (nd_b nd) (nd_encoding nd) s = Some t" "inv t"
      "\<not> sublist (nd_b nd) (view t)"
      "\<forall>m. ph_safe m \<longrightarrow> sublist m (view t) \<longrightarrow> sublist m (view s)"
      "\<forall>m. ph_safe m \<longrightarrow> sublist m (sink t) \<longrightarrow> sublist m (sink s)"
      using pass Cons.prems by blast
    moreover obtain s' where s': "run_needles loop skip nds t = Some s'" "inv s'"
      "\<forall>nd \<in> set nds. \<not> skip nd \<longrightarrow> \<not> sublist (nd_b nd) (view s')"
      "\<forall>m. ph_safe m \<longrightarrow> sublist m (view s') \<longrightarrow> sublist m (view t)"
      "\<forall>m. ph_safe m \<longrightarrow> sublist m (sink s') \<longrightarrow> sublist m (sink t)"
      using Cons.IH [of t] Cons.prems t by auto
    ultimately show ?thesis using False nd by (intro exI [of _ s']) auto
  qed
qed simp

end

interpretation lit: needle_pass literal_loop fst fst "\<lambda>_. True"
proof
  fix nd enc and s :: lit_state
  assume nd: "ph_safe nd"
  obtain out rep tot where s: "s = (out, rep, tot)" by (cases s)
  obtain rep' k where "literal_loop nd enc s = Some (replace_all nd Placeholder out, rep', tot + k)"
    using literal_loop_replace_all [OF nd, of enc out rep tot] s by blast
  then show "\<exists>s'. literal_loop nd enc s = Some s' \<and> True \<and> \<not> sublist nd (fst s')
      \<and> (\<forall>m. ph_safe m \<longrightarrow> sublist m (fst s') \<longrightarrow> sublist m (fst s))
      \<and> (\<forall>m. ph_safe m \<longrightarrow> sublist m (fst s') \<longrightarrow> sublist m (fst s))"
    using s replace_all_removes [OF nd] replace_all_keeps by auto
qed

definition split_inv :: "split_state \<Rightarrow> bool" where
  "split_inv st \<longleftrightarrow> (case st of (out, norm, origs, _) \<Rightarrow> norm = norm_view out \<and> origs = snd (elide out))"

definition split_view :: "split_state \<Rightarrow> bytes" where
  "split_view st = fst (snd st)"

interpretation spl: needle_pass split_loop split_view fst split_inv
proof
  fix nd enc and s :: split_state
  assume nd: "ph_safe nd" and s: "split_inv s"
  then obtain out rep tot where s: "s = (out, norm_view out, snd (elide out), rep, tot)"
    by (cases s) (auto simp: split_inv_def)
  obtain out' rep' k where
    "split_loop nd enc s = Some (out', norm_view out', snd (elide out'), rep', tot + k)"
    "norm_view out' = replace_all nd Placeholder (norm_view out)"
    "\<forall>m. ph_safe m \<longrightarrow> sublist m out' \<longrightarrow> sublist m out"
    using split_loop_replace_all [OF nd, of enc out rep tot] s by blast
  then show "\<exists>s'. split_loop nd enc s = Some s' \<and> split_inv s' \<and> \<not> sublist nd (split_view s')
      \<and> (\<forall>m. ph_safe m \<longrightarrow> sublist m (split_view s') \<longrightarrow> sublist m (split_view s))
      \<and> (\<forall>m. ph_safe m \<longrightarrow> sublist m (fst s') \<longrightarrow> sublist m (fst s))"
    using s replace_all_removes [OF nd] replace_all_keeps
    by (auto simp: split_inv_def split_view_def)
qed

section \<open>A whole scan\<close>

definition json_in_needles :: "scanner \<Rightarrow> bool" where
  "json_in_needles s \<longleftrightarrow>
     (jsonEscaped s \<noteq> [] \<and> \<not> rawJSONEscapable s \<longrightarrow> (\<exists>nd \<in> set (needles s). nd_b nd = jsonEscaped s))"

lemma New_json_in_needles: "json_in_needles (New v)"
  by (auto simp: json_in_needles_def New_def json_forms_def)

lemma scanLiteral_safe:
  assumes "scanner_safe s" and "json_in_needles s"
  shows "\<exists>out' rep' n. scanLiteral s out rep = Some (out', rep', n)
       \<and> (\<forall>nd \<in> set (needles s). \<not> sublist (nd_b nd) out')
       \<and> (\<forall>m. ph_safe m \<longrightarrow> sublist m out' \<longrightarrow> sublist m out)"
proof -
  obtain st where st: "run_needles literal_loop (\<lambda>_. False) (needles s) (out, rep, 0) = Some st"
    "\<forall>nd \<in> set (needles s). \<not> sublist (nd_b nd) (fst st)"
    "\<forall>m. ph_safe m \<longrightarrow> sublist m (fst st) \<longrightarrow> sublist m out"
    using lit.run_all [of "needles s" "\<lambda>_. False" "(out, rep, 0)"] assms
    by (auto simp: scanner_safe_def)
  show ?thesis
  proof (cases "jsonEscaped s \<noteq> [] \<and> \<not> rawJSONEscapable s")
    case True
    then have "ph_safe (jsonEscaped s)"
      using assms by (auto simp: json_in_needles_def scanner_safe_def)
    then obtain st' where "literal_loop (jsonEscaped s) ''json'' st = Some st'"
      "\<forall>m. ph_safe m \<longrightarrow> sublist m (fst st') \<longrightarrow> sublist m (fst st)"
      using lit.pass by blast
    then show ?thesis
      using st True assms by (cases st') (auto simp: scanLiteral_def scanner_safe_def)
  next
    case False
    then show ?thesis using st by (cases st) (auto simp: scanLiteral_def)
  qed
qed

lemma scanSplit_safe:
  assumes "scanner_safe s"
  shows "\<exists>out' rep' n. scanSplit s out rep = Some (out', rep', n)
       \<and> (\<forall>nd \<in> set (needles s). 8 \<le> length (nd_b nd) \<longrightarrow> \<not> sublist (nd_b nd) (norm_view out'))
       \<and> (\<forall>m. ph_safe m \<longrightarrow> sublist m out' \<longrightarrow> sublist m out)"
proof -
  let ?skip = "\<lambda>nd. length (nd_b nd) < 8"
  let ?s0 = "(out, norm_view out, snd (elide out), rep, 0)"
  obtain st where st: "run_needles split_loop ?skip (needles s) ?s0 = Some st" "split_inv st"
    "\<forall>nd \<in> set (needles s). \<not> ?skip nd \<longrightarrow> \<not> sublist (nd_b nd) (split_view st)"
    "\<forall>m. ph_safe m \<longrightarrow> sublist m (fst st) \<longrightarrow> sublist m out"
    using spl.run_all [of "needles s" ?skip ?s0] assms
    by (auto simp: scanner_safe_def split_inv_def)
  then show ?thesis
    by (cases st) (auto simp: scanSplit_def split_inv_def split_view_def not_less)
qed

lemma Scan_safe:
  assumes safe: "scanner_safe s" and json: "json_in_needles s"
  shows "\<exists>out' rep. Scan s out = Some (out', rep)
       \<and> (\<forall>nd \<in> set (needles s). \<not> sublist (nd_b nd) out')
       \<and> (\<forall>nd \<in> set (needles s). 8 \<le> length (nd_b nd) \<longrightarrow> \<not> sublist (nd_b nd) (norm_view out'))"
proof (cases "out = [] \<or> needles s = []")
  case True
  have "nd_b nd \<noteq> []" if "nd \<in> set (needles s)" for nd
    using safe that by (auto simp: scanner_safe_def ph_safe_def)
  then show ?thesis using True by (auto simp: Scan_def)
next
  case False
  let ?r = "\<lparr>Matches = 0, Encodings = []\<rparr>"
  obtain out1 rep1 n1 where 1: "scanLiteral s out ?r = Some (out1, rep1, n1)"
    "\<forall>nd \<in> set (needles s). \<not> sublist (nd_b nd) out1"
    using scanLiteral_safe [OF safe json] by blast
  obtain out2 rep2 n2 where 2: "scanSplit s out1 rep1 = Some (out2, rep2, n2)"
    "\<forall>nd \<in> set (needles s). 8 \<le> length (nd_b nd) \<longrightarrow> \<not> sublist (nd_b nd) (norm_view out2)"
    "\<forall>m. ph_safe m \<longrightarrow> sublist m out2 \<longrightarrow> sublist m out1"
    using scanSplit_safe [OF safe] by blast
  have "\<forall>nd \<in> set (needles s). \<not> sublist (nd_b nd) out2"
    using 1 2 safe by (auto simp: scanner_safe_def)
  then show ?thesis using 1 2 False by (simp add: Scan_def Let_def)
qed

section \<open>Which values have safe needles\<close>

text \<open>
  A value of at least eight bytes is safe when it contains no bracket and none of its
  eight-byte windows occurs in the text between the brackets of the placeholder: its
  longer renderings are then too long, or contain a character the placeholder lacks.
\<close>

definition value_safe :: "bytes \<Rightarrow> bool" where
  "value_safe v \<longleftrightarrow>
     8 \<le> length v \<and> CHR ''['' \<notin> set v \<and> CHR '']'' \<notin> set v
     \<and> list_all (\<lambda>w. \<not> sublist w ph_interior) (windows 8 v)"

text \<open>\<open>part v x\<close>: \<open>x\<close> is one of the partial echoes the scanner must catch.\<close>

definition part :: "bytes \<Rightarrow> bytes \<Rightarrow> bool" where
  "part v x \<longleftrightarrow> 8 \<le> length x \<and> sublist x v"

lemma in_windows_iff: "x \<in> set (windows l v) \<longleftrightarrow> length x = l \<and> sublist x v" if "0 < l"
proof
  assume "x \<in> set (windows l v)"
  then obtain i where "x = take l (drop i v)" "i + l \<le> length v"
    by (auto simp: windows_def)
  then show "length x = l \<and> sublist x v"
    by (metis add_leD1 le_diff_conv2 add.commute length_drop length_take min.absorb2
        sublist_drop sublist_order.order_trans sublist_take)
next
  assume x: "length x = l \<and> sublist x v"
  then obtain a b where "v = a @ x @ b" by (auto simp: sublist_def)
  then have "x = take l (drop (length a) v)" "length a \<in> {0..<Suc (length v) - l}"
    using x that by auto
  then show "x \<in> set (windows l v)" by (auto simp: windows_def)
qed

lemma in_substrings_iff: "8 \<le> length v \<Longrightarrow> x \<in> set (substrings v) \<longleftrightarrow> part v x"
  by (auto simp: substrings_def minSubstringLen_def part_def in_windows_iff
      dest: sublist_length_le split: if_splits)

lemma part_self: "8 \<le> length v \<Longrightarrow> part v v"
  by (simp add: part_def)

lemma part_ph_safe:
  assumes "value_safe v" and "part v x"
  shows "ph_safe x"
proof -
  have "take 8 x \<in> set (windows 8 v)"
    using assms sublist_order.order_trans [OF sublist_take [of 8 x]]
    by (auto simp: in_windows_iff part_def)
  then have "\<not> sublist (take 8 x) ph_interior"
    using assms by (auto simp: value_safe_def list_all_iff)
  then have "\<not> sublist x ph_interior"
    using sublist_order.order_trans [OF sublist_take [of 8 x]] by blast
  moreover have "set x \<subseteq> set v" using assms set_mono_sublist by (auto simp: part_def)
  ultimately show ?thesis
    using assms by (auto simp: ph_safe_def value_safe_def part_def)
qed

text \<open>Without a colon, a piece of the interior lies in one of its two eight-letter words.\<close>

lemma sublist_interior_no_colon:
  assumes "CHR '':'' \<notin> set nd" and "nd \<noteq> []" and "sublist nd ph_interior"
  shows "length nd \<le> 8"
proof -
  have "ph_interior = ''REDACTED'' @ CHR '':'' # ''safekeys''" by (simp add: ph_interior_def)
  then have "sublist nd ''REDACTED'' \<or> sublist nd ''safekeys''"
    using assms sublist_barrier [of "CHR '':''" nd "''REDACTED''" "''safekeys''"] by simp
  then show ?thesis by (auto dest: sublist_length_le)
qed

lemma alnum_long_ph_safe:
  assumes "\<forall>c \<in> set nd. b64_safe_char c" and "8 < length nd"
  shows "ph_safe nd"
proof -
  have no: "CHR '':'' \<notin> set nd" "CHR ''['' \<notin> set nd" "CHR '']'' \<notin> set nd"
    using assms(1) by (auto simp: b64_safe_char_def char_class_defs)
  have "nd \<noteq> []" using assms(2) by auto
  then show ?thesis
    using no assms(2) sublist_interior_no_colon [of nd] by (auto simp: ph_safe_def)
qed

lemma base64_ph_safe: "part v x \<Longrightarrow> ph_safe (EncodeToString e x)"
  using length_EncodeToString [of x e]
  by (intro alnum_long_ph_safe) (auto simp: part_def dest: EncodeToString_chars)

lemma hex_ph_safe: "part v x \<Longrightarrow> ph_safe (hex_EncodeToString x)"
  by (intro alnum_long_ph_safe) (auto simp: part_def length_hex b64_safe_char_def dest: hex_chars)

lemma alnum_to_upper: "is_alnum c \<Longrightarrow> is_alnum (to_upper c)"
  by (auto simp: to_upper_def char_class_defs)

lemma HEX_ph_safe: "part v x \<Longrightarrow> ph_safe (map to_upper (hex_EncodeToString x))"
  by (intro alnum_long_ph_safe)
    (auto simp: part_def length_hex b64_safe_char_def dest: hex_chars alnum_to_upper)

lemma HEX_digit_alnum: "n < 16 \<Longrightarrow> is_alnum (HEX_digit n)"
  by (cases "n < 10") (auto simp: HEX_digit_def char_class_defs)

lemma percentEncode_chars: "c \<in> set (percentEncode x) \<Longrightarrow> unreserved c \<or> c = CHR ''%''"
proof -
  assume "c \<in> set (percentEncode x)"
  then obtain d where d: "unreserved c \<or> c = CHR ''%'' \<or> c = HEX_digit (byte d div 16)
      \<or> c = HEX_digit (byte d mod 16)"
    by (auto simp: percentEncode_def split: if_splits)
  have "byte d div 16 < 16" "byte d mod 16 < 16" using nat_of_char_less_256 [of d] by linarith+
  then show ?thesis using d HEX_digit_alnum by (auto simp: unreserved_def)
qed

lemma percentEncode_id: "CHR ''%'' \<notin> set (percentEncode x) \<Longrightarrow> percentEncode x = x"
  by (induction x) (auto simp: percentEncode_def split: if_splits)

lemma length_percentEncode: "length x \<le> length (percentEncode x)"
  by (induction x) (auto simp: percentEncode_def)

lemma percent_ph_safe:
  assumes "value_safe v" and "part v x"
  shows "ph_safe (percentEncode x)"
proof -
  have no: "CHR '':'' \<notin> set (percentEncode x)" "CHR ''['' \<notin> set (percentEncode x)"
    "CHR '']'' \<notin> set (percentEncode x)"
    using percentEncode_chars [of "CHR '':''" x] percentEncode_chars [of "CHR ''[''" x]
      percentEncode_chars [of "CHR '']''" x]
    by (auto simp: unreserved_def char_class_defs)
  have "percentEncode x \<noteq> []" using length_percentEncode [of x] assms by (auto simp: part_def)
  moreover have "\<not> sublist (percentEncode x) ph_interior"
  proof
    assume *: "sublist (percentEncode x) ph_interior"
    have "CHR ''%'' \<notin> set ph_interior" by (simp add: ph_interior_def)
    then have "percentEncode x = x"
      using * percentEncode_id set_mono_sublist by blast
    then show False using * part_ph_safe [OF assms] by (simp add: ph_safe_def)
  qed
  ultimately show ?thesis using no by (simp add: ph_safe_def)
qed

lemma jsonEscape_id: "CHR 0x5C \<notin> set (jsonEscape x) \<Longrightarrow> jsonEscape x = x"
  by (induction x) (auto simp: jsonEscape_def json_escape_byte_def split: if_splits)

lemma jsonEscape_plain: "list_all json_plain x \<Longrightarrow> jsonEscape x = x"
  by (induction x) (auto simp: jsonEscape_def json_escape_byte_def json_plain_def)

lemma json_escape_byte_brackets:
  "d \<in> set (json_escape_byte c) \<Longrightarrow> d = CHR ''['' \<or> d = CHR '']'' \<Longrightarrow> d = c"
proof -
  assume d: "d \<in> set (json_escape_byte c)" "d = CHR ''['' \<or> d = CHR '']''"
  have "byte c div 16 < 16" "byte c mod 16 < 16" using nat_of_char_less_256 [of c] by linarith+
  then have "is_alnum (hex_digit (byte c div 16))" "is_alnum (hex_digit (byte c mod 16))"
    using hex_digit_alnum by blast+
  moreover have "\<not> is_alnum d" using d(2) by (auto simp: char_class_defs)
  ultimately have "hex_digit (byte c div 16) \<noteq> d" "hex_digit (byte c mod 16) \<noteq> d" by auto
  then show "d = c" using d by (auto simp: json_escape_byte_def split: if_splits)
qed

lemma json_ph_safe:
  assumes "value_safe v" and "part v x"
  shows "ph_safe (jsonEscape x)"
proof -
  have x: "ph_safe x" by (rule part_ph_safe [OF assms])
  have "CHR ''['' \<notin> set (jsonEscape x)" "CHR '']'' \<notin> set (jsonEscape x)"
    using x json_escape_byte_brackets by (fastforce simp: jsonEscape_def ph_safe_def)+
  moreover have "jsonEscape x \<noteq> []"
    using x by (cases x) (auto simp: jsonEscape_def json_escape_byte_def ph_safe_def)
  moreover have "\<not> sublist (jsonEscape x) ph_interior"
  proof
    assume *: "sublist (jsonEscape x) ph_interior"
    have "CHR 0x5C \<notin> set ph_interior" by (simp add: ph_interior_def)
    then have "jsonEscape x = x" using * jsonEscape_id set_mono_sublist by blast
    then show False using * x by (simp add: ph_safe_def)
  qed
  ultimately show ?thesis by (simp add: ph_safe_def)
qed

lemmas rendering_safe =
  part_ph_safe base64_ph_safe hex_ph_safe HEX_ph_safe percent_ph_safe json_ph_safe

lemma needles_New:
  "needles (New v) =
     (if v = [] then []
      else filter (\<lambda>nd. nd_b nd \<noteq> [])
        (map (\<lambda>sub. \<lparr>nd_b = sub, nd_encoding = ''raw''\<rparr>) (substrings v)
         @ encoded_forms v @ concat (map encoded_sub (substrings v)) @ json_forms v))"
  by (simp add: New_def)

lemma value_safe_scanner: "value_safe v \<Longrightarrow> scanner_safe (New v)"
proof -
  assume v: "value_safe v"
  then have len: "8 \<le> length v" by (simp add: value_safe_def)
  note parts = in_substrings_iff [OF len]
  have "ph_safe (nd_b nd)" if "nd \<in> set (needles (New v))" for nd
  proof -
    from that consider x where "part v x" "nd_b nd = x"
      | "nd \<in> set (encoded_forms v)"
      | x where "part v x" "nd \<in> set (encoded_sub x)"
      | x where "part v x" "nd_b nd = jsonEscape x"
      using part_self [OF len]
      by (auto simp: needles_New parts json_forms_def split: if_splits)
    then show ?thesis
      using rendering_safe part_self [OF len] v
      by cases (auto simp: encoded_forms_def encoded_sub_def)
  qed
  then show ?thesis by (simp add: scanner_safe_def)
qed

text \<open>The renderings of a string that the scanner knows.\<close>

definition renderings :: "bytes \<Rightarrow> bytes list" where
  "renderings x =
     [x, EncodeToString StdEncoding x, EncodeToString URLEncoding x,
      EncodeToString RawURLEncoding x, hex_EncodeToString x,
      map to_upper (hex_EncodeToString x), percentEncode x, jsonEscape x]"

lemma json_plain_part: "jsonVerbatim v \<Longrightarrow> part v x \<Longrightarrow> jsonEscape x = x"
  using set_mono_sublist [of x v]
  by (intro jsonEscape_plain) (auto simp: jsonVerbatim_def part_def list_all_iff)

lemma renderings_long:
  assumes "part v x" and "r \<in> set (renderings x)"
  shows "8 \<le> length r"
proof -
  have "length x \<le> length (jsonEscape x)"
    by (induction x) (auto simp: jsonEscape_def json_escape_byte_def)
  moreover have "length x \<le> length (EncodeToString e x)" for e
    using length_EncodeToString [of x e] by simp
  ultimately have "length x \<le> length r"
    using assms(2) length_percentEncode [of x] by (auto simp: renderings_def length_hex)
  then show ?thesis using assms(1) by (simp add: part_def)
qed

lemma renderings_in_needles:
  assumes v: "value_safe v" and x: "part v x" and r: "r \<in> set (renderings x)"
  shows "\<exists>nd \<in> set (needles (New v)). nd_b nd = r"
proof -
  have len: "8 \<le> length v" using v by (simp add: value_safe_def)
  have ne: "v \<noteq> []" using len by auto
  have sub: "x \<in> set (substrings v)" using x in_substrings_iff [OF len] by simp
  have rne: "r \<noteq> []"
    using renderings_long [OF x r] by auto
  have "x \<noteq> []" using x by (auto simp: part_def)
  then have "\<lparr>nd_b = x, nd_encoding = ''raw''\<rparr> \<in> set (needles (New v))"
    using sub ne by (simp add: needles_New)
  then have raw: "\<exists>nd \<in> set (needles (New v)). nd_b nd = x" by (rule bexI [rotated]) simp
  show ?thesis
  proof (cases "r = jsonEscape x")
    case True
    show ?thesis
    proof (cases "jsonVerbatim v \<or> jsonVerbatim x")
      case True
      then have "jsonEscape x = x"
        using json_plain_part x jsonEscape_plain by (auto simp: jsonVerbatim_def)
      then show ?thesis using raw \<open>r = jsonEscape x\<close> by simp
    next
      case False
      then show ?thesis
        using sub ne rne \<open>r = jsonEscape x\<close>
        by (auto simp: needles_New json_forms_def intro!: bexI [of _ "\<lparr>nd_b = r, nd_encoding = ''json''\<rparr>"])
    qed
  next
    case False
    then consider "r = x" | "\<exists>nd \<in> set (encoded_sub x). nd_b nd = r"
      using r by (auto simp: renderings_def encoded_sub_def)
    then show ?thesis
      using raw sub ne rne by cases (auto simp: needles_New)
  qed
qed

section \<open>Facts about any scan that returns\<close>

text \<open>\<open>counts m st\<close>: the report counts \<open>m\<close> more matches than the running total.\<close>

lemma literal_loop_count:
  assumes "literal_loop nd enc st = Some st'"
  shows "Matches (fst (snd st')) + snd (snd st) = Matches (fst (snd st)) + snd (snd st')"
proof (rule literal_loop.raw_induct
    [where P = "\<lambda>nd enc st st'. Matches (fst (snd st')) + snd (snd st)
        = Matches (fst (snd st)) + snd (snd st')", OF _ assms])
  fix f nd enc and st st' :: lit_state
  assume IH: "\<And>nd enc st st'. f nd enc st = Some st' \<Longrightarrow>
      Matches (fst (snd st')) + snd (snd st) = Matches (fst (snd st)) + snd (snd st')"
    and eq: "(case st of (out, rep, tot) \<Rightarrow>
        (case index_of out nd of None \<Rightarrow> Some (out, rep, tot)
         | Some idx \<Rightarrow> f nd enc (replaceRange out idx (idx + length nd) Placeholder,
             matched enc rep, tot + 1))) = Some st'"
  then show "Matches (fst (snd st')) + snd (snd st) = Matches (fst (snd st)) + snd (snd st')"
    by (auto simp: matched_def note_encoding_def split: prod.splits option.splits if_splits
        dest!: IH)
qed

lemma split_loop_count:
  assumes "split_loop nd enc st = Some st'"
  shows "Matches (fst (snd (snd (snd st')))) + snd (snd (snd (snd st)))
       = Matches (fst (snd (snd (snd st)))) + snd (snd (snd (snd st')))"
proof (rule split_loop.raw_induct
    [where P = "\<lambda>nd enc st st'. Matches (fst (snd (snd (snd st')))) + snd (snd (snd (snd st)))
        = Matches (fst (snd (snd (snd st)))) + snd (snd (snd (snd st')))", OF _ assms])
  fix f nd enc and st st' :: split_state
  assume IH: "\<And>nd enc st st'. f nd enc st = Some st' \<Longrightarrow>
      Matches (fst (snd (snd (snd st')))) + snd (snd (snd (snd st)))
        = Matches (fst (snd (snd (snd st)))) + snd (snd (snd (snd st')))"
    and eq: "(case st of (out, norm, origs, rep, tot) \<Rightarrow>
        (case index_of norm nd of None \<Rightarrow> Some (out, norm, origs, rep, tot)
         | Some idx \<Rightarrow> f nd enc
             (split_replace out origs idx (length nd),
              fst (elide (split_replace out origs idx (length nd))),
              snd (elide (split_replace out origs idx (length nd))),
              matched enc rep, tot + 1))) = Some st'"
  then show "Matches (fst (snd (snd (snd st')))) + snd (snd (snd (snd st)))
        = Matches (fst (snd (snd (snd st)))) + snd (snd (snd (snd st')))"
    by (auto simp: matched_def note_encoding_def split: prod.splits option.splits if_splits
        dest!: IH)
qed

lemma run_needles_preserves:
  assumes step: "\<And>nd enc s s'. loop nd enc s = Some s' \<Longrightarrow> R s s'"
    and refl: "\<And>s. R s s" and trans: "\<And>a b c. R a b \<Longrightarrow> R b c \<Longrightarrow> R a c"
    and run: "run_needles loop skip nds s = Some s'"
  shows "R s s'"
  using run
proof (induction nds arbitrary: s)
  case (Cons nd nds)
  then show ?case
    by (auto split: if_splits option.splits intro: trans step)
qed (simp add: refl)

lemma scanLiteral_count:
  "scanLiteral s out rep = Some (out', rep', n) \<Longrightarrow> Matches rep' = Matches rep + n"
proof -
  assume *: "scanLiteral s out rep = Some (out', rep', n)"
  let ?R = "\<lambda>st st' :: lit_state.
    Matches (fst (snd st')) + snd (snd st) = Matches (fst (snd st)) + snd (snd st')"
  have "?R (out, rep, 0) st" if "run_needles literal_loop (\<lambda>_. False) (needles s) (out, rep, 0) = Some st"
    for st
    using run_needles_preserves [of literal_loop ?R "\<lambda>_. False" "needles s" "(out, rep, 0)" st]
      literal_loop_count that by auto
  moreover obtain st where st:
    "run_needles literal_loop (\<lambda>_. False) (needles s) (out, rep, 0) = Some st"
    "(if jsonEscaped s \<noteq> [] \<and> \<not> rawJSONEscapable s
      then literal_loop (jsonEscaped s) ''json'' st else Some st) = Some (out', rep', n)"
    using * by (auto simp only: scanLiteral_def split: option.splits)
  moreover have "?R st (out', rep', n)"
  proof (cases "jsonEscaped s \<noteq> [] \<and> \<not> rawJSONEscapable s")
    case True
    then have "literal_loop (jsonEscaped s) ''json'' st = Some (out', rep', n)" using st(2) by simp
    from literal_loop_count [OF this] show ?thesis .
  next
    case False
    then show ?thesis using st(2) by auto
  qed
  ultimately have "?R (out, rep, 0) st" "?R st (out', rep', n)" by blast+
  then show ?thesis by simp
qed

lemma scanSplit_count:
  "scanSplit s out rep = Some (out', rep', n) \<Longrightarrow> Matches rep' = Matches rep + n"
proof -
  assume *: "scanSplit s out rep = Some (out', rep', n)"
  let ?R = "\<lambda>st st' :: split_state.
    Matches (fst (snd (snd (snd st')))) + snd (snd (snd (snd st)))
      = Matches (fst (snd (snd (snd st)))) + snd (snd (snd (snd st')))"
  let ?s0 = "(out, norm_view out, snd (elide out), rep, 0)"
  have "?R ?s0 st" if "run_needles split_loop (\<lambda>nd. length (nd_b nd) < 8) (needles s) ?s0 = Some st" for st
    using run_needles_preserves [of split_loop ?R _ "needles s" ?s0 st] split_loop_count that by auto
  then show ?thesis
    using * by (fastforce simp: scanSplit_def split: option.splits)
qed

lemma literal_loop_removes:
  assumes "literal_loop nd enc st = Some st'"
  shows "\<not> sublist nd (fst st')"
proof (rule literal_loop.raw_induct [where P = "\<lambda>nd enc st st'. \<not> sublist nd (fst st')", OF _ assms])
  fix f nd enc and st st' :: lit_state
  assume IH: "\<And>nd enc st st'. f nd enc st = Some st' \<Longrightarrow> \<not> sublist nd (fst st')"
    and eq: "(case st of (out, rep, tot) \<Rightarrow>
        (case index_of out nd of None \<Rightarrow> Some (out, rep, tot)
         | Some idx \<Rightarrow> f nd enc (replaceRange out idx (idx + length nd) Placeholder,
             matched enc rep, tot + 1))) = Some st'"
  then show "\<not> sublist nd (fst st')"
    by (auto simp: index_of_None_iff split: prod.splits option.splits dest: IH)
qed

lemma literal_loop_diverges:
  assumes nd: "sublist nd Placeholder"
  shows "sublist nd (fst st) \<Longrightarrow> literal_loop nd enc st = None"
proof (rule ccontr)
  assume occ: "sublist nd (fst st)" and "literal_loop nd enc st \<noteq> None"
  then obtain st' where ret: "literal_loop nd enc st = Some st'" by blast
  have "sublist nd Placeholder \<longrightarrow> \<not> sublist nd (fst st)"
  proof (rule literal_loop.raw_induct
      [where P = "\<lambda>nd enc st st'. sublist nd Placeholder \<longrightarrow> \<not> sublist nd (fst st)", OF _ ret])
    fix f nd enc and st st' :: lit_state
    assume IH: "\<And>nd enc st st'. f nd enc st = Some st' \<Longrightarrow>
          sublist nd Placeholder \<longrightarrow> \<not> sublist nd (fst st)"
      and eq: "(case st of (out, rep, tot) \<Rightarrow>
          (case index_of out nd of None \<Rightarrow> Some (out, rep, tot)
           | Some idx \<Rightarrow> f nd enc (replaceRange out idx (idx + length nd) Placeholder,
               matched enc rep, tot + 1))) = Some st'"
    show "sublist nd Placeholder \<longrightarrow> \<not> sublist nd (fst st)"
    proof
      assume ph: "sublist nd Placeholder"
      obtain out rep tot where st: "st = (out, rep, tot)" by (cases st)
      show "\<not> sublist nd (fst st)"
      proof (cases "index_of out nd")
        case None
        then show ?thesis by (simp add: st index_of_None_iff)
      next
        case (Some i)
        have "sublist nd (replaceRange out i (i + length nd) Placeholder)"
          using ph sublist_order.order_trans [of nd Placeholder] by (simp add: replaceRange_def)
        then show ?thesis using eq Some IH ph by (fastforce simp: st)
      qed
    qed
  qed
  then show False using nd occ by blast
qed

lemma literal_loop_noop: "\<not> sublist nd (fst st) \<Longrightarrow> literal_loop nd enc st = Some st"
  by (cases st) (simp add: literal_loop.simps flip: index_of_None_iff)

lemma split_loop_noop: "\<not> sublist nd (split_view st) \<Longrightarrow> split_loop nd enc st = Some st"
  by (cases st) (simp add: split_view_def split_loop.simps flip: index_of_None_iff)

lemma run_needles_noop:
  assumes "\<And>nd. nd \<in> set nds \<Longrightarrow> \<not> skip nd \<Longrightarrow> loop (nd_b nd) (nd_encoding nd) s = Some s"
  shows "run_needles loop skip nds s = Some s"
  using assms by (induction nds) auto

lemma Scan_noop:
  assumes "\<forall>nd \<in> set (needles s). \<not> sublist (nd_b nd) out"
    and "\<forall>nd \<in> set (needles s). 8 \<le> length (nd_b nd) \<longrightarrow> \<not> sublist (nd_b nd) (norm_view out)"
    and "json_in_needles s"
  shows "Scan s out = Some (out, \<lparr>Matches = 0, Encodings = []\<rparr>)"
proof -
  let ?r = "\<lparr>Matches = 0, Encodings = []\<rparr>"
  have "run_needles literal_loop (\<lambda>_. False) (needles s) (out, ?r, 0) = Some (out, ?r, 0)"
    using assms(1) by (intro run_needles_noop literal_loop_noop) simp
  moreover have "jsonEscaped s \<noteq> [] \<and> \<not> rawJSONEscapable s \<Longrightarrow> index_of out (jsonEscaped s) = None"
    using assms(1,3) by (auto simp: json_in_needles_def index_of_None_iff)
  ultimately have lit: "scanLiteral s out ?r = Some (out, ?r, 0)"
    by (simp add: scanLiteral_def literal_loop.simps [of "jsonEscaped s"])
  have "run_needles split_loop (\<lambda>nd. length (nd_b nd) < 8) (needles s)
      (out, norm_view out, snd (elide out), ?r, 0) = Some (out, norm_view out, snd (elide out), ?r, 0)"
    using assms(2) by (intro run_needles_noop split_loop_noop) (simp add: split_view_def not_less)
  then show ?thesis using lit by (simp add: Scan_def scanSplit_def Let_def)
qed

section \<open>Properties of the scanner\<close>

text \<open>
  C1. The value does not come back. If a value of at least eight bytes cannot be confused
  with the placeholder, a scan of any output returns, and neither its result nor the
  result without its whitespace contains any substring of the value of eight bytes or
  more, raw or in base64, base64url, hexadecimal, percent-encoded or JSON-escaped form.
\<close>

theorem scan_hides_value:
  assumes "value_safe v"
  shows "\<exists>out' rep. Scan (New v) out = Some (out', rep) \<and>
      (\<forall>x r. part v x \<and> r \<in> set (renderings x) \<longrightarrow>
         \<not> sublist r out' \<and> \<not> sublist r (norm_view out'))"
proof -
  obtain out' rep where *: "Scan (New v) out = Some (out', rep)"
    "\<forall>nd \<in> set (needles (New v)). \<not> sublist (nd_b nd) out'"
    "\<forall>nd \<in> set (needles (New v)). 8 \<le> length (nd_b nd) \<longrightarrow> \<not> sublist (nd_b nd) (norm_view out')"
    using Scan_safe [OF value_safe_scanner [OF assms] New_json_in_needles] by blast
  have "\<not> sublist r out' \<and> \<not> sublist r (norm_view out')"
    if "part v x" "r \<in> set (renderings x)" for x r
    using renderings_in_needles [OF assms that] renderings_long [OF that] * by blast
  then show ?thesis using * by blast
qed

lemma scan_hides_value_witness:
  "value_safe ''s3cretvalue'' \<and>
   (\<exists>out' rep. Scan (New ''s3cretvalue'') ''token s3cretvalue!'' = Some (out', rep) \<and>
      \<not> sublist ''s3cretvalue'' out')"
proof -
  have safe: "value_safe ''s3cretvalue''" by code_simp
  have "part ''s3cretvalue'' ''s3cretvalue''" by (simp add: part_def)
  moreover have "''s3cretvalue'' \<in> set (renderings ''s3cretvalue'')" by (simp add: renderings_def)
  ultimately show ?thesis
    using safe scan_hides_value [OF safe, of "''token s3cretvalue!''"] by blast
qed

text \<open>
  The literal pass is \<open>strings.ReplaceAll\<close> for each needle in turn: searching again
  from the start after every replacement gives the same output as one pass per needle,
  whenever no needle overlaps the placeholder.
\<close>

theorem literal_pass_is_ReplaceAll:
  assumes "scanner_safe s" and "json_in_needles s"
  shows "map_option fst (scanLiteral s out rep) =
    Some (fold (\<lambda>nd o'. replace_all (nd_b nd) Placeholder o') (needles s) out)"
proof -
  have run: "\<exists>rep' n. run_needles literal_loop (\<lambda>_. False) nds (out, rep, tot) =
      Some (fold (\<lambda>nd o'. replace_all (nd_b nd) Placeholder o') nds out, rep', n)"
    if "\<forall>nd \<in> set nds. ph_safe (nd_b nd)" for nds rep tot
    using that
  proof (induction nds arbitrary: out rep tot)
    case (Cons nd nds)
    then show ?case
      using literal_loop_replace_all [of "nd_b nd" "nd_encoding nd" out rep tot] by fastforce
  qed simp
  have "\<forall>nd \<in> set (needles s). ph_safe (nd_b nd)" using assms(1) by (simp add: scanner_safe_def)
  then obtain rep' n where r: "run_needles literal_loop (\<lambda>_. False) (needles s) (out, rep, 0) =
      Some (fold (\<lambda>nd o'. replace_all (nd_b nd) Placeholder o') (needles s) out, rep', n)"
    using run [of "needles s" rep 0] by blast
  then have "\<forall>nd \<in> set (needles s). \<not> sublist (nd_b nd)
      (fold (\<lambda>nd o'. replace_all (nd_b nd) Placeholder o') (needles s) out)"
    using lit.run_all [of "needles s" "\<lambda>_. False" "(out, rep, 0)"] assms(1)
    by (auto simp: scanner_safe_def)
  then have "jsonEscaped s \<noteq> [] \<and> \<not> rawJSONEscapable s \<Longrightarrow> index_of
      (fold (\<lambda>nd o'. replace_all (nd_b nd) Placeholder o') (needles s) out) (jsonEscaped s) = None"
    using assms(2) by (auto simp: json_in_needles_def index_of_None_iff)
  then show ?thesis
    using r by (simp add: scanLiteral_def literal_loop.simps [of "jsonEscaped s"])
qed

lemma literal_pass_is_ReplaceAll_witness:
  "scanner_safe (New ''s3cretvalue'') \<and>
   map_option fst (scanLiteral (New ''s3cretvalue'') ''a s3cretvalue'' \<lparr>Matches = 0, Encodings = []\<rparr>) =
     Some (fold (\<lambda>nd o'. replace_all (nd_b nd) Placeholder o') (needles (New ''s3cretvalue'')) ''a s3cretvalue'')"
proof -
  have "value_safe ''s3cretvalue''" by code_simp
  then have "scanner_safe (New ''s3cretvalue'')" by (rule value_safe_scanner)
  then show ?thesis using literal_pass_is_ReplaceAll New_json_in_needles by blast
qed

text \<open>
  A scan does not touch clean output: if no needle occurs in the output, and none of
  the needles of eight bytes or more occurs in its elided view, the output is returned
  unchanged with an empty report.
\<close>

theorem scan_clean_output:
  assumes "\<forall>nd \<in> set (needles s). \<not> sublist (nd_b nd) out"
    and "\<forall>nd \<in> set (needles s). 8 \<le> length (nd_b nd) \<longrightarrow> \<not> sublist (nd_b nd) (norm_view out)"
    and "json_in_needles s"
  shows "Scan s out = Some (out, \<lparr>Matches = 0, Encodings = []\<rparr>)"
  using assms by (rule Scan_noop)

lemma scan_clean_output_witness:
  "Scan (New ''hunter2'') ''build ok'' = Some (''build ok'', \<lparr>Matches = 0, Encodings = []\<rparr>)"
proof (rule scan_clean_output)
  show "\<forall>nd \<in> set (needles (New ''hunter2'')). \<not> sublist (nd_b nd) ''build ok''" by code_simp
  show "\<forall>nd \<in> set (needles (New ''hunter2'')). 8 \<le> length (nd_b nd) \<longrightarrow>
      \<not> sublist (nd_b nd) (norm_view ''build ok'')" by code_simp
qed (rule New_json_in_needles)

text \<open>
  C36. A value that occurs in the placeholder makes the scan of an output that contains the
  value run forever: every replacement puts the value back.
\<close>

theorem scan_diverges:
  assumes "v \<noteq> []" and "sublist v Placeholder" and "sublist v out"
  shows "Scan (New v) out = None"
proof -
  have "hd (substrings v) = v \<and> substrings v \<noteq> []"
    using assms(1) by (auto simp: substrings_def windows_def minSubstringLen_def)
  then obtain rest where "substrings v = v # rest" by (cases "substrings v") auto
  then obtain nds where "needles (New v) = \<lparr>nd_b = v, nd_encoding = ''raw''\<rparr> # nds"
    using assms(1) by (simp add: needles_New)
  moreover have "out \<noteq> []" using assms(1,3) by auto
  ultimately show ?thesis
    using literal_loop_diverges [OF assms(2)] assms(3) by (simp add: Scan_def scanLiteral_def)
qed

lemma scan_diverges_witness:
  "sublist ''safekeys'' Placeholder \<and> Scan (New ''safekeys'') ''user safekeys'' = None"
proof -
  have "sublist ''safekeys'' Placeholder" "sublist ''safekeys'' ''user safekeys''" by code_simp+
  then show ?thesis using scan_diverges [of "''safekeys''" "''user safekeys''"] by simp
qed

text \<open>
  The report counts every match of the split pass twice: \<open>scanSplit\<close> counts it, and
  \<open>Scan\<close> adds the number of split matches again.
\<close>

theorem scan_counts_split_matches_twice:
  assumes "Scan s out = Some (out', rep)" and "out \<noteq> []" and "needles s \<noteq> []"
  shows "\<exists>out1 rep1 n out2 rep2 n2.
      scanLiteral s out \<lparr>Matches = 0, Encodings = []\<rparr> = Some (out1, rep1, n) \<and>
      scanSplit s out1 rep1 = Some (out2, rep2, n2) \<and> Matches rep = n + 2 * n2"
proof -
  let ?r = "\<lparr>Matches = 0, Encodings = []\<rparr>"
  obtain out1 rep1 n out2 rep2 n2 where
    l: "scanLiteral s out ?r = Some (out1, rep1, n)" and
    p: "scanSplit s out1 rep1 = Some (out2, rep2, n2)" and
    r: "rep = rep2\<lparr>Matches := Matches rep2 + n2\<rparr>"
    using assms by (auto simp: Scan_def Let_def split: option.splits prod.splits)
  then have "Matches rep = n + 2 * n2"
    using scanLiteral_count [OF l] scanSplit_count [OF p] by simp
  then show ?thesis using l p by blast
qed

lemma scan_counts_split_matches_twice_witness:
  "Scan (New ''hunter2'') ''687 56e746572 32'' = Some (Placeholder, \<lparr>Matches = 2, Encodings = [''hex'']\<rparr>) \<and>
   (\<exists>n n2. (2::nat) = n + 2 * n2)"
proof -
  have ev: "Scan (New ''hunter2'') ''687 56e746572 32'' =
      Some (Placeholder, \<lparr>Matches = 2, Encodings = [''hex'']\<rparr>)"
    by code_simp
  have ne: "needles (New ''hunter2'') \<noteq> []" by code_simp
  show ?thesis
    using ev scan_counts_split_matches_twice [OF ev _ ne] by fastforce
qed

text \<open>
  The split pass removes all whitespace before it searches, so a needle that contains
  whitespace never matches there: a passphrase folded at one of its spaces is relayed
  unchanged, although its words are all there.
\<close>

theorem folded_passphrase_is_relayed:
  "index_of (fst (elide out)) (word1 @ '' '' @ word2) = None \<and>
   Scan (New ''open door'') (''open'' @ [CHR 0x0A] @ ''door'') =
     Some (''open'' @ [CHR 0x0A] @ ''door'', \<lparr>Matches = 0, Encodings = []\<rparr>)"
proof
  have "\<not> is_ws c" if "c \<in> set (norm_view out)" for c
    using that by (auto simp: norm_view_def)
  then have "CHR '' '' \<notin> set (norm_view out)" by (auto simp: is_ws_def)
  then have "\<not> sublist (word1 @ '' '' @ word2) (fst (elide out))"
    using set_mono_sublist [of "word1 @ '' '' @ word2" "norm_view out"] by auto
  then show "index_of (fst (elide out)) (word1 @ '' '' @ word2) = None"
    by (simp add: index_of_None_iff)
  show "Scan (New ''open door'') (''open'' @ [CHR 0x0A] @ ''door'') =
     Some (''open'' @ [CHR 0x0A] @ ''door'', \<lparr>Matches = 0, Encodings = []\<rparr>)"
  proof (rule Scan_noop)
    show "\<forall>nd \<in> set (needles (New ''open door'')). \<not> sublist (nd_b nd) (''open'' @ [CHR 0x0A] @ ''door'')"
      by code_simp
    show "\<forall>nd \<in> set (needles (New ''open door'')). 8 \<le> length (nd_b nd) \<longrightarrow>
        \<not> sublist (nd_b nd) (norm_view (''open'' @ [CHR 0x0A] @ ''door''))"
      by code_simp
  qed (rule New_json_in_needles)
qed

end
