(* ===== verification/Command_Policy.thy ===== *)
theory Command_Policy
  imports Prelude
begin

text \<open>
  \<open>pkg/commandpolicy/commandpolicy.go\<close>: the command dimension of the resolve-time policy.
  An operator's allowlist is a list of command specifications whose patterns are matched by
  an iterative glob with backtracking on the last star; a backstop refuses the commands
  that are known to dump their environment.

  The lemmas show that the iterative matcher decides the usual recursive meaning of a
  pattern, what literal patterns and patterns that end in a star accept, and what an
  allowlist entry and the backstop accept and refuse.
\<close>

section \<open>Patterns\<close>

text \<open>
  \<open>classEnd\<close>: the length of the class \<open>[...]\<close> at the start of \<open>p\<close>, 0 if it is not
  terminated.
\<close>

definition classEnd :: "string \<Rightarrow> nat" where
  "classEnd p =
     (if length p < 2 then 0
      else
        let i = (if p ! 1 = CHR ''^'' \<or> p ! 1 = CHR ''!'' then 2 else 1);
            i = (if i < length p \<and> p ! i = CHR '']'' then i + 1 else i);
            i = i + length (takeWhile (\<lambda>c. c \<noteq> CHR '']'') (drop i p))
        in if i = length p then 0 else i + 1)"

text \<open>\<open>matchClass\<close>: the loop over the class, where \<open>a-b\<close> is a range.\<close>

fun class_has :: "string \<Rightarrow> char \<Rightarrow> bool" where
  "class_has (a # d # b # r) c =
     (if d = CHR ''-'' then (byte a \<le> byte c \<and> byte c \<le> byte b) \<or> class_has r c
      else a = c \<or> class_has (d # b # r) c)"
| "class_has (a # r) c = (a = c \<or> class_has r c)"
| "class_has [] c = False"

definition matchClass :: "string \<Rightarrow> char \<Rightarrow> bool" where
  "matchClass p c =
     (let inner = take (length p - 2) (drop 1 p);
          negate = HasPrefix inner ''^'' \<or> HasPrefix inner ''!'';
          inner = (if negate then drop 1 inner else inner)
      in if negate then \<not> class_has inner c else class_has inner c)"

text \<open>
  \<open>globHere\<close>: \<open>i\<close> and \<open>j\<close> are the positions in the pattern and in the text, \<open>star\<close> the
  position of the last star and of the text it was met at (\<open>-1\<close> in the source is
  \<open>None\<close>). \<open>glob_advance\<close> is the switch of the loop: the next position in the pattern
  when the text's character is consumed.
\<close>

definition glob_advance :: "string \<Rightarrow> string \<Rightarrow> nat \<Rightarrow> nat \<Rightarrow> nat option" where
  "glob_advance p s i j =
     (if i < length p then
        if p ! i = CHR ''?'' then Some (i + 1)
        else if p ! i = CHR ''['' then
          (let e = classEnd (drop i p) in
           if e > 0 then
             (if matchClass (take e (drop i p)) (s ! j) then Some (i + e) else None)
           else if p ! i = s ! j then Some (i + 1) else None)
        else if p ! i = s ! j then Some (i + 1) else None
      else None)"

definition star_rest :: "string \<Rightarrow> nat \<Rightarrow> (nat \<times> nat) option \<Rightarrow> nat" where
  "star_rest p i star =
     max (length p - i) (case star of None \<Rightarrow> 0 | Some (sp, ss) \<Rightarrow> length p - (sp + 1))"

definition star_left :: "string \<Rightarrow> (nat \<times> nat) option \<Rightarrow> nat" where
  "star_left s star = (case star of None \<Rightarrow> 0 | Some (sp, ss) \<Rightarrow> length s - ss)"

lemma glob_advance_mono: "glob_advance p s i j = Some i' \<Longrightarrow> i < i'"
  by (auto simp: glob_advance_def Let_def split: if_splits)

function glob_loop :: "string \<Rightarrow> string \<Rightarrow> nat \<Rightarrow> nat \<Rightarrow> (nat \<times> nat) option \<Rightarrow> bool" where
  "glob_loop p s i j star =
     (if j < length s then
        if i < length p \<and> p ! i = CHR ''*'' then glob_loop p s (i + 1) j (Some (i, j))
        else
          (case glob_advance p s i j of
             Some i' \<Rightarrow> glob_loop p s i' (j + 1) star
           | None \<Rightarrow>
               (case star of
                  Some (sp, ss) \<Rightarrow> glob_loop p s (sp + 1) (ss + 1) (Some (sp, ss + 1))
                | None \<Rightarrow> False))
      else i + length (takeWhile (\<lambda>c. c = CHR ''*'') (drop i p)) \<ge> length p)"
  by pat_completeness auto
termination
  by (relation "measures [\<lambda>(p, s, i, j, star). star_rest p i star,
                          \<lambda>(p, s, i, j, star). star_left s star,
                          \<lambda>(p, s, i, j, star). length s - j]")
    (auto simp: star_rest_def star_left_def split: option.splits dest: glob_advance_mono)

declare glob_loop.simps [simp del]

definition globHere :: "string \<Rightarrow> string \<Rightarrow> bool" where
  "globHere p s = glob_loop p s 0 0 None"

definition globMatch :: "string \<Rightarrow> string \<Rightarrow> bool" where
  "globMatch pattern s = (if pattern = s then True else globHere pattern s)"

section \<open>Command specifications\<close>

text \<open>A nil \<open>Args\<close> is \<open>None\<close>: any arguments. An empty one is \<open>Some []\<close>: no arguments.\<close>

record CommandSpec =
  cs_Exec :: string
  cs_Args :: "string list option"

definition MatchesArgv :: "CommandSpec \<Rightarrow> string list \<Rightarrow> bool" where
  "MatchesArgv c argv =
     (case argv of
        [] \<Rightarrow> False
      | a0 # rest \<Rightarrow>
          if \<not> globMatch (cs_Exec c) a0 then False
          else (case cs_Args c of
                  None \<Rightarrow> True
                | Some args \<Rightarrow>
                    if length rest \<noteq> length args then False
                    else list_all2 globMatch args rest))"

definition MatchesAny :: "CommandSpec list \<Rightarrow> string list \<Rightarrow> bool" where
  "MatchesAny specs argv = list_ex (\<lambda>s. MatchesArgv s argv) specs"

section \<open>The backstop\<close>

definition dumpers :: "string list" where
  "dumpers =
     [''env'', ''printenv'', ''set'', ''export'', ''cat'', ''head'', ''tail'', ''less'', ''more'',
      ''echo'', ''printf'', ''tee'', ''cp'', ''mv'', ''dd'',
      ''base64'', ''xxd'', ''od'', ''hexdump'', ''strings'']"

definition interpretersWithInlineCode :: "(string \<times> string list) list" where
  "interpretersWithInlineCode =
     [(''sh'', [''-c'']), (''bash'', [''-c'']), (''zsh'', [''-c'']), (''fish'', [''-c'']),
      (''python'', [''-c'']), (''python3'', [''-c'']),
      (''node'', [''-e'', ''--eval'']), (''perl'', [''-e'']), (''ruby'', [''-e'']),
      (''php'', [''-r'']), (''awk'', ['''']), (''gawk'', ['''']), (''osascript'', [''-e''])]"

text \<open>The final path element: what follows the last slash.\<close>

definition basename :: "string \<Rightarrow> string" where
  "basename s = rev (takeWhile (\<lambda>c. c \<noteq> CHR ''/'') (rev s))"

definition interpreterRefused :: "string list \<Rightarrow> string list \<Rightarrow> bool" where
  "interpreterRefused argv inlineFlags =
     (if length inlineFlags = 1 \<and> hd inlineFlags = [] then
        if list_ex (\<lambda>a. a = ''-f'' \<or> HasPrefix a ''-f'') (tl argv) then False
        else length argv > 1
      else
        list_ex (\<lambda>a. list_ex (\<lambda>f. a = f \<or> HasPrefix a (f @ ''='')
                                   \<or> (length f > 1 \<and> HasPrefix a f)) inlineFlags) (tl argv))"

definition Refuses :: "string list \<Rightarrow> bool" where
  "Refuses argv =
     (case argv of
        [] \<Rightarrow> False
      | a0 # _ \<Rightarrow>
          if basename a0 \<in> set dumpers then True
          else (case map_of interpretersWithInlineCode (basename a0) of
                  Some flags \<Rightarrow> interpreterRefused argv flags
                | None \<Rightarrow> False))"

section \<open>The meaning of a pattern\<close>

datatype token = Star | AnyChar | Class string | Lit char

function tokens :: "string \<Rightarrow> token list" where
  "tokens [] = []"
| "tokens (c # r) =
     (if c = CHR ''*'' then Star # tokens r
      else if c = CHR ''?'' then AnyChar # tokens r
      else if c = CHR ''['' \<and> classEnd (c # r) > 0
        then Class (take (classEnd (c # r)) (c # r)) # tokens (drop (classEnd (c # r)) (c # r))
      else Lit c # tokens r)"
  by pat_completeness auto
termination by (relation "measure length") auto

fun tok_ok :: "token \<Rightarrow> char \<Rightarrow> bool" where
  "tok_ok Star c = False"
| "tok_ok AnyChar c = True"
| "tok_ok (Class p) c = matchClass p c"
| "tok_ok (Lit d) c = (d = c)"

fun glob_spec :: "token list \<Rightarrow> string \<Rightarrow> bool" where
  "glob_spec [] s = (s = [])"
| "glob_spec (Star # ts) [] = glob_spec ts []"
| "glob_spec (Star # ts) (c # s) = (glob_spec ts (c # s) \<or> glob_spec (Star # ts) s)"
| "glob_spec (t # ts) [] = False"
| "glob_spec (t # ts) (c # s) = (tok_ok t c \<and> glob_spec ts s)"

lemma glob_spec_Star: "glob_spec (Star # ts) s \<longleftrightarrow> (\<exists>k \<le> length s. glob_spec ts (drop k s))"
proof (induction s)
  case (Cons c s)
  show ?case
  proof
    assume "glob_spec (Star # ts) (c # s)"
    then consider "glob_spec ts (c # s)" | k where "k \<le> length s" "glob_spec ts (drop k s)"
      using Cons.IH by auto
    then show "\<exists>k \<le> length (c # s). glob_spec ts (drop k (c # s))"
    proof cases
      case 1
      then show ?thesis by (intro exI [of _ 0]) simp
    next
      case (2 k)
      then show ?thesis by (intro exI [of _ "Suc k"]) simp
    qed
  next
    assume "\<exists>k \<le> length (c # s). glob_spec ts (drop k (c # s))"
    then obtain k where "k \<le> length (c # s)" "glob_spec ts (drop k (c # s))" by blast
    then show "glob_spec (Star # ts) (c # s)" using Cons.IH by (cases k) auto
  qed
qed simp

text \<open>\<open>consumes ts x\<close>: the star-free tokens \<open>ts\<close> match \<open>x\<close> character by character.\<close>

definition consumes :: "token list \<Rightarrow> string \<Rightarrow> bool" where
  "consumes ts x \<longleftrightarrow> Star \<notin> set ts \<and> list_all2 tok_ok ts x"

lemma glob_spec_consumes:
  "consumes ts x \<Longrightarrow> glob_spec (ts @ us) (x @ y) = glob_spec us y"
proof (induction ts arbitrary: x)
  case (Cons t ts)
  then show ?case by (cases t; cases x) (auto simp: consumes_def)
qed (simp add: consumes_def)

lemma glob_spec_split:
  "Star \<notin> set ts \<Longrightarrow> glob_spec (ts @ us) s \<Longrightarrow>
     length ts \<le> length s \<and> glob_spec us (drop (length ts) s)"
proof (induction ts arbitrary: s)
  case (Cons t ts)
  then show ?case by (cases t; cases s) auto
qed simp

lemma tokens_Cons_cases:
  assumes "i < length p" and "p ! i \<noteq> CHR ''*''"
  shows "\<exists>t. t \<noteq> Star \<and> (\<exists>i' > i. tokens (drop i p) = t # tokens (drop i' p)
    \<and> glob_advance p s i j = (if tok_ok t (s ! j) then Some i' else None))"
proof -
  have d: "drop i p = p ! i # drop (Suc i) p" using assms(1) by (simp add: Cons_nth_drop_Suc)
  consider "p ! i = CHR ''?''"
    | "p ! i = CHR ''[''" "classEnd (drop i p) > 0"
    | "p ! i \<noteq> CHR ''?''" "p ! i = CHR ''['' \<longrightarrow> classEnd (drop i p) = 0"
    by auto
  then show ?thesis
  proof cases
    case 1
    then show ?thesis
      using assms d by (intro exI [of _ AnyChar] conjI exI [of _ "Suc i"]) (auto simp: glob_advance_def)
  next
    case 2
    let ?e = "classEnd (drop i p)"
    have "tokens (drop i p) = Class (take ?e (drop i p)) # tokens (drop (i + ?e) p)"
    proof -
      have c: "CHR ''['' # drop (Suc i) p = drop i p" using 2 d by simp
      show ?thesis
        using tokens.simps(2) [of "CHR ''[''" "drop (Suc i) p"] 2 by (simp add: c add.commute)
    qed
    then show ?thesis
      using assms 2
      by (intro exI [of _ "Class (take ?e (drop i p))"] conjI exI [of _ "i + ?e"])
        (auto simp: glob_advance_def Let_def)
  next
    case 3
    have "tokens (drop i p) = Lit (p ! i) # tokens (drop (Suc i) p)"
      using assms 3 by (subst d, subst tokens.simps) (simp add: d [symmetric])
    then show ?thesis
      using assms 3
      by (intro exI [of _ "Lit (p ! i)"] conjI exI [of _ "Suc i"]) (auto simp: glob_advance_def)
  qed
qed

lemma tokens_drop_Star:
  "i < length p \<Longrightarrow> p ! i = CHR ''*'' \<Longrightarrow> tokens (drop i p) = Star # tokens (drop (Suc i) p)"
  by (simp add: Cons_nth_drop_Suc [symmetric])

lemma glob_spec_empty_text: "glob_spec ts [] \<longleftrightarrow> (\<forall>t \<in> set ts. t = Star)"
proof (induction ts)
  case (Cons t ts)
  then show ?case by (cases t) auto
qed simp

lemma tokens_all_Star:
  "(\<forall>t \<in> set (tokens p). t = Star) \<longleftrightarrow> length (takeWhile (\<lambda>c. c = CHR ''*'') p) \<ge> length p"
proof (induction p)
  case (Cons c p)
  then show ?case by (cases "c = CHR ''*''") auto
qed simp

section \<open>The loop decides the meaning\<close>

text \<open>
  The tokens between the last star and the position in the pattern have consumed the text
  between the position of the star and the position in the text; the loop then decides
  whether the tokens from the last star on match the text from there on.
\<close>

definition glob_inv :: "string \<Rightarrow> string \<Rightarrow> nat \<Rightarrow> nat \<Rightarrow> (nat \<times> nat) option \<Rightarrow> bool" where
  "glob_inv p s i j star \<longleftrightarrow>
     j \<le> length s \<and>
     (case star of None \<Rightarrow> True
      | Some (sp, ss) \<Rightarrow> ss \<le> j \<and>
          (\<exists>done. tokens (drop (Suc sp) p) = done @ tokens (drop i p)
             \<and> consumes done (take (j - ss) (drop ss s))))"

definition glob_target :: "string \<Rightarrow> string \<Rightarrow> nat \<Rightarrow> nat \<Rightarrow> (nat \<times> nat) option \<Rightarrow> bool" where
  "glob_target p s i j star =
     (case star of None \<Rightarrow> glob_spec (tokens (drop i p)) (drop j s)
      | Some (sp, ss) \<Rightarrow> glob_spec (Star # tokens (drop (Suc sp) p)) (drop ss s))"

lemma consumes_length: "consumes ts x \<Longrightarrow> length ts = length x"
  by (auto simp: consumes_def dest: list_all2_lengthD)

text \<open>What the tokens matched since the star mean for the rest.\<close>

lemma star_segment:
  assumes c: "consumes d (take (j - ss) (drop ss s))" and "ss \<le> j" "j \<le> length s"
  shows "glob_spec (d @ us) (drop ss s) = glob_spec us (drop j s)"
    and "glob_spec (Star # d @ us) (drop ss s) \<Longrightarrow>
      \<exists>k \<le> length s - j. glob_spec us (drop (j + k) s)"
proof -
  have len: "length d = j - ss" using consumes_length [OF c] assms(2,3) by simp
  have "drop ss s = take (j - ss) (drop ss s) @ drop j s"
    using assms(2) by (metis append_take_drop_id drop_drop le_add_diff_inverse2)
  then show "glob_spec (d @ us) (drop ss s) = glob_spec us (drop j s)"
    using glob_spec_consumes [OF c, of us "drop j s"] by simp
  assume "glob_spec (Star # d @ us) (drop ss s)"
  then obtain k where k: "k \<le> length s - ss" "glob_spec (d @ us) (drop (k + ss) s)"
    by (auto simp: glob_spec_Star add.commute)
  then have "length d \<le> length s - (k + ss)" "glob_spec us (drop (length d + (k + ss)) s)"
    using glob_spec_split [of d us "drop (k + ss) s"] c by (auto simp: consumes_def)
  then show "\<exists>k \<le> length s - j. glob_spec us (drop (j + k) s)"
    using len assms(2,3) k by (intro exI [of _ k]) (auto simp: algebra_simps)
qed

lemma glob_target_star:
  assumes "glob_inv p s i j star" and "i < length p" and "p ! i = CHR ''*''"
  shows "glob_target p s i j star = glob_spec (Star # tokens (drop (Suc i) p)) (drop j s)"
proof (cases star)
  case None
  then show ?thesis using assms by (simp add: glob_target_def tokens_drop_Star del: glob_spec.simps)
next
  case (Some st)
  then obtain sp ss d where st: "star = Some (sp, ss)" "ss \<le> j" "j \<le> length s"
    and d: "tokens (drop (Suc sp) p) = d @ Star # tokens (drop (Suc i) p)"
      "consumes d (take (j - ss) (drop ss s))"
    using assms by (cases st) (auto simp: glob_inv_def tokens_drop_Star)
  let ?T = "tokens (drop (Suc i) p)"
  note seg = star_segment [OF d(2) st(2,3), of "Star # ?T"]
  have "glob_spec (Star # d @ Star # ?T) (drop ss s) = glob_spec (Star # ?T) (drop j s)"
  proof
    assume "glob_spec (Star # d @ Star # ?T) (drop ss s)"
    then obtain k where "k \<le> length s - j" "glob_spec (Star # ?T) (drop (j + k) s)"
      using seg(2) by blast
    then obtain k' where "k' \<le> length s - (j + k)" "glob_spec ?T (drop (k' + (j + k)) s)"
      by (auto simp: glob_spec_Star)
    then show "glob_spec (Star # ?T) (drop j s)"
      using \<open>k \<le> length s - j\<close>
      by (subst glob_spec_Star) (auto intro!: exI [of _ "k' + k"] simp: algebra_simps)
  next
    assume "glob_spec (Star # ?T) (drop j s)"
    then have "glob_spec (d @ Star # ?T) (drop ss s)" using seg(1) by simp
    then show "glob_spec (Star # d @ Star # ?T) (drop ss s)"
      by (subst glob_spec_Star) (auto intro: exI [of _ 0])
  qed
  then show ?thesis using st d by (simp add: glob_target_def del: glob_spec.simps)
qed

lemma glob_target_end:
  assumes "glob_inv p s i j star" and "j = length s"
  shows "glob_target p s i j star = glob_spec (tokens (drop i p)) []"
proof (cases star)
  case None
  then show ?thesis using assms by (simp add: glob_target_def)
next
  case (Some st)
  then obtain sp ss d where st: "star = Some (sp, ss)" "ss \<le> j" "j \<le> length s"
    and d: "tokens (drop (Suc sp) p) = d @ tokens (drop i p)"
      "consumes d (take (j - ss) (drop ss s))"
    using assms by (cases st) (auto simp: glob_inv_def)
  note seg = star_segment [OF d(2) st(2,3), of "tokens (drop i p)"]
  have "glob_spec (Star # d @ tokens (drop i p)) (drop ss s) = glob_spec (tokens (drop i p)) []"
    using seg assms(2) by (auto simp: glob_spec_Star intro: exI [of _ 0])
  then show ?thesis using st d by (simp add: glob_target_def del: glob_spec.simps)
qed

lemma glob_no_advance:
  assumes "j < length s" "\<not> (i < length p \<and> p ! i = CHR ''*'')" "glob_advance p s i j = None"
  shows "\<not> glob_spec (tokens (drop i p)) (drop j s)"
proof -
  have s: "drop j s = s ! j # drop (Suc j) s" using assms(1) by (simp add: Cons_nth_drop_Suc)
  show ?thesis
  proof (cases "i < length p")
    case True
    then obtain t i' where "t \<noteq> Star" "tokens (drop i p) = t # tokens (drop i' p)" "\<not> tok_ok t (s ! j)"
      using tokens_Cons_cases [of i p s j] assms by (auto split: if_splits)
    then show ?thesis by (cases t) (simp_all add: s)
  qed (simp add: s)
qed

lemma glob_advance_step:
  assumes "j < length s" "\<not> (i < length p \<and> p ! i = CHR ''*'')" "glob_advance p s i j = Some i'"
    and "glob_inv p s i j star"
  shows "glob_inv p s i' (j + 1) star \<and> glob_target p s i j star = glob_target p s i' (j + 1) star"
proof -
  have i: "i < length p" using assms(3) by (auto simp: glob_advance_def split: if_splits)
  then obtain t where t: "t \<noteq> Star" "tokens (drop i p) = t # tokens (drop i' p)" "tok_ok t (s ! j)"
    using tokens_Cons_cases [of i p s j] assms(2,3) by (auto split: if_splits)
  have s: "drop j s = s ! j # drop (Suc j) s" using assms(1) by (simp add: Cons_nth_drop_Suc)
  have "glob_spec (tokens (drop i p)) (drop j s) = glob_spec (tokens (drop i' p)) (drop (Suc j) s)"
    using t by (cases t) (simp_all add: s)
  moreover have "consumes (d @ [t]) (take (Suc j - ss) (drop ss s))"
    if "consumes d (take (j - ss) (drop ss s))" "ss \<le> j" for d ss
  proof -
    have "take (Suc j - ss) (drop ss s) = take (j - ss) (drop ss s) @ [s ! j]"
      using that(2) assms(1) by (simp add: Suc_diff_le take_Suc_conv_app_nth)
    then show ?thesis using that t consumes_length [OF that(1)]
      by (auto simp: consumes_def intro!: list_all2_appendI)
  qed
  ultimately show ?thesis
    using assms(1,4) t by (fastforce simp: glob_inv_def glob_target_def split: option.splits)
qed

lemma glob_loop_correct:
  "glob_inv p s i j star \<Longrightarrow> glob_loop p s i j star = glob_target p s i j star"
proof (induction p s i j star rule: glob_loop.induct)
  case (1 p s i j star)
  let ?star = "i < length p \<and> p ! i = CHR ''*''"
  show ?case
  proof (cases "j < length s")
    case False
    then have "j = length s" using "1.prems" by (auto simp: glob_inv_def)
    moreover have "glob_loop p s i j star = glob_spec (tokens (drop i p)) []"
      using False by (subst glob_loop.simps)
        (auto simp: glob_spec_empty_text tokens_all_Star)
    ultimately show ?thesis using glob_target_end "1.prems" by simp
  next
    case j: True
    show ?thesis
    proof (cases ?star)
      case True
      have "glob_inv p s (i + 1) j (Some (i, j))"
        using j by (auto simp: glob_inv_def consumes_def)
      then have "glob_loop p s i j star = glob_target p s (i + 1) j (Some (i, j))"
        using "1.IH"(1) j True by (subst glob_loop.simps) simp
      also have "\<dots> = glob_spec (Star # tokens (drop (Suc i) p)) (drop j s)"
        by (simp add: glob_target_def)
      finally show ?thesis using glob_target_star [OF "1.prems"] True by simp
    next
      case no_star: False
      show ?thesis
      proof (cases "glob_advance p s i j")
        case (Some i')
        note step = glob_advance_step [OF j no_star Some "1.prems"]
        then show ?thesis
          using "1.IH"(3) [OF j no_star Some] j no_star Some by (subst glob_loop.simps) auto
      next
        case None
        note fail = glob_no_advance [OF j no_star None]
        show ?thesis
        proof (cases star)
          case n: None
          then show ?thesis
            using j no_star None fail by (subst glob_loop.simps) (auto simp: glob_target_def)
        next
          case (Some st)
          then obtain sp ss d where st: "star = Some (sp, ss)" "ss \<le> j" "j \<le> length s"
            and d: "tokens (drop (Suc sp) p) = d @ tokens (drop i p)"
              "consumes d (take (j - ss) (drop ss s))"
            using "1.prems" by (cases st) (auto simp: glob_inv_def)
          have "glob_inv p s (sp + 1) (ss + 1) (Some (sp, ss + 1))"
            using st j by (auto simp: glob_inv_def consumes_def)
          then have "glob_loop p s i j star = glob_target p s (sp + 1) (ss + 1) (Some (sp, ss + 1))"
            using "1.IH"(2) [OF j no_star None st(1) refl] j no_star None st
            by (subst glob_loop.simps) auto
          moreover have "drop ss s = s ! ss # drop (Suc ss) s"
            using st j by (simp add: Cons_nth_drop_Suc)
          moreover have "\<not> glob_spec (tokens (drop (Suc sp) p)) (drop ss s)"
            using star_segment(1) [OF d(2) st(2,3)] d(1) fail by simp
          ultimately show ?thesis using st by (simp add: glob_target_def)
        qed
      qed
    qed
  qed
qed

lemma globHere_iff: "globHere p s = glob_spec (tokens p) s"
  using glob_loop_correct [of p s 0 0 None]
  by (simp add: globHere_def glob_inv_def glob_target_def)

section \<open>Literal patterns\<close>

definition literal :: "string \<Rightarrow> bool" where
  "literal p \<longleftrightarrow> CHR ''*'' \<notin> set p \<and> CHR ''?'' \<notin> set p \<and> CHR ''['' \<notin> set p"

lemma tokens_literal_append: "literal p \<Longrightarrow> tokens (p @ q) = map Lit p @ tokens q"
  by (induction p) (auto simp: literal_def)

lemma glob_spec_Lit: "glob_spec (map Lit p @ us) s \<longleftrightarrow> (\<exists>t. s = p @ t \<and> glob_spec us t)"
proof (induction p arbitrary: s)
  case (Cons c p)
  then show ?case by (cases s) auto
qed simp

lemma glob_spec_only_Star: "glob_spec [Star] s"
  by (subst glob_spec_Star) (auto intro: exI [of _ "length s"])

lemma globMatch_literal: "literal p \<Longrightarrow> globMatch p s \<longleftrightarrow> s = p"
  using tokens_literal_append [of p "[]"] glob_spec_Lit [of p "[]" s]
  by (auto simp: globMatch_def globHere_iff)

lemma list_all2_literal:
  "\<forall>p \<in> set ps. literal p \<Longrightarrow> list_all2 globMatch ps xs \<longleftrightarrow> xs = ps"
  by (induction ps arbitrary: xs) (auto simp: list_all2_Cons1 globMatch_literal)

section \<open>Properties of the command policy\<close>

text \<open>
  C22. The iterative matcher with backtracking on the last star decides the recursive
  meaning of the pattern: a star stands for any run of characters, a question mark for one
  character, a class for one of its characters, anything else for itself; and a text always
  matches the pattern equal to it.
\<close>

theorem globMatch_meaning:
  "globMatch pattern s \<longleftrightarrow> pattern = s \<or> glob_spec (tokens pattern) s"
  by (auto simp: globMatch_def globHere_iff)

text \<open>
  A literal pattern followed by a star is a prefix test: the star also runs over
  separators, so the pattern for the paths below a directory or an URL admits every text
  that starts with it, however many further path elements it has.
\<close>

theorem globMatch_star_is_prefix:
  assumes "literal p"
  shows "globMatch (p @ ''*'') s \<longleftrightarrow> HasPrefix s p"
proof -
  have "glob_spec (tokens (p @ ''*'')) s \<longleftrightarrow> HasPrefix s p"
    using glob_spec_Lit [of p "[Star]" s] glob_spec_only_Star
    by (simp add: tokens_literal_append [OF assms] HasPrefix_def prefix_def del: glob_spec.simps)
  then show ?thesis by (auto simp: globMatch_def globHere_iff HasPrefix_def)
qed

lemma globMatch_star_is_prefix_witness:
  "literal ''/opt/app/'' \<and> globMatch (''/opt/app/'' @ ''*'') ''/opt/app/../../bin/sh''"
proof -
  have l: "literal ''/opt/app/''" by (simp add: literal_def)
  have "HasPrefix ''/opt/app/../../bin/sh'' ''/opt/app/''" by (simp add: HasPrefix_def)
  then show ?thesis using l globMatch_star_is_prefix [OF l] by blast
qed

text \<open>
  A specification of literal patterns admits exactly one argument vector; with nil
  arguments it admits the executable with any arguments, with an empty list of arguments
  only the executable alone.
\<close>

theorem literal_spec_admits:
  assumes "literal e" and "\<forall>p \<in> set ps. literal p"
  shows "(MatchesArgv \<lparr>cs_Exec = e, cs_Args = Some ps\<rparr> argv \<longleftrightarrow> argv = e # ps) \<and>
    (MatchesArgv \<lparr>cs_Exec = e, cs_Args = None\<rparr> argv \<longleftrightarrow> (\<exists>rest. argv = e # rest))"
  using assms list_all2_literal [OF assms(2)]
  by (auto simp: MatchesArgv_def globMatch_literal split: list.splits)

lemma literal_spec_admits_witness:
  "\<not> MatchesArgv \<lparr>cs_Exec = ''/bin/ls'', cs_Args = Some []\<rparr> [''/bin/ls'', ''-l''] \<and>
   MatchesArgv \<lparr>cs_Exec = ''/bin/ls'', cs_Args = None\<rparr> [''/bin/ls'', ''-l'']"
proof -
  have "literal ''/bin/ls''" by (simp add: literal_def)
  then show ?thesis using literal_spec_admits [of "''/bin/ls''" "[]"] by simp
qed

text \<open>
  The backstop judges a command by the last element of its path: no directory in front
  of it changes the verdict, and every known dumper is refused wherever it lies and whatever
  its arguments.
\<close>

theorem Refuses_by_basename:
  assumes "CHR ''/'' \<notin> set name"
  shows "Refuses ((dir @ ''/'' @ name) # args) = Refuses (name # args) \<and>
    (name \<in> set dumpers \<longrightarrow> Refuses ((dir @ ''/'' @ name) # args))"
proof -
  have tw: "takeWhile (\<lambda>c. c \<noteq> CHR ''/'') (rev name @ xs)
      = rev name @ takeWhile (\<lambda>c. c \<noteq> CHR ''/'') xs" for xs
    using assms by (intro takeWhile_append2) auto
  have b1: "basename name = name"
    using tw [of "[]"] by (simp only: append_Nil2 takeWhile.simps rev_rev_ident basename_def)
  have b2: "basename (dir @ ''/'' @ name) = name"
    by (simp add: basename_def tw del: takeWhile_eq_all_conv)
  have "interpreterRefused ((dir @ ''/'' @ name) # args) fs = interpreterRefused (name # args) fs" for fs
    by (simp add: interpreterRefused_def)
  then have "Refuses ((dir @ ''/'' @ name) # args) = Refuses (name # args)"
    by (simp only: Refuses_def b1 b2 list.case)
  moreover have "name \<in> set dumpers \<Longrightarrow> Refuses ((dir @ ''/'' @ name) # args)"
    by (simp only: Refuses_def b2 list.case if_True)
  ultimately show ?thesis by blast
qed

lemma Refuses_by_basename_witness:
  "Refuses ((''/usr/bin'' @ ''/'' @ ''python3'') # [''-cimport os'']) \<and>
   \<not> Refuses ((''/usr/bin'' @ ''/'' @ ''python3'') # [''script.py'']) \<and>
   Refuses ((''/usr/bin'' @ ''/'' @ ''env'') # [])"
proof -
  have "Refuses (''python3'' # [''-cimport os''])" "\<not> Refuses (''python3'' # [''script.py''])"
    "Refuses [''env'']"
    by code_simp+
  then show ?thesis
    using Refuses_by_basename [of "''python3''" "''/usr/bin''"]
      Refuses_by_basename [of "''env''" "''/usr/bin''" "[]"]
    by simp
qed

end
