(* ===== verification/Protocol_Errors.thy ===== *)
theory Protocol_Errors
  imports Prelude
begin

text \<open>
  The vocabulary of the package \<open>protocol\<close> (errors.go, protocol.go): Go errors, of which a
  \<open>Denial\<close> carries a machine-readable reason for the audit log, the version and scheme of
  the wire formats, the closed list of signature algorithms and the closed list of scopes.
  Every fallible operation of the development returns \<open>go_error + 'a\<close>.
\<close>

section \<open>Errors\<close>

datatype go_error = Denial string | Err string

type_synonym 'a result = "go_error + 'a"

definition is_err :: "'a result \<Rightarrow> bool" where
  "is_err r = (case r of Inl _ \<Rightarrow> True | Inr _ \<Rightarrow> False)"

text \<open>What a caller sees of an error, and what the audit log sees.\<close>

definition Error :: "go_error \<Rightarrow> string" where
  "Error e = (case e of Denial _ \<Rightarrow> ''denied'' | Err m \<Rightarrow> m)"

definition NewDenial :: "string \<Rightarrow> go_error" where
  "NewDenial reason = Denial reason"

definition ReasonOf :: "go_error \<Rightarrow> string" where
  "ReasonOf e = (case e of Denial r \<Rightarrow> r | Err _ \<Rightarrow> [])"

definition ReasonMalformed :: string where "ReasonMalformed = ''malformed''"
definition ReasonSignatureInvalid :: string where "ReasonSignatureInvalid = ''signature_invalid''"
definition ReasonAlgNotAllowed :: string where "ReasonAlgNotAllowed = ''alg_not_allowed''"
definition ReasonKidMissing :: string where "ReasonKidMissing = ''kid_missing''"
definition ReasonKidUnknown :: string where "ReasonKidUnknown = ''kid_unknown''"
definition ReasonExpired :: string where "ReasonExpired = ''exp''"
definition ReasonNotYetValid :: string where "ReasonNotYetValid = ''nbf''"
definition ReasonAudienceMismatch :: string where "ReasonAudienceMismatch = ''aud''"
definition ReasonScopeNotGranted :: string where "ReasonScopeNotGranted = ''scope''"
definition ReasonRevoked :: string where "ReasonRevoked = ''revoked''"
definition ReasonSIDPathMismatch :: string where "ReasonSIDPathMismatch = ''sid_path_mismatch''"
definition ReasonUnsupportedVersion :: string where "ReasonUnsupportedVersion = ''unsupported_version''"
definition ReasonPolicyDenied :: string where "ReasonPolicyDenied = ''policy_denied''"
definition ReasonKeystoreUnreachable :: string where "ReasonKeystoreUnreachable = ''keystore_unreachable''"
definition ReasonNoResolver :: string where "ReasonNoResolver = ''no_resolver''"

lemmas Reason_defs =
  ReasonMalformed_def ReasonSignatureInvalid_def ReasonAlgNotAllowed_def ReasonKidMissing_def
  ReasonKidUnknown_def ReasonExpired_def ReasonNotYetValid_def ReasonAudienceMismatch_def
  ReasonScopeNotGranted_def ReasonRevoked_def ReasonSIDPathMismatch_def
  ReasonUnsupportedVersion_def ReasonPolicyDenied_def ReasonKeystoreUnreachable_def
  ReasonNoResolver_def

section \<open>Versions, algorithms, scopes\<close>

definition Version :: string where "Version = ''1''"
definition URIScheme :: string where "URIScheme = ''safekey''"
definition TokenType :: string where "TokenType = ''safekey-token+jws''"

definition AlgEdDSA :: string where "AlgEdDSA = ''EdDSA''"
definition AlgES256 :: string where "AlgES256 = ''ES256''"

definition AllowedAlgorithms :: "string list" where
  "AllowedAlgorithms = [AlgEdDSA, AlgES256]"

definition IsAlgorithmAllowed :: "string \<Rightarrow> bool" where
  "IsAlgorithmAllowed alg = list_ex (\<lambda>a. a = alg) AllowedAlgorithms"

definition ScopeRead :: string where "ScopeRead = ''read''"
definition ScopeUnwrap :: string where "ScopeUnwrap = ''unwrap''"
definition ScopeInjectEnv :: string where "ScopeInjectEnv = ''inject-env''"
definition ScopeInjectFile :: string where "ScopeInjectFile = ''inject-file''"
definition ScopeSign :: string where "ScopeSign = ''sign''"

definition AllScopes :: "string list" where
  "AllScopes = [ScopeRead, ScopeUnwrap, ScopeInjectEnv, ScopeInjectFile, ScopeSign]"

definition IsScopeValid :: "string \<Rightarrow> bool" where
  "IsScopeValid s = list_ex (\<lambda>a. a = s) AllScopes"

definition ScopeAllows :: "string list \<Rightarrow> string \<Rightarrow> bool" where
  "ScopeAllows granted requested = list_ex (\<lambda>g. g = requested) granted"

lemma ScopeAllows_iff [simp]: "ScopeAllows granted requested \<longleftrightarrow> requested \<in> set granted"
  by (auto simp: ScopeAllows_def list_ex_iff)

lemma IsAlgorithmAllowed_iff: "IsAlgorithmAllowed alg \<longleftrightarrow> alg = AlgEdDSA \<or> alg = AlgES256"
  by (auto simp: IsAlgorithmAllowed_def AllowedAlgorithms_def)

lemma IsScopeValid_iff: "IsScopeValid s \<longleftrightarrow> s \<in> set AllScopes"
  by (auto simp: IsScopeValid_def list_ex_iff)

lemma ReasonOf_simps [simp]: "ReasonOf (Denial r) = r" "ReasonOf (Err m) = []"
  by (simp_all add: ReasonOf_def)

lemma is_err_simps [simp]: "is_err (Inl e)" "\<not> is_err (Inr x)"
  by (simp_all add: is_err_def)

end
