(* ===== verification/Json.thy ===== *)
theory Json
  imports Encoding
begin

text \<open>
  The part of Go's \<open>encoding/json\<close> that the sources use: the grammar with the decoding of
  string literals, \<open>Marshal\<close> with its HTML escaping, and the rules by which a value is
  stored in a Go variable (\<open>null\<close> leaves the variable alone, a value of another type is an
  error, an object member is matched to a field by its name, exactly or up to case).

  \<open>Unmarshal\<close> accepts one value and nothing after it; \<open>Decoder.Decode\<close> reads the first
  value and leaves the rest of the input. An error of either discards the target in every
  caller, so a failed decoding is \<open>None\<close>.
\<close>

section \<open>Values and characters\<close>

datatype json =
    JNull
  | JBool bool
  | JNum string
  | JStr string
  | JArr "json list"
  | JObj "(string \<times> json) list"

definition is_space :: "char \<Rightarrow> bool" where
  "is_space c \<longleftrightarrow> c = CHR '' '' \<or> c = CHR 0x09 \<or> c = CHR 0x0D \<or> c = CHR 0x0A"

definition skip_ws :: "string \<Rightarrow> string" where
  "skip_ws s = dropWhile is_space s"

definition encode_rune :: "nat \<Rightarrow> string" where
  "encode_rune r =
     (if r < 128 then [char_of r]
      else if r < 2048 then [char_of (192 + r div 64), char_of (128 + r mod 64)]
      else if r < 65536 then
        [char_of (224 + r div 4096), char_of (128 + r div 64 mod 64), char_of (128 + r mod 64)]
      else
        [char_of (240 + r div 262144), char_of (128 + r div 4096 mod 64),
         char_of (128 + r div 64 mod 64), char_of (128 + r mod 64)])"

text \<open>The replacement character U+FFFD, in UTF-8.\<close>

definition RuneError :: string where
  "RuneError = [CHR 0xEF, CHR 0xBF, CHR 0xBD]"

section \<open>Reading\<close>

text \<open>The four hexadecimal digits of a \<open>\u\<close> escape.\<close>

fun hex4 :: "string \<Rightarrow> (nat \<times> string) option" where
  "hex4 (a # b # c # d # r) =
     (case (hex_val a, hex_val b, hex_val c, hex_val d) of
        (Some x, Some y, Some z, Some w) \<Rightarrow> Some (((x * 16 + y) * 16 + z) * 16 + w, r)
      | _ \<Rightarrow> None)"
| "hex4 s = None"

definition simple_escape :: "char \<Rightarrow> char option" where
  "simple_escape c =
     (if c = CHR 0x22 \<or> c = CHR 0x5C \<or> c = CHR ''/'' then Some c
      else if c = CHR ''b'' then Some (CHR 0x08)
      else if c = CHR ''f'' then Some (CHR 0x0C)
      else if c = CHR ''n'' then Some (CHR 0x0A)
      else if c = CHR ''r'' then Some (CHR 0x0D)
      else if c = CHR ''t'' then Some (CHR 0x09)
      else None)"

text \<open>
  A \<open>\u\<close> escape at the point after the \<open>u\<close>: a surrogate is combined with the \<open>\u\<close> escape
  that follows when the two form a pair, and is U+FFFD otherwise.
\<close>

definition unicode_escape :: "string \<Rightarrow> (string \<times> string) option" where
  "unicode_escape s =
     (case hex4 s of
        None \<Rightarrow> None
      | Some (r, s1) \<Rightarrow>
          if 55296 \<le> r \<and> r < 57344 then
            (case s1 of
               a # b # s2 \<Rightarrow>
                 (if a = CHR 0x5C \<and> b = CHR ''u'' then
                    (case hex4 s2 of
                       Some (r2, s3) \<Rightarrow>
                         if r < 56320 \<and> 56320 \<le> r2 \<and> r2 < 57344
                         then Some (encode_rune ((r - 55296) * 1024 + (r2 - 56320) + 65536), s3)
                         else Some (RuneError, s1)
                     | None \<Rightarrow> Some (RuneError, s1))
                  else Some (RuneError, s1))
             | _ \<Rightarrow> Some (RuneError, s1))
          else Some (encode_rune r, s1))"

text \<open>The inside of a string literal, up to and including the closing quote.\<close>

lemma hex4_shorter: "hex4 s = Some (r, s') \<Longrightarrow> length s' < length s"
  by (induction s rule: hex4.induct) (auto split: option.splits)

lemma unicode_escape_shorter: "unicode_escape s = Some (x, s') \<Longrightarrow> length s' < length s"
  by (auto simp: unicode_escape_def dest!: hex4_shorter split: option.splits if_splits list.splits)

definition prepend :: "string \<Rightarrow> (string \<times> string) option \<Rightarrow> (string \<times> string) option" where
  "prepend x res = (case res of None \<Rightarrow> None | Some (y, r) \<Rightarrow> Some (x @ y, r))"

function parse_chars :: "string \<Rightarrow> (string \<times> string) option" where
  "parse_chars s =
     (case s of
        [] \<Rightarrow> None
      | c # r \<Rightarrow>
          if c = CHR 0x22 then Some ([], r)
          else if c = CHR 0x5C then
            (case r of
               [] \<Rightarrow> None
             | e # r1 \<Rightarrow>
                 if e = CHR ''u'' then
                   (case unicode_escape r1 of
                      None \<Rightarrow> None
                    | Some (x, r2) \<Rightarrow> prepend x (parse_chars r2))
                 else
                   (case simple_escape e of
                      None \<Rightarrow> None
                    | Some x \<Rightarrow> prepend [x] (parse_chars r1)))
          else if byte c < 32 then None
          else
            (case decode_rune s of
               None \<Rightarrow> prepend RuneError (parse_chars r)
             | Some (u, n) \<Rightarrow> prepend (take n s) (parse_chars (drop n s))))"
  by pat_completeness auto
termination
  by (relation "measure length")
    (auto simp del: decode_rune.simps dest!: unicode_escape_shorter decode_rune_size)

declare parse_chars.simps [simp del]

text \<open>A number: an optional sign, an integer without leading zeros, a fraction, an exponent.\<close>

definition digits :: "string \<Rightarrow> string \<times> string" where
  "digits s = (takeWhile is_digit s, dropWhile is_digit s)"

definition parse_frac :: "string \<Rightarrow> (string \<times> string) option" where
  "parse_frac s =
     (case s of
        c # r \<Rightarrow>
          if c = CHR ''.'' then
            (case digits r of (ds, r') \<Rightarrow> if ds = [] then None else Some (c # ds, r'))
          else Some ([], s)
      | [] \<Rightarrow> Some ([], s))"

definition parse_exp :: "string \<Rightarrow> (string \<times> string) option" where
  "parse_exp s =
     (case s of
        c # r \<Rightarrow>
          if c = CHR ''e'' \<or> c = CHR ''E'' then
            (let sg = (case r of d # _ \<Rightarrow> if d = CHR ''+'' \<or> d = CHR ''-'' then [d] else [] | [] \<Rightarrow> []) in
             case digits (drop (length sg) r) of
               (ds, r') \<Rightarrow> if ds = [] then None else Some (c # sg @ ds, r'))
          else Some ([], s)
      | [] \<Rightarrow> Some ([], s))"

definition parse_number :: "string \<Rightarrow> (string \<times> string) option" where
  "parse_number s =
     (let sg = (case s of c # _ \<Rightarrow> if c = CHR ''-'' then [c] else [] | [] \<Rightarrow> []);
          s1 = drop (length sg) s in
      case digits s1 of
        (ds, s2) \<Rightarrow>
          if ds = [] then None
          else
            (let i = (if hd ds = CHR ''0'' then [CHR ''0''] else ds);
                 s2 = drop (length i) s1 in
             case parse_frac s2 of
               None \<Rightarrow> None
             | Some (f, s3) \<Rightarrow>
                 (case parse_exp s3 of
                    None \<Rightarrow> None
                  | Some (e, s4) \<Rightarrow> Some (sg @ i @ f @ e, s4))))"

text \<open>A string, a literal name or a number.\<close>

definition parse_scalar :: "string \<Rightarrow> (json \<times> string) option" where
  "parse_scalar s =
     (if HasPrefix s [CHR 0x22] then map_option (map_prod JStr id) (parse_chars (tl s))
      else if HasPrefix s ''null'' then Some (JNull, drop 4 s)
      else if HasPrefix s ''true'' then Some (JBool True, drop 4 s)
      else if HasPrefix s ''false'' then Some (JBool False, drop 5 s)
      else map_option (map_prod JNum id) (parse_number s))"

text \<open>The name of a member, with its colon.\<close>

definition parse_key :: "string \<Rightarrow> (string \<times> string) option" where
  "parse_key s =
     (if HasPrefix (skip_ws s) [CHR 0x22] then
        Option.bind (parse_chars (tl (skip_ws s)))
          (\<lambda>(k, r). if HasPrefix (skip_ws r) '':'' then Some (k, tl (skip_ws r)) else None)
      else None)"

text \<open>After an element or member: the end of the list, or a comma and the rest of it.\<close>

definition next_item ::
  "char \<Rightarrow> 'a \<Rightarrow> (string \<Rightarrow> ('a list \<times> string) option) \<Rightarrow> string \<Rightarrow> ('a list \<times> string) option"
where
  "next_item close v cont r =
     (case skip_ws r of
        [] \<Rightarrow> None
      | c # r1 \<Rightarrow>
          if c = close then Some ([v], r1)
          else if c = CHR '','' then map_option (map_prod (Cons v) id) (cont r1)
          else None)"

text \<open>
  The grammar. \<open>n\<close> is fuel: every step either reads a character or opens a list of elements
  or members, so twice the length of the text is enough (\<open>parse_fuel\<close>). \<open>d\<close> is the
  nesting that is left: the scanner refuses more than 10000 levels.
\<close>

fun parse_value :: "nat \<Rightarrow> nat \<Rightarrow> string \<Rightarrow> (json \<times> string) option"
  and parse_elems :: "nat \<Rightarrow> nat \<Rightarrow> string \<Rightarrow> (json list \<times> string) option"
  and parse_members :: "nat \<Rightarrow> nat \<Rightarrow> string \<Rightarrow> ((string \<times> json) list \<times> string) option"
where
  "parse_value 0 d s = None"
| "parse_value (Suc n) d s =
     (case skip_ws s of
        [] \<Rightarrow> None
      | c # r \<Rightarrow>
          if c = CHR ''{'' then
            (if d = 0 then None
             else if HasPrefix (skip_ws r) ''}'' then Some (JObj [], tl (skip_ws r))
             else map_option (map_prod JObj id) (parse_members n (d - 1) r))
          else if c = CHR ''['' then
            (if d = 0 then None
             else if HasPrefix (skip_ws r) '']'' then Some (JArr [], tl (skip_ws r))
             else map_option (map_prod JArr id) (parse_elems n (d - 1) r))
          else parse_scalar (c # r))"
| "parse_elems 0 d s = None"
| "parse_elems (Suc n) d s =
     Option.bind (parse_value n d s)
       (\<lambda>(v, r). next_item (CHR '']'') v (\<lambda>r1. parse_elems n d r1) r)"
| "parse_members 0 d s = None"
| "parse_members (Suc n) d s =
     Option.bind (parse_key s)
       (\<lambda>(k, s1). Option.bind (parse_value n d s1)
         (\<lambda>(v, r). next_item (CHR ''}'') (k, v) (\<lambda>r1. parse_members n d r1) r))"

definition maxNestingDepth :: nat where
  "maxNestingDepth = 10000"

definition parse_first :: "string \<Rightarrow> (json \<times> string) option" where
  "parse_first s = parse_value (2 * length s + 2) maxNestingDepth s"

definition Unmarshal :: "string \<Rightarrow> json option" where
  "Unmarshal s =
     (case parse_first s of
        None \<Rightarrow> None
      | Some (v, r) \<Rightarrow> if skip_ws r = [] then Some v else None)"

definition Decode :: "string \<Rightarrow> json option" where
  "Decode s = map_option fst (parse_first s)"

section \<open>Writing\<close>

text \<open>\<open>Marshal\<close> of a string: quotes, backslashes, control characters and the HTML characters
  are escaped, as are U+2028 and U+2029; a byte that is not UTF-8 becomes \<open>\ufffd\<close>.\<close>

definition esc_ascii :: "char \<Rightarrow> string" where
  "esc_ascii c =
     (if c = CHR 0x22 \<or> c = CHR 0x5C then [CHR 0x5C, c]
      else if c = CHR 0x08 then [CHR 0x5C, CHR ''b'']
      else if c = CHR 0x0C then [CHR 0x5C, CHR ''f'']
      else if c = CHR 0x0A then [CHR 0x5C, CHR ''n'']
      else if c = CHR 0x0D then [CHR 0x5C, CHR ''r'']
      else if c = CHR 0x09 then [CHR 0x5C, CHR ''t'']
      else if byte c < 32 \<or> c = CHR ''<'' \<or> c = CHR ''>'' \<or> c = CHR ''&'' then
        [CHR 0x5C, CHR ''u'', CHR ''0'', CHR ''0'', hex_digit (byte c div 16), hex_digit (byte c mod 16)]
      else [c])"

function esc_string :: "string \<Rightarrow> string" where
  "esc_string s =
     (case s of
        [] \<Rightarrow> []
      | c # r \<Rightarrow>
          (case decode_rune s of
             None \<Rightarrow> [CHR 0x5C] @ ''ufffd'' @ esc_string r
           | Some (u, n) \<Rightarrow>
               (if u < 128 then esc_ascii c
                else if u = 8232 then [CHR 0x5C] @ ''u2028''
                else if u = 8233 then [CHR 0x5C] @ ''u2029''
                else take n s) @ esc_string (drop n s)))"
  by pat_completeness auto
termination
  by (relation "measure length") (auto simp del: decode_rune.simps dest!: decode_rune_size)

declare esc_string.simps [simp del]

definition quote_string :: "string \<Rightarrow> string" where
  "quote_string s = [CHR 0x22] @ esc_string s @ [CHR 0x22]"

fun Marshal :: "json \<Rightarrow> string" and marshal_elems :: "json list \<Rightarrow> string"
  and marshal_members :: "(string \<times> json) list \<Rightarrow> string"
where
  "Marshal JNull = ''null''"
| "Marshal (JBool b) = (if b then ''true'' else ''false'')"
| "Marshal (JNum n) = n"
| "Marshal (JStr s) = quote_string s"
| "Marshal (JArr vs) = ''['' @ marshal_elems vs @ '']''"
| "Marshal (JObj ms) = ''{'' @ marshal_members ms @ ''}''"
| "marshal_elems [] = []"
| "marshal_elems (v # vs) = Marshal v @ (if vs = [] then [] else '','' @ marshal_elems vs)"
| "marshal_members [] = []"
| "marshal_members (m # ms) =
     quote_string (fst m) @ '':'' @ Marshal (snd m)
       @ (if ms = [] then [] else '','' @ marshal_members ms)"

text \<open>\<open>MarshalIndent (v, "", "  ")\<close>: every element and member on a line of its own.\<close>

definition newline :: "nat \<Rightarrow> string" where
  "newline d = CHR 0x0A # replicate (2 * d) (CHR '' '')"

fun marshal_indent :: "nat \<Rightarrow> json \<Rightarrow> string" and indent_elems :: "nat \<Rightarrow> json list \<Rightarrow> string"
  and indent_members :: "nat \<Rightarrow> (string \<times> json) list \<Rightarrow> string"
where
  "marshal_indent d (JArr vs) = (if vs = [] then ''[]'' else ''['' @ indent_elems (d + 1) vs @ newline d @ '']'')"
| "marshal_indent d (JObj ms) = (if ms = [] then ''{}'' else ''{'' @ indent_members (d + 1) ms @ newline d @ ''}'')"
| "marshal_indent d v = Marshal v"
| "indent_elems d [] = []"
| "indent_elems d (v # vs) = newline d @ marshal_indent d v @ (if vs = [] then [] else '','' @ indent_elems d vs)"
| "indent_members d [] = []"
| "indent_members d (m # ms) =
     newline d @ quote_string (fst m) @ '': '' @ marshal_indent d (snd m)
       @ (if ms = [] then [] else '','' @ indent_members d ms)"

section \<open>Storing a value in a Go variable\<close>

definition dec_string :: "json \<Rightarrow> string \<Rightarrow> string option" where
  "dec_string v old = (case v of JNull \<Rightarrow> Some old | JStr s \<Rightarrow> Some s | _ \<Rightarrow> None)"

definition dec_bool :: "json \<Rightarrow> bool \<Rightarrow> bool option" where
  "dec_bool v old = (case v of JNull \<Rightarrow> Some old | JBool b \<Rightarrow> Some b | _ \<Rightarrow> None)"

text \<open>An integer of \<open>w\<close> bits: a literal without fraction and exponent, in range.\<close>

fun atoi_digits :: "nat \<Rightarrow> string \<Rightarrow> nat option" where
  "atoi_digits acc [] = Some acc"
| "atoi_digits acc (c # r) = (if is_digit c then atoi_digits (acc * 10 + (byte c - 48)) r else None)"

definition ParseInt :: "nat \<Rightarrow> string \<Rightarrow> int option" where
  "ParseInt w s =
     (let neg = HasPrefix s ''-''; ds = (if neg then tl s else s) in
      if ds = [] then None
      else (case atoi_digits 0 ds of
              None \<Rightarrow> None
            | Some n \<Rightarrow>
                let i = (if neg then - int n else int n) in
                if - (2 ^ (w - 1)) \<le> i \<and> i < 2 ^ (w - 1) then Some i else None))"

definition dec_int64 :: "json \<Rightarrow> int \<Rightarrow> int option" where
  "dec_int64 v old = (case v of JNull \<Rightarrow> Some old | JNum s \<Rightarrow> ParseInt 64 s | _ \<Rightarrow> None)"

text \<open>A slice: \<open>null\<close> is the nil slice (\<open>None\<close>); the elements are read into zero values.\<close>

fun all_some :: "'a option list \<Rightarrow> 'a list option" where
  "all_some [] = Some []"
| "all_some (None # xs) = None"
| "all_some (Some x # xs) = (case all_some xs of None \<Rightarrow> None | Some ys \<Rightarrow> Some (x # ys))"

definition dec_slice :: "(json \<Rightarrow> 'a option) \<Rightarrow> json \<Rightarrow> 'a list option option" where
  "dec_slice f v =
     (case v of
        JNull \<Rightarrow> Some None
      | JArr vs \<Rightarrow> (case all_some (map f vs) of None \<Rightarrow> None | Some xs \<Rightarrow> Some (Some xs))
      | _ \<Rightarrow> None)"

text \<open>
  The field an object member is stored in: the field of that name, else the first field
  whose name is the same up to simple case folding. All field names are ASCII, so besides
  the two cases of a letter only U+017F (for \<open>s\<close>) and U+212A (for \<open>k\<close>) fold to a letter.
\<close>

fun fold_name :: "string \<Rightarrow> string" where
  "fold_name (a # b # c # r) =
     (if a = CHR 0xC5 \<and> b = CHR 0xBF then CHR ''s'' # fold_name (c # r)
      else if a = CHR 0xE2 \<and> b = CHR 0x84 \<and> c = CHR 0xAA then CHR ''k'' # fold_name r
      else to_lower a # fold_name (b # c # r))"
| "fold_name [a, b] =
     (if a = CHR 0xC5 \<and> b = CHR 0xBF then [CHR ''s''] else [to_lower a, to_lower b])"
| "fold_name [a] = [to_lower a]"
| "fold_name [] = []"

definition match_field :: "string list \<Rightarrow> string \<Rightarrow> string option" where
  "match_field names k =
     (if k \<in> set names then Some k
      else List.find (\<lambda>f. fold_name f = fold_name k) names)"

text \<open>
  A struct: the members are stored one after the other, so the last of several members for
  one field wins; an unknown member is skipped, or with \<open>DisallowUnknownFields\<close> an error.
\<close>

fun dec_members ::
  "bool \<Rightarrow> string list \<Rightarrow> (string \<Rightarrow> json \<Rightarrow> 'r \<Rightarrow> 'r option) \<Rightarrow> (string \<times> json) list \<Rightarrow> 'r \<Rightarrow> 'r option"
where
  "dec_members strict names store [] r = Some r"
| "dec_members strict names store ((k, v) # ms) r =
     (case match_field names k of
        None \<Rightarrow> if strict then None else dec_members strict names store ms r
      | Some f \<Rightarrow> (case store f v r of None \<Rightarrow> None | Some r' \<Rightarrow> dec_members strict names store ms r'))"

definition dec_struct ::
  "bool \<Rightarrow> string list \<Rightarrow> (string \<Rightarrow> json \<Rightarrow> 'r \<Rightarrow> 'r option) \<Rightarrow> json \<Rightarrow> 'r \<Rightarrow> 'r option"
where
  "dec_struct strict names store v r =
     (case v of JNull \<Rightarrow> Some r | JObj ms \<Rightarrow> dec_members strict names store ms r | _ \<Rightarrow> None)"

text \<open>\<open>omitempty\<close>: an empty string, an empty slice or a zero is left out.\<close>

definition omit_str :: "string \<Rightarrow> string \<Rightarrow> (string \<times> json) list" where
  "omit_str k s = (if s = [] then [] else [(k, JStr s)])"

definition str_array :: "string list \<Rightarrow> json" where
  "str_array xs = JArr (map JStr xs)"

definition num_json :: "int \<Rightarrow> json" where
  "num_json i = JNum (itoa i)"

section \<open>The fuel is enough\<close>

declare parse_value.simps [simp del] parse_elems.simps [simp del] parse_members.simps [simp del]

lemma skip_ws_le: "length (skip_ws s) \<le> length s"
  by (simp add: skip_ws_def length_dropWhile_le)

lemma prepend_Some_iff: "prepend x res = Some (z, r) \<longleftrightarrow> (\<exists>y. res = Some (y, r) \<and> z = x @ y)"
  by (auto simp: prepend_def split: option.splits)

lemma prepend_Some [simp]: "prepend x (Some (y, r)) = Some (x @ y, r)"
  by (simp add: prepend_def)

lemma parse_chars_quote [simp]: "parse_chars (CHR 0x22 # r) = Some ([], r)"
  by (simp add: parse_chars.simps)

lemma parse_chars_unicode:
  "parse_chars (CHR 0x5C # CHR ''u'' # r) =
    (case unicode_escape r of None \<Rightarrow> None | Some (x, r2) \<Rightarrow> prepend x (parse_chars r2))"
  by (subst parse_chars.simps) simp

lemma parse_chars_escape:
  "e \<noteq> CHR ''u'' \<Longrightarrow> parse_chars (CHR 0x5C # e # r) =
    (case simple_escape e of None \<Rightarrow> None | Some x \<Rightarrow> prepend [x] (parse_chars r))"
  by (subst parse_chars.simps) simp

lemma parse_chars_rune:
  "c \<noteq> CHR 0x22 \<Longrightarrow> c \<noteq> CHR 0x5C \<Longrightarrow> parse_chars (c # r) =
    (if byte c < 32 then None
     else (case decode_rune (c # r) of
             None \<Rightarrow> prepend RuneError (parse_chars r)
           | Some (u, n) \<Rightarrow> prepend (take n (c # r)) (parse_chars (drop n (c # r)))))"
  by (subst parse_chars.simps) (simp del: decode_rune.simps)

lemma parse_chars_shorter: "parse_chars s = Some (x, r) \<Longrightarrow> length r < length s"
proof (induction "length s" arbitrary: s x r rule: less_induct)
  case less
  note IH = less.hyps and P = less.prems
  show ?case
  proof (cases s)
    case Nil
    then show ?thesis using P by (simp add: parse_chars.simps)
  next
    case (Cons c t)
    consider "c = CHR 0x22" | "c = CHR 0x5C" "t = []" | e t' where "c = CHR 0x5C" "t = e # t'"
      | "c \<noteq> CHR 0x22" "c \<noteq> CHR 0x5C"
      by (cases t) auto
    then show ?thesis
    proof cases
      case 1
      then show ?thesis using P Cons by simp
    next
      case 2
      then show ?thesis using P Cons by (simp add: parse_chars.simps)
    next
      case (3 e t')
      show ?thesis
      proof (cases "e = CHR ''u''")
        case True
        then obtain z r2 y where u: "unicode_escape t' = Some (z, r2)" "parse_chars r2 = Some (y, r)"
          using P Cons 3 by (auto simp: parse_chars_unicode prepend_Some_iff split: option.splits)
        then show ?thesis using IH [of r2] unicode_escape_shorter [OF u(1)] Cons 3 by fastforce
      next
        case False
        then obtain y where "parse_chars t' = Some (y, r)"
          using P Cons 3 by (auto simp: parse_chars_escape prepend_Some_iff split: option.splits)
        then show ?thesis using IH [of t'] Cons 3 by fastforce
      qed
    next
      case 4
      show ?thesis
      proof (cases "decode_rune s")
        case None
        then obtain y where "parse_chars t = Some (y, r)"
          using P Cons 4
          by (auto simp: parse_chars_rune prepend_Some_iff simp del: decode_rune.simps split: if_splits)
        then show ?thesis using IH [of t] Cons by fastforce
      next
        case (Some un)
        then obtain u n where d: "decode_rune s = Some (u, n)" by (cases un) auto
        then obtain y where "parse_chars (drop n s) = Some (y, r)"
          using P Cons 4
          by (auto simp: parse_chars_rune prepend_Some_iff simp del: decode_rune.simps split: if_splits)
        then show ?thesis using IH [of "drop n s"] decode_rune_size [OF d] by fastforce
      qed
    qed
  qed
qed

lemma digits_len: "digits s = (ds, r) \<Longrightarrow> length s = length ds + length r"
  using takeWhile_dropWhile_id [of is_digit s] by (metis digits_def length_append prod.inject)

lemma parse_frac_len: "parse_frac s = Some (f, r) \<Longrightarrow> length r \<le> length s"
  by (auto simp: parse_frac_def dest!: digits_len split: list.splits if_splits prod.splits)

lemma parse_exp_len: "parse_exp s = Some (f, r) \<Longrightarrow> length r \<le> length s"
  by (auto simp: parse_exp_def Let_def dest!: digits_len split: list.splits if_splits prod.splits)

lemma parse_number_shorter: "parse_number s = Some (x, r) \<Longrightarrow> length r < length s"
proof -
  assume P: "parse_number s = Some (x, r)"
  define sg where "sg = (case s of c # _ \<Rightarrow> if c = CHR ''-'' then [c] else [] | [] \<Rightarrow> [])"
  obtain ds s2 where dg: "digits (drop (length sg) s) = (ds, s2)" by fastforce
  define i where "i = (if hd ds = CHR ''0'' then [CHR ''0''] else ds)"
  have ds: "ds \<noteq> []" using P dg by (auto simp: parse_number_def Let_def sg_def [symmetric])
  obtain f s3 e where "parse_frac (drop (length i) (drop (length sg) s)) = Some (f, s3)"
    and "parse_exp s3 = Some (e, r)"
    using P dg ds
    by (auto simp: parse_number_def Let_def sg_def [symmetric] i_def [symmetric] split: option.splits)
  then have "length r \<le> length s3" "length s3 \<le> length (drop (length i) (drop (length sg) s))"
    by (simp_all only: parse_frac_len parse_exp_len)
  then have "length r \<le> length (drop (length i) (drop (length sg) s))" by linarith
  also have "\<dots> < length (drop (length sg) s)"
  proof -
    have "0 < length i" using ds by (simp add: i_def)
    moreover have "0 < length (drop (length sg) s)" using digits_len [OF dg] ds by simp
    ultimately show ?thesis by (simp only: length_drop diff_less)
  qed
  also have "\<dots> \<le> length s" by simp
  finally show ?thesis .
qed

lemma skip_ws_shorter: "skip_ws s = c # r \<Longrightarrow> length r < length s"
  using skip_ws_le [of s] by simp

lemma tl_skip_ws_shorter: "HasPrefix (skip_ws s) [c] \<Longrightarrow> length (tl (skip_ws s)) < length s"
  using skip_ws_le [of s] by (cases "skip_ws s") (auto simp: HasPrefix_def)

lemma parse_scalar_shorter:
  assumes "parse_scalar s = Some (v, r)" shows "length r < length s"
proof -
  have "length (drop 4 s) < length s" if "HasPrefix s ''null'' \<or> HasPrefix s ''true''"
    using that by (auto simp: HasPrefix_def prefix_def)
  moreover have "length (drop 5 s) < length s" if "HasPrefix s ''false''"
    using that by (auto simp: HasPrefix_def prefix_def)
  moreover have "length r < length s" if "HasPrefix s [CHR 0x22]" "parse_chars (tl s) = Some (x, r)" for x
    using parse_chars_shorter [OF that(2)] by simp
  moreover have "length r < length s" if "parse_number s = Some (x, r)" for x
    using parse_number_shorter [OF that] .
  ultimately show ?thesis
    using assms by (auto simp: parse_scalar_def simp del: length_drop split: if_splits)
qed

lemma parse_key_shorter:
  assumes "parse_key s = Some (k, r)" shows "length r < length s"
proof -
  obtain t where t: "HasPrefix (skip_ws s) [CHR 0x22]" "parse_chars (tl (skip_ws s)) = Some (k, t)"
    "HasPrefix (skip_ws t) '':''" "r = tl (skip_ws t)"
    using assms by (auto simp: parse_key_def Option.bind_eq_Some_conv split: if_splits)
  show ?thesis
    using tl_skip_ws_shorter [OF t(1)] parse_chars_shorter [OF t(2)] tl_skip_ws_shorter [OF t(3)] t(4)
    by (metis order.strict_trans)
qed

lemma next_item_shorter:
  assumes "next_item cl v cont r = Some (vs, r')"
    and "\<And>r1 x. cont r1 = Some (x, r') \<Longrightarrow> length r' < length r1"
  shows "length r' < length r"
  using assms skip_ws_shorter [of r]
  by (fastforce simp: next_item_def split: list.splits if_splits)

lemma next_item_cong:
  assumes "\<And>r1. length r1 < length r \<Longrightarrow> f r1 = g r1"
  shows "next_item cl v f r = next_item cl v g r"
  using assms skip_ws_shorter [of r] by (auto simp: next_item_def split: list.splits)

lemma parse_shorter:
  "parse_value n d s = Some (v, r) \<Longrightarrow> length r < length s"
  "parse_elems n d s = Some (vs, r) \<Longrightarrow> length r < length s"
  "parse_members n d s = Some (ms, r) \<Longrightarrow> length r < length s"
proof (induction n arbitrary: d s v r vs ms)
  case (Suc n)
  {
    case 1
    then obtain c t where s: "skip_ws s = c # t" by (auto simp: parse_value.simps split: list.splits)
    show ?case
      using 1 s skip_ws_shorter [OF s] tl_skip_ws_shorter [of t] Suc.IH(2,3) [of "d - 1" t]
        parse_scalar_shorter [of "c # t"] skip_ws_le [of s]
      by (fastforce simp: parse_value.simps split: if_splits)
  next
    case 2
    then obtain w t where v: "parse_value n d s = Some (w, t)"
      and n: "next_item (CHR '']'') w (parse_elems n d) t = Some (vs, r)"
      by (auto simp: parse_elems.simps Option.bind_eq_Some_conv)
    show ?case
      using Suc.IH(1) [OF v] next_item_shorter [OF n] Suc.IH(2) by fastforce
  next
    case 3
    then obtain k s1 w t where k: "parse_key s = Some (k, s1)" and v: "parse_value n d s1 = Some (w, t)"
      and n: "next_item (CHR ''}'') (k, w) (parse_members n d) t = Some (ms, r)"
      by (auto simp: parse_members.simps Option.bind_eq_Some_conv)
    show ?case
      using parse_key_shorter [OF k] Suc.IH(1) [OF v] next_item_shorter [OF n] Suc.IH(3) by fastforce
  }
qed (simp_all add: parse_value.simps parse_elems.simps parse_members.simps)

lemma parse_fuel:
  "2 * length s + 1 \<le> n \<Longrightarrow> 2 * length s + 1 \<le> m \<Longrightarrow> parse_value n d s = parse_value m d s"
  "2 * length s + 2 \<le> n \<Longrightarrow> 2 * length s + 2 \<le> m \<Longrightarrow> parse_elems n d s = parse_elems m d s"
  "2 * length s + 2 \<le> n \<Longrightarrow> 2 * length s + 2 \<le> m \<Longrightarrow> parse_members n d s = parse_members m d s"
proof (induction n arbitrary: m d s)
  case (Suc n)
  {
    case 1
    then obtain k where m: "m = Suc k" by (cases m) auto
    show ?case
    proof (cases "skip_ws s")
      case (Cons c t)
      have "parse_elems n (d - 1) t = parse_elems k (d - 1) t"
        "parse_members n (d - 1) t = parse_members k (d - 1) t"
        using Suc.IH(2,3) [of t k "d - 1"] skip_ws_shorter [OF Cons] 1 m by auto
      then show ?thesis using m Cons by (simp add: parse_value.simps)
    qed (simp add: m parse_value.simps)
  next
    case 2
    then obtain k where m: "m = Suc k" by (cases m) auto
    have v: "parse_value n d s = parse_value k d s" using Suc.IH(1) [of s k d] 2 m by simp
    have "next_item (CHR '']'') w (parse_elems n d) t = next_item (CHR '']'') w (parse_elems k d) t"
      if "parse_value k d s = Some (w, t)" for w t
      using Suc.IH(2) [of _ k d] parse_shorter(1) [OF that] 2 m by (intro next_item_cong) auto
    then show ?case using m v
      by (cases "parse_value k d s") (auto simp: parse_elems.simps)
  next
    case 3
    then obtain k where m: "m = Suc k" by (cases m) auto
    have v: "parse_value n d t = parse_value k d t" if "parse_key s = Some (x, t)" for x t
      using Suc.IH(1) [of t k d] parse_key_shorter [OF that] 3 m by simp
    have n: "next_item (CHR ''}'') w (parse_members n d) t = next_item (CHR ''}'') w (parse_members k d) t"
      if "parse_key s = Some (x, s1)" "parse_value k d s1 = Some (y, t)" for w x y s1 t
      using Suc.IH(3) [of _ k d] parse_shorter(1) [OF that(2)] parse_key_shorter [OF that(1)] 3 m
      by (intro next_item_cong) auto
    show ?case
      unfolding m parse_members.simps
      by (intro Option.bind_cong refl) (auto simp: v n intro!: Option.bind_cong)
  }
qed simp_all

section \<open>Round trips\<close>

lemma byte_less_256: "byte c < 256"
  by (rule nat_of_char_less_256)

lemma decode_rune_ascii: "byte c < 128 \<Longrightarrow> decode_rune (c # r) = Some (byte c, 1)"
  by (simp add: Let_def)

declare decode_rune.simps [simp del]

text \<open>The four lengths of an encoded rune.\<close>

lemma decode_rune_cases:
  assumes "decode_rune s = Some (u, n)"
  obtains (one) c r where "s = c # r" "byte c < 128" "u = byte c" "n = 1"
  | (two) c d r where "s = c # d # r" "194 \<le> byte c" "byte c \<le> 223" "second_ok (byte c) d"
      "u = (byte c - 192) * 64 + (byte d - 128)" "n = 2"
  | (three) c d e r where "s = c # d # e # r" "224 \<le> byte c" "byte c \<le> 239" "second_ok (byte c) d"
      "is_cont e" "u = (byte c - 224) * 4096 + (byte d - 128) * 64 + (byte e - 128)" "n = 3"
  | (four) c d e f r where "s = c # d # e # f # r" "240 \<le> byte c" "byte c \<le> 244"
      "second_ok (byte c) d" "is_cont e" "is_cont f"
      "u = (byte c - 240) * 262144 + (byte d - 128) * 4096 + (byte e - 128) * 64 + (byte f - 128)"
      "n = 4"
proof -
  obtain c r where s: "s = c # r" using assms by (cases s) (auto simp: decode_rune.simps)
  consider "byte c < 128" | "194 \<le> byte c" "byte c \<le> 223" | "224 \<le> byte c" "byte c \<le> 239"
    | "240 \<le> byte c" "byte c \<le> 244"
    using assms s by (simp add: decode_rune.simps Let_def split: if_splits)
  then show thesis
  proof cases
    case 1
    then show ?thesis using assms s one by (simp add: decode_rune.simps)
  next
    case 2
    then show ?thesis using assms s two
      by (auto simp: decode_rune.simps Let_def split: list.splits if_splits)
  next
    case 3
    then show ?thesis using assms s three
      by (auto simp: decode_rune.simps Let_def split: list.splits if_splits)
  next
    case 4
    then show ?thesis using assms s four
      by (auto simp: decode_rune.simps Let_def split: list.splits if_splits)
  qed
qed

lemma decode_rune_high: "decode_rune (c # r) = Some (u, n) \<Longrightarrow> 128 \<le> u \<Longrightarrow> 128 \<le> byte c"
  by (erule decode_rune_cases) auto

lemma decode_rune_low: "decode_rune (c # r) = Some (u, n) \<Longrightarrow> u < 128 \<Longrightarrow> byte c < 128 \<and> n = 1"
  by (erule decode_rune_cases) (auto simp: second_ok_def is_cont_def split: if_splits)

lemma decode_rune_append:
  assumes "decode_rune s = Some (u, n)" shows "decode_rune (take n s @ t) = Some (u, n)"
  using assms
  by (rule decode_rune_cases) (auto simp: decode_rune.simps)

lemma divmod64: "(c :: nat) < 64 \<Longrightarrow> (x * 64 + c) div 64 = x" "c < 64 \<Longrightarrow> (x * 64 + c) mod 64 = c"
  by auto

lemma encode_2:
  assumes "194 \<le> x" "x \<le> 223" "128 \<le> y" "y \<le> 191"
  shows "encode_rune ((x - 192) * 64 + (y - 128)) = [char_of x, char_of (y :: nat)]"
proof -
  define a b where "a = x - 192" and "b = y - 128"
  then have ab: "x = 192 + a" "y = 128 + b" "b < 64" "2 \<le> a" "a < 32" using assms by auto
  then have "(a * 64 + b) div 64 = a" "(a * 64 + b) mod 64 = b" "128 \<le> a * 64 + b" "a * 64 + b < 2048"
    by auto
  then show ?thesis by (simp add: encode_rune_def ab)
qed

lemma encode_3:
  assumes "224 \<le> x" "x \<le> 239" "128 \<le> y" "y \<le> 191" "x = 224 \<Longrightarrow> 160 \<le> y" "128 \<le> z" "z \<le> 191"
  shows "encode_rune ((x - 224) * 4096 + (y - 128) * 64 + (z - 128))
    = [char_of x, char_of y, char_of (z :: nat)]"
proof -
  define a b c where "a = x - 224" and "b = y - 128" and "c = z - 128"
  then have ab: "x = 224 + a" "y = 128 + b" "z = 128 + c" "b < 64" "c < 64" "a < 16" "a = 0 \<Longrightarrow> 32 \<le> b"
    using assms by auto
  let ?u = "a * 4096 + b * 64 + c"
  have u: "?u = (a * 64 + b) * 64 + c" by simp
  have "?u div 64 = a * 64 + b" "?u mod 64 = c" unfolding u using ab by (simp_all only: divmod64)
  moreover have "(a * 64 + b) mod 64 = b" using ab by (simp only: divmod64)
  moreover have "?u div 4096 = a" "2048 \<le> ?u" "?u < 65536"
    using ab by (cases a; auto)+
  ultimately show ?thesis by (simp add: encode_rune_def ab)
qed

lemma encode_4:
  assumes "240 \<le> x" "x \<le> 244" "128 \<le> y" "y \<le> 191" "x = 240 \<Longrightarrow> 144 \<le> y" "128 \<le> z" "z \<le> 191"
    "128 \<le> w" "w \<le> 191"
  shows "encode_rune ((x - 240) * 262144 + (y - 128) * 4096 + (z - 128) * 64 + (w - 128))
    = [char_of x, char_of y, char_of z, char_of (w :: nat)]"
proof -
  define a b c d where "a = x - 240" and "b = y - 128" and "c = z - 128" and "d = w - 128"
  then have ab: "x = 240 + a" "y = 128 + b" "z = 128 + c" "w = 128 + d" "b < 64" "c < 64" "d < 64"
    "a < 5" "a = 0 \<Longrightarrow> 16 \<le> b"
    using assms by auto
  let ?u = "a * 262144 + b * 4096 + c * 64 + d"
  have u: "?u = ((a * 64 + b) * 64 + c) * 64 + d" by simp
  have "?u div 64 = (a * 64 + b) * 64 + c" "?u mod 64 = d" unfolding u using ab by (simp_all only: divmod64)
  moreover have "((a * 64 + b) * 64 + c) mod 64 = c" "(a * 64 + b) mod 64 = b"
    using ab by (simp_all only: divmod64)
  moreover have "?u div 4096 = a * 64 + b"  "?u div 262144 = a" "65536 \<le> ?u"
    using ab by (cases a; auto)+
  ultimately show ?thesis by (simp add: encode_rune_def ab)
qed

lemma decode_rune_encode: "decode_rune s = Some (u, n) \<Longrightarrow> take n s = encode_rune u"
proof (erule decode_rune_cases)
  fix c d r
  assume *: "s = c # d # r" "194 \<le> byte c" "byte c \<le> 223" "second_ok (byte c) d"
    "u = (byte c - 192) * 64 + (byte d - 128)" "n = 2"
  then show ?thesis using encode_2 [of "byte c" "byte d"]
    by (auto simp: second_ok_def is_cont_def split: if_splits)
next
  fix c d e r
  assume *: "s = c # d # e # r" "224 \<le> byte c" "byte c \<le> 239" "second_ok (byte c) d"
    "is_cont e" "u = (byte c - 224) * 4096 + (byte d - 128) * 64 + (byte e - 128)" "n = 3"
  then show ?thesis using encode_3 [of "byte c" "byte d" "byte e"]
    by (auto simp: second_ok_def is_cont_def split: if_splits)
next
  fix c d e f r
  assume *: "s = c # d # e # f # r" "240 \<le> byte c" "byte c \<le> 244" "second_ok (byte c) d"
    "is_cont e" "is_cont f"
    "u = (byte c - 240) * 262144 + (byte d - 128) * 4096 + (byte e - 128) * 64 + (byte f - 128)"
    "n = 4"
  then show ?thesis using encode_4 [of "byte c" "byte d" "byte e" "byte f"]
    by (auto simp: second_ok_def is_cont_def split: if_splits)
qed (simp add: encode_rune_def)

lemma parse_esc_ascii:
  assumes "byte c < 128" shows "parse_chars (esc_ascii c @ t) = prepend [c] (parse_chars t)"
proof -
  let ?u = "[CHR 0x5C, CHR ''u'', CHR ''0'', CHR ''0'', hex_digit (byte c div 16), hex_digit (byte c mod 16)]"
  have u: "parse_chars (?u @ t) = prepend [c] (parse_chars t)"
  proof -
    have "hex_val (CHR ''0'') = Some 0" by (simp add: hex_val_def char_class_defs)
    then have "hex4 (drop 2 ?u @ t) = Some (byte c, t)"
      using assms by (simp add: hex_val_digit)
    then have "unicode_escape (drop 2 ?u @ t) = Some ([c], t)"
      using assms by (simp add: unicode_escape_def encode_rune_def)
    then show ?thesis by (simp add: parse_chars_unicode)
  qed
  have p: "parse_chars ([c] @ t) = prepend [c] (parse_chars t)"
    if "32 \<le> byte c" "c \<noteq> CHR 0x22" "c \<noteq> CHR 0x5C"
    using that assms by (simp add: parse_chars_rune decode_rune_ascii)
  show ?thesis
    using u p
    by (auto simp: esc_ascii_def parse_chars_escape simple_escape_def)
qed

lemma parse_chars_take:
  assumes "decode_rune s = Some (u, n)" "128 \<le> u"
  shows "parse_chars (take n s @ t) = prepend (take n s) (parse_chars t)"
proof -
  obtain c r where s: "s = c # r" using assms(1) by (cases s) (auto simp: decode_rune.simps)
  have c: "128 \<le> byte c" using decode_rune_high assms s by blast
  have n: "0 < n" "n \<le> length s" using decode_rune_size [OF assms(1)] by auto
  define r' where "r' = take (n - 1) r @ t"
  have e: "take n s @ t = c # r'" using s n by (cases n) (auto simp: r'_def)
  have "take n (take n s @ t) = take n s" "drop n (take n s @ t) = t" using n by auto
  moreover have "decode_rune (c # r') = Some (u, n)" using decode_rune_append [OF assms(1)] e by metis
  ultimately show ?thesis
    using c unfolding e by (subst parse_chars_rune) auto
qed

lemma parse_chars_u202:
  "parse_chars (CHR 0x5C # ''u2028'' @ t) = prepend (encode_rune 8232) (parse_chars t)"
  "parse_chars (CHR 0x5C # ''u2029'' @ t) = prepend (encode_rune 8233) (parse_chars t)"
proof -
  have "hex4 (''2028'' @ t) = Some (8232, t)" "hex4 (''2029'' @ t) = Some (8233, t)"
    by (simp_all add: hex_val_def char_class_defs)
  then have "unicode_escape (''2028'' @ t) = Some (encode_rune 8232, t)"
    "unicode_escape (''2029'' @ t) = Some (encode_rune 8233, t)"
    by (simp_all add: unicode_escape_def)
  then show "parse_chars (CHR 0x5C # ''u2028'' @ t) = prepend (encode_rune 8232) (parse_chars t)"
    "parse_chars (CHR 0x5C # ''u2029'' @ t) = prepend (encode_rune 8233) (parse_chars t)"
    by (simp_all add: parse_chars_unicode)
qed

lemma parse_chars_esc: "utf8_Valid s \<Longrightarrow> parse_chars (esc_string s @ CHR 0x22 # r) = Some (s, r)"
proof (induction "length s" arbitrary: s rule: less_induct)
  case less
  show ?case
  proof (cases s)
    case Nil
    then show ?thesis by (simp add: esc_string.simps)
  next
    case (Cons c t)
    obtain u n where d: "decode_rune s = Some (u, n)" and v: "utf8_Valid (drop n s)"
      using less.prems Cons utf8_Valid.simps [of s] by (auto split: option.splits)
    have IH: "parse_chars (esc_string (drop n s) @ CHR 0x22 # r) = Some (drop n s, r)"
      using less.hyps [of "drop n s"] v decode_rune_size [OF d] Cons by simp
    let ?h = "if u < 128 then esc_ascii c else if u = 8232 then [CHR 0x5C] @ ''u2028''
              else if u = 8233 then [CHR 0x5C] @ ''u2029'' else take n s"
    have e: "esc_string s = ?h @ esc_string (drop n s)"
      using d Cons by (subst esc_string.simps) simp
    have "parse_chars (?h @ x) = prepend (take n s) (parse_chars x)" for x
    proof (cases "u < 128")
      case True
      then show ?thesis using decode_rune_low [of c t u n] d Cons parse_esc_ascii by simp
    next
      case False
      then show ?thesis
        using parse_chars_take [OF d] parse_chars_u202 [of x] decode_rune_encode [OF d] by simp
    qed
    then show ?thesis using IH e by simp
  qed
qed

subsection \<open>Numbers\<close>

lemma nat_digits_digit: "c \<in> set (nat_digits n) \<Longrightarrow> is_digit c"
proof (induction n rule: nat_digits.induct)
  case (1 n)
  show ?case
  proof (cases "n < 10")
    case True
    then show ?thesis using "1.prems" by (simp add: nat_digits.simps is_digit_def)
  next
    case False
    moreover have "n mod 10 < 10" by simp
    ultimately show ?thesis
      using 1 by (subst (asm) nat_digits.simps) (auto simp: is_digit_def)
  qed
qed

lemma nat_digits_hd: "hd (nat_digits n) = CHR ''0'' \<Longrightarrow> nat_digits n = ''0''"
proof (induction n rule: nat_digits.induct)
  case (1 n)
  show ?case
  proof (cases "n < 10")
    case True
    then have e: "nat_digits n = [char_of (48 + n)]" by (simp add: nat_digits.simps)
    then have "char_of (48 + n) = (CHR ''0'')" using 1 by simp
    then show ?thesis using e by simp
  next
    case False
    then have e: "nat_digits n = nat_digits (n div 10) @ [char_of (48 + n mod 10)]"
      by (simp add: nat_digits.simps [of n])
    then have "nat_digits (n div 10) = ''0''" using 1 False by simp
    moreover have "n div 10 \<noteq> 0" using False by (simp add: div_eq_0_iff)
    ultimately show ?thesis
    proof -
      have "False" if "nat_digits m = ''0''" "m \<noteq> 0" for m
        using that by (cases "m < 10") (auto simp: nat_digits.simps [of m] char_of_eq_iff append_eq_Cons_conv)
      then show ?thesis using \<open>nat_digits (n div 10) = ''0''\<close> \<open>n div 10 \<noteq> 0\<close> by blast
    qed
  qed
qed

lemma atoi_digits_append:
  "atoi_digits a (xs @ ys) = Option.bind (atoi_digits a xs) (\<lambda>b. atoi_digits b ys)"
  by (induction a xs rule: atoi_digits.induct) auto

lemma atoi_nat_digits: "atoi_digits 0 (nat_digits n) = Some n"
proof (induction n rule: nat_digits.induct)
  case (1 n)
  show ?case
  proof (cases "n < 10")
    case True
    then show ?thesis by (simp add: nat_digits.simps is_digit_def)
  next
    case False
    have "n mod 10 < 10" by simp
    then have "atoi_digits (n div 10) [char_of (48 + n mod 10)] = Some n"
      by (simp add: is_digit_def)
    then show ?thesis
      using 1 False by (subst nat_digits.simps) (simp add: atoi_digits_append)
  qed
qed

lemma nat_digits_not_minus: "HasPrefix (nat_digits n) ''-'' = False"
proof -
  have "hd (nat_digits n) \<noteq> CHR ''-''"
    using nat_digits_digit [of "hd (nat_digits n)" n] by (auto simp: is_digit_def)
  then show ?thesis by (cases "nat_digits n") (auto simp: HasPrefix_def)
qed

lemma ParseInt_itoa: "- (2 ^ (w - 1)) \<le> i \<Longrightarrow> i < 2 ^ (w - 1) \<Longrightarrow> ParseInt w (itoa i) = Some i"
  by (simp add: ParseInt_def itoa_def Let_def nat_digits_not_minus atoi_nat_digits)
    (simp add: HasPrefix_def atoi_nat_digits)

text \<open>What may follow a number without being read as a part of it.\<close>

definition num_end :: "string \<Rightarrow> bool" where
  "num_end r \<longleftrightarrow> (case r of [] \<Rightarrow> True
     | c # _ \<Rightarrow> \<not> is_digit c \<and> c \<noteq> CHR ''.'' \<and> c \<noteq> CHR ''e'' \<and> c \<noteq> CHR ''E'')"

lemma parse_number_nat:
  assumes "num_end r" shows "parse_number (nat_digits n @ r) = Some (nat_digits n, r)"
    and "parse_number (CHR ''-'' # nat_digits n @ r) = Some (CHR ''-'' # nat_digits n, r)"
proof -
  let ?d = "nat_digits n"
  have t: "digits (?d @ r) = (?d, r)"
    using assms nat_digits_digit [of _ n]
    by (auto simp: digits_def num_end_def takeWhile_append dropWhile_append split: list.splits)
  have i: "(if hd ?d = CHR ''0'' then [CHR ''0''] else ?d) = ?d" using nat_digits_hd [of n] by auto
  have f: "parse_frac r = Some ([], r)" "parse_exp r = Some ([], r)"
    using assms by (auto simp: parse_frac_def parse_exp_def num_end_def split: list.splits)
  obtain c t' where d: "?d = c # t'" by (cases ?d) auto
  then have c: "c \<noteq> CHR ''-''" using nat_digits_digit [of c n] by (auto simp: is_digit_def)
  have "(case ?d @ r of [] \<Rightarrow> [] | c # x \<Rightarrow> if c = CHR ''-'' then [c] else []) = []"
    using d c by simp
  then show "parse_number (?d @ r) = Some (?d, r)"
    using t i f by (simp add: parse_number_def)
  show "parse_number (CHR ''-'' # ?d @ r) = Some (CHR ''-'' # ?d, r)"
    using t i f by (simp add: parse_number_def)
qed

lemma parse_scalar_num: "num_end r \<Longrightarrow> parse_scalar (itoa i @ r) = Some (JNum (itoa i), r)"
proof -
  assume r: "num_end r"
  obtain c t where d: "itoa i = c # t" "is_digit c \<or> c = CHR ''-''"
  proof (cases "i < 0")
    case False
    moreover obtain c t where "nat_digits (nat i) = c # t" by (cases "nat_digits (nat i)") auto
    ultimately show ?thesis using that nat_digits_digit [of c "nat i"] by (auto simp: itoa_def)
  qed (use that in \<open>auto simp: itoa_def\<close>)
  have "parse_number (itoa i @ r) = Some (itoa i, r)"
    using parse_number_nat [OF r] by (simp add: itoa_def)
  moreover have "\<not> HasPrefix (itoa i @ r) p" if "p \<in> {[CHR 0x22], ''null'', ''true'', ''false''}" for p
    using that d by (auto simp: HasPrefix_def is_digit_def)
  ultimately show ?thesis by (simp add: parse_scalar_def)
qed

subsection \<open>Values\<close>

lemma skip_ws_nonspace [simp]: "\<not> is_space c \<Longrightarrow> skip_ws (c # r) = c # r"
  by (simp add: skip_ws_def)

lemma parse_key_quote: "utf8_Valid k \<Longrightarrow> parse_key (quote_string k @ '':'' @ r) = Some (k, r)"
  by (simp add: parse_key_def quote_string_def HasPrefix_def is_space_def parse_chars_esc)

lemma num_end_sep: "num_end (CHR '','' # r)" "num_end (CHR '']'' # r)" "num_end (CHR ''}'' # r)"
  by (simp_all add: num_end_def is_digit_def)

lemma itoa_head: obtains c t where "itoa i = c # t" "is_digit c \<or> c = CHR ''-''"
proof (cases "i < 0")
  case False
  moreover obtain c t where "nat_digits (nat i) = c # t" by (cases "nat_digits (nat i)") auto
  ultimately show ?thesis using that nat_digits_digit [of c "nat i"] by (auto simp: itoa_def)
qed (use that in \<open>auto simp: itoa_def\<close>)

text \<open>
  The texts a value is read back from: \<open>renders d v t\<close> says that \<open>t\<close> is a rendering of \<open>v\<close> of
  nesting at most \<open>d\<close>, with whitespace around the elements and members and after a colon, as
  \<open>Marshal\<close> and \<open>MarshalIndent\<close> write it.
\<close>

definition all_ws :: "string \<Rightarrow> bool" where
  "all_ws a \<longleftrightarrow> list_all is_space a"

inductive renders :: "nat \<Rightarrow> json \<Rightarrow> string \<Rightarrow> bool"
  and renders_elems :: "nat \<Rightarrow> json list \<Rightarrow> string \<Rightarrow> bool"
  and renders_members :: "nat \<Rightarrow> (string \<times> json) list \<Rightarrow> string \<Rightarrow> bool"
where
  r_null: "renders d JNull ''null''"
| r_true: "renders d (JBool True) ''true''"
| r_false: "renders d (JBool False) ''false''"
| r_num: "renders d (JNum (itoa i)) (itoa i)"
| r_str: "utf8_Valid s \<Longrightarrow> renders d (JStr s) (quote_string s)"
| r_arr0: "renders (Suc d) (JArr []) ''[]''"
| r_arr: "renders_elems d vs t \<Longrightarrow> renders (Suc d) (JArr vs) (''['' @ t @ '']'')"
| r_obj0: "renders (Suc d) (JObj []) ''{}''"
| r_obj: "renders_members d ms t \<Longrightarrow> renders (Suc d) (JObj ms) (''{'' @ t @ ''}'')"
| r_elem: "renders d v t \<Longrightarrow> all_ws a \<Longrightarrow> all_ws b \<Longrightarrow> renders_elems d [v] (a @ t @ b)"
| r_elems: "renders d v t \<Longrightarrow> all_ws a \<Longrightarrow> renders_elems d vs ts \<Longrightarrow>
    renders_elems d (v # vs) (a @ t @ '','' @ ts)"
| r_member: "utf8_Valid k \<Longrightarrow> renders d v t \<Longrightarrow> all_ws a \<Longrightarrow> all_ws b \<Longrightarrow> all_ws c \<Longrightarrow>
    renders_members d [(k, v)] (a @ quote_string k @ '':'' @ b @ t @ c)"
| r_members: "utf8_Valid k \<Longrightarrow> renders d v t \<Longrightarrow> all_ws a \<Longrightarrow> all_ws b \<Longrightarrow> renders_members d ms ts \<Longrightarrow>
    renders_members d ((k, v) # ms) (a @ quote_string k @ '':'' @ b @ t @ '','' @ ts)"

lemma skip_ws_all_ws [simp]: "all_ws a \<Longrightarrow> skip_ws (a @ s) = skip_ws s"
  by (induction a) (auto simp: all_ws_def skip_ws_def)

lemma parse_value_ws: "all_ws a \<Longrightarrow> parse_value n d (a @ s) = parse_value n d s"
  by (cases n) (auto simp: parse_value.simps)

lemma parse_key_ws: "all_ws a \<Longrightarrow> parse_key (a @ s) = parse_key s"
  by (simp add: parse_key_def)

lemma num_end_ws: "all_ws b \<Longrightarrow> c \<in> {CHR '','', CHR '']'', CHR ''}''} \<Longrightarrow> num_end (b @ c # r)"
  by (cases b) (auto simp: num_end_def all_ws_def is_digit_def is_space_def)

lemma next_item_ws [simp]: "all_ws b \<Longrightarrow> next_item cl v f (b @ s) = next_item cl v f s"
  by (simp add: next_item_def)

lemma renders_head:
  "renders d v t \<Longrightarrow> \<exists>c s. t = c # s \<and> \<not> is_space c \<and> c \<noteq> CHR '']''"
  "renders_elems d vs t \<Longrightarrow> \<exists>a c s. all_ws a \<and> t = a @ c # s \<and> \<not> is_space c \<and> c \<noteq> CHR '']''"
  "renders_members d ms t \<Longrightarrow> \<exists>a c s. all_ws a \<and> t = a @ c # s \<and> \<not> is_space c \<and> c \<noteq> CHR ''}''"
proof (induction rule: renders_renders_elems_renders_members.inducts)
  case (r_num d i)
  then show ?case by (rule itoa_head [of i]) (auto simp: is_digit_def is_space_def)
next
  case (r_elem d v t a b)
  then show ?case by fastforce
next
  case (r_elems d v t a vs ts)
  then show ?case by fastforce
next
  case (r_member k d v t a b c)
  then show ?case
    by (intro exI [of _ a]) (auto simp: quote_string_def is_space_def)
next
  case (r_members k d v t a b ms ts)
  then show ?case
    by (intro exI [of _ a]) (auto simp: quote_string_def is_space_def)
qed (auto simp: is_space_def quote_string_def)

definition reads :: "nat \<Rightarrow> json \<Rightarrow> string \<Rightarrow> bool" where
  "reads d v t \<longleftrightarrow> (\<exists>n0. \<forall>n \<ge> n0. \<forall>r. num_end r \<longrightarrow> parse_value n d (t @ r) = Some (v, r))"

lemma reads_scalar:
  assumes "\<And>r. num_end r \<Longrightarrow> parse_scalar (t @ r) = Some (v, r)"
    and "t = c # t'" "\<not> is_space c" "c \<noteq> CHR ''{''" "c \<noteq> CHR ''[''"
  shows "reads d v t"
proof -
  have "parse_value n d (t @ r) = Some (v, r)" if "1 \<le> n" "num_end r" for n r
    using that assms(1) [OF that(2)] assms(2-5) by (cases n) (auto simp: parse_value.simps)
  then show ?thesis unfolding reads_def by blast
qed

lemma renders_reads:
  "renders d v t \<Longrightarrow> reads d v t"
  "renders_elems d vs t \<Longrightarrow> \<exists>n0. \<forall>n \<ge> n0. \<forall>r. parse_elems n d (t @ '']'' @ r) = Some (vs, r)"
  "renders_members d ms t \<Longrightarrow> \<exists>n0. \<forall>n \<ge> n0. \<forall>r. parse_members n d (t @ ''}'' @ r) = Some (ms, r)"
proof (induction rule: renders_renders_elems_renders_members.inducts)
  case (r_num d i)
  obtain c t where "itoa i = c # t" "is_digit c \<or> c = CHR ''-''" by (rule itoa_head)
  then show ?case
    by (intro reads_scalar [of _ _ c t] parse_scalar_num) (auto simp: is_digit_def is_space_def)
next
  case (r_str s d)
  then show ?case
    by (intro reads_scalar [where c = "CHR 0x22"])
      (auto simp: parse_scalar_def HasPrefix_def is_space_def quote_string_def parse_chars_esc)
next
  case (r_arr0 d)
  have "parse_value n (Suc d) (''[]'' @ r) = Some (JArr [], r)" if "1 \<le> n" for n r
    using that by (cases n) (auto simp: parse_value.simps HasPrefix_def is_space_def)
  then show ?case unfolding reads_def by blast
next
  case (r_obj0 d)
  have "parse_value n (Suc d) (''{}'' @ r) = Some (JObj [], r)" if "1 \<le> n" for n r
    using that by (cases n) (auto simp: parse_value.simps HasPrefix_def is_space_def)
  then show ?case unfolding reads_def by blast
next
  case (r_arr d vs t)
  obtain n1 where n1: "\<And>n r. n1 \<le> n \<Longrightarrow> parse_elems n d (t @ '']'' @ r) = Some (vs, r)"
    using r_arr.IH by metis
  obtain a c s where t: "all_ws a" "t = a @ c # s" "\<not> is_space c" "c \<noteq> CHR '']''"
    using renders_head(2) [OF r_arr.hyps] by blast
  have "parse_value n (Suc d) ((''['' @ t @ '']'') @ r) = Some (JArr vs, r)" if "Suc n1 \<le> n" for n r
    using that n1 [of "n - 1" r] t
    by (cases n) (auto simp: parse_value.simps HasPrefix_def is_space_def)
  then show ?case unfolding reads_def by blast
next
  case (r_obj d ms t)
  obtain n1 where n1: "\<And>n r. n1 \<le> n \<Longrightarrow> parse_members n d (t @ ''}'' @ r) = Some (ms, r)"
    using r_obj.IH by metis
  obtain a c s where t: "all_ws a" "t = a @ c # s" "\<not> is_space c" "c \<noteq> CHR ''}''"
    using renders_head(3) [OF r_obj.hyps] by blast
  have "parse_value n (Suc d) ((''{'' @ t @ ''}'') @ r) = Some (JObj ms, r)" if "Suc n1 \<le> n" for n r
    using that n1 [of "n - 1" r] t
    by (cases n) (auto simp: parse_value.simps HasPrefix_def is_space_def)
  then show ?case unfolding reads_def by blast
next
  case (r_elem d v t a b)
  obtain n1 where n1: "\<And>n r. n1 \<le> n \<Longrightarrow> num_end r \<Longrightarrow> parse_value n d (t @ r) = Some (v, r)"
    using r_elem.IH unfolding reads_def by metis
  have "parse_elems n d ((a @ t @ b) @ '']'' @ r) = Some ([v], r)" if "Suc n1 \<le> n" for n r
    using that n1 [of "n - 1" "b @ CHR '']'' # r"] r_elem.hyps num_end_ws [of b "CHR '']''" r]
    by (cases n) (auto simp: parse_elems.simps parse_value_ws next_item_def is_space_def)
  then show ?case by blast
next
  case (r_elems d v t a vs ts)
  obtain n1 where n1: "\<And>n r. n1 \<le> n \<Longrightarrow> num_end r \<Longrightarrow> parse_value n d (t @ r) = Some (v, r)"
    using r_elems.IH(1) unfolding reads_def by metis
  obtain n2 where n2: "\<And>n r. n2 \<le> n \<Longrightarrow> parse_elems n d (ts @ '']'' @ r) = Some (vs, r)"
    using r_elems.IH(2) by metis
  have "parse_elems n d ((a @ t @ '','' @ ts) @ '']'' @ r) = Some (v # vs, r)"
    if "Suc (max n1 n2) \<le> n" for n r
    using that n1 [of "n - 1" "CHR '','' # ts @ '']'' @ r"] n2 [of "n - 1" r] r_elems.hyps
    by (cases n) (auto simp: parse_elems.simps parse_value_ws num_end_sep next_item_def is_space_def)
  then show ?case by blast
next
  case (r_member k d v t a b c)
  obtain n1 where n1: "\<And>n r. n1 \<le> n \<Longrightarrow> num_end r \<Longrightarrow> parse_value n d (t @ r) = Some (v, r)"
    using r_member.IH unfolding reads_def by metis
  have "parse_members n d ((a @ quote_string k @ '':'' @ b @ t @ c) @ ''}'' @ r) = Some ([(k, v)], r)"
    if "Suc n1 \<le> n" for n r
    using that n1 [of "n - 1" "c @ CHR ''}'' # r"] r_member.hyps num_end_ws [of c "CHR ''}''" r]
      parse_key_quote [of k "b @ t @ c @ CHR ''}'' # r"]
    by (cases n) (auto simp: parse_members.simps parse_key_ws parse_value_ws next_item_def is_space_def)
  then show ?case by blast
next
  case (r_members k d v t a b ms ts)
  obtain n1 where n1: "\<And>n r. n1 \<le> n \<Longrightarrow> num_end r \<Longrightarrow> parse_value n d (t @ r) = Some (v, r)"
    using r_members.IH(1) unfolding reads_def by metis
  obtain n2 where n2: "\<And>n r. n2 \<le> n \<Longrightarrow> parse_members n d (ts @ ''}'' @ r) = Some (ms, r)"
    using r_members.IH(2) by metis
  have "parse_members n d ((a @ quote_string k @ '':'' @ b @ t @ '','' @ ts) @ ''}'' @ r) = Some ((k, v) # ms, r)"
    if "Suc (max n1 n2) \<le> n" for n r
    using that n1 [of "n - 1" "CHR '','' # ts @ ''}'' @ r"] n2 [of "n - 1" r] r_members.hyps
      parse_key_quote [of k "b @ t @ CHR '','' # ts @ ''}'' @ r"]
    by (cases n) (auto simp: parse_members.simps parse_key_ws parse_value_ws num_end_sep next_item_def is_space_def)
  then show ?case by blast
next
  case (r_null d)
  show ?case
    by (rule reads_scalar [where c = "CHR ''n''" and t' = "''ull''"])
      (auto simp: parse_scalar_def HasPrefix_def is_space_def)
next
  case (r_true d)
  show ?case
    by (rule reads_scalar [where c = "CHR ''t''" and t' = "''rue''"])
      (auto simp: parse_scalar_def HasPrefix_def is_space_def)
next
  case (r_false d)
  show ?case
    by (rule reads_scalar [where c = "CHR ''f''" and t' = "''alse''"])
      (auto simp: parse_scalar_def HasPrefix_def is_space_def)
qed

text \<open>The values \<open>Marshal\<close> writes so that they are read back: UTF-8 strings, integers, and
  a nesting within the bound.\<close>

inductive json_ok :: "nat \<Rightarrow> json \<Rightarrow> bool" where
  "json_ok d JNull"
| "json_ok d (JBool b)"
| "json_ok d (JNum (itoa i))"
| "utf8_Valid s \<Longrightarrow> json_ok d (JStr s)"
| "\<forall>v \<in> set vs. json_ok d v \<Longrightarrow> json_ok (Suc d) (JArr vs)"
| "\<forall>m \<in> set ms. utf8_Valid (fst m) \<and> json_ok d (snd m) \<Longrightarrow> json_ok (Suc d) (JObj ms)"

lemma all_ws_simps [simp]: "all_ws []" "all_ws (newline k)"
  by (simp_all add: all_ws_def newline_def is_space_def list_all_iff)

lemma renders_marshal_elems:
  "vs \<noteq> [] \<Longrightarrow> \<forall>v \<in> set vs. renders d v (Marshal v) \<Longrightarrow> renders_elems d vs (marshal_elems vs)"
proof (induction vs)
  case (Cons v vs)
  then show ?case
    using r_elem [of d v "Marshal v" "[]" "[]"] r_elems [of d v "Marshal v" "[]" vs "marshal_elems vs"]
    by (cases "vs = []") auto
qed simp

lemma renders_marshal_members:
  "ms \<noteq> [] \<Longrightarrow> \<forall>m \<in> set ms. utf8_Valid (fst m) \<and> renders d (snd m) (Marshal (snd m)) \<Longrightarrow>
    renders_members d ms (marshal_members ms)"
proof (induction ms)
  case (Cons m ms)
  then show ?case
    using r_member [of "fst m" d "snd m" "Marshal (snd m)" "[]" "[]" "[]"]
      r_members [of "fst m" d "snd m" "Marshal (snd m)" "[]" "[]" ms "marshal_members ms"]
    by (cases "ms = []") auto
qed simp

lemma renders_Marshal: "json_ok d v \<Longrightarrow> renders d v (Marshal v)"
proof (induction rule: json_ok.induct)
  case (5 vs d)
  then show ?case using r_arr0 r_arr [OF renders_marshal_elems, of vs d] by (cases "vs = []") auto
next
  case (6 ms d)
  then show ?case using r_obj0 r_obj [OF renders_marshal_members, of ms d] by (cases "ms = []") auto
qed (auto intro: renders_renders_elems_renders_members.intros)

lemma renders_indent_elems:
  "vs \<noteq> [] \<Longrightarrow> \<forall>v \<in> set vs. renders d v (marshal_indent j v) \<Longrightarrow>
    renders_elems d vs (indent_elems j vs @ newline k)"
proof (induction vs)
  case (Cons v vs)
  then show ?case
    using r_elem [of d v "marshal_indent j v" "newline j" "newline k"]
      r_elems [of d v "marshal_indent j v" "newline j" vs "indent_elems j vs @ newline k"]
    by (cases "vs = []") auto
qed simp

lemma renders_indent_members:
  "ms \<noteq> [] \<Longrightarrow> \<forall>m \<in> set ms. utf8_Valid (fst m) \<and> renders d (snd m) (marshal_indent j (snd m)) \<Longrightarrow>
    renders_members d ms (indent_members j ms @ newline k)"
proof (induction ms)
  case (Cons m ms)
  have sp: "all_ws '' ''" by (simp add: all_ws_def is_space_def)
  show ?case
    using Cons sp r_member [of "fst m" d "snd m" "marshal_indent j (snd m)" "newline j" "'' ''" "newline k"]
      r_members [of "fst m" d "snd m" "marshal_indent j (snd m)" "newline j" "'' ''" ms
        "indent_members j ms @ newline k"]
    by (cases "ms = []") auto
qed simp

lemma renders_marshal_indent: "json_ok d v \<Longrightarrow> renders d v (marshal_indent j v)"
proof (induction arbitrary: j rule: json_ok.induct)
  case (5 vs d)
  then show ?case
    using r_arr0 r_arr [OF renders_indent_elems, of vs d "j + 1" j] by (cases "vs = []") auto
next
  case (6 ms d)
  then show ?case
    using r_obj0 r_obj [OF renders_indent_members, of ms d "j + 1" j] by (cases "ms = []") auto
next
  case (2 d b)
  then show ?case by (cases b) (auto intro: renders_renders_elems_renders_members.intros)
qed (auto intro: renders_renders_elems_renders_members.intros)

lemma parse_first_renders:
  assumes "renders maxNestingDepth v t" and "num_end r"
  shows "parse_first (t @ r) = Some (v, r)"
proof -
  let ?s = "t @ r"
  obtain n0 where "\<And>n. n0 \<le> n \<Longrightarrow> parse_value n maxNestingDepth ?s = Some (v, r)"
    using renders_reads(1) [OF assms(1)] assms(2) unfolding reads_def by metis
  then have "parse_value (max n0 (2 * length ?s + 2)) maxNestingDepth ?s = Some (v, r)" by simp
  then show ?thesis
    using parse_fuel(1) [of ?s "2 * length ?s + 2" "max n0 (2 * length ?s + 2)"]
    by (simp only: parse_first_def)
qed

lemma Unmarshal_renders: "renders maxNestingDepth v t \<Longrightarrow> Unmarshal t = Some v"
  using parse_first_renders [of v t "[]"] by (simp add: Unmarshal_def num_end_def skip_ws_def)

lemma Decode_renders: "renders maxNestingDepth v t \<Longrightarrow> num_end r \<Longrightarrow> Decode (t @ r) = Some v"
  using parse_first_renders [of v t r] by (simp add: Decode_def)

lemma Unmarshal_Marshal: "json_ok maxNestingDepth v \<Longrightarrow> Unmarshal (Marshal v) = Some v"
  by (intro Unmarshal_renders renders_Marshal)

lemma Decode_Marshal: "json_ok maxNestingDepth v \<Longrightarrow> num_end r \<Longrightarrow> Decode (Marshal v @ r) = Some v"
  by (intro Decode_renders renders_Marshal)

inductive_simps json_ok_simps [simp]:
  "json_ok d JNull" "json_ok d (JBool b)" "json_ok d (JStr s)" "json_ok (Suc d) (JArr vs)"
  "json_ok (Suc d) (JObj ms)"

lemma json_ok_num [simp]: "json_ok d (num_json i)"
  by (simp add: num_json_def json_ok.intros)

lemma json_ok_strs [simp]: "json_ok (Suc d) (str_array xs) \<longleftrightarrow> (\<forall>x \<in> set xs. utf8_Valid x)"
  by (simp add: str_array_def)

lemma json_ok_mono: "json_ok d v \<Longrightarrow> d \<le> e \<Longrightarrow> json_ok e v"
proof (induction arbitrary: e rule: json_ok.induct)
  case (5 vs d)
  then obtain e' where "e = Suc e'" "d \<le> e'" by (cases e) auto
  then show ?case using 5 by (auto intro: json_ok.intros)
next
  case (6 ms d)
  then obtain e' where "e = Suc e'" "d \<le> e'" by (cases e) auto
  then show ?case using 6 by (auto intro: json_ok.intros)
qed (auto intro: json_ok.intros)

lemma json_ok_max: "json_ok d v \<Longrightarrow> d \<le> 100 \<Longrightarrow> json_ok maxNestingDepth v"
  by (erule json_ok_mono) (simp add: maxNestingDepth_def)

lemma all_some_map [simp]: "all_some (map (\<lambda>x. Some (f x)) xs) = Some (map f xs)"
  by (induction xs) auto

lemma dec_slice_strings [simp]:
  "dec_slice (\<lambda>v. dec_string v []) (JArr (map JStr xs)) = Some (Some xs)"
  by (simp add: dec_slice_def dec_string_def o_def)

lemma match_field_exact [simp]: "k \<in> set names \<Longrightarrow> match_field names k = Some k"
  by (simp add: match_field_def)

lemma utf8_literal: "list_all (\<lambda>c. byte c < 128) s \<Longrightarrow> utf8_Valid s"
  by (rule utf8_ascii) (simp add: list_all_iff)

lemma dec_string_simps [simp]: "dec_string (JStr s) old = Some s" "dec_string JNull old = Some old"
  by (simp_all add: dec_string_def)

end
