(* ===== verification/Url_Parse.thy ===== *)
theory Url_Parse
  imports Encoding
begin

text \<open>
  \<open>url.Parse\<close> and \<open>url.QueryEscape\<close> of Go's \<open>net/url\<close>, as far as the sources look at the
  result: scheme, opaque part, host, path and fragment. An IP literal in brackets as host is
  refused here, which no caller can tell apart from a host that is not a version.
\<close>

record url =
  u_Scheme :: string
  u_Opaque :: string
  u_Host :: string
  u_Path :: string
  u_Fragment :: string

datatype encoding_mode = encodeHost | encodePath | encodeFragment | encodeUserPassword

section \<open>Percent decoding\<close>

definition host_escape :: "char \<Rightarrow> bool" where
  "host_escape c \<longleftrightarrow> \<not> (is_alnum c \<or> c \<in> set ''!$&()*+,;=:[]<>-_.~'' \<or> c = CHR 0x22 \<or> c = CHR 0x27)"

fun unescape :: "encoding_mode \<Rightarrow> string \<Rightarrow> string option" where
  "unescape mode [] = Some []"
| "unescape mode [c] =
     (if c = CHR ''%'' \<or> mode = encodeHost \<and> byte c < 128 \<and> host_escape c then None else Some [c])"
| "unescape mode [c, d] =
     (if c = CHR ''%'' \<or> mode = encodeHost \<and> byte c < 128 \<and> host_escape c then None
      else map_option (Cons c) (unescape mode [d]))"
| "unescape mode (c # d # e # r) =
     (if c = CHR ''%'' then
        (case (hex_val d, hex_val e) of
           (Some x, Some y) \<Rightarrow>
             if mode = encodeHost \<and> x < 8 \<and> \<not> (d = CHR ''2'' \<and> e = CHR ''5'') then None
             else map_option (Cons (char_of (x * 16 + y))) (unescape mode r)
         | _ \<Rightarrow> None)
      else if mode = encodeHost \<and> byte c < 128 \<and> host_escape c then None
      else map_option (Cons c) (unescape mode (d # e # r)))"

section \<open>Scheme, authority and the whole reference\<close>

definition is_ctl :: "char \<Rightarrow> bool" where
  "is_ctl c \<longleftrightarrow> byte c < 32 \<or> byte c = 127"

text \<open>\<open>getScheme\<close>: \<open>None\<close> for a reference that begins with a colon; no scheme is \<open>''''\<close>.\<close>

definition scheme_char :: "char \<Rightarrow> bool" where
  "scheme_char c \<longleftrightarrow> is_alnum c \<or> c = CHR ''+'' \<or> c = CHR ''-'' \<or> c = CHR ''.''"

definition getScheme :: "string \<Rightarrow> (string \<times> string) option" where
  "getScheme s =
     (let sch = takeWhile scheme_char s; rest = dropWhile scheme_char s in
      if \<not> HasPrefix rest '':'' then Some ([], s)
      else if sch = [] then None
      else if is_upper (hd sch) \<or> is_lower (hd sch) then Some (sch, tl rest)
      else Some ([], s))"

definition valid_userinfo :: "string \<Rightarrow> bool" where
  "valid_userinfo s = list_all (\<lambda>c. is_alnum c \<or> c \<in> set ''-._:~!$&()*+,;=%@'' \<or> c = CHR 0x27) s"

definition validOptionalPort :: "string \<Rightarrow> bool" where
  "validOptionalPort port = (port = [] \<or> hd port = CHR '':'' \<and> list_all is_digit (tl port))"

definition parseHost :: "string \<Rightarrow> string option" where
  "parseHost host =
     (if CHR ''['' \<in> set host then None
      else if \<not> validOptionalPort (dropWhile (\<lambda>c. c \<noteq> CHR '':'') host) then None
      else unescape encodeHost host)"

definition parseAuthority :: "string \<Rightarrow> string option" where
  "parseAuthority authority =
     (case cut_at (CHR ''@'') (rev authority) of
        None \<Rightarrow> parseHost authority
      | Some (h, u) \<Rightarrow>
          (case parseHost (rev h) of
             None \<Rightarrow> None
           | Some host \<Rightarrow>
               if valid_userinfo (rev u) \<and> unescape encodeUserPassword (rev u) \<noteq> None then Some host
               else None))"

definition cut_query :: "string \<Rightarrow> string" where
  "cut_query s = (case cut_at (CHR ''?'') s of None \<Rightarrow> s | Some (a, _) \<Rightarrow> a)"

definition cut_path :: "string \<Rightarrow> string \<times> string" where
  "cut_path s = (takeWhile (\<lambda>c. c \<noteq> CHR ''/'') s, dropWhile (\<lambda>c. c \<noteq> CHR ''/'') s)"

definition first_segment_colon :: "string \<Rightarrow> bool" where
  "first_segment_colon s = (CHR '':'' \<in> set (fst (cut_path s)))"

definition url_parse :: "string \<Rightarrow> url option" where
  "url_parse raw =
     (let zero = \<lparr>u_Scheme = [], u_Opaque = [], u_Host = [], u_Path = [], u_Fragment = []\<rparr> in
      if list_ex is_ctl raw then None
      else if raw = ''*'' then Some (zero\<lparr>u_Path := ''*''\<rparr>)
      else
        (case getScheme raw of
           None \<Rightarrow> None
         | Some (scheme, rest0) \<Rightarrow>
             let u = zero\<lparr>u_Scheme := map to_lower scheme\<rparr>; rest = cut_query rest0 in
             if \<not> HasPrefix rest ''/'' \<and> scheme \<noteq> [] then Some (u\<lparr>u_Opaque := rest\<rparr>)
             else if \<not> HasPrefix rest ''/'' \<and> first_segment_colon rest then None
             else if (scheme \<noteq> [] \<or> \<not> HasPrefix rest ''///'') \<and> HasPrefix rest ''//'' then
               (case cut_path (drop 2 rest) of
                  (authority, path) \<Rightarrow>
                    (case (parseAuthority authority, unescape encodePath path) of
                       (Some host, Some p) \<Rightarrow> Some (u\<lparr>u_Host := host, u_Path := p\<rparr>)
                     | _ \<Rightarrow> None))
             else
               (case unescape encodePath rest of
                  Some p \<Rightarrow> Some (u\<lparr>u_Path := p\<rparr>)
                | None \<Rightarrow> None)))"

definition Parse :: "string \<Rightarrow> url option" where
  "Parse raw =
     (case cut_at (CHR ''#'') raw of
        None \<Rightarrow> url_parse raw
      | Some (u, frag) \<Rightarrow>
          (case (url_parse u, unescape encodeFragment frag) of
             (Some v, Some f) \<Rightarrow> Some (v\<lparr>u_Fragment := f\<rparr>)
           | _ \<Rightarrow> None))"

section \<open>Query escaping\<close>

definition QueryEscape :: "string \<Rightarrow> string" where
  "QueryEscape s =
     concat (map (\<lambda>c. if is_alnum c \<or> c \<in> set ''-_.~'' then [c]
                      else if c = CHR '' '' then ''+''
                      else [CHR ''%'', HEX_digit (byte c div 16), HEX_digit (byte c mod 16)]) s)"

section \<open>Lemmas\<close>

lemma unescape_plain:
  "CHR ''%'' \<notin> set s \<Longrightarrow> mode \<noteq> encodeHost \<Longrightarrow> unescape mode s = Some s"
  by (induction mode s rule: unescape.induct) auto

end
