(* ===== verification/Protocol_Token.thy ===== *)
theory Protocol_Token
  imports Protocol_Errors Json Url_Parse "HOL-Library.AList"
begin

text \<open>
  token.go: capability tokens. Claims and headers with their JSON forms, the compact JWS
  (\<open>signCompact\<close>, \<open>verifyCompact\<close>, \<open>decodeHeader\<close>, \<open>DecodeClaims\<close>), the rules on claims, the
  two signers and the key-set verifier, token URIs, and \<open>VerifyToken\<close>.

  The signature primitives, SHA-256 and the DER forms of keys are the record \<open>crypto\<close> of
  functions, a parameter of every operation that uses them.
\<close>

section \<open>Data\<close>

record Claims =
  c_Iss :: string
  c_Sub :: string
  c_SID :: string
  c_Scope :: "string list"
  c_Aud :: string
  c_Exp :: int
  c_Nbf :: int
  c_JTI :: string

record Header =
  h_Alg :: string
  h_Kid :: string
  h_Typ :: string

record PublicKey =
  pk_KID :: string
  pk_Alg :: string
  pk_Public :: string

record PublicJWKS =
  jwks_Issuer :: string
  jwks_Keys :: "PublicKey list"

definition Kids :: "PublicJWKS \<Rightarrow> string list" where
  "Kids j = map pk_KID (jwks_Keys j)"

definition zero_claims :: Claims where
  "zero_claims = \<lparr>c_Iss = [], c_Sub = [], c_SID = [], c_Scope = [], c_Aud = [], c_Exp = 0,
     c_Nbf = 0, c_JTI = []\<rparr>"

definition zero_header :: Header where
  "zero_header = \<lparr>h_Alg = [], h_Kid = [], h_Typ = []\<rparr>"

text \<open>The JSON forms: the struct tags give the names, \<open>sub\<close> is left out when empty.\<close>

definition header_json :: "Header \<Rightarrow> json" where
  "header_json h = JObj [(''alg'', JStr (h_Alg h)), (''kid'', JStr (h_Kid h)), (''typ'', JStr (h_Typ h))]"

definition claims_json :: "Claims \<Rightarrow> json" where
  "claims_json c =
     JObj ([(''iss'', JStr (c_Iss c))] @ omit_str ''sub'' (c_Sub c)
       @ [(''sid'', JStr (c_SID c)), (''scope'', str_array (c_Scope c)), (''aud'', JStr (c_Aud c)),
          (''exp'', num_json (c_Exp c)), (''nbf'', num_json (c_Nbf c)), (''jti'', JStr (c_JTI c))])"

definition header_store :: "string \<Rightarrow> json \<Rightarrow> Header \<Rightarrow> Header option" where
  "header_store f v h =
     (if f = ''alg'' then map_option (\<lambda>x. h\<lparr>h_Alg := x\<rparr>) (dec_string v (h_Alg h))
      else if f = ''kid'' then map_option (\<lambda>x. h\<lparr>h_Kid := x\<rparr>) (dec_string v (h_Kid h))
      else map_option (\<lambda>x. h\<lparr>h_Typ := x\<rparr>) (dec_string v (h_Typ h)))"

definition header_of_json :: "json \<Rightarrow> Header option" where
  "header_of_json v = dec_struct False [''alg'', ''kid'', ''typ''] header_store v zero_header"

definition claims_store :: "string \<Rightarrow> json \<Rightarrow> Claims \<Rightarrow> Claims option" where
  "claims_store f v c =
     (if f = ''iss'' then map_option (\<lambda>x. c\<lparr>c_Iss := x\<rparr>) (dec_string v (c_Iss c))
      else if f = ''sub'' then map_option (\<lambda>x. c\<lparr>c_Sub := x\<rparr>) (dec_string v (c_Sub c))
      else if f = ''sid'' then map_option (\<lambda>x. c\<lparr>c_SID := x\<rparr>) (dec_string v (c_SID c))
      else if f = ''scope'' then
        map_option (\<lambda>x. c\<lparr>c_Scope := case_option [] id x\<rparr>) (dec_slice (\<lambda>w. dec_string w []) v)
      else if f = ''aud'' then map_option (\<lambda>x. c\<lparr>c_Aud := x\<rparr>) (dec_string v (c_Aud c))
      else if f = ''exp'' then map_option (\<lambda>x. c\<lparr>c_Exp := x\<rparr>) (dec_int64 v (c_Exp c))
      else if f = ''nbf'' then map_option (\<lambda>x. c\<lparr>c_Nbf := x\<rparr>) (dec_int64 v (c_Nbf c))
      else map_option (\<lambda>x. c\<lparr>c_JTI := x\<rparr>) (dec_string v (c_JTI c)))"

definition claims_of_json :: "json \<Rightarrow> Claims option" where
  "claims_of_json v =
     dec_struct False [''iss'', ''sub'', ''sid'', ''scope'', ''aud'', ''exp'', ''nbf'', ''jti'']
       claims_store v zero_claims"

section \<open>The rules on claims\<close>

text \<open>The loop over the scopes with the set of the scopes seen so far.\<close>

fun scopes_ok :: "string list \<Rightarrow> string list \<Rightarrow> bool" where
  "scopes_ok seen [] = True"
| "scopes_ok seen (s # ss) =
     (if \<not> IsScopeValid s then False
      else if s \<in> set seen then False
      else scopes_ok (s # seen) ss)"

definition validateClaims :: "Claims \<Rightarrow> unit result" where
  "validateClaims c =
     (let bad = Inl (NewDenial ReasonMalformed) in
      if c_Iss c = [] \<or> \<not> HasPrefix (c_Iss c) ''https://'' then bad
      else if c_SID c = [] then bad
      else if length (c_Scope c) = 0 then bad
      else if \<not> scopes_ok [] (c_Scope c) then bad
      else if c_Aud c = [] then bad
      else if c_Exp c = 0 \<or> c_Nbf c = 0 then bad
      else if c_Nbf c > c_Exp c then bad
      else if c_JTI c = [] then bad
      else Inr ())"

section \<open>Compact JWS\<close>

definition decodeHeader :: "string \<Rightarrow> Header result" where
  "decodeHeader jws =
     (case split_on (CHR ''.'') jws of
        [p0, p1, p2] \<Rightarrow>
          (case b64decode p0 of
             None \<Rightarrow> Inl (NewDenial ReasonMalformed)
           | Some hb \<Rightarrow>
               (case Option.bind (Unmarshal hb) header_of_json of
                  None \<Rightarrow> Inl (NewDenial ReasonMalformed)
                | Some h \<Rightarrow>
                    if \<not> IsAlgorithmAllowed (h_Alg h) then Inl (NewDenial ReasonAlgNotAllowed)
                    else if h_Kid h = [] then Inl (NewDenial ReasonKidMissing)
                    else Inr h))
      | _ \<Rightarrow> Inl (NewDenial ReasonMalformed))"

definition DecodeHeader :: "string \<Rightarrow> Header result" where
  "DecodeHeader jws = decodeHeader jws"

definition signCompact ::
  "Header \<Rightarrow> Claims \<Rightarrow> string \<Rightarrow> string \<Rightarrow> (bytes \<Rightarrow> bytes result) \<Rightarrow> string result"
where
  "signCompact h c kid alg sign =
     (if \<not> IsAlgorithmAllowed alg then Inl (NewDenial ReasonAlgNotAllowed)
      else
        let h = h\<lparr>h_Alg := alg, h_Kid := kid, h_Typ := TokenType\<rparr> in
        (case validateClaims c of
           Inl e \<Rightarrow> Inl e
         | Inr _ \<Rightarrow>
             let signingInput = b64 (Marshal (header_json h)) @ ''.'' @ b64 (Marshal (claims_json c)) in
             (case sign signingInput of
                Inl e \<Rightarrow> Inl e
              | Inr sig \<Rightarrow> Inr (signingInput @ ''.'' @ b64 sig))))"

definition verifyCompact ::
  "string \<Rightarrow> (Header \<Rightarrow> bytes \<Rightarrow> bytes \<Rightarrow> unit result) \<Rightarrow> Header result"
where
  "verifyCompact jws check =
     (case split_on (CHR ''.'') jws of
        [p0, p1, p2] \<Rightarrow>
          (case b64decode p0 of
             None \<Rightarrow> Inl (NewDenial ReasonMalformed)
           | Some hb \<Rightarrow>
               (case Option.bind (Unmarshal hb) header_of_json of
                  None \<Rightarrow> Inl (NewDenial ReasonMalformed)
                | Some h \<Rightarrow>
                    if \<not> IsAlgorithmAllowed (h_Alg h) then Inl (NewDenial ReasonAlgNotAllowed)
                    else if h_Kid h = [] then Inl (NewDenial ReasonKidMissing)
                    else
                      (case b64decode p2 of
                         None \<Rightarrow> Inl (NewDenial ReasonMalformed)
                       | Some sig \<Rightarrow>
                           (case check h (p0 @ ''.'' @ p1) sig of
                              Inl e \<Rightarrow> Inl e
                            | Inr _ \<Rightarrow> Inr h))))
      | _ \<Rightarrow> Inl (NewDenial ReasonMalformed))"

definition DecodeClaims :: "string \<Rightarrow> Claims result" where
  "DecodeClaims jws =
     (case split_on (CHR ''.'') jws of
        [p0, p1, p2] \<Rightarrow>
          (case b64decode p1 of
             None \<Rightarrow> Inl (NewDenial ReasonMalformed)
           | Some cb \<Rightarrow>
               (case Option.bind (Unmarshal cb) claims_of_json of
                  None \<Rightarrow> Inl (NewDenial ReasonMalformed)
                | Some c \<Rightarrow> Inr c))
      | _ \<Rightarrow> Inl (NewDenial ReasonMalformed))"

section \<open>Signature primitives\<close>

text \<open>
  An ECDSA public key is its curve size in bits and an opaque point; \<open>crypto/x509\<close> maps key
  bytes to keys and back; \<open>ecdsa.Sign\<close> draws randomness, which is its last argument.
\<close>

record ec_public =
  ec_BitSize :: nat
  ec_point :: bytes

datatype public_key = Ed25519_public bytes | ECDSA_public ec_public | Other_public

record crypto =
  ed25519_Sign :: "bytes \<Rightarrow> bytes \<Rightarrow> bytes"
  ed25519_Verify :: "bytes \<Rightarrow> bytes \<Rightarrow> bytes \<Rightarrow> bool"
  sha256_Sum256 :: "bytes \<Rightarrow> bytes"
  ecdsa_Sign :: "bytes \<Rightarrow> bytes \<Rightarrow> bytes \<Rightarrow> (nat \<times> nat) result"
  ecdsa_Verify :: "ec_public \<Rightarrow> bytes \<Rightarrow> nat \<Rightarrow> nat \<Rightarrow> bool"
  x509_ParsePKIXPublicKey :: "bytes \<Rightarrow> public_key option"
  x509_MarshalPKIXPublicKey :: "public_key \<Rightarrow> bytes option"

text \<open>\<open>big.Int.SetBytes\<close> and \<open>FillBytes\<close>: big-endian integers of a fixed width.\<close>

definition newBigInt :: "bytes \<Rightarrow> nat" where
  "newBigInt b = foldl (\<lambda>n c. n * 256 + byte c) 0 b"

fun FillBytes :: "nat \<Rightarrow> nat \<Rightarrow> bytes" where
  "FillBytes 0 n = []"
| "FillBytes (Suc w) n = FillBytes w (n div 256) @ [char_of (n mod 256)]"

section \<open>Ed25519 signer\<close>

record Ed25519Signer =
  ed_kid :: string
  ed_prv :: bytes

text \<open>An Ed25519 private key is 64 bytes, of which the last 32 are the public key.\<close>

definition ed25519_Public :: "bytes \<Rightarrow> bytes" where
  "ed25519_Public prv = drop 32 prv"

definition NewEd25519Signer :: "string \<Rightarrow> bytes \<Rightarrow> Ed25519Signer result" where
  "NewEd25519Signer kid prv =
     (if length prv \<noteq> 64 then Inl (Err (''ed25519: bad private key size '' @ itoa (int (length prv))))
      else Inr \<lparr>ed_kid = kid, ed_prv = prv\<rparr>)"

definition ed25519PublicKey :: "crypto \<Rightarrow> string \<Rightarrow> bytes \<Rightarrow> PublicKey" where
  "ed25519PublicKey C kid pub =
     (case x509_MarshalPKIXPublicKey C (Ed25519_public pub) of
        None \<Rightarrow> \<lparr>pk_KID = kid, pk_Alg = AlgEdDSA, pk_Public = []\<rparr>
      | Some der \<Rightarrow> \<lparr>pk_KID = kid, pk_Alg = AlgEdDSA, pk_Public = EncodeToString StdEncoding der\<rparr>)"

definition Ed25519_Sign :: "crypto \<Rightarrow> Ed25519Signer \<Rightarrow> Header \<Rightarrow> Claims \<Rightarrow> string result" where
  "Ed25519_Sign C s h c =
     signCompact h c (ed_kid s) AlgEdDSA (\<lambda>signingInput. Inr (ed25519_Sign C (ed_prv s) signingInput))"

definition Ed25519_Verify :: "crypto \<Rightarrow> Ed25519Signer \<Rightarrow> string \<Rightarrow> Header result" where
  "Ed25519_Verify C s jws =
     verifyCompact jws (\<lambda>h signingInput sig.
       if h_Alg h \<noteq> AlgEdDSA then Inl (NewDenial ReasonAlgNotAllowed)
       else if h_Kid h \<noteq> ed_kid s then Inl (NewDenial ReasonKidUnknown)
       else if \<not> ed25519_Verify C (ed25519_Public (ed_prv s)) signingInput sig
       then Inl (NewDenial ReasonSignatureInvalid)
       else Inr ())"

definition Ed25519_VerifyWith ::
  "crypto \<Rightarrow> Ed25519Signer \<Rightarrow> string \<Rightarrow> string \<Rightarrow> string \<Rightarrow> Header result"
where
  "Ed25519_VerifyWith C s kid alg jws =
     (if kid \<noteq> ed_kid s then Inl (NewDenial ReasonKidUnknown) else Ed25519_Verify C s jws)"

definition Ed25519_PublicKeys :: "crypto \<Rightarrow> Ed25519Signer \<Rightarrow> PublicKey list" where
  "Ed25519_PublicKeys C s = [ed25519PublicKey C (ed_kid s) (ed25519_Public (ed_prv s))]"

section \<open>ES256 signer\<close>

record ES256Signer =
  es_kid :: string
  es_pub :: ec_public
  es_prv :: bytes

definition NewES256Signer :: "string \<Rightarrow> (ec_public \<times> bytes) option \<Rightarrow> ES256Signer result" where
  "NewES256Signer kid key =
     (case key of
        None \<Rightarrow> Inl (Err ''es256: requires a P-256 key'')
      | Some (pub, prv) \<Rightarrow>
          if ec_BitSize pub \<noteq> 256 then Inl (Err ''es256: requires a P-256 key'')
          else Inr \<lparr>es_kid = kid, es_pub = pub, es_prv = prv\<rparr>)"

definition ecdsaPublicKey :: "crypto \<Rightarrow> string \<Rightarrow> ec_public \<Rightarrow> PublicKey" where
  "ecdsaPublicKey C kid pub =
     (case x509_MarshalPKIXPublicKey C (ECDSA_public pub) of
        None \<Rightarrow> \<lparr>pk_KID = kid, pk_Alg = AlgES256, pk_Public = []\<rparr>
      | Some der \<Rightarrow> \<lparr>pk_KID = kid, pk_Alg = AlgES256, pk_Public = EncodeToString StdEncoding der\<rparr>)"

text \<open>The width of one half of a signature, in bytes.\<close>

definition ec_size :: "ec_public \<Rightarrow> nat" where
  "ec_size pub = (ec_BitSize pub + 7) div 8"

definition ES256_Sign :: "crypto \<Rightarrow> ES256Signer \<Rightarrow> bytes \<Rightarrow> Header \<Rightarrow> Claims \<Rightarrow> string result" where
  "ES256_Sign C s random h c =
     signCompact h c (es_kid s) AlgES256 (\<lambda>signingInput.
       case ecdsa_Sign C (es_prv s) (sha256_Sum256 C signingInput) random of
         Inl e \<Rightarrow> Inl e
       | Inr (r, sv) \<Rightarrow>
           let size = ec_size (es_pub s) in Inr (FillBytes size r @ FillBytes size sv))"

definition ecdsa_check :: "crypto \<Rightarrow> ec_public \<Rightarrow> bytes \<Rightarrow> bytes \<Rightarrow> unit result" where
  "ecdsa_check C pub signingInput sig =
     (let size = ec_size pub in
      if length sig \<noteq> 2 * size then Inl (NewDenial ReasonSignatureInvalid)
      else if \<not> ecdsa_Verify C pub (sha256_Sum256 C signingInput)
                  (newBigInt (take size sig)) (newBigInt (drop size sig))
      then Inl (NewDenial ReasonSignatureInvalid)
      else Inr ())"

definition ES256_Verify :: "crypto \<Rightarrow> ES256Signer \<Rightarrow> string \<Rightarrow> Header result" where
  "ES256_Verify C s jws =
     verifyCompact jws (\<lambda>h signingInput sig.
       if h_Alg h \<noteq> AlgES256 then Inl (NewDenial ReasonAlgNotAllowed)
       else if h_Kid h \<noteq> es_kid s then Inl (NewDenial ReasonKidUnknown)
       else ecdsa_check C (es_pub s) signingInput sig)"

definition ES256_VerifyWith ::
  "crypto \<Rightarrow> ES256Signer \<Rightarrow> string \<Rightarrow> string \<Rightarrow> string \<Rightarrow> Header result"
where
  "ES256_VerifyWith C s kid alg jws =
     (if kid \<noteq> es_kid s then Inl (NewDenial ReasonKidUnknown) else ES256_Verify C s jws)"

definition ES256_PublicKeys :: "crypto \<Rightarrow> ES256Signer \<Rightarrow> PublicKey list" where
  "ES256_PublicKeys C s = [ecdsaPublicKey C (es_kid s) (es_pub s)]"

section \<open>The key-set verifier\<close>

text \<open>The keys by kid; of several keys with one kid the last is kept.\<close>

type_synonym KeySetVerifier = "(string \<times> PublicKey) list"

fun add_keys :: "PublicKey list \<Rightarrow> KeySetVerifier \<Rightarrow> KeySetVerifier result" where
  "add_keys [] m = Inr m"
| "add_keys (k # ks) m =
     (if pk_KID k = [] \<or> pk_Alg k = [] \<or> pk_Public k = [] then Inl (NewDenial ReasonMalformed)
      else if \<not> IsAlgorithmAllowed (pk_Alg k) then Inl (NewDenial ReasonAlgNotAllowed)
      else add_keys ks (AList.update (pk_KID k) k m))"

definition NewKeySetVerifier :: "PublicKey list \<Rightarrow> KeySetVerifier result" where
  "NewKeySetVerifier keys =
     (case add_keys keys [] of
        Inl e \<Rightarrow> Inl e
      | Inr m \<Rightarrow> if m = [] then Inl (NewDenial ReasonKidUnknown) else Inr m)"

definition verifyWithPublicKey :: "crypto \<Rightarrow> PublicKey \<Rightarrow> bytes \<Rightarrow> bytes \<Rightarrow> unit result" where
  "verifyWithPublicKey C k signingInput sig =
     (case DecodeString StdEncoding (pk_Public k) of
        None \<Rightarrow> Inl (NewDenial ReasonSignatureInvalid)
      | Some raw \<Rightarrow>
          (case x509_ParsePKIXPublicKey C raw of
             None \<Rightarrow> Inl (NewDenial ReasonSignatureInvalid)
           | Some (Ed25519_public key) \<Rightarrow>
               if pk_Alg k \<noteq> AlgEdDSA \<or> \<not> ed25519_Verify C key signingInput sig
               then Inl (NewDenial ReasonSignatureInvalid) else Inr ()
           | Some (ECDSA_public key) \<Rightarrow>
               if pk_Alg k \<noteq> AlgES256 then Inl (NewDenial ReasonSignatureInvalid)
               else ecdsa_check C key signingInput sig
           | Some Other_public \<Rightarrow> Inl (NewDenial ReasonSignatureInvalid)))"

definition KeySet_VerifyWith ::
  "crypto \<Rightarrow> KeySetVerifier \<Rightarrow> string \<Rightarrow> string \<Rightarrow> string \<Rightarrow> Header result"
where
  "KeySet_VerifyWith C v kid alg jws =
     (case map_of v kid of
        None \<Rightarrow> Inl (NewDenial ReasonKidUnknown)
      | Some k \<Rightarrow>
          if pk_Alg k \<noteq> alg then Inl (NewDenial ReasonAlgNotAllowed)
          else
            verifyCompact jws (\<lambda>h signingInput sig.
              if h_Kid h \<noteq> kid then Inl (NewDenial ReasonKidUnknown)
              else verifyWithPublicKey C k signingInput sig))"

definition KeySet_Verify :: "crypto \<Rightarrow> KeySetVerifier \<Rightarrow> string \<Rightarrow> Header result" where
  "KeySet_Verify C v jws =
     (case DecodeHeader jws of
        Inl e \<Rightarrow> Inl e
      | Inr hdr \<Rightarrow> KeySet_VerifyWith C v (h_Kid hdr) (h_Alg hdr) jws)"

section \<open>Token URIs\<close>

definition URI :: "string \<Rightarrow> string \<Rightarrow> string" where
  "URI sid jws = URIScheme @ ''://v'' @ Version @ ''/'' @ sid @ ''#'' @ jws"

record ParsedURI =
  p_SID :: string
  p_JWS :: string
  p_Version :: string

definition ParseURI :: "string \<Rightarrow> ParsedURI result" where
  "ParseURI raw =
     (case Parse raw of
        None \<Rightarrow> Inl (NewDenial ReasonMalformed)
      | Some u \<Rightarrow>
          if u_Scheme u \<noteq> URIScheme then Inl (NewDenial ReasonMalformed)
          else
            let rest = TrimPrefix (u_Opaque u) ''//'';
                rest = (if rest = [] then u_Host u @ u_Path u else rest) in
            (case cut_at (CHR ''/'') rest of
               None \<Rightarrow> Inl (NewDenial ReasonMalformed)
             | Some (v, sid) \<Rightarrow>
                 let version = TrimPrefix v ''v'' in
                 if version \<noteq> Version then Inl (NewDenial ReasonUnsupportedVersion)
                 else if sid = [] \<or> u_Fragment u = [] then Inl (NewDenial ReasonMalformed)
                 else Inr \<lparr>p_SID = sid, p_JWS = u_Fragment u, p_Version = version\<rparr>))"

section \<open>VerifyToken\<close>

text \<open>
  The verifier and the revocation check are interfaces whose implementations keep caches and
  talk to the network: they read and change a state \<open>w\<close> that is passed through. A nil
  revocation check is \<open>None\<close>. \<open>nowSec\<close> is \<open>now.Unix()\<close>.
\<close>

definition VerifyToken ::
  "(string \<Rightarrow> 'w \<Rightarrow> Header result \<times> 'w) \<Rightarrow> ParsedURI \<Rightarrow> string \<Rightarrow> int
    \<Rightarrow> (string \<Rightarrow> 'w \<Rightarrow> bool \<times> 'w) option \<Rightarrow> 'w \<Rightarrow> Claims result \<times> 'w"
where
  "VerifyToken verify p audience nowSec revoked w =
     (case verify (p_JWS p) w of
        (Inl e, w) \<Rightarrow> (Inl e, w)
      | (Inr _, w) \<Rightarrow>
          (case DecodeClaims (p_JWS p) of
             Inl e \<Rightarrow> (Inl e, w)
           | Inr c \<Rightarrow>
               (case validateClaims c of
                  Inl e \<Rightarrow> (Inl e, w)
                | Inr _ \<Rightarrow>
                    if nowSec \<ge> c_Exp c then (Inl (NewDenial ReasonExpired), w)
                    else if nowSec < c_Nbf c then (Inl (NewDenial ReasonNotYetValid), w)
                    else if c_Aud c \<noteq> audience then (Inl (NewDenial ReasonAudienceMismatch), w)
                    else if c_SID c \<noteq> p_SID p then (Inl (NewDenial ReasonSIDPathMismatch), w)
                    else
                      (case revoked of
                         None \<Rightarrow> (Inr c, w)
                       | Some r \<Rightarrow>
                           (case r (c_JTI c) w of
                              (True, w) \<Rightarrow> (Inl (NewDenial ReasonRevoked), w)
                            | (False, w) \<Rightarrow> (Inr c, w))))))"

section \<open>Lemmas: JSON forms\<close>

definition claims_utf8 :: "Claims \<Rightarrow> bool" where
  "claims_utf8 c \<longleftrightarrow> utf8_Valid (c_Iss c) \<and> utf8_Valid (c_Sub c) \<and> utf8_Valid (c_SID c)
     \<and> list_all utf8_Valid (c_Scope c) \<and> utf8_Valid (c_Aud c) \<and> utf8_Valid (c_JTI c)
     \<and> - (2 ^ 63) \<le> c_Exp c \<and> c_Exp c < 2 ^ 63 \<and> - (2 ^ 63) \<le> c_Nbf c \<and> c_Nbf c < 2 ^ 63"

definition header_utf8 :: "Header \<Rightarrow> bool" where
  "header_utf8 h \<longleftrightarrow> utf8_Valid (h_Alg h) \<and> utf8_Valid (h_Kid h) \<and> utf8_Valid (h_Typ h)"

lemma header_of_header_json: "header_of_json (header_json h) = Some h"
  by (simp add: header_of_json_def header_json_def dec_struct_def header_store_def)

lemma claims_of_claims_json:
  assumes "claims_utf8 c" shows "claims_of_json (claims_json c) = Some c"
proof -
  have "dec_int64 (num_json (c_Exp c)) 0 = Some (c_Exp c)" "dec_int64 (num_json (c_Nbf c)) 0 = Some (c_Nbf c)"
    using assms by (simp_all add: dec_int64_def num_json_def claims_utf8_def ParseInt_itoa)
  then show ?thesis
    by (cases "c_Sub c = []")
      (simp_all add: claims_of_json_def claims_json_def dec_struct_def claims_store_def
        omit_str_def str_array_def zero_claims_def)
qed

lemma json_ok_header: "header_utf8 h \<Longrightarrow> json_ok maxNestingDepth (header_json h)"
  unfolding header_json_def header_utf8_def
  by (rule json_ok_max [of "Suc 0"]) (auto intro!: json_ok.intros simp: utf8_literal)

lemma json_ok_claims: "claims_utf8 c \<Longrightarrow> json_ok maxNestingDepth (claims_json c)"
  unfolding claims_json_def claims_utf8_def str_array_def num_json_def omit_str_def
  by (rule json_ok_max [of "Suc (Suc 0)"])
    (auto intro!: json_ok.intros simp: utf8_literal list_all_iff)

lemma Unmarshal_header: "header_utf8 h \<Longrightarrow> Option.bind (Unmarshal (Marshal (header_json h))) header_of_json = Some h"
  by (simp add: Unmarshal_Marshal json_ok_header header_of_header_json)

lemma Unmarshal_claims: "claims_utf8 c \<Longrightarrow> Option.bind (Unmarshal (Marshal (claims_json c))) claims_of_json = Some c"
  by (simp add: Unmarshal_Marshal json_ok_claims claims_of_claims_json)

section \<open>Lemmas: the compact form\<close>

lemma b64_no_dot: "CHR ''.'' \<notin> set (b64 b)"
  using EncodeToString_chars [of "CHR ''.''" RawURLEncoding b]
  by (auto simp: b64_def b64_safe_char_def char_class_defs)

lemma split_compact: "split_on (CHR ''.'') (b64 a @ ''.'' @ b64 b @ ''.'' @ b64 c) = [b64 a, b64 b, b64 c]"
  using split_on_append_sep [of "CHR ''.''" "b64 a" "b64 b @ ''.'' @ b64 c"]
    split_on_append_sep [of "CHR ''.''" "b64 b" "b64 c"] split_on_no_sep [of "CHR ''.''" "b64 c"]
  by (simp add: b64_no_dot)

lemma signCompact_Inr:
  assumes "signCompact h c kid alg sign = Inr jws"
  obtains sig where "IsAlgorithmAllowed alg" "validateClaims c = Inr ()"
    "sign (b64 (Marshal (header_json \<lparr>h_Alg = alg, h_Kid = kid, h_Typ = TokenType\<rparr>)) @ ''.'' @
       b64 (Marshal (claims_json c))) = Inr sig"
    "jws = b64 (Marshal (header_json \<lparr>h_Alg = alg, h_Kid = kid, h_Typ = TokenType\<rparr>)) @ ''.'' @
       b64 (Marshal (claims_json c)) @ ''.'' @ b64 sig"
proof -
  have h: "h\<lparr>h_Alg := alg, h_Kid := kid, h_Typ := TokenType\<rparr> = \<lparr>h_Alg = alg, h_Kid = kid, h_Typ = TokenType\<rparr>"
    by (cases h) simp
  show thesis
    using assms that by (auto simp: signCompact_def Let_def h split: if_splits sum.splits)
qed

text \<open>What a signature made by \<open>signCompact\<close> decodes to, and that \<open>verifyCompact\<close> reduces to the check.\<close>

lemma utf8_constants: "utf8_Valid AlgEdDSA" "utf8_Valid AlgES256" "utf8_Valid TokenType"
  by (simp_all add: AlgEdDSA_def AlgES256_def TokenType_def utf8_literal)

lemma signed_token:
  assumes "signCompact h c kid alg sign = Inr jws" and "utf8_Valid kid" and "kid \<noteq> []"
  obtains sig m where "sign m = Inr sig"
    "\<And>check. verifyCompact jws check =
       (case check \<lparr>h_Alg = alg, h_Kid = kid, h_Typ = TokenType\<rparr> m sig of
          Inl e \<Rightarrow> Inl e | Inr _ \<Rightarrow> Inr \<lparr>h_Alg = alg, h_Kid = kid, h_Typ = TokenType\<rparr>)"
    "DecodeHeader jws = Inr \<lparr>h_Alg = alg, h_Kid = kid, h_Typ = TokenType\<rparr>"
    "claims_utf8 c \<Longrightarrow> DecodeClaims jws = Inr c"
proof -
  let ?h = "\<lparr>h_Alg = alg, h_Kid = kid, h_Typ = TokenType\<rparr>"
  obtain sig where s: "IsAlgorithmAllowed alg"
    "sign (b64 (Marshal (header_json ?h)) @ ''.'' @ b64 (Marshal (claims_json c))) = Inr sig"
    "jws = b64 (Marshal (header_json ?h)) @ ''.'' @ b64 (Marshal (claims_json c)) @ ''.'' @ b64 sig"
    using assms(1) by (rule signCompact_Inr) blast
  have "header_utf8 ?h"
    using s(1) assms(2) by (auto simp: header_utf8_def IsAlgorithmAllowed_iff utf8_constants)
  note d = Unmarshal_header [OF this] split_compact [of "Marshal (header_json ?h)" "Marshal (claims_json c)" sig]
  show thesis
    using that [OF s(2)] d assms(3) s(1) Unmarshal_claims [of c]
    by (auto simp: verifyCompact_def DecodeHeader_def decodeHeader_def DecodeClaims_def s(3))
qed

lemma verifyCompact_Inr:
  assumes "verifyCompact jws check = Inr h"
  obtains p0 p1 p2 sig where "split_on (CHR ''.'') jws = [p0, p1, p2]" "b64decode p2 = Some sig"
    "check h (p0 @ ''.'' @ p1) sig = Inr ()" "DecodeHeader jws = Inr h"
proof -
  obtain p0 p1 p2 where p: "split_on (CHR ''.'') jws = [p0, p1, p2]"
    using assms by (auto simp: verifyCompact_def split: list.splits)
  obtain hb where hb: "b64decode p0 = Some hb" using assms p by (auto simp: verifyCompact_def split: option.splits)
  obtain h' where h': "Option.bind (Unmarshal hb) header_of_json = Some h'"
    using assms p hb by (auto simp: verifyCompact_def split: option.splits)
  obtain sig where "b64decode p2 = Some sig" "IsAlgorithmAllowed (h_Alg h')" "h_Kid h' \<noteq> []"
    using assms p hb h' by (auto simp: verifyCompact_def split: if_splits option.splits)
  then show thesis
    using assms p hb h' that [of p0 p1 p2 sig]
    by (auto simp: verifyCompact_def DecodeHeader_def decodeHeader_def split: sum.splits)
qed

lemma DecodeHeader_Inr: "DecodeHeader jws = Inr h \<Longrightarrow> IsAlgorithmAllowed (h_Alg h) \<and> h_Kid h \<noteq> []"
  by (auto simp: DecodeHeader_def decodeHeader_def split: list.splits option.splits if_splits)

section \<open>The interface of a verifier\<close>

text \<open>The interface \<open>Verifier\<close>: what an accepted token has been checked for.\<close>

locale verifier =
  fixes Verify :: "string \<Rightarrow> 'w \<Rightarrow> Header result \<times> 'w"
    and signed :: "'w \<Rightarrow> Header \<Rightarrow> bytes \<Rightarrow> bytes \<Rightarrow> bool"
  assumes checked: "Verify jws w = (Inr h, w') \<Longrightarrow>
      DecodeHeader jws = Inr h \<and>
      (\<exists>p0 p1 p2 sig. split_on (CHR ''.'') jws = [p0, p1, p2] \<and> b64decode p2 = Some sig \<and>
         signed w' h (p0 @ ''.'' @ p1) sig)"
begin

lemma accepted_token:
  assumes "VerifyToken Verify p audience now revoked w = (Inr c, w')"
  shows "\<exists>h w1 p0 p1 p2 sig. split_on (CHR ''.'') (p_JWS p) = [p0, p1, p2] \<and>
      b64decode p2 = Some sig \<and> signed w1 h (p0 @ ''.'' @ p1) sig \<and>
      DecodeHeader (p_JWS p) = Inr h \<and> IsAlgorithmAllowed (h_Alg h) \<and> h_Kid h \<noteq> [] \<and>
      DecodeClaims (p_JWS p) = Inr c"
proof -
  obtain h w1 where v: "Verify (p_JWS p) w = (Inr h, w1)"
    using assms by (auto simp: VerifyToken_def split: prod.splits sum.splits)
  moreover have "DecodeClaims (p_JWS p) = Inr c"
    using assms v by (auto simp: VerifyToken_def split: sum.splits option.splits if_splits prod.splits bool.splits)
  ultimately show ?thesis
    using checked [OF v] DecodeHeader_Inr [of "p_JWS p" h] by blast
qed

end

text \<open>A verifier without state.\<close>

definition stateless :: "(string \<Rightarrow> Header result) \<Rightarrow> string \<Rightarrow> 'w \<Rightarrow> Header result \<times> 'w" where
  "stateless verify jws w = (verify jws, w)"

text \<open>
  What a valid signature is, in terms of the primitives: the published text is the base64 of a DER
  form that parses to a key, and the primitive of that kind of key accepts the signature over the
  message, for ECDSA as the two fixed-width halves R and S over the SHA-256 of the message.
\<close>

definition signature_valid :: "crypto \<Rightarrow> PublicKey \<Rightarrow> bytes \<Rightarrow> bytes \<Rightarrow> bool" where
  "signature_valid C k m sig \<longleftrightarrow>
     (\<exists>der. DecodeString StdEncoding (pk_Public k) = Some der \<and>
        ((\<exists>pub. x509_ParsePKIXPublicKey C der = Some (Ed25519_public pub) \<and> pk_Alg k = ''EdDSA'' \<and>
            ed25519_Verify C pub m sig) \<or>
         (\<exists>pub r s. x509_ParsePKIXPublicKey C der = Some (ECDSA_public pub) \<and> pk_Alg k = ''ES256'' \<and>
            sig = r @ s \<and> length r = (ec_BitSize pub + 7) div 8 \<and> length s = (ec_BitSize pub + 7) div 8 \<and>
            ecdsa_Verify C pub (sha256_Sum256 C m) (newBigInt r) (newBigInt s))))"

lemma ecdsa_check_Inr:
  "ecdsa_check C pub m sig = Inr () \<longleftrightarrow>
     (\<exists>r s. sig = r @ s \<and> length r = ec_size pub \<and> length s = ec_size pub \<and>
        ecdsa_Verify C pub (sha256_Sum256 C m) (newBigInt r) (newBigInt s))"
proof
  assume "ecdsa_check C pub m sig = Inr ()"
  then show "\<exists>r s. sig = r @ s \<and> length r = ec_size pub \<and> length s = ec_size pub \<and>
      ecdsa_Verify C pub (sha256_Sum256 C m) (newBigInt r) (newBigInt s)"
    by (intro exI [of _ "take (ec_size pub) sig"] exI [of _ "drop (ec_size pub) sig"])
      (auto simp: ecdsa_check_def Let_def split: if_splits)
qed (auto simp: ecdsa_check_def)

lemma verifyWithPublicKey_Inr: "verifyWithPublicKey C k m sig = Inr () \<longleftrightarrow> signature_valid C k m sig"
  unfolding signature_valid_def ec_size_def [symmetric]
  by (auto simp: verifyWithPublicKey_def ecdsa_check_Inr AlgEdDSA_def AlgES256_def
      split: option.splits public_key.splits if_splits)

lemma KeySet_Verify_Inr:
  assumes "KeySet_Verify C v jws = Inr h"
  shows "DecodeHeader jws = Inr h \<and>
    (\<exists>p0 p1 p2 sig k. split_on (CHR ''.'') jws = [p0, p1, p2] \<and> b64decode p2 = Some sig \<and>
       map_of v (h_Kid h) = Some k \<and> pk_Alg k = h_Alg h \<and>
       verifyWithPublicKey C k (p0 @ ''.'' @ p1) sig = Inr ())"
proof -
  obtain hdr k where d: "DecodeHeader jws = Inr hdr" and k: "map_of v (h_Kid hdr) = Some k" "pk_Alg k = h_Alg hdr"
    and vc: "verifyCompact jws (\<lambda>h m sig.
              if h_Kid h \<noteq> h_Kid hdr then Inl (NewDenial ReasonKidUnknown)
              else verifyWithPublicKey C k m sig) = Inr h"
    using assms by (auto simp: KeySet_Verify_def KeySet_VerifyWith_def split: sum.splits option.splits if_splits)
  show ?thesis
    using verifyCompact_Inr [OF vc] d k by (metis Inl_Inr_False sum.inject(2))
qed

interpretation keyset: verifier "stateless (KeySet_Verify C v)"
  "\<lambda>_ h m sig. \<exists>k. map_of v (h_Kid h) = Some k \<and> pk_Alg k = h_Alg h \<and> verifyWithPublicKey C k m sig = Inr ()"
  for C v
proof unfold_locales
  fix jws h and w w' :: 'a
  assume "stateless (KeySet_Verify C v) jws w = (Inr h, w')"
  then have "KeySet_Verify C v jws = Inr h" by (simp add: stateless_def)
  from KeySet_Verify_Inr [OF this]
  show "DecodeHeader jws = Inr h \<and>
      (\<exists>p0 p1 p2 sig. split_on (CHR ''.'') jws = [p0, p1, p2] \<and> b64decode p2 = Some sig \<and>
         (\<exists>k. map_of v (h_Kid h) = Some k \<and> pk_Alg k = h_Alg h \<and>
            verifyWithPublicKey C k (p0 @ ''.'' @ p1) sig = Inr ()))"
    by blast
qed

interpretation ed25519: verifier "stateless (Ed25519_Verify C s)"
  "\<lambda>_ h m sig. h_Alg h = AlgEdDSA \<and> h_Kid h = ed_kid s \<and> ed25519_Verify C (ed25519_Public (ed_prv s)) m sig"
  for C s
  by unfold_locales
    (auto simp: stateless_def Ed25519_Verify_def elim!: verifyCompact_Inr split: if_splits)

interpretation es256: verifier "stateless (ES256_Verify C s)"
  "\<lambda>_ h m sig. h_Alg h = AlgES256 \<and> h_Kid h = es_kid s \<and> ecdsa_check C (es_pub s) m sig = Inr ()"
  for C s
  by unfold_locales
    (auto simp: stateless_def ES256_Verify_def elim!: verifyCompact_Inr split: if_splits)

section \<open>Lemmas: claims\<close>



lemma VerifyToken_Inr_iff:
  "VerifyToken verify p audience now revoked w = (Inr c, w') \<longleftrightarrow>
     (\<exists>h w1. verify (p_JWS p) w = (Inr h, w1) \<and> DecodeClaims (p_JWS p) = Inr c \<and>
        validateClaims c = Inr () \<and> c_Nbf c \<le> now \<and> now < c_Exp c \<and> c_Aud c = audience \<and>
        c_SID c = p_SID p \<and>
        (case revoked of None \<Rightarrow> w' = w1 | Some r \<Rightarrow> r (c_JTI c) w1 = (False, w')))"
proof (cases "verify (p_JWS p) w")
  case (Pair r w1)
  show ?thesis
  proof (cases r)
    case (Inr h)
    then show ?thesis using Pair
      by (auto simp: VerifyToken_def split: sum.splits option.splits prod.splits bool.splits)
  qed (simp add: Pair VerifyToken_def)
qed

section \<open>Lemmas: keys and signatures\<close>

lemma length_FillBytes [simp]: "length (FillBytes w n) = w"
  by (induction w arbitrary: n) auto

lemma newBigInt_FillBytes: "n < 256 ^ w \<Longrightarrow> newBigInt (FillBytes w n) = n"
proof (induction w arbitrary: n)
  case (Suc w)
  then have "n div 256 < 256 ^ w" by (simp add: div_less_iff_less_mult mult.commute)
  then have IH: "newBigInt (FillBytes w (n div 256)) = n div 256" by (rule Suc.IH)
  have "newBigInt (FillBytes (Suc w) n) = newBigInt (FillBytes w (n div 256)) * 256 + n mod 256"
    by (simp add: newBigInt_def)
  then show ?case using IH by simp
qed (simp add: newBigInt_def)

lemma NewKeySetVerifier_one:
  assumes "pk_KID k \<noteq> []" "pk_Public k \<noteq> []" "IsAlgorithmAllowed (pk_Alg k)"
  shows "NewKeySetVerifier [k] = Inr [(pk_KID k, k)]"
  using assms by (auto simp: NewKeySetVerifier_def IsAlgorithmAllowed_iff AlgEdDSA_def AlgES256_def)

lemma EncodeToString_nonempty: "der \<noteq> [] \<Longrightarrow> EncodeToString e der \<noteq> []"
  by (metis DecodeString_EncodeToString EncodeToString_def b64_encode_groups.simps(1) option.inject)

lemma KeySet_Verify_one:
  assumes "DecodeHeader jws = Inr h" "h_Kid h = pk_KID k" "pk_Alg k = h_Alg h"
  shows "KeySet_Verify C [(pk_KID k, k)] jws = verifyCompact jws (\<lambda>h' m sig.
      if h_Kid h' \<noteq> pk_KID k then Inl (NewDenial ReasonKidUnknown) else verifyWithPublicKey C k m sig)"
  using assms by (simp add: KeySet_Verify_def KeySet_VerifyWith_def)


lemma signed_EdDSA:
  assumes "Ed25519_Sign C s h c = Inr jws" and "utf8_Valid (ed_kid s)" and "ed_kid s \<noteq> []"
    and "\<And>m. ed25519_Verify C (ed25519_Public (ed_prv s)) m (ed25519_Sign C (ed_prv s) m)"
    and "x509_MarshalPKIXPublicKey C (Ed25519_public (ed25519_Public (ed_prv s))) = Some der" and "der \<noteq> []"
    and "x509_ParsePKIXPublicKey C der = Some (Ed25519_public (ed25519_Public (ed_prv s)))"
  shows "Ed25519_Verify C s jws = Inr \<lparr>h_Alg = AlgEdDSA, h_Kid = ed_kid s, h_Typ = TokenType\<rparr> \<and>
    (\<exists>v. NewKeySetVerifier (Ed25519_PublicKeys C s) = Inr v \<and>
       KeySet_Verify C v jws = Inr \<lparr>h_Alg = AlgEdDSA, h_Kid = ed_kid s, h_Typ = TokenType\<rparr>) \<and>
    (claims_utf8 c \<longrightarrow> DecodeClaims jws = Inr c)"
proof -
  let ?h = "\<lparr>h_Alg = AlgEdDSA, h_Kid = ed_kid s, h_Typ = TokenType\<rparr>"
  let ?k = "\<lparr>pk_KID = ed_kid s, pk_Alg = AlgEdDSA, pk_Public = EncodeToString StdEncoding der\<rparr>"
  obtain sig m where t: "ed25519_Sign C (ed_prv s) m = sig"
    "\<And>check. verifyCompact jws check = (case check ?h m sig of Inl e \<Rightarrow> Inl e | Inr _ \<Rightarrow> Inr ?h)"
    "DecodeHeader jws = Inr ?h" "claims_utf8 c \<Longrightarrow> DecodeClaims jws = Inr c"
    by (rule signed_token [OF assms(1) [unfolded Ed25519_Sign_def] assms(2,3)]) (use that in blast)
  have ok: "ed25519_Verify C (ed25519_Public (ed_prv s)) m sig" using assms(4) [of m] t(1) by simp
  have "Ed25519_PublicKeys C s = [?k]"
    by (simp add: Ed25519_PublicKeys_def ed25519PublicKey_def assms(5))
  moreover have "NewKeySetVerifier [?k] = Inr [(ed_kid s, ?k)]"
    using NewKeySetVerifier_one [of ?k] assms(3,6)
    by (simp add: EncodeToString_nonempty IsAlgorithmAllowed_iff)
  moreover have "KeySet_Verify C [(ed_kid s, ?k)] jws = Inr ?h"
    using KeySet_Verify_one [OF t(3), of ?k C] t(2) ok assms(7)
    by (simp add: verifyWithPublicKey_def)
  ultimately show ?thesis
    using t ok by (auto simp: Ed25519_Verify_def)
qed

lemma signed_ES256:
  assumes "ES256_Sign C s random h c = Inr jws" and "utf8_Valid (es_kid s)" and "es_kid s \<noteq> []"
    and "ec_BitSize (es_pub s) = 256"
    and "\<And>d r sv. ecdsa_Sign C (es_prv s) d random = Inr (r, sv) \<Longrightarrow>
       r < 2 ^ 256 \<and> sv < 2 ^ 256 \<and> ecdsa_Verify C (es_pub s) d r sv"
    and "x509_MarshalPKIXPublicKey C (ECDSA_public (es_pub s)) = Some der" and "der \<noteq> []"
    and "x509_ParsePKIXPublicKey C der = Some (ECDSA_public (es_pub s))"
  shows "ES256_Verify C s jws = Inr \<lparr>h_Alg = AlgES256, h_Kid = es_kid s, h_Typ = TokenType\<rparr> \<and>
    (\<exists>v. NewKeySetVerifier (ES256_PublicKeys C s) = Inr v \<and>
       KeySet_Verify C v jws = Inr \<lparr>h_Alg = AlgES256, h_Kid = es_kid s, h_Typ = TokenType\<rparr>) \<and>
    (claims_utf8 c \<longrightarrow> DecodeClaims jws = Inr c)"
proof -
  let ?h = "\<lparr>h_Alg = AlgES256, h_Kid = es_kid s, h_Typ = TokenType\<rparr>"
  let ?k = "\<lparr>pk_KID = es_kid s, pk_Alg = AlgES256, pk_Public = EncodeToString StdEncoding der\<rparr>"
  have size: "ec_size (es_pub s) = 32" by (simp add: ec_size_def assms(4))
  obtain sig m where t: "(case ecdsa_Sign C (es_prv s) (sha256_Sum256 C m) random of
         Inl e \<Rightarrow> Inl e | Inr (r, sv) \<Rightarrow> Inr (FillBytes 32 r @ FillBytes 32 sv)) = Inr sig"
    "\<And>check. verifyCompact jws check = (case check ?h m sig of Inl e \<Rightarrow> Inl e | Inr _ \<Rightarrow> Inr ?h)"
    "DecodeHeader jws = Inr ?h" "claims_utf8 c \<Longrightarrow> DecodeClaims jws = Inr c"
    by (rule signed_token [OF assms(1) [unfolded ES256_Sign_def Let_def size] assms(2,3)]) (use that in blast)
  obtain r sv where s: "ecdsa_Sign C (es_prv s) (sha256_Sum256 C m) random = Inr (r, sv)"
    "sig = FillBytes 32 r @ FillBytes 32 sv"
    using t(1) by (auto split: sum.splits)
  have "newBigInt (FillBytes 32 r) = r" "newBigInt (FillBytes 32 sv) = sv"
    using assms(5) [OF s(1)] by (simp_all add: newBigInt_FillBytes)
  then have chk: "ecdsa_check C (es_pub s) m sig = Inr ()"
    using assms(5) [OF s(1)] by (simp add: ecdsa_check_def size s(2))
  have "ES256_PublicKeys C s = [?k]"
    by (simp add: ES256_PublicKeys_def ecdsaPublicKey_def assms(6))
  moreover have "NewKeySetVerifier [?k] = Inr [(es_kid s, ?k)]"
    using NewKeySetVerifier_one [of ?k] assms(3,7)
    by (simp add: EncodeToString_nonempty IsAlgorithmAllowed_iff)
  moreover have "KeySet_Verify C [(es_kid s, ?k)] jws = Inr ?h"
    using KeySet_Verify_one [OF t(3), of ?k C] t(2) chk assms(8)
    by (simp add: verifyWithPublicKey_def)
  ultimately show ?thesis
    using t chk by (auto simp: ES256_Verify_def)
qed

section \<open>Lemmas: token URIs\<close>

definition uri_safe :: "string \<Rightarrow> bool" where
  "uri_safe sid \<longleftrightarrow> sid \<noteq> [] \<and>
     list_all (\<lambda>c. \<not> is_ctl c \<and> c \<noteq> CHR ''%'' \<and> c \<noteq> CHR ''?'' \<and> c \<noteq> CHR ''#'') sid"

lemma cut_path_slash: "cut_path (''v1'' @ CHR ''/'' # sid) = (''v1'', CHR ''/'' # sid)"
  by (simp add: cut_path_def)

lemma ParseURI_URI:
  assumes "uri_safe sid" and "jws \<noteq> []" and "CHR ''%'' \<notin> set jws"
  shows "ParseURI (URI sid jws) = Inr \<lparr>p_SID = sid, p_JWS = jws, p_Version = Version\<rparr>"
proof -
  let ?u = "''safekey://v1/'' @ sid"
  have ns: "CHR ''#'' \<notin> set ?u" "CHR ''?'' \<notin> set ?u" "CHR ''%'' \<notin> set sid"
    and nc: "\<not> list_ex is_ctl ?u"
    using assms(1) by (auto simp: uri_safe_def list_all_iff list_ex_iff is_ctl_def)
  have sch: "getScheme ?u = Some (''safekey'', ''//v1/'' @ sid)"
    by (simp add: getScheme_def scheme_char_def char_class_defs HasPrefix_def)
  have q: "cut_query (''//v1/'' @ sid) = ''//v1/'' @ sid"
    using ns cut_at_None_iff [of "CHR ''?''" "''//v1/'' @ sid"] by (simp add: cut_query_def)
  have a: "parseAuthority ''v1'' = Some ''v1''" by code_simp
  have p: "unescape encodePath (CHR ''/'' # sid) = Some (CHR ''/'' # sid)"
    using ns by (intro unescape_plain) auto
  have "url_parse ?u = Some \<lparr>u_Scheme = ''safekey'', u_Opaque = [], u_Host = ''v1'',
      u_Path = CHR ''/'' # sid, u_Fragment = []\<rparr>"
    using nc sch q a p cut_path_slash [of sid]
    by (simp add: url_parse_def Let_def HasPrefix_def to_lower_def char_class_defs)
  moreover have "cut_at (CHR ''#'') (?u @ CHR ''#'' # jws) = Some (?u, jws)"
    by (rule cut_at_append) (rule ns)
  moreover have "unescape encodeFragment jws = Some jws"
    using assms(3) by (intro unescape_plain) auto
  ultimately have "Parse (?u @ CHR ''#'' # jws) = Some \<lparr>u_Scheme = ''safekey'', u_Opaque = [],
      u_Host = ''v1'', u_Path = CHR ''/'' # sid, u_Fragment = jws\<rparr>"
    by (simp add: Parse_def)
  moreover have "URI sid jws = ?u @ CHR ''#'' # jws" by (simp add: URI_def URIScheme_def Version_def)
  moreover have "cut_at (CHR ''/'') (''v1'' @ CHR ''/'' # sid) = Some (''v1'', sid)"
    by (rule cut_at_append) simp
  moreover have "TrimPrefix ''v1'' ''v'' = ''1''" "TrimPrefix [] ''//'' = []"
    by (simp_all add: TrimPrefix_def)
  ultimately show ?thesis
    using assms(1,2) by (simp add: ParseURI_def URIScheme_def Version_def uri_safe_def)
qed

lemma ParseURI_Inr:
  "ParseURI raw = Inr p \<Longrightarrow> p_Version p = Version \<and> p_SID p \<noteq> [] \<and> p_JWS p \<noteq> []"
  by (auto simp: ParseURI_def Let_def split: option.splits if_splits prod.splits)

section \<open>A concrete instance of the primitives\<close>

text \<open>Functions with the documented laws, on which the theorems below are applied.\<close>

definition sample_crypto :: crypto where
  "sample_crypto =
     \<lparr>ed25519_Sign = (\<lambda>prv m. drop 32 prv @ m),
      ed25519_Verify = (\<lambda>pub m s. s = pub @ m),
      sha256_Sum256 = (\<lambda>m. take 32 m),
      ecdsa_Sign = (\<lambda>prv d rnd. Inr (length d mod 256, length rnd mod 256)),
      ecdsa_Verify = (\<lambda>pub d r s. r = length d mod 256),
      x509_ParsePKIXPublicKey = (\<lambda>der. case der of
          [] \<Rightarrow> None
        | t # k \<Rightarrow> if t = CHR ''E'' then Some (Ed25519_public k)
                 else if t = CHR ''C'' then Some (ECDSA_public \<lparr>ec_BitSize = 256, ec_point = k\<rparr>)
                 else None),
      x509_MarshalPKIXPublicKey = (\<lambda>k. case k of
          Ed25519_public b \<Rightarrow> Some (CHR ''E'' # b)
        | ECDSA_public e \<Rightarrow> Some (CHR ''C'' # ec_point e)
        | Other_public \<Rightarrow> None)\<rparr>"

definition sample_claims :: Claims where
  "sample_claims = \<lparr>c_Iss = ''https://keys.example'', c_Sub = ''agent'', c_SID = ''obj_1'',
     c_Scope = [''unwrap'', ''inject-env''], c_Aud = ''prod'', c_Exp = 2000, c_Nbf = 1000, c_JTI = ''tok_1''\<rparr>"

definition sample_signer :: Ed25519Signer where
  "sample_signer = \<lparr>ed_kid = ''k1'', ed_prv = replicate 64 (CHR ''x'')\<rparr>"

definition sample_es256 :: ES256Signer where
  "sample_es256 = \<lparr>es_kid = ''k2'', es_pub = \<lparr>ec_BitSize = 256, ec_point = ''P''\<rparr>, es_prv = ''S''\<rparr>"

lemma sample_facts:
  "validateClaims sample_claims = Inr ()" "claims_utf8 sample_claims" "uri_safe (c_SID sample_claims)"
  "utf8_Valid ''k1''" "utf8_Valid ''k2''"
  by code_simp+

lemma add_keys_Inr:
  "add_keys ks m = Inr v \<Longrightarrow>
     (\<forall>k \<in> set ks. pk_KID k \<noteq> [] \<and> pk_Alg k \<noteq> [] \<and> pk_Public k \<noteq> [] \<and> IsAlgorithmAllowed (pk_Alg k)) \<and>
     (\<forall>kid k. map_of v kid = Some k \<longrightarrow> map_of m kid = Some k \<or> k \<in> set ks \<and> pk_KID k = kid)"
proof (induction ks arbitrary: m)
  case (Cons k ks)
  have c: "pk_KID k \<noteq> []" "pk_Alg k \<noteq> []" "pk_Public k \<noteq> []" "IsAlgorithmAllowed (pk_Alg k)"
    and a: "add_keys ks (AList.update (pk_KID k) k m) = Inr v"
    using Cons.prems by (auto split: if_splits)
  note IH = Cons.IH [OF a, unfolded update_conv']
  have "map_of m kid = Some k' \<or> k' \<in> set (k # ks) \<and> pk_KID k' = kid" if "map_of v kid = Some k'" for kid k'
  proof -
    have "((map_of m)(pk_KID k \<mapsto> k)) kid = Some k' \<or> k' \<in> set ks \<and> pk_KID k' = kid"
      using IH that by blast
    then show ?thesis by (auto split: if_splits)
  qed
  then show ?case using c IH by simp
qed simp

section \<open>Properties of tokens\<close>


text \<open>
  C5. No token is accepted without a signature by a published key: the header of an accepted
  token names a key of the set, the key's algorithm is the header's and is EdDSA or ES256, the
  key's text is the base64 of a DER key of that kind, and the Ed25519 or ECDSA verification
  accepts the third part of the token as the signature by that key over exactly the first two
  parts, joined by a dot; the claims returned are the second part's.
\<close>

theorem accepted_token_is_signed:
  assumes "VerifyToken (stateless (KeySet_Verify C v)) p audience now revoked w = (Inr c, w')"
  shows "\<exists>h k p0 p1 p2 sig. split_on (CHR ''.'') (p_JWS p) = [p0, p1, p2] \<and>
      DecodeHeader (p_JWS p) = Inr h \<and> map_of v (h_Kid h) = Some k \<and> pk_Alg k = h_Alg h \<and>
      h_Alg h \<in> {''EdDSA'', ''ES256''} \<and> b64decode p2 = Some sig \<and>
      signature_valid C k (p0 @ ''.'' @ p1) sig \<and>
      Option.bind (Option.bind (b64decode p1) Unmarshal) claims_of_json = Some c"
proof -
  obtain h p0 p1 p2 sig k where *: "split_on (CHR ''.'') (p_JWS p) = [p0, p1, p2]"
    "b64decode p2 = Some sig" "map_of v (h_Kid h) = Some k" "pk_Alg k = h_Alg h"
    "verifyWithPublicKey C k (p0 @ ''.'' @ p1) sig = Inr ()"
    "DecodeHeader (p_JWS p) = Inr h" "IsAlgorithmAllowed (h_Alg h)" "DecodeClaims (p_JWS p) = Inr c"
    using keyset.accepted_token [OF assms] by blast
  have "Option.bind (Option.bind (b64decode p1) Unmarshal) claims_of_json = Some c"
    using *(1,8) by (auto simp: DecodeClaims_def split: option.splits)
  moreover have "h_Alg h \<in> {''EdDSA'', ''ES256''}"
    using *(7) by (auto simp: IsAlgorithmAllowed_iff AlgEdDSA_def AlgES256_def)
  ultimately show ?thesis using * verifyWithPublicKey_Inr by blast
qed

text \<open>
  C8. What the Ed25519 signer mints for claims whose texts are UTF-8 and an object id that a URI
  carries as it is (non-empty, no control character, percent, question mark or hash), a verifier over its
  published keys accepts: the token URI parses back, and at any time in the token's interval
  \<open>VerifyToken\<close> returns the very claims that were signed. The key id is non-empty UTF-8, and of the
  primitives it uses that a signature made with the private key verifies under its public key and
  that the DER form of that key parses back.
\<close>

theorem minted_token_is_accepted:
  assumes "Ed25519_Sign C s h c = Inr jws" and "claims_utf8 c" and "uri_safe (c_SID c)"
    and "utf8_Valid (ed_kid s)" and "ed_kid s \<noteq> []"
    and "\<And>m. ed25519_Verify C (ed25519_Public (ed_prv s)) m (ed25519_Sign C (ed_prv s) m)"
    and "x509_MarshalPKIXPublicKey C (Ed25519_public (ed25519_Public (ed_prv s))) = Some der" and "der \<noteq> []"
    and "x509_ParsePKIXPublicKey C der = Some (Ed25519_public (ed25519_Public (ed_prv s)))"
    and "c_Nbf c \<le> now" and "now < c_Exp c"
  shows "\<exists>p v. ParseURI (URI (c_SID c) jws) = Inr p \<and> NewKeySetVerifier (Ed25519_PublicKeys C s) = Inr v \<and>
      VerifyToken (stateless (KeySet_Verify C v)) p (c_Aud c) now None w = (Inr c, w)"
proof -
  obtain sig hb where j: "jws = b64 hb @ ''.'' @ b64 (Marshal (claims_json c)) @ ''.'' @ b64 sig"
    and v: "validateClaims c = Inr ()"
    using assms(1) unfolding Ed25519_Sign_def by (rule signCompact_Inr) blast
  have "CHR ''%'' \<notin> set (b64 x)" for x
    using EncodeToString_chars [of "CHR ''%''" RawURLEncoding x]
    by (auto simp: b64_def b64_safe_char_def char_class_defs)
  then have "ParseURI (URI (c_SID c) jws) = Inr \<lparr>p_SID = c_SID c, p_JWS = jws, p_Version = Version\<rparr>"
    using assms(3) by (intro ParseURI_URI) (auto simp: j)
  then show ?thesis
    using signed_EdDSA [OF assms(1,4-9)] assms(2,10,11) v
    by (auto simp: VerifyToken_Inr_iff stateless_def)
qed

lemma minted_token_is_accepted_witness:
  "\<exists>jws p v. Ed25519_Sign sample_crypto sample_signer zero_header sample_claims = Inr jws \<and>
     ParseURI (URI ''obj_1'' jws) = Inr p \<and>
     NewKeySetVerifier (Ed25519_PublicKeys sample_crypto sample_signer) = Inr v \<and>
     VerifyToken (stateless (KeySet_Verify sample_crypto v)) p ''prod'' 1999 None () = (Inr sample_claims, ())"
proof -
  obtain jws where j: "Ed25519_Sign sample_crypto sample_signer zero_header sample_claims = Inr jws"
    by (simp add: Ed25519_Sign_def signCompact_def sample_facts IsAlgorithmAllowed_iff Let_def)
  show ?thesis
    using minted_token_is_accepted [OF j sample_facts(2,3), of "CHR ''E'' # drop 32 (ed_prv sample_signer)" 1999 "()"] j
    by (auto simp: sample_signer_def sample_crypto_def sample_facts ed25519_Public_def sample_claims_def)
qed

lemma accepted_token_is_signed_witness:
  "\<exists>jws (v :: KeySetVerifier) h k p0 p1 p2. Ed25519_Sign sample_crypto sample_signer zero_header sample_claims = Inr jws \<and>
     split_on (CHR ''.'') jws = [p0, p1, p2] \<and> DecodeHeader jws = Inr h \<and>
     map_of v (h_Kid h) = Some k \<and> pk_Alg k = h_Alg h \<and>
     (\<exists>sig. b64decode p2 = Some sig \<and> signature_valid sample_crypto k (p0 @ ''.'' @ p1) sig)"
proof -
  obtain jws where j: "Ed25519_Sign sample_crypto sample_signer zero_header sample_claims = Inr jws"
    by (simp add: Ed25519_Sign_def signCompact_def sample_facts IsAlgorithmAllowed_iff Let_def)
  have "\<exists>v. NewKeySetVerifier (Ed25519_PublicKeys sample_crypto sample_signer) = Inr v \<and>
       KeySet_Verify sample_crypto v jws = Inr \<lparr>h_Alg = AlgEdDSA, h_Kid = ed_kid sample_signer, h_Typ = TokenType\<rparr>"
    "DecodeClaims jws = Inr sample_claims"
    using signed_EdDSA [OF j, of "CHR ''E'' # drop 32 (ed_prv sample_signer)"] sample_facts
    by (auto simp: sample_signer_def sample_crypto_def ed25519_Public_def)
  then obtain v where "VerifyToken (stateless (KeySet_Verify sample_crypto v))
      \<lparr>p_SID = ''obj_1'', p_JWS = jws, p_Version = Version\<rparr> ''prod'' 1500 None () = (Inr sample_claims, ())"
    using sample_facts(1) by (auto simp: VerifyToken_Inr_iff stateless_def sample_claims_def)
  from accepted_token_is_signed [OF this] obtain h k p0 p1 p2 where
    "split_on (CHR ''.'') jws = [p0, p1, p2]" "DecodeHeader jws = Inr h"
    "map_of v (h_Kid h) = Some k" "pk_Alg k = h_Alg h"
    "\<exists>sig. b64decode p2 = Some sig \<and> signature_valid sample_crypto k (p0 @ ''.'' @ p1) sig"
    by auto
  then show ?thesis using j by blast
qed

text \<open>
  An ES256 signature survives the fixed-width form of JWS: what the ES256 signer mints,
  its own verifier and a verifier over its published keys accept, and the claims decode to the
  ones signed.
\<close>

theorem ES256_token_verifies:
  assumes "ES256_Sign C s random h c = Inr jws" and "claims_utf8 c"
    and "NewES256Signer (es_kid s) (Some (es_pub s, es_prv s)) = Inr s"
    and "utf8_Valid (es_kid s)" and "es_kid s \<noteq> []"
    and "\<And>d r sv. ecdsa_Sign C (es_prv s) d random = Inr (r, sv) \<Longrightarrow>
       r < 2 ^ 256 \<and> sv < 2 ^ 256 \<and> ecdsa_Verify C (es_pub s) d r sv"
    and "x509_MarshalPKIXPublicKey C (ECDSA_public (es_pub s)) = Some der" and "der \<noteq> []"
    and "x509_ParsePKIXPublicKey C der = Some (ECDSA_public (es_pub s))"
  shows "ES256_Verify C s jws = Inr \<lparr>h_Alg = AlgES256, h_Kid = es_kid s, h_Typ = TokenType\<rparr> \<and>
    (\<exists>v. NewKeySetVerifier (ES256_PublicKeys C s) = Inr v \<and>
       KeySet_Verify C v jws = Inr \<lparr>h_Alg = AlgES256, h_Kid = es_kid s, h_Typ = TokenType\<rparr>) \<and>
    DecodeClaims jws = Inr c"
proof -
  have "ec_BitSize (es_pub s) = 256" using assms(3) by (simp add: NewES256Signer_def split: if_splits)
  then show ?thesis using signed_ES256 [OF assms(1,4,5) _ assms(6-9)] assms(2) by blast
qed

lemma ES256_token_verifies_witness:
  "\<exists>jws. ES256_Sign sample_crypto sample_es256 ''r'' zero_header sample_claims = Inr jws \<and>
     DecodeClaims jws = Inr sample_claims"
proof -
  obtain jws where j: "ES256_Sign sample_crypto sample_es256 ''r'' zero_header sample_claims = Inr jws"
    by (simp add: ES256_Sign_def signCompact_def sample_facts IsAlgorithmAllowed_iff Let_def sample_crypto_def)
  have lt: "(n::nat) mod 256 < 2 ^ 256" for n
    by (rule less_trans [OF mod_less_divisor]) simp_all
  show ?thesis
    using ES256_token_verifies [OF j sample_facts(2), of "CHR ''C'' # ''P''"] j lt
    by (auto simp: sample_es256_def sample_crypto_def sample_facts NewES256Signer_def)
qed

text \<open>
  A token URI decomposes into what it was built from, for every object id without control
  characters, percent, question mark and hash, and every non-empty token without percent.
\<close>

theorem token_uri_roundtrip:
  assumes "uri_safe sid" and "jws \<noteq> []" and "CHR ''%'' \<notin> set jws"
  shows "ParseURI (URI sid jws) = Inr \<lparr>p_SID = sid, p_JWS = jws, p_Version = Version\<rparr>"
  using assms by (rule ParseURI_URI)

lemma token_uri_roundtrip_witness:
  "ParseURI (URI ''obj/a b'' ''x.y.z'') = Inr \<lparr>p_SID = ''obj/a b'', p_JWS = ''x.y.z'', p_Version = Version\<rparr>"
proof -
  have "uri_safe ''obj/a b''" by code_simp
  then show ?thesis using token_uri_roundtrip [of "''obj/a b''" "''x.y.z''"] by simp
qed

text \<open>
  A verifier is never built over an unusable key set: it is refused when the set is empty,
  or a key lacks its id, algorithm or bytes, or names an algorithm other than EdDSA and ES256;
  otherwise every key it answers for is one of the given keys.
\<close>

theorem key_set_is_usable:
  assumes "NewKeySetVerifier keys = Inr v"
  shows "keys \<noteq> [] \<and>
    (\<forall>k \<in> set keys. pk_KID k \<noteq> [] \<and> pk_Public k \<noteq> [] \<and> pk_Alg k \<in> {''EdDSA'', ''ES256''}) \<and>
    (\<forall>kid k. map_of v kid = Some k \<longrightarrow> k \<in> set keys \<and> pk_KID k = kid)"
proof -
  have a: "add_keys keys [] = Inr v" "v \<noteq> []"
    using assms by (auto simp: NewKeySetVerifier_def split: sum.splits if_splits)
  then have "keys \<noteq> []" by auto
  then show ?thesis
    using add_keys_Inr [OF a(1)] by (auto simp: IsAlgorithmAllowed_iff AlgEdDSA_def AlgES256_def)
qed

lemma key_set_is_usable_witness:
  "\<exists>v. NewKeySetVerifier [\<lparr>pk_KID = ''k'', pk_Alg = ''EdDSA'', pk_Public = ''AA==''\<rparr>] = Inr v \<and>
     (\<forall>kid k. map_of v kid = Some k \<longrightarrow> pk_KID k = kid)"
proof -
  obtain v where v: "NewKeySetVerifier [\<lparr>pk_KID = ''k'', pk_Alg = ''EdDSA'', pk_Public = ''AA==''\<rparr>] = Inr v"
    using NewKeySetVerifier_one [of "\<lparr>pk_KID = ''k'', pk_Alg = ''EdDSA'', pk_Public = ''AA==''\<rparr>"]
    by (auto simp: IsAlgorithmAllowed_iff AlgEdDSA_def)
  then show ?thesis using key_set_is_usable [OF v] by blast
qed

end
