(* ===== verification/Services.thy ===== *)
theory Services
  imports Protocol_Errors Json
begin

text \<open>
  What the components rely on outside the program, and the pattern by which they cache it.
  Network, file system, clock and randomness are functions on a state \<open>'w\<close> of the world; an
  operation that uses them takes the state and returns the next one.

  HTTP: building a request and performing it is one function from requests to a response or an
  error. Two components keep a fetched value with its age and refresh it; the locale
  \<open>fetch_cache\<close> states what they have in common.
\<close>

section \<open>HTTP\<close>

record http_request =
  rq_Method :: string
  rq_URL :: string
  rq_Header :: "(string \<times> string) list"
  rq_Body :: bytes

record http_response =
  rs_StatusCode :: int
  rs_Body :: bytes

type_synonym 'w transport = "http_request \<Rightarrow> 'w \<Rightarrow> http_response result \<times> 'w"

definition StatusOK :: int where "StatusOK = 200"

text \<open>\<open>time.Time.Sub\<close>: a difference of nanoseconds, saturated at 64 bits.\<close>

definition time_Sub :: "int \<Rightarrow> int \<Rightarrow> int" where
  "time_Sub t u = max (- (2 ^ 63)) (min (2 ^ 63 - 1) (t - u))"

lemma time_Sub_mono: "t \<le> t' \<Longrightarrow> time_Sub t u \<le> time_Sub t' u"
  by (auto simp: time_Sub_def)

section \<open>A cached value that is fetched again when it is old\<close>

text \<open>
  A cache \<open>c\<close> holds a value or none (\<open>held\<close>); \<open>get\<close> hands it out. The laws: a \<open>get\<close> that
  succeeds hands out what the cache holds afterwards, a held value is never lost and a \<open>get\<close>
  on a warm cache never fails, and a \<open>get\<close> only fails when the fetch does.
\<close>

locale fetch_cache =
  fixes held :: "'c \<Rightarrow> 'v option"
    and get :: "'c \<Rightarrow> 'w \<Rightarrow> 'v result \<times> 'c \<times> 'w"
    and fetched_ok :: "'c \<Rightarrow> 'w \<Rightarrow> 'v \<Rightarrow> bool"
  assumes get_hands_out: "get c w = (Inr v, c', w') \<Longrightarrow> held c' = Some v"
    and get_warm: "held c = Some v \<Longrightarrow> \<exists>v' c' w'. get c w = (Inr v', c', w') \<and> (v' = v \<or> fetched_ok c w v')"
    and get_cold: "held c = None \<Longrightarrow> get c w = (Inr v, c', w') \<Longrightarrow> fetched_ok c w v"
    and get_fail: "get c w = (Inl e, c', w') \<Longrightarrow> held c' = None"
begin

text \<open>Running the cache over a sequence of calls.\<close>

primrec gets :: "nat \<Rightarrow> 'c \<Rightarrow> 'w \<Rightarrow> 'v result list \<times> 'c \<times> 'w" where
  "gets 0 c w = ([], c, w)"
| "gets (Suc n) c w =
     (case get c w of (r, c', w') \<Rightarrow> (case gets n c' w' of (rs, c'', w'') \<Rightarrow> (r # rs, c'', w'')))"

lemma warm_stays_warm:
  assumes "held c \<noteq> None" and "gets n c w = (rs, c', w')"
  shows "held c' \<noteq> None \<and> list_all (\<lambda>r. \<not> is_err r) rs"
  using assms
proof (induction n arbitrary: c w rs)
  case (Suc n)
  obtain v where "held c = Some v" using Suc.prems by auto
  then obtain v' c1 w1 where g: "get c w = (Inr v', c1, w1)" using get_warm by metis
  obtain rs' where rs: "gets n c1 w1 = (rs', c', w')" "rs = Inr v' # rs'"
    using Suc.prems g by (auto split: prod.splits)
  have "held c1 \<noteq> None" using get_hands_out [OF g] by simp
  then show ?case using Suc.IH [OF _ rs(1)] rs(2) by simp
qed simp

end

section \<open>Evaluation by the first rule that applies\<close>

locale first_match =
  fixes applies :: "'r \<Rightarrow> 'q \<Rightarrow> bool"
    and decide :: "'r \<Rightarrow> 'q \<Rightarrow> 'd"
    and default :: 'd
    and eval :: "'r list \<Rightarrow> 'q \<Rightarrow> 'd"
  assumes eval_Nil: "eval [] q = default"
    and eval_Cons: "eval (r # rs) q = (if applies r q then decide r q else eval rs q)"
begin

lemma eval_find:
  "eval rs q = (case List.find (\<lambda>r. applies r q) rs of None \<Rightarrow> default | Some r \<Rightarrow> decide r q)"
  by (induction rs) (auto simp: eval_Nil eval_Cons)

lemma eval_none: "\<forall>r \<in> set rs. \<not> applies r q \<Longrightarrow> eval rs q = default"
  by (induction rs) (auto simp: eval_Nil eval_Cons)

text \<open>A decision other than the default is that of a rule before which no rule applies.\<close>

lemma eval_decided:
  assumes "eval rs q \<noteq> default"
  obtains pre r post where "rs = pre @ r # post" "\<forall>x \<in> set pre. \<not> applies x q" "applies r q"
    "eval rs q = decide r q"
proof -
  obtain r where r: "List.find (\<lambda>r. applies r q) rs = Some r"
    using assms by (cases "List.find (\<lambda>r. applies r q) rs") (auto simp: eval_find)
  then obtain i where i: "i < length rs" "applies (rs ! i) q" "r = rs ! i" "\<forall>j < i. \<not> applies (rs ! j) q"
    by (auto simp: find_Some_iff)
  have "rs = take i rs @ r # drop (Suc i) rs" using i(1,3) by (simp add: id_take_nth_drop)
  moreover have "\<forall>x \<in> set (take i rs). \<not> applies x q" using i(1,4) by (auto simp: in_set_conv_nth)
  ultimately show thesis using that i r by (simp add: eval_find)
qed

text \<open>In an order of the rules, the deciding rule comes before every other that applies.\<close>

lemma eval_decided_first:
  assumes "eval rs q \<noteq> default" and "sorted_wrt before rs"
  obtains r where "r \<in> set rs" "applies r q" "eval rs q = decide r q"
    "\<forall>x \<in> set rs. applies x q \<longrightarrow> x = r \<or> before r x"
proof -
  obtain pre r post where r: "rs = pre @ r # post" "\<forall>x \<in> set pre. \<not> applies x q" "applies r q"
    "eval rs q = decide r q"
    by (rule eval_decided [OF assms(1)])
  have "\<forall>x \<in> set post. before r x" using assms(2) r(1) by (simp add: sorted_wrt_append)
  then show thesis using that [of r] r by auto
qed

end

end
