(* ===== verification/Local_Policy.thy ===== *)
theory Local_Policy
  imports Command_Policy Services "HOL-Library.Multiset"
begin

text \<open>
  pkg/localpolicy: the rules the sidecar evaluates at resolve time, their order, the cache
  that refreshes them, and the decision \<open>Allow\<close>; with the origins of resolve.go. The locale
  \<open>first_match\<close> is the evaluation by the first matching rule, shared with the control plane's
  engine.
\<close>

section \<open>Origins (resolve.go)\<close>

definition OriginCLI :: string where "OriginCLI = ''cli''"
definition OriginSDK :: string where "OriginSDK = ''sdk''"
definition OriginMCP :: string where "OriginMCP = ''mcp''"

definition EffectiveOrigin :: "string \<Rightarrow> string" where
  "EffectiveOrigin o' =
     (if o' = OriginMCP then OriginMCP else if o' = OriginSDK then OriginSDK else OriginCLI)"

section \<open>Rules\<close>

record Rule =
  r_ID :: string
  r_Effect :: string
  r_Principal :: string
  r_SID :: string
  r_Scope :: "string list"
  r_Aud :: string
  r_InjectionMethod :: string
  r_Commands :: "CommandSpec list"
  r_Priority :: int

record policy_query =
  q_principal :: string
  q_sid :: string
  q_scope :: string
  q_aud :: string
  q_injection :: string
  q_command :: "string list"
  q_origin :: string

text \<open>An empty field of a rule is a wildcard; an empty scope list matches nothing.\<close>

definition matches :: "Rule \<Rightarrow> policy_query \<Rightarrow> bool" where
  "matches r q =
     (if r_Principal r \<noteq> [] \<and> r_Principal r \<noteq> q_principal q then False
      else if r_SID r \<noteq> [] \<and> r_SID r \<noteq> q_sid q then False
      else if r_Aud r \<noteq> [] \<and> r_Aud r \<noteq> q_aud q then False
      else if r_InjectionMethod r \<noteq> [] \<and> r_InjectionMethod r \<noteq> q_injection q then False
      else list_ex (\<lambda>s. s = q_scope q) (r_Scope r))"

text \<open>The order: highest priority first, then id.\<close>

definition before :: "Rule \<Rightarrow> Rule \<Rightarrow> bool" where
  "before a b \<longleftrightarrow> r_Priority a > r_Priority b \<or> (r_Priority a = r_Priority b \<and> r_ID a < r_ID b)"

text \<open>\<open>sorted\<close>: the inner loop moves the rule at \<open>j\<close> down while it comes before its neighbour.\<close>

fun sift_down :: "nat \<Rightarrow> Rule list \<Rightarrow> Rule list" where
  "sift_down 0 out = out"
| "sift_down (Suc j) out =
     (if before (out ! Suc j) (out ! j)
      then sift_down j (out[Suc j := out ! j, j := out ! Suc j])
      else out)"

definition sorted_rules :: "Rule list \<Rightarrow> Rule list" where
  "sorted_rules ins = fold sift_down [1..<length ins] ins"

section \<open>The engine\<close>

record engine =
  e_hasFetcher :: bool
  e_ttl :: int
  e_rules :: "Rule list option"
  e_fetched :: int
  e_lastErr :: "go_error option"

type_synonym 'w rule_fetcher = "'w \<Rightarrow> Rule list result \<times> 'w"

definition refresh ::
  "'w rule_fetcher \<Rightarrow> ('w \<Rightarrow> int) \<Rightarrow> engine \<Rightarrow> 'w \<Rightarrow> unit result \<times> engine \<times> 'w"
where
  "refresh fetch clock e w =
     (if \<not> e_hasFetcher e then (Inl (Err ''policy: no fetcher configured''), e, w)
      else
        (case fetch w of
           (Inl err, w) \<Rightarrow> (Inl err, e\<lparr>e_lastErr := Some err\<rparr>, w)
         | (Inr rules, w) \<Rightarrow>
             (Inr (), e\<lparr>e_rules := Some (sorted_rules rules), e_fetched := clock w, e_lastErr := None\<rparr>, w)))"

definition New_engine ::
  "'w rule_fetcher \<Rightarrow> ('w \<Rightarrow> int) \<Rightarrow> int \<Rightarrow> 'w \<Rightarrow> engine result \<times> 'w"
where
  "New_engine fetch clock ttl w =
     (case refresh fetch clock
             \<lparr>e_hasFetcher = True, e_ttl = ttl, e_rules = None, e_fetched = 0, e_lastErr = None\<rparr> w of
        (Inl err, _, w) \<Rightarrow> (Inl err, w)
      | (Inr _, e, w) \<Rightarrow> (Inr e, w))"

definition NewFromRules :: "Rule list \<Rightarrow> engine" where
  "NewFromRules rules =
     \<lparr>e_hasFetcher = False, e_ttl = 0, e_rules = Some (sorted_rules rules), e_fetched = 0, e_lastErr = None\<rparr>"

definition current ::
  "'w rule_fetcher \<Rightarrow> ('w \<Rightarrow> int) \<Rightarrow> engine \<Rightarrow> 'w \<Rightarrow> Rule list result \<times> engine \<times> 'w"
where
  "current fetch clock e w =
     (case e_rules e of
        Some rules \<Rightarrow>
          if e_ttl e \<le> 0 \<or> time_Sub (clock w) (e_fetched e) < e_ttl e then (Inr rules, e, w)
          else
            (case refresh fetch clock e w of
               (Inl _, e, w) \<Rightarrow> (Inr rules, e, w)
             | (Inr _, e, w) \<Rightarrow> (Inr (case_option [] id (e_rules e)), e, w))
      | None \<Rightarrow>
          (case refresh fetch clock e w of
             (Inl err, e, w) \<Rightarrow> (Inl err, e, w)
           | (Inr _, e, w) \<Rightarrow> (Inr (case_option [] id (e_rules e)), e, w)))"

definition RuleCount :: "engine \<Rightarrow> nat" where
  "RuleCount e = (case e_rules e of None \<Rightarrow> 0 | Some rules \<Rightarrow> length rules)"

text \<open>The verdict of a matching rule, and the loop over the rules.\<close>

definition verdict :: "Rule \<Rightarrow> policy_query \<Rightarrow> bool \<times> string" where
  "verdict r q =
     (if r_Effect r \<noteq> ''allow'' then (False, r_ID r)
      else if length (r_Commands r) = 0 then
        (if EffectiveOrigin (q_origin q) = OriginMCP then (False, ''mcp-command-allowlist-required'')
         else if Refuses (q_command q) then (False, ''backstop-denylist'')
         else (True, r_ID r))
      else if MatchesAny (r_Commands r) (q_command q) then (True, r_ID r)
      else (False, r_ID r @ ''-command-not-allowed''))"

fun allow_loop :: "Rule list \<Rightarrow> policy_query \<Rightarrow> bool \<times> string" where
  "allow_loop [] q = (False, ''default-deny'')"
| "allow_loop (r # rs) q = (if \<not> matches r q then allow_loop rs q else verdict r q)"

definition Allow ::
  "'w rule_fetcher \<Rightarrow> ('w \<Rightarrow> int) \<Rightarrow> policy_query \<Rightarrow> engine \<Rightarrow> 'w \<Rightarrow> (bool \<times> string) \<times> engine \<times> 'w"
where
  "Allow fetch clock q e w =
     (case current fetch clock e w of
        (Inl _, e, w) \<Rightarrow> ((False, ''policy-unavailable''), e, w)
      | (Inr rules, e, w) \<Rightarrow> (allow_loop rules q, e, w))"

section \<open>Loading the rules over HTTP\<close>

definition zero_spec :: CommandSpec where
  "zero_spec = \<lparr>cs_Exec = [], cs_Args = None\<rparr>"

definition spec_of_json :: "json \<Rightarrow> CommandSpec option" where
  "spec_of_json v =
     dec_struct False [''exec'', ''args'']
       (\<lambda>f v c.
          if f = ''exec'' then map_option (\<lambda>x. c\<lparr>cs_Exec := x\<rparr>) (dec_string v (cs_Exec c))
          else map_option (\<lambda>x. c\<lparr>cs_Args := x\<rparr>) (dec_slice (\<lambda>w. dec_string w []) v))
       v zero_spec"

definition zero_rule :: Rule where
  "zero_rule = \<lparr>r_ID = [], r_Effect = [], r_Principal = [], r_SID = [], r_Scope = [], r_Aud = [],
     r_InjectionMethod = [], r_Commands = [], r_Priority = 0\<rparr>"

definition rule_store :: "string \<Rightarrow> json \<Rightarrow> Rule \<Rightarrow> Rule option" where
  "rule_store f v r =
     (if f = ''ID'' then map_option (\<lambda>x. r\<lparr>r_ID := x\<rparr>) (dec_string v (r_ID r))
      else if f = ''Effect'' then map_option (\<lambda>x. r\<lparr>r_Effect := x\<rparr>) (dec_string v (r_Effect r))
      else if f = ''Principal'' then map_option (\<lambda>x. r\<lparr>r_Principal := x\<rparr>) (dec_string v (r_Principal r))
      else if f = ''SID'' then map_option (\<lambda>x. r\<lparr>r_SID := x\<rparr>) (dec_string v (r_SID r))
      else if f = ''Scope'' then
        map_option (\<lambda>x. r\<lparr>r_Scope := case_option [] id x\<rparr>) (dec_slice (\<lambda>w. dec_string w []) v)
      else if f = ''Aud'' then map_option (\<lambda>x. r\<lparr>r_Aud := x\<rparr>) (dec_string v (r_Aud r))
      else if f = ''InjectionMethod'' then
        map_option (\<lambda>x. r\<lparr>r_InjectionMethod := x\<rparr>) (dec_string v (r_InjectionMethod r))
      else if f = ''Commands'' then
        map_option (\<lambda>x. r\<lparr>r_Commands := case_option [] id x\<rparr>) (dec_slice spec_of_json v)
      else map_option (\<lambda>x. r\<lparr>r_Priority := x\<rparr>) (dec_int64 v (r_Priority r)))"

definition rule_of_json :: "json \<Rightarrow> Rule option" where
  "rule_of_json v =
     dec_struct False [''ID'', ''Effect'', ''Principal'', ''SID'', ''Scope'', ''Aud'', ''InjectionMethod'',
       ''Commands'', ''Priority''] rule_store v zero_rule"

definition rules_body_of_json :: "json \<Rightarrow> Rule list option" where
  "rules_body_of_json v =
     dec_struct False [''rules''] (\<lambda>f v _. map_option (case_option [] id) (dec_slice rule_of_json v)) v []"

definition HTTP_Fetch :: "'w transport \<Rightarrow> string \<Rightarrow> string \<Rightarrow> 'w \<Rightarrow> Rule list result \<times> 'w" where
  "HTTP_Fetch Do BaseURL APIKey w =
     (case Do \<lparr>rq_Method = ''GET'', rq_URL = BaseURL @ ''/v1/policies'',
               rq_Header = [(''X-Safekeys-Key'', APIKey)], rq_Body = []\<rparr> w of
        (Inl (Denial m), w) \<Rightarrow> (Inl (Denial m), w)
      | (Inl (Err m), w) \<Rightarrow> (Inl (Err (''policy: '' @ m)), w)
      | (Inr resp, w) \<Rightarrow>
          if rs_StatusCode resp \<noteq> StatusOK then
            (Inl (Err (''policy: control plane returned '' @ itoa (rs_StatusCode resp))), w)
          else
            (case Option.bind (Decode (rs_Body resp)) rules_body_of_json of
               None \<Rightarrow> (Inl (Err ''policy: decode''), w)
             | Some rules \<Rightarrow> (Inr rules, w)))"

section \<open>Lemmas: the order of the rules\<close>

text \<open>Insertion from the right, the list being in reverse order.\<close>

fun ins_rev :: "Rule \<Rightarrow> Rule list \<Rightarrow> Rule list" where
  "ins_rev x [] = [x]"
| "ins_rev x (y # ys) = (if before x y then y # ins_rev x ys else x # y # ys)"

lemma sift_down_ins: "sift_down (length p) (rev p @ x # s) = rev (ins_rev x p) @ s"
proof (induction p arbitrary: s)
  case (Cons y p)
  have n: "(rev (y # p) @ x # s) ! Suc (length p) = x" "(rev (y # p) @ x # s) ! length p = y"
    by (simp_all add: nth_append)
  have u: "(rev (y # p) @ x # s)[Suc (length p) := y, length p := x] = rev p @ x # y # s"
    by (simp add: list_update_append)
  show ?case using Cons.IH [of "y # s"] n u by simp
qed simp

lemma sift_fold:
  "fold sift_down [length p..<length p + length s] (rev p @ s) = rev (fold ins_rev s p)"
proof (induction s arbitrary: p)
  case (Cons x s)
  have l: "length (ins_rev x p) = Suc (length p)" by (induction x p rule: ins_rev.induct) auto
  have "[length p..<length p + length (x # s)] = length p # [length (ins_rev x p)..<length (ins_rev x p) + length s]"
    using l by (simp add: upt_conv_Cons del: upt_Suc)
  then show ?case using Cons.IH [of "ins_rev x p"] sift_down_ins [of p x s] by simp
qed simp

lemma sorted_rules_eq: "sorted_rules rs = rev (fold ins_rev rs [])"
proof (cases rs)
  case (Cons r rs')
  then show ?thesis using sift_fold [of "[r]" rs'] by (simp add: sorted_rules_def)
qed (simp add: sorted_rules_def)

lemma mset_ins_rev [simp]: "mset (ins_rev x p) = add_mset x (mset p)"
  by (induction x p rule: ins_rev.induct) auto

lemma mset_sorted_rules [simp]: "mset (sorted_rules rs) = mset rs"
proof -
  have "mset (fold ins_rev rs p) = mset rs + mset p" for p
    by (induction rs arbitrary: p) auto
  then show ?thesis by (simp add: sorted_rules_eq)
qed

lemma set_sorted_rules [simp]: "set (sorted_rules rs) = set rs"
  using mset_sorted_rules mset_eq_setD by blast

lemma before_trans: "\<not> before b a \<Longrightarrow> \<not> before c b \<Longrightarrow> \<not> before c a"
  by (auto simp: before_def not_less)

lemma ins_rev_ordered:
  "sorted_wrt (\<lambda>a b. \<not> before a b) p \<Longrightarrow> sorted_wrt (\<lambda>a b. \<not> before a b) (ins_rev x p)"
proof (induction x p rule: ins_rev.induct)
  case (2 x y ys)
  show ?case
  proof (cases "before x y")
    case True
    have "set (ins_rev x ys) = insert x (set ys)" by (metis mset_ins_rev set_mset_add_mset_insert set_mset_mset)
    moreover have "\<not> before y x" using True by (auto simp: before_def)
    ultimately show ?thesis using 2 True by simp
  next
    case False
    then show ?thesis using 2 before_trans by auto
  qed
qed simp

lemma sorted_rules_ordered: "sorted_wrt (\<lambda>a b. \<not> before b a) (sorted_rules rs)"
proof -
  have "sorted_wrt (\<lambda>a b. \<not> before a b) (fold ins_rev rs p)" if "sorted_wrt (\<lambda>a b. \<not> before a b) p" for p
    using that by (induction rs arbitrary: p) (auto intro: ins_rev_ordered)
  then show ?thesis by (simp add: sorted_rules_eq sorted_wrt_rev)
qed

lemma sorted_rules_stable:
  "filter (\<lambda>r. r_Priority r = n \<and> r_ID r = i) (sorted_rules rs) =
   filter (\<lambda>r. r_Priority r = n \<and> r_ID r = i) rs"
proof -
  let ?P = "\<lambda>r. r_Priority r = n \<and> r_ID r = i"
  have f: "filter ?P (ins_rev x ys) = (if ?P x then x # filter ?P ys else filter ?P ys)" for x ys
    by (induction x ys rule: ins_rev.induct) (auto simp: before_def)
  have "filter ?P (rev (fold ins_rev rs p)) = filter ?P (rev p) @ filter ?P rs" for p
  proof (induction rs arbitrary: p)
    case (Cons r rs)
    have "filter ?P (rev (ins_rev r p)) = filter ?P (rev p) @ (if ?P r then [r] else [])"
      using f [of r p] by (simp add: rev_filter [symmetric])
    then show ?case using Cons.IH [of "ins_rev r p"] by simp
  qed simp
  then show ?thesis by (simp add: sorted_rules_eq)
qed

section \<open>The engine as a cache and as a first-match evaluator\<close>

lemma refresh_Inr: "refresh fetch clock e w = (Inr u, e', w') \<Longrightarrow>
    \<exists>rs. fetch w = (Inr rs, w') \<and> e_rules e' = Some (sorted_rules rs) \<and> e_hasFetcher e"
  by (auto simp: refresh_def split: if_splits prod.splits sum.splits)

lemma refresh_Inl: "refresh fetch clock e w = (Inl err, e', w') \<Longrightarrow> e_rules e' = e_rules e"
  by (auto simp: refresh_def split: if_splits prod.splits sum.splits)

text \<open>What a call of \<open>current\<close> hands out: the rules held, or the rules fetched.\<close>

lemma current_warm:
  assumes "e_rules e = Some rules"
  shows "\<exists>v e' w'. current fetch clock e w = (Inr v, e', w') \<and> e_rules e' = Some v \<and>
      (v = rules \<or> (\<exists>rs. fetch w = (Inr rs, w') \<and> v = sorted_rules rs))"
proof (cases "refresh fetch clock e w")
  case (fields r e' w')
  then show ?thesis
    using assms refresh_Inr [of fetch clock e w _ e' w'] refresh_Inl [of fetch clock e w _ e' w']
    by (cases r) (auto simp: current_def)
qed

lemma current_cold:
  assumes "e_rules e = None"
  shows "(\<exists>v e' w' rs. current fetch clock e w = (Inr v, e', w') \<and> e_rules e' = Some v \<and>
            fetch w = (Inr rs, w') \<and> v = sorted_rules rs) \<or>
         (\<exists>err e' w'. current fetch clock e w = (Inl err, e', w') \<and> e_rules e' = None)"
proof (cases "refresh fetch clock e w")
  case (fields r e' w')
  then show ?thesis
    using assms refresh_Inr [of fetch clock e w _ e' w'] refresh_Inl [of fetch clock e w _ e' w']
    by (cases r) (auto simp: current_def)
qed

interpretation rule_cache: fetch_cache e_rules "current fetch clock"
  "\<lambda>e w v. \<exists>rs w'. fetch w = (Inr rs, w') \<and> v = sorted_rules rs"
  for fetch clock
proof unfold_locales
  fix e e' :: engine and w w' v err
  show "e_rules e' = Some v" if "current fetch clock e w = (Inr v, e', w')"
    using that current_warm [of e _ fetch clock w] current_cold [of e fetch clock w]
    by (cases "e_rules e") auto
  show "\<exists>v' e' w'. current fetch clock e w = (Inr v', e', w') \<and>
      (v' = v \<or> (\<exists>rs w'. fetch w = (Inr rs, w') \<and> v' = sorted_rules rs))" if "e_rules e = Some v"
    using current_warm [OF that, of fetch clock w] by blast
  show "\<exists>rs w'. fetch w = (Inr rs, w') \<and> v = sorted_rules rs"
    if "e_rules e = None" "current fetch clock e w = (Inr v, e', w')"
    using that current_cold [of e fetch clock w] by auto
  show "e_rules e' = None" if "current fetch clock e w = (Inl err, e', w')"
    using that current_warm [of e _ fetch clock w] current_cold [of e fetch clock w]
    by (cases "e_rules e") auto
qed

interpretation local_rules: first_match matches verdict "(False, ''default-deny'')" allow_loop
  by unfold_locales simp_all

text \<open>The invariant of an engine: the rules it holds are in order.\<close>

definition engine_ok :: "engine \<Rightarrow> bool" where
  "engine_ok e \<longleftrightarrow> (case e_rules e of None \<Rightarrow> True | Some rs \<Rightarrow> sorted_wrt (\<lambda>a b. \<not> before b a) rs)"

lemma engine_ok_current:
  assumes "engine_ok e" and "current fetch clock e w = (r, e', w')"
  shows "engine_ok e'"
proof (cases "e_rules e")
  case None
  then show ?thesis using assms current_cold [OF None, of fetch clock w] sorted_rules_ordered
    by (auto simp: engine_ok_def)
next
  case (Some rules)
  then show ?thesis using assms current_warm [OF Some, of fetch clock w] sorted_rules_ordered
    by (auto simp: engine_ok_def)
qed

lemma engine_ok_New: "New_engine fetch clock ttl w = (Inr e, w') \<Longrightarrow> engine_ok e"
  using sorted_rules_ordered
  by (auto simp: New_engine_def engine_ok_def split: prod.splits sum.splits dest!: refresh_Inr)

lemma engine_ok_NewFromRules: "engine_ok (NewFromRules rules)"
  using sorted_rules_ordered by (simp add: NewFromRules_def engine_ok_def)

lemma Allow_True:
  assumes "Allow fetch clock q e w = ((True, i), e', w')" and "engine_ok e"
  obtains rules r where "e_rules e' = Some rules" "r \<in> set rules" "r_ID r = i" "matches r q"
    "r_Effect r = ''allow''" "\<forall>r' \<in> set rules. matches r' q \<longrightarrow> \<not> before r' r"
    "if r_Commands r = [] then EffectiveOrigin (q_origin q) \<noteq> OriginMCP \<and> \<not> Refuses (q_command q)
     else MatchesAny (r_Commands r) (q_command q)"
proof -
  obtain rules where c: "current fetch clock e w = (Inr rules, e', w')"
    and l: "allow_loop rules q = (True, i)"
    using assms(1) by (auto simp: Allow_def split: prod.splits sum.splits)
  have h: "e_rules e' = Some rules" using rule_cache.get_hands_out [OF c] .
  have "sorted_wrt (\<lambda>a b. \<not> before b a) rules"
    using engine_ok_current [OF assms(2) c] h by (simp add: engine_ok_def)
  then obtain r where r: "r \<in> set rules" "matches r q" "allow_loop rules q = verdict r q"
    "\<forall>x \<in> set rules. matches x q \<longrightarrow> x = r \<or> \<not> before x r"
    using local_rules.eval_decided_first [of rules q "\<lambda>a b. \<not> before b a"] l by auto
  have "\<not> before r r" by (simp add: before_def)
  then show thesis
    using that [OF h r(1)] r l by (auto simp: verdict_def split: if_splits)
qed

section \<open>Properties of the local policy\<close>

text \<open>
  The insertion loop puts the rules in evaluation order: the result is a permutation of the
  rules, no rule comes after one it should precede (higher priority, then smaller id), and
  rules with the same priority and id keep their order.
\<close>

theorem sorted_rules_order:
  "mset (sorted_rules rs) = mset rs \<and>
   sorted_wrt (\<lambda>a b. \<not> before b a) (sorted_rules rs) \<and>
   filter (\<lambda>r. r_Priority r = n \<and> r_ID r = i) (sorted_rules rs) =
     filter (\<lambda>r. r_Priority r = n \<and> r_ID r = i) rs"
  by (intro conjI mset_sorted_rules sorted_rules_ordered sorted_rules_stable)

text \<open>
  C20. A resolve is allowed only by a rule: there is a rule in force that matches the request,
  has the effect allow, is outranked by no other matching rule (so a matching deny of higher
  priority always wins), and admits the command: with command specifications one of them
  matches the argument vector, without them the request does not come from MCP and the
  backstop does not refuse the command.
\<close>

theorem Allow_needs_top_rule:
  assumes "Allow fetch clock q e w = ((True, i), e', w')" and "engine_ok e"
  shows "\<exists>rules r. e_rules e' = Some rules \<and> r \<in> set rules \<and> r_ID r = i \<and> matches r q \<and>
      r_Effect r = ''allow'' \<and> (\<forall>r' \<in> set rules. matches r' q \<longrightarrow> \<not> before r' r) \<and>
      (if r_Commands r = [] then EffectiveOrigin (q_origin q) \<noteq> OriginMCP \<and> \<not> Refuses (q_command q)
       else MatchesAny (r_Commands r) (q_command q))"
  by (rule Allow_True [OF assms]) blast

text \<open>The rule sets and requests on which the properties are applied.\<close>

definition sample_rules :: "Rule list" where
  "sample_rules =
     [zero_rule\<lparr>r_ID := ''allow-ls'', r_Effect := ''allow'', r_Scope := [''unwrap''],
        r_Commands := [\<lparr>cs_Exec = ''/bin/ls'', cs_Args = None\<rparr>], r_Priority := 5\<rparr>,
      zero_rule\<lparr>r_ID := ''allow-env'', r_Effect := ''allow'', r_Scope := [''inject-env'']\<rparr>,
      zero_rule\<lparr>r_ID := ''deny-prod'', r_Effect := ''deny'', r_Scope := [''inject-env''],
        r_Aud := ''prod'', r_Priority := 10\<rparr>]"

definition sample_query :: policy_query where
  "sample_query = \<lparr>q_principal = ''agent'', q_sid = ''obj_1'', q_scope = ''unwrap'', q_aud = ''prod'',
     q_injection = ''env'', q_command = [''/bin/ls'', ''-l''], q_origin = ''mcp''\<rparr>"

lemma Allow_needs_top_rule_witness:
  "Allow (\<lambda>w. (Inr [], w)) (\<lambda>_. 0) sample_query (NewFromRules sample_rules) ()
     = ((True, ''allow-ls''), NewFromRules sample_rules, ()) \<and>
   (\<exists>rules r. e_rules (NewFromRules sample_rules) = Some rules \<and> r \<in> set rules \<and>
      MatchesAny (r_Commands r) [''/bin/ls'', ''-l''])"
proof -
  have a: "Allow (\<lambda>w. (Inr [], w)) (\<lambda>_. 0) sample_query (NewFromRules sample_rules) ()
     = ((True, ''allow-ls''), NewFromRules sample_rules, ())"
    by code_simp
  have "EffectiveOrigin (q_origin sample_query) = OriginMCP" by code_simp
  then show ?thesis
    using a Allow_needs_top_rule [OF a engine_ok_NewFromRules]
    by (auto simp: sample_query_def split: if_splits)
qed

text \<open>
  A request that comes from MCP runs a command only if some rule lists it: without command
  specifications no rule, whatever its effect and priority, allows the request.
\<close>

theorem mcp_needs_command_spec:
  assumes "Allow fetch clock q e w = ((True, i), e', w')" and "engine_ok e" and "q_origin q = ''mcp''"
  shows "\<exists>rules r spec. e_rules e' = Some rules \<and> r \<in> set rules \<and> spec \<in> set (r_Commands r) \<and>
      MatchesArgv spec (q_command q)"
proof -
  have "EffectiveOrigin (q_origin q) = OriginMCP"
    by (simp add: assms(3) EffectiveOrigin_def OriginMCP_def)
  then show ?thesis
    by (rule_tac Allow_True [OF assms(1,2)])
      (auto simp: MatchesAny_def list_ex_iff split: if_splits)
qed

lemma mcp_needs_command_spec_witness:
  "\<exists>rules r spec. e_rules (NewFromRules sample_rules) = Some rules \<and> r \<in> set rules \<and>
     spec \<in> set (r_Commands r) \<and> MatchesArgv spec [''/bin/ls'', ''-l'']"
proof -
  have a: "Allow (\<lambda>w. (Inr [], w)) (\<lambda>_. 0) sample_query (NewFromRules sample_rules) ()
     = ((True, ''allow-ls''), NewFromRules sample_rules, ())"
    by code_simp
  show ?thesis
    using mcp_needs_command_spec [OF a engine_ok_NewFromRules] by (auto simp: sample_query_def)
qed

text \<open>
  C32. The engine fails closed and then stays available: as long as no rules have ever been
  loaded, a failing fetch denies every request with the reason policy-unavailable; once rules
  are held, no failure of the fetcher, however long, takes them away, and every decision is one
  over rules that were held or have just been fetched.
\<close>

theorem engine_fails_closed:
  "case e_rules e of
     None \<Rightarrow>
       if e_hasFetcher e \<and> \<not> is_err (fst (fetch w))
       then (\<exists>rs. fst (fetch w) = Inr rs \<and> fst (Allow fetch clock q e w) = allow_loop (sorted_rules rs) q)
       else fst (Allow fetch clock q e w) = (False, ''policy-unavailable'') \<and>
            e_rules (fst (snd (Allow fetch clock q e w))) = None
   | Some rules \<Rightarrow>
       \<exists>rules' e' w'. Allow fetch clock q e w = (allow_loop rules' q, e', w') \<and> e_rules e' = Some rules' \<and>
         (rules' = rules \<or> (\<exists>rs w'. fetch w = (Inr rs, w') \<and> rules' = sorted_rules rs))"
proof (cases "e_rules e")
  case None
  show ?thesis
  proof (cases "fetch w")
    case (Pair r w1)
    then show ?thesis
      using None by (cases r) (auto simp: Allow_def current_def refresh_def)
  qed
next
  case (Some rules)
  obtain v e' w' where g: "current fetch clock e w = (Inr v, e', w')"
    "v = rules \<or> (\<exists>rs w'. fetch w = (Inr rs, w') \<and> v = sorted_rules rs)"
    using rule_cache.get_warm [OF Some] by metis
  then have "Allow fetch clock q e w = (allow_loop v q, e', w')" by (simp add: Allow_def)
  moreover have "e_rules e' = Some v" using rule_cache.get_hands_out [OF g(1)] .
  ultimately show ?thesis using g(2) Some by auto
qed

end
