(* ===== verification/Protocol_Envelope.thy ===== *)
theory Protocol_Envelope
  imports Protocol_Errors Encoding
begin

text \<open>
  envelope.go and zeroise.go: encryption of objects under a data encryption key, the hash of a
  ciphertext, and the overwriting of sensitive buffers.

  The AEAD ciphers and SHA-256 are parameters. Buffers live in a store of byte arrays, indexed
  by their address, because zeroisation is about the array and not about the value: whoever
  holds the address sees the zeros.
\<close>

section \<open>AEAD\<close>

definition AlgAES256GCM :: string where "AlgAES256GCM = ''AES-256-GCM''"
definition AlgChaCha20Poly1305 :: string where "AlgChaCha20Poly1305 = ''ChaCha20-Poly1305''"
definition DEKSize :: nat where "DEKSize = 32"
definition KEKSize :: nat where "KEKSize = 32"

text \<open>A cipher of \<open>crypto/cipher\<close>: \<open>Seal key nonce plaintext\<close>, \<open>Open key nonce body\<close>.\<close>

record aead =
  NonceSize :: nat
  Seal :: "bytes \<Rightarrow> bytes \<Rightarrow> bytes \<Rightarrow> bytes"
  Open :: "bytes \<Rightarrow> bytes \<Rightarrow> bytes \<Rightarrow> bytes option"

record ciphers =
  aes_gcm :: aead
  chacha20poly1305 :: aead
  sha256 :: "bytes \<Rightarrow> bytes"

text \<open>Random bytes: \<open>None\<close> when the random source fails.\<close>

type_synonym 'w random = "nat \<Rightarrow> 'w \<Rightarrow> bytes option \<times> 'w"

definition RandomBytes :: "'w random \<Rightarrow> nat \<Rightarrow> 'w \<Rightarrow> bytes result \<times> 'w" where
  "RandomBytes rand n w =
     (case rand n w of
        (None, w) \<Rightarrow> (Inl (Err ''csprng''), w)
      | (Some b, w) \<Rightarrow> (Inr b, w))"

definition NewID :: "'w random \<Rightarrow> string \<Rightarrow> 'w \<Rightarrow> string result \<times> 'w" where
  "NewID rand pfx w =
     (case RandomBytes rand 12 w of
        (Inl e, w) \<Rightarrow> (Inl e, w)
      | (Inr b, w) \<Rightarrow> (Inr (pfx @ ''_'' @ EncodeToString RawURLEncoding b), w))"

definition NewDEK :: "'w random \<Rightarrow> 'w \<Rightarrow> bytes result \<times> 'w" where
  "NewDEK rand w = RandomBytes rand DEKSize w"

definition newAEAD :: "ciphers \<Rightarrow> string \<Rightarrow> bytes \<Rightarrow> aead result" where
  "newAEAD C alg key =
     (if alg = AlgAES256GCM then
        (if length key \<noteq> DEKSize then Inl (Err ''AES-256-GCM requires a 32-byte key'')
         else Inr (aes_gcm C))
      else if alg = AlgChaCha20Poly1305 then
        (if length key \<noteq> 32 then Inl (Err ''ChaCha20-Poly1305 requires a 32-byte key'')
         else Inr (chacha20poly1305 C))
      else Inl (NewDenial ReasonMalformed))"

definition EncryptObject ::
  "ciphers \<Rightarrow> 'w random \<Rightarrow> string \<Rightarrow> bytes \<Rightarrow> bytes \<Rightarrow> 'w \<Rightarrow> bytes result \<times> 'w"
where
  "EncryptObject C rand alg dek plaintext w =
     (case newAEAD C alg dek of
        Inl e \<Rightarrow> (Inl e, w)
      | Inr a \<Rightarrow>
          (case RandomBytes rand (NonceSize a) w of
             (Inl e, w) \<Rightarrow> (Inl (Err ''nonce''), w)
           | (Inr nonce, w) \<Rightarrow> (Inr (nonce @ Seal a dek nonce plaintext), w)))"

definition DecryptObject :: "ciphers \<Rightarrow> string \<Rightarrow> bytes \<Rightarrow> bytes \<Rightarrow> bytes result" where
  "DecryptObject C alg dek ciphertext =
     (case newAEAD C alg dek of
        Inl e \<Rightarrow> Inl e
      | Inr a \<Rightarrow>
          if length ciphertext < NonceSize a then Inl (Err ''ciphertext too short'')
          else
            (case Open a dek (take (NonceSize a) ciphertext) (drop (NonceSize a) ciphertext) of
               None \<Rightarrow> Inl (NewDenial ReasonSignatureInvalid)
             | Some pt \<Rightarrow> Inr pt))"

definition HashObject :: "ciphers \<Rightarrow> bytes \<Rightarrow> string" where
  "HashObject C ciphertext = ''sha256:'' @ EncodeToString StdEncoding (sha256 C ciphertext)"

section \<open>Zeroisation\<close>

type_synonym addr = nat
type_synonym memory = "bytes list"

definition alloc :: "bytes \<Rightarrow> memory \<Rightarrow> addr \<times> memory" where
  "alloc b m = (length m, m @ [b])"

definition load :: "addr \<Rightarrow> memory \<Rightarrow> bytes" where
  "load a m = (if a < length m then m ! a else [])"

definition zeros :: "nat \<Rightarrow> bytes" where
  "zeros n = replicate n (CHR 0x00)"

text \<open>\<open>Zero\<close>: the loop writes a zero at every index.\<close>

function zero_loop :: "nat \<Rightarrow> bytes \<Rightarrow> bytes" where
  "zero_loop i b = (if i < length b then zero_loop (i + 1) (b[i := CHR 0x00]) else b)"
  by pat_completeness auto
termination
  by (relation "measure (\<lambda>(i, b). length b - i)") auto

declare zero_loop.simps [simp del]

definition Zero :: "addr \<Rightarrow> memory \<Rightarrow> memory" where
  "Zero a m = m[a := zero_loop 0 (load a m)]"

text \<open>A string and the byte slice over its array share the address; an empty string has none.\<close>

definition unsafeBytes :: "addr \<Rightarrow> memory \<Rightarrow> addr option" where
  "unsafeBytes s m = (if length (load s m) = 0 then None else Some s)"

definition ZeroString :: "addr \<Rightarrow> memory \<Rightarrow> memory" where
  "ZeroString s m =
     (if length (load s m) = 0 then m
      else (case unsafeBytes s m of None \<Rightarrow> m | Some b \<Rightarrow> Zero b m))"

record SecureBuffer =
  sb_buf :: "addr option"
  sb_owned :: bool

definition NewSecureBuffer :: "nat \<Rightarrow> memory \<Rightarrow> SecureBuffer \<times> memory" where
  "NewSecureBuffer n m = (case alloc (zeros n) m of (a, m) \<Rightarrow> (\<lparr>sb_buf = Some a, sb_owned = True\<rparr>, m))"

definition SecureBufferFrom :: "addr \<Rightarrow> SecureBuffer" where
  "SecureBufferFrom a = \<lparr>sb_buf = Some a, sb_owned = True\<rparr>"

definition Bytes :: "SecureBuffer \<Rightarrow> memory \<Rightarrow> bytes" where
  "Bytes s m = (case sb_buf s of None \<Rightarrow> [] | Some a \<Rightarrow> load a m)"

text \<open>\<open>Len\<close> and \<open>Release\<close> accept a nil receiver.\<close>

definition Len :: "SecureBuffer option \<Rightarrow> memory \<Rightarrow> nat" where
  "Len s m = (case s of None \<Rightarrow> 0 | Some b \<Rightarrow> length (Bytes b m))"

definition Release :: "SecureBuffer option \<Rightarrow> memory \<Rightarrow> SecureBuffer option \<times> memory" where
  "Release s m =
     (case s of
        None \<Rightarrow> (None, m)
      | Some b \<Rightarrow>
          (case sb_buf b of
             None \<Rightarrow> (Some b, m)
           | Some a \<Rightarrow> (Some (b\<lparr>sb_buf := None\<rparr>), if sb_owned b then Zero a m else m)))"

section \<open>Lemmas\<close>

lemma zero_loop_eq: "zero_loop i b = take i b @ zeros (length b - i)"
proof (induction i b rule: zero_loop.induct)
  case (1 i b)
  show ?case
  proof (cases "i < length b")
    case True
    have "take (i + 1) (b[i := CHR 0x00]) = take i b @ [CHR 0x00]"
      using True by (simp add: take_Suc_conv_app_nth)
    moreover have "length b - i = Suc (length b - (i + 1))" using True by simp
    ultimately show ?thesis
      using 1 True by (simp add: zero_loop.simps [of i b] zeros_def)
  qed (simp add: zero_loop.simps [of i b] zeros_def)
qed

lemma Zero_eq: "Zero a m = m[a := zeros (length (load a m))]"
  by (simp add: Zero_def zero_loop_eq)

lemma length_Zero [simp]: "length (Zero a m) = length m"
  by (simp add: Zero_def)

lemma load_Zero: "load b (Zero a m) = (if a = b then zeros (length (load a m)) else load b m)"
  by (auto simp: Zero_eq load_def nth_list_update zeros_def)

lemma load_alloc: "alloc b m = (a, m') \<Longrightarrow> load a m' = b \<and> a = length m \<and> m' = m @ [b]"
  by (auto simp: alloc_def load_def)

lemma load_append: "a < length m \<Longrightarrow> load a (m @ xs) = load a m"
  by (simp add: load_def nth_append)

lemma EncryptObject_inverse:
  assumes "EncryptObject C rand alg dek plaintext w = (Inr ct, w')"
    and "\<And>a k n p. a \<in> {aes_gcm C, chacha20poly1305 C} \<Longrightarrow> Open a k n (Seal a k n p) = Some p"
    and "\<And>n w b w'. rand n w = (Some b, w') \<Longrightarrow> length b = n"
  shows "DecryptObject C alg dek ct = Inr plaintext"
proof -
  obtain a where a: "newAEAD C alg dek = Inr a"
    using assms(1) by (auto simp: EncryptObject_def split: sum.splits)
  have in_C: "a \<in> {aes_gcm C, chacha20poly1305 C}"
    using a by (auto simp: newAEAD_def split: if_splits)
  obtain nonce where n: "ct = nonce @ Seal a dek nonce plaintext" "length nonce = NonceSize a"
    using assms(1,3) a
    by (auto simp: EncryptObject_def RandomBytes_def split: sum.splits prod.splits option.splits)
  show ?thesis
    using a n assms(2) [OF in_C] by (simp add: DecryptObject_def)
qed

section \<open>Properties\<close>

text \<open>
  Decryption undoes encryption: under a cipher whose \<open>Open\<close> inverts \<open>Seal\<close> for the same key
  and nonce, what \<open>EncryptObject\<close> returns, \<open>DecryptObject\<close> maps back to the plaintext, for both
  algorithms and whatever the random source delivers.
\<close>

theorem DecryptObject_EncryptObject:
  assumes "EncryptObject C rand alg dek plaintext w = (Inr ct, w')"
    and "\<And>a k n p. a \<in> {aes_gcm C, chacha20poly1305 C} \<Longrightarrow> Open a k n (Seal a k n p) = Some p"
    and "\<And>n w b w'. rand n w = (Some b, w') \<Longrightarrow> length b = n"
  shows "DecryptObject C alg dek ct = Inr plaintext"
  using assms by (rule EncryptObject_inverse)

text \<open>A cipher for the instances below: the key and the nonce are prepended.\<close>

definition sample_aead :: aead where
  "sample_aead = \<lparr>NonceSize = 12, Seal = (\<lambda>k n p. k @ n @ p),
     Open = (\<lambda>k n b. if prefix (k @ n) b then Some (drop (length (k @ n)) b) else None)\<rparr>"

definition sample_ciphers :: ciphers where
  "sample_ciphers = \<lparr>aes_gcm = sample_aead, chacha20poly1305 = sample_aead, sha256 = take 32\<rparr>"

lemma DecryptObject_EncryptObject_witness:
  "\<exists>ct. EncryptObject sample_ciphers (\<lambda>n w. (Some (replicate n (CHR ''r'')), w)) ''AES-256-GCM''
       (replicate 32 (CHR ''k'')) ''secret'' () = (Inr ct, ()) \<and>
     DecryptObject sample_ciphers ''AES-256-GCM'' (replicate 32 (CHR ''k'')) ct = Inr ''secret''"
proof -
  have "\<exists>ct. EncryptObject sample_ciphers (\<lambda>n w. (Some (replicate n (CHR ''r'')), w)) ''AES-256-GCM''
       (replicate 32 (CHR ''k'')) ''secret'' () = (Inr ct, ())"
    by (simp add: EncryptObject_def newAEAD_def AlgAES256GCM_def DEKSize_def RandomBytes_def)
  then obtain ct where e: "EncryptObject sample_ciphers (\<lambda>n w. (Some (replicate n (CHR ''r'')), w)) ''AES-256-GCM''
       (replicate 32 (CHR ''k'')) ''secret'' () = (Inr ct, ())" by blast
  have "DecryptObject sample_ciphers ''AES-256-GCM'' (replicate 32 (CHR ''k'')) ct = Inr ''secret''"
    using e by (rule DecryptObject_EncryptObject) (auto simp: sample_ciphers_def sample_aead_def)
  then show ?thesis using e by blast
qed

text \<open>
  Releasing a buffer overwrites exactly its array: an owned buffer's bytes are all zero
  afterwards, at the same length, every other array is untouched, the buffer no longer refers
  to anything, and releasing it again changes nothing.
\<close>

theorem Release_zeroises:
  assumes "Release (Some \<lparr>sb_buf = Some a, sb_owned = True\<rparr>) m = (s', m')"
  shows "load a m' = zeros (length (load a m)) \<and> length m' = length m \<and>
    load b m' = (if b = a then zeros (length (load a m)) else load b m) \<and>
    Len s' m' = 0 \<and> Release s' m' = (s', m')"
  using assms by (auto simp: Release_def load_Zero Len_def Bytes_def)

lemma Release_zeroises_witness:
  "Release (Some \<lparr>sb_buf = Some 1, sb_owned = True\<rparr>) [''a'', ''key'', ''b'']
     = (Some \<lparr>sb_buf = None, sb_owned = True\<rparr>, [''a'', zeros 3, ''b'']) \<and>
   load 1 [''a'', zeros 3, ''b''] = zeros 3"
proof -
  have r: "Release (Some \<lparr>sb_buf = Some 1, sb_owned = True\<rparr>) [''a'', ''key'', ''b'']
     = (Some \<lparr>sb_buf = None, sb_owned = True\<rparr>, [''a'', zeros 3, ''b''])"
    by code_simp
  show ?thesis using r Release_zeroises [OF r, of 0] by (simp add: load_def)
qed

end
