(* ===== verification/File_System.thy ===== *)
theory File_System
  imports Protocol_Errors
begin

text \<open>
  Files: the operations of the packages \<open>os\<close> and \<open>io/fs\<close> that the sources use, as functions on
  a state \<open>'w\<close> that contains the file system, and \<open>filepath.Clean\<close> and \<open>filepath.Join\<close> for the
  Unix separator.
\<close>

record file_info =
  fi_IsDir :: bool
  fi_Perm :: nat
  fi_Socket :: bool

record 'w files =
  ReadFile :: "string \<Rightarrow> 'w \<Rightarrow> bytes result"
  Stat :: "string \<Rightarrow> 'w \<Rightarrow> file_info result"
  MkdirAll :: "string \<Rightarrow> nat \<Rightarrow> 'w \<Rightarrow> unit result \<times> 'w"
  WriteFile :: "string \<Rightarrow> bytes \<Rightarrow> nat \<Rightarrow> 'w \<Rightarrow> unit result \<times> 'w"
  Remove :: "string \<Rightarrow> 'w \<Rightarrow> unit result \<times> 'w"

section \<open>filepath.Clean and filepath.Join\<close>

text \<open>
  The elements of a path are processed from the left on a stack (its top first): an empty
  element and a dot are dropped, two dots take the element before them away, and are kept
  only at the start of a path that is not rooted.
\<close>

fun clean_elems :: "bool \<Rightarrow> string list \<Rightarrow> string list \<Rightarrow> string list" where
  "clean_elems rooted st [] = rev st"
| "clean_elems rooted st (e # es) =
     (if e = [] \<or> e = ''.'' then clean_elems rooted st es
      else if e = ''..'' then
        (case st of
           [] \<Rightarrow> clean_elems rooted (if rooted then [] else [e]) es
         | t # st' \<Rightarrow> clean_elems rooted (if t = ''..'' then e # st else st') es)
      else clean_elems rooted (e # st) es)"

definition elems_of :: "string \<Rightarrow> string list" where
  "elems_of p = clean_elems (HasPrefix p ''/'') [] (split_on (CHR ''/'') p)"

definition Clean :: "string \<Rightarrow> string" where
  "Clean p =
     (let es = elems_of p in
      if HasPrefix p ''/'' then ''/'' @ join_with ''/'' es
      else if es = [] then ''.'' else join_with ''/'' es)"

text \<open>Empty elements are ignored; the join of no elements is empty.\<close>

definition Join :: "string list \<Rightarrow> string" where
  "Join es =
     (let ns = filter (\<lambda>e. e \<noteq> []) es in
      if ns = [] then [] else Clean (join_with ''/'' ns))"

section \<open>Lemmas\<close>

lemma clean_elems_append:
  "\<forall>e \<in> set es. e \<noteq> [] \<and> e \<noteq> ''.'' \<and> e \<noteq> ''..'' \<Longrightarrow> clean_elems rooted st es = rev st @ es"
  by (induction es arbitrary: st) auto

lemma clean_elems_snoc:
  "\<forall>e \<in> set es. e \<noteq> [] \<and> e \<noteq> ''.'' \<and> e \<noteq> ''..'' \<Longrightarrow>
    clean_elems rooted st (xs @ es) = clean_elems rooted st xs @ es"
  by (induction rooted st xs rule: clean_elems.induct)
    (auto simp: clean_elems_append split: list.splits)

lemma split_on_append: "split_on c (xs @ c # ys) = split_on c xs @ split_on c ys"
  by (induction xs) (auto split: list.splits)

lemma elems_of_append:
  assumes "p \<noteq> []" and "\<forall>e \<in> set (split_on (CHR ''/'') s). e \<noteq> [] \<and> e \<noteq> ''.'' \<and> e \<noteq> ''..''"
  shows "elems_of (p @ CHR ''/'' # s) = elems_of p @ split_on (CHR ''/'') s"
proof -
  have "HasPrefix (p @ CHR ''/'' # s) ''/'' = HasPrefix p ''/''"
    using assms(1) by (cases p) (auto simp: HasPrefix_def)
  then show ?thesis using assms(2) by (simp add: elems_of_def split_on_append clean_elems_snoc)
qed

lemma join_with_snoc: "es \<noteq> [] \<Longrightarrow> join_with sep (es @ [n]) = join_with sep es @ sep @ n"
  by (induction sep es rule: join_with.induct) auto

text \<open>The text of a cleaned path ends in its last element.\<close>

lemma Join_suffix:
  assumes "dir \<noteq> []" and "CHR ''/'' \<notin> set n" and "n \<notin> {[], ''.'', ''..''}"
  shows "\<exists>pre. Join [dir, n] = pre @ n"
proof -
  have s: "split_on (CHR ''/'') n = [n]" using assms(2) by (rule split_on_no_sep)
  have n: "n \<noteq> []" using assms(3) by simp
  have "elems_of (dir @ CHR ''/'' # n) = elems_of dir @ [n]"
    using elems_of_append [OF assms(1), of n] s assms(3) by simp
  moreover have "Join [dir, n] = Clean (dir @ CHR ''/'' # n)" using assms(1) n by (simp add: Join_def)
  moreover have "\<exists>pre. join_with ''/'' (elems_of dir @ [n]) = pre @ n"
  proof (cases "elems_of dir = []")
    case False
    then show ?thesis by (metis append_assoc join_with_snoc)
  qed simp
  ultimately show ?thesis by (auto simp: Clean_def Let_def)
qed

section \<open>Laws of a file system\<close>

text \<open>What the code relies on: a file that was written is read back, and no other file changes.\<close>

definition fs_laws :: "'w files \<Rightarrow> bool" where
  "fs_laws fs \<longleftrightarrow>
     (\<forall>p b perm w w'. WriteFile fs p b perm w = (Inr (), w') \<longrightarrow>
        ReadFile fs p w' = Inr b \<and> (\<forall>q. q \<noteq> p \<longrightarrow> ReadFile fs q w' = ReadFile fs q w))"

text \<open>A file system of regular files, for the instances of the theorems.\<close>

definition sample_fs :: "(string \<times> bytes) list files" where
  "sample_fs =
     \<lparr>ReadFile = (\<lambda>p w. case map_of w p of None \<Rightarrow> Inl (Err ''no such file'') | Some b \<Rightarrow> Inr b),
      Stat = (\<lambda>p w. if map_of w p \<noteq> None then Inr \<lparr>fi_IsDir = False, fi_Perm = 384, fi_Socket = False\<rparr>
                    else if list_ex (\<lambda>(q, _). HasPrefix q (p @ ''/'')) w
                    then Inr \<lparr>fi_IsDir = True, fi_Perm = 448, fi_Socket = False\<rparr>
                    else Inl (Err ''no such file'')),
      MkdirAll = (\<lambda>p perm w. (Inr (), w)),
      WriteFile = (\<lambda>p b perm w. (Inr (), (p, b) # w)),
      Remove = (\<lambda>p w. (Inr (), filter (\<lambda>(q, _). q \<noteq> p) w))\<rparr>"

lemma sample_fs_laws: "fs_laws sample_fs"
  by (simp add: fs_laws_def sample_fs_def)

end
