(* ===== verification/Protocol_Folder.thy ===== *)
theory Protocol_Folder
  imports Protocol_Envelope Json File_System
begin

text \<open>
  folder.go: the manifest of an encrypted folder, its JSON form with strict decoding, the rules
  it must satisfy, the scan for secret-shaped keys, and the writing of a folder.
\<close>

section \<open>Data\<close>

record FolderInfo =
  fo_ID :: string
  fo_Description :: string
  fo_Created :: string

record AuthorityInfo =
  au_Issuer :: string
  au_Scope :: string

record ManifestObject =
  o_ID :: string
  o_Path :: string
  o_Alg :: string
  o_WrappedKey :: string
  o_WrappingKID :: string
  o_ContentType :: string
  o_Hash :: string
  o_Size :: int
  o_TokenReferences :: "string list"

record Manifest =
  m_Safekeys :: string
  m_Objects :: "ManifestObject list"
  m_Folder :: "FolderInfo option"
  m_Authority :: "AuthorityInfo option"

definition ObjectDir :: string where "ObjectDir = ''objects''"
definition ReadmeName :: string where "ReadmeName = ''README.safekeys''"
definition ManifestName :: string where "ManifestName = ''manifest.json''"

text \<open>The readme of every folder.\<close>

definition FolderReadme :: string where
  "FolderReadme = join_with [CHR 0x0A]
     [''# Safekeys encrypted folder'',
      [],
      ''This folder is an encrypted transport unit. It contains **no plaintext and no'',
      ''key material**.'',
      [],
      ''## Contents'',
      [],
      ''- `manifest.json` '' @ [CHR 0xE2] @ [CHR 0x80] @ [CHR 0x94] @ '' metadata: object ids, algorithms, wrapped keys, hashes.'',
      ''- `objects/*.enc` '' @ [CHR 0xE2] @ [CHR 0x80] @ [CHR 0x94] @ '' AEAD ciphertext blobs.'',
      ''- `README.safekeys` '' @ [CHR 0xE2] @ [CHR 0x80] @ [CHR 0x94] @ '' this file.'',
      [],
      ''## What you can and cannot do'',
      [],
      ''You may **copy, move, commit, sync, or hand this folder to another agent'',
      ''freely**. Copying increases no cryptographic exposure '' @ [CHR 0xE2] @ [CHR 0x80] @ [CHR 0x94] @ '' the folder is inert.'',
      [],
      ''You **cannot** read any secret from it. Resolution requires all three of:'',
      [],
      ''1. a valid capability token (`safekey://v1/<id>#<JWS>`),'',
      ''2. a running sidecar on the same host,'',
      ''3. a reachable key authority holding the key-encryption key.'',
      [],
      ''The wrapped key in the manifest is useless without the key store, which never'',
      ''releases the key-encryption key. There is no supported way to extract a value'',
      ''from this folder directly, and no plaintext or unwrapped key is ever present.'',
      [],
      ''## Using a secret from this folder'',
      [],
      ''Present your capability token to the local sidecar '' @ [CHR 0xE2] @ [CHR 0x80] @ [CHR 0x94] @ '' for example:'',
      [],
      ''    safekeys exec --token '' @ [CHR 0x27] @ ''safekey://v1/<id>#<JWS>'' @ [CHR 0x27] @ '' -- your-command'',
      [],
      ''The value is injected into `your-command`'' @ [CHR 0x27] @ ''s environment. You receive an'',
      ''exit code, not the value. Never paste a token into a model prompt if you can'',
      ''avoid it, and never ask a model to '' @ [CHR 0x27] @ ''show'' @ [CHR 0x27] @ '' the secret '' @ [CHR 0xE2] @ [CHR 0x80] @ [CHR 0x94] @ '' the sidecar will not'',
      ''return it.'',
      []]"

definition SecretShapedKeys :: "string list" where
  "SecretShapedKeys =
     [''value'', ''secret'', ''plaintext'', ''dek'', ''kek'', ''unwrapped_key'', ''master_key'', ''password'']"

text \<open>The pattern \<open>^objects/[A-Za-z0-9][A-Za-z0-9._-]*\.enc$\<close>.\<close>

definition path_char :: "char \<Rightarrow> bool" where
  "path_char c \<longleftrightarrow> is_alnum c \<or> c = CHR ''.'' \<or> c = CHR ''_'' \<or> c = CHR ''-''"

definition ObjectPathPattern :: "string \<Rightarrow> bool" where
  "ObjectPathPattern p =
     (HasPrefix p ''objects/'' \<and>
      (let name = drop 8 p; body = take (length name - 4) name in
       HasSuffix name ''.enc'' \<and> body \<noteq> [] \<and> is_alnum (hd body) \<and> list_all path_char (tl body)))"

definition Validate :: "Manifest \<Rightarrow> unit result" where
  "Validate m =
     (if m_Safekeys m \<noteq> Version then Inl (NewDenial ReasonUnsupportedVersion)
      else if length (m_Objects m) = 0 then Inl (NewDenial ReasonMalformed)
      else if list_ex (\<lambda>ob. o_ID ob = [] \<or> o_WrappedKey ob = [] \<or> o_Alg ob = []
                \<or> \<not> ObjectPathPattern (o_Path ob)
                \<or> o_Alg ob \<noteq> AlgAES256GCM \<and> o_Alg ob \<noteq> AlgChaCha20Poly1305) (m_Objects m)
      then Inl (NewDenial ReasonMalformed)
      else Inr ())"

definition Object :: "Manifest \<Rightarrow> string \<Rightarrow> ManifestObject option" where
  "Object m i = List.find (\<lambda>ob. o_ID ob = i) (m_Objects m)"

section \<open>Strict decoding\<close>

definition zero_object :: ManifestObject where
  "zero_object = \<lparr>o_ID = [], o_Path = [], o_Alg = [], o_WrappedKey = [], o_WrappingKID = [],
     o_ContentType = [], o_Hash = [], o_Size = 0, o_TokenReferences = []\<rparr>"

definition zero_manifest :: Manifest where
  "zero_manifest = \<lparr>m_Safekeys = [], m_Objects = [], m_Folder = None, m_Authority = None\<rparr>"

definition object_fields :: "string list" where
  "object_fields = [''id'', ''path'', ''alg'', ''wrapped_key'', ''wrapping_kid'', ''content_type'', ''hash'',
     ''size'', ''token_references'']"

definition object_store :: "string \<Rightarrow> json \<Rightarrow> ManifestObject \<Rightarrow> ManifestObject option" where
  "object_store f v ob =
     (if f = ''id'' then map_option (\<lambda>x. ob\<lparr>o_ID := x\<rparr>) (dec_string v (o_ID ob))
      else if f = ''path'' then map_option (\<lambda>x. ob\<lparr>o_Path := x\<rparr>) (dec_string v (o_Path ob))
      else if f = ''alg'' then map_option (\<lambda>x. ob\<lparr>o_Alg := x\<rparr>) (dec_string v (o_Alg ob))
      else if f = ''wrapped_key'' then map_option (\<lambda>x. ob\<lparr>o_WrappedKey := x\<rparr>) (dec_string v (o_WrappedKey ob))
      else if f = ''wrapping_kid'' then map_option (\<lambda>x. ob\<lparr>o_WrappingKID := x\<rparr>) (dec_string v (o_WrappingKID ob))
      else if f = ''content_type'' then map_option (\<lambda>x. ob\<lparr>o_ContentType := x\<rparr>) (dec_string v (o_ContentType ob))
      else if f = ''hash'' then map_option (\<lambda>x. ob\<lparr>o_Hash := x\<rparr>) (dec_string v (o_Hash ob))
      else if f = ''size'' then map_option (\<lambda>x. ob\<lparr>o_Size := x\<rparr>) (dec_int64 v (o_Size ob))
      else map_option (\<lambda>x. ob\<lparr>o_TokenReferences := case_option [] id x\<rparr>) (dec_slice (\<lambda>w. dec_string w []) v))"

definition folder_fields :: "string list" where
  "folder_fields = [''id'', ''description'', ''created'']"

definition folder_store :: "string \<Rightarrow> json \<Rightarrow> FolderInfo \<Rightarrow> FolderInfo option" where
  "folder_store f v fo =
     (if f = ''id'' then map_option (\<lambda>x. fo\<lparr>fo_ID := x\<rparr>) (dec_string v (fo_ID fo))
      else if f = ''description'' then map_option (\<lambda>x. fo\<lparr>fo_Description := x\<rparr>) (dec_string v (fo_Description fo))
      else map_option (\<lambda>x. fo\<lparr>fo_Created := x\<rparr>) (dec_string v (fo_Created fo)))"

definition authority_fields :: "string list" where
  "authority_fields = [''issuer'', ''scope'']"

definition authority_store :: "string \<Rightarrow> json \<Rightarrow> AuthorityInfo \<Rightarrow> AuthorityInfo option" where
  "authority_store f v au =
     (if f = ''issuer'' then map_option (\<lambda>x. au\<lparr>au_Issuer := x\<rparr>) (dec_string v (au_Issuer au))
      else map_option (\<lambda>x. au\<lparr>au_Scope := x\<rparr>) (dec_string v (au_Scope au)))"

text \<open>A pointer to a struct: \<open>null\<close> is nil; an object is stored in what it points to.\<close>

definition dec_pointer :: "(json \<Rightarrow> 'r \<Rightarrow> 'r option) \<Rightarrow> 'r \<Rightarrow> json \<Rightarrow> 'r option \<Rightarrow> 'r option option" where
  "dec_pointer dec zero v old =
     (case v of
        JNull \<Rightarrow> Some None
      | _ \<Rightarrow> map_option Some (dec v (case old of None \<Rightarrow> zero | Some r \<Rightarrow> r)))"

definition manifest_fields :: "string list" where
  "manifest_fields = [''safekeys'', ''objects'', ''folder'', ''authority'']"

definition manifest_store :: "string \<Rightarrow> json \<Rightarrow> Manifest \<Rightarrow> Manifest option" where
  "manifest_store f v m =
     (if f = ''safekeys'' then map_option (\<lambda>x. m\<lparr>m_Safekeys := x\<rparr>) (dec_string v (m_Safekeys m))
      else if f = ''objects'' then
        map_option (\<lambda>x. m\<lparr>m_Objects := case_option [] id x\<rparr>)
          (dec_slice (\<lambda>w. dec_struct True object_fields object_store w zero_object) v)
      else if f = ''folder'' then
        map_option (\<lambda>x. m\<lparr>m_Folder := x\<rparr>)
          (dec_pointer (dec_struct True folder_fields folder_store)
             \<lparr>fo_ID = [], fo_Description = [], fo_Created = []\<rparr> v (m_Folder m))
      else
        map_option (\<lambda>x. m\<lparr>m_Authority := x\<rparr>)
          (dec_pointer (dec_struct True authority_fields authority_store)
             \<lparr>au_Issuer = [], au_Scope = []\<rparr> v (m_Authority m)))"

definition manifest_of_json :: "json \<Rightarrow> Manifest option" where
  "manifest_of_json v = dec_struct True manifest_fields manifest_store v zero_manifest"

text \<open>\<open>equalFold\<close>: equality up to the case of ASCII letters.\<close>

definition equalFold :: "string \<Rightarrow> string \<Rightarrow> bool" where
  "equalFold a b = (if length a \<noteq> length b then False else list_all2 (\<lambda>x y. to_lower x = to_lower y) a b)"

text \<open>
  \<open>scanForSecretKeys\<close> switches on the dynamic type of its argument. Only the value of
  \<open>DecodeManifest\<close> is a map of raw messages; a raw message decoded into \<open>any\<close> is a slice of
  decoded values or of another type, and of the latter the switch has no case.
\<close>

datatype scanned = Raw_map "(string \<times> json) list" | Decoded json

fun scan_decoded :: "json \<Rightarrow> bool" where
  "scan_decoded (JArr vs) = list_ex scan_decoded vs"
| "scan_decoded _ = False"

definition secret_shaped :: "string \<Rightarrow> bool" where
  "secret_shaped k = list_ex (\<lambda>bad. equalFold k bad) SecretShapedKeys"

definition scanForSecretKeys :: "scanned \<Rightarrow> unit result" where
  "scanForSecretKeys v =
     (if (case v of
            Raw_map ms \<Rightarrow> list_ex (\<lambda>(k, raw). secret_shaped k \<or> scan_decoded raw) ms
          | Decoded w \<Rightarrow> scan_decoded w)
      then Inl (NewDenial ReasonMalformed) else Inr ())"

text \<open>The probe is a whole JSON text that is an object; anything else skips the scan.\<close>

definition probe :: "bytes \<Rightarrow> unit result" where
  "probe data =
     (case Unmarshal data of
        Some (JObj ms) \<Rightarrow> scanForSecretKeys (Raw_map ms)
      | _ \<Rightarrow> Inr ())"

definition DecodeManifest :: "bytes \<Rightarrow> Manifest result" where
  "DecodeManifest data =
     (case probe data of
        Inl e \<Rightarrow> Inl e
      | Inr _ \<Rightarrow>
          (case Option.bind (Decode data) manifest_of_json of
             None \<Rightarrow> Inl (NewDenial ReasonMalformed)
           | Some m \<Rightarrow> (case Validate m of Inl e \<Rightarrow> Inl e | Inr _ \<Rightarrow> Inr m)))"

definition ReadManifest :: "'w files \<Rightarrow> string \<Rightarrow> 'w \<Rightarrow> Manifest result" where
  "ReadManifest fs folderDir w =
     (case ReadFile fs (Join [folderDir, ManifestName]) w of
        Inl _ \<Rightarrow> Inl (NewDenial ReasonMalformed)
      | Inr data \<Rightarrow> DecodeManifest data)"

section \<open>Writing a folder\<close>

definition omit_num :: "string \<Rightarrow> int \<Rightarrow> (string \<times> json) list" where
  "omit_num k i = (if i = 0 then [] else [(k, num_json i)])"

definition omit_strs :: "string \<Rightarrow> string list \<Rightarrow> (string \<times> json) list" where
  "omit_strs k xs = (if xs = [] then [] else [(k, str_array xs)])"

definition object_json :: "ManifestObject \<Rightarrow> json" where
  "object_json ob =
     JObj ([(''id'', JStr (o_ID ob)), (''path'', JStr (o_Path ob)), (''alg'', JStr (o_Alg ob)),
            (''wrapped_key'', JStr (o_WrappedKey ob))]
       @ omit_str ''wrapping_kid'' (o_WrappingKID ob) @ omit_str ''content_type'' (o_ContentType ob)
       @ omit_str ''hash'' (o_Hash ob) @ omit_num ''size'' (o_Size ob)
       @ omit_strs ''token_references'' (o_TokenReferences ob))"

definition manifest_json :: "Manifest \<Rightarrow> json" where
  "manifest_json m =
     JObj ([(''safekeys'', JStr (m_Safekeys m)), (''objects'', JArr (map object_json (m_Objects m)))]
       @ (case m_Folder m of None \<Rightarrow> []
          | Some fo \<Rightarrow> [(''folder'', JObj (omit_str ''id'' (fo_ID fo)
                 @ omit_str ''description'' (fo_Description fo) @ omit_str ''created'' (fo_Created fo)))])
       @ (case m_Authority m of None \<Rightarrow> []
          | Some au \<Rightarrow> [(''authority'', JObj (omit_str ''issuer'' (au_Issuer au) @ omit_str ''scope'' (au_Scope au)))]))"

text \<open>
  File modes are decimal: 448 is octal 700, 384 is octal 600.
  The loop over the objects: it stops at the first object without a blob or at a failing write,
  and what it did to the objects before stays done.
\<close>

fun write_objects ::
  "'w files \<Rightarrow> ciphers \<Rightarrow> string \<Rightarrow> (string \<times> bytes) list \<Rightarrow> ManifestObject list \<Rightarrow> 'w
    \<Rightarrow> unit result \<times> ManifestObject list \<times> 'w"
where
  "write_objects fs C dir plaintexts [] w = (Inr (), [], w)"
| "write_objects fs C dir plaintexts (ob # obs) w =
     (case map_of plaintexts (o_ID ob) of
        None \<Rightarrow> (Inl (NewDenial ReasonMalformed), ob # obs, w)
      | Some pt \<Rightarrow>
          (case WriteFile fs (Join [dir, o_Path ob]) pt 384 w of
             (Inl e, w) \<Rightarrow> (Inl e, ob # obs, w)
           | (Inr _, w) \<Rightarrow>
               let ob' = ob\<lparr>o_Size := int (length pt),
                            o_Hash := (if o_Hash ob = [] then HashObject C pt else o_Hash ob)\<rparr> in
               (case write_objects fs C dir plaintexts obs w of
                  (r, obs', w) \<Rightarrow> (r, ob' # obs', w))))"

text \<open>The folder's metadata: created now when there is none, described anew when asked to.\<close>

definition folder_info :: "string \<Rightarrow> string \<Rightarrow> FolderInfo option \<Rightarrow> FolderInfo" where
  "folder_info created folderDesc folder =
     (let fo = (case folder of
                  None \<Rightarrow> \<lparr>fo_ID = [], fo_Description = [], fo_Created = created\<rparr>
                | Some fo \<Rightarrow> fo)
      in if folderDesc \<noteq> [] then fo\<lparr>fo_Description := folderDesc\<rparr> else fo)"

definition WriteFolder ::
  "'w files \<Rightarrow> ciphers \<Rightarrow> ('w \<Rightarrow> string) \<Rightarrow> string \<Rightarrow> Manifest \<Rightarrow> (string \<times> bytes) list \<Rightarrow> string
    \<Rightarrow> 'w \<Rightarrow> unit result \<times> Manifest \<times> 'w"
where
  "WriteFolder fs C now_rfc3339 dir m plaintexts folderDesc w =
     (case Validate m of
        Inl e \<Rightarrow> (Inl e, m, w)
      | Inr _ \<Rightarrow>
          (case MkdirAll fs (Join [dir, ObjectDir]) 448 w of
             (Inl e, w) \<Rightarrow> (Inl e, m, w)
           | (Inr _, w) \<Rightarrow>
               (case write_objects fs C dir plaintexts (m_Objects m) w of
                  (Inl e, obs, w) \<Rightarrow> (Inl e, m\<lparr>m_Objects := obs\<rparr>, w)
                | (Inr _, obs, w) \<Rightarrow>
                    let m = m\<lparr>m_Objects := obs,
                              m_Folder := Some (folder_info (now_rfc3339 w) folderDesc (m_Folder m))\<rparr> in
                    (case WriteFile fs (Join [dir, ManifestName]) (marshal_indent 0 (manifest_json m)) 384 w of
                       (Inl e, w) \<Rightarrow> (Inl e, m, w)
                     | (Inr _, w) \<Rightarrow>
                         (case WriteFile fs (Join [dir, ReadmeName]) FolderReadme 384 w of
                            (r, w) \<Rightarrow> (r, m, w))))))"

section \<open>Lemmas\<close>

lemma ObjectPathPattern_iff:
  "ObjectPathPattern p \<longleftrightarrow> (\<exists>c body. p = ''objects/'' @ (c # body) @ ''.enc'' \<and> is_alnum c \<and> list_all path_char body)"
proof
  assume a: "ObjectPathPattern p"
  then obtain name where p: "p = ''objects/'' @ name"
    by (auto simp: ObjectPathPattern_def HasPrefix_def prefix_def)
  then obtain b where b: "name = b @ ''.enc''"
    using a by (auto simp: ObjectPathPattern_def HasSuffix_def suffix_def Let_def)
  then have "b \<noteq> []" "is_alnum (hd b)" "list_all path_char (tl b)"
    using a p by (auto simp: ObjectPathPattern_def Let_def)
  then show "\<exists>c body. p = ''objects/'' @ (c # body) @ ''.enc'' \<and> is_alnum c \<and> list_all path_char body"
    using p b by (cases b) auto
next
  assume "\<exists>c body. p = ''objects/'' @ (c # body) @ ''.enc'' \<and> is_alnum c \<and> list_all path_char body"
  then show "ObjectPathPattern p"
    by (auto simp: ObjectPathPattern_def HasPrefix_def HasSuffix_def suffix_def)
qed

lemma path_char_not_slash: "path_char c \<Longrightarrow> c \<noteq> CHR ''/''" "is_alnum c \<Longrightarrow> c \<noteq> CHR ''/''"
  by (auto simp: path_char_def char_class_defs)

lemma ObjectPathPattern_elems:
  assumes "ObjectPathPattern p"
  obtains name where "p = ''objects/'' @ name" "split_on (CHR ''/'') p = [''objects'', name]"
    "CHR ''/'' \<notin> set name" "name \<notin> {[], ''.'', ''..''}" "HasSuffix name ''.enc''"
proof -
  obtain c body where p: "p = ''objects/'' @ (c # body) @ ''.enc''" "is_alnum c" "list_all path_char body"
    using assms ObjectPathPattern_iff by blast
  let ?n = "(c # body) @ ''.enc''"
  have ns: "CHR ''/'' \<notin> set ?n" using p path_char_not_slash by (auto simp: list_all_iff)
  have "split_on (CHR ''/'') (''objects'' @ CHR ''/'' # ?n) = [''objects'', ?n]"
    using split_on_append_sep [of "CHR ''/''" "''objects''" ?n] split_on_no_sep [OF ns] by simp
  then show thesis
    using p ns by (intro that [of ?n]) (auto simp: HasSuffix_def suffix_def)
qed

lemma dec_members_strict:
  assumes "dec_members True names store ms r = Some r'"
  shows "\<forall>(k, v) \<in> set ms. \<exists>f r1 r2. match_field names k = Some f \<and> store f v r1 = Some r2"
  using assms
proof (induction ms arbitrary: r)
  case (Cons m ms)
  then show ?case by (cases m) (fastforce split: option.splits)
qed simp

lemma match_field_Some: "match_field names k = Some f \<Longrightarrow> f \<in> set names \<and> fold_name f = fold_name k"
  by (auto simp: match_field_def find_Some_iff split: if_splits)

lemma fold_name_ascii: "\<forall>c \<in> set s. byte c < 128 \<Longrightarrow> fold_name s = map to_lower s"
  by (induction s rule: fold_name.induct) auto

lemma to_lower_ascii: "to_lower x = to_lower y \<Longrightarrow> byte y < 128 \<Longrightarrow> byte x < 128"
  by (auto simp: to_lower_def is_upper_def split: if_splits dest: arg_cong [of _ _ byte])

lemma secret_shaped_fold:
  assumes "secret_shaped k" shows "fold_name k \<in> set SecretShapedKeys"
proof -
  obtain bad where bad: "bad \<in> set SecretShapedKeys" and e: "equalFold k bad"
    using assms by (auto simp: secret_shaped_def list_ex_iff)
  have l: "list_all2 (\<lambda>x y. to_lower x = to_lower y) k bad" using e by (simp add: equalFold_def split: if_splits)
  have b: "\<forall>c \<in> set bad. byte c < 128" "map to_lower bad = bad"
    using bad by (auto simp: SecretShapedKeys_def to_lower_def is_upper_def)
  have "\<forall>c \<in> set k. byte c < 128"
    using l b(1) to_lower_ascii by (induction rule: list_all2_induct) auto
  moreover have "map to_lower k = map to_lower bad"
    using l by (induction rule: list_all2_induct) auto
  ultimately show ?thesis using bad b(2) fold_name_ascii by simp
qed

text \<open>No field of the manifest has a secret-shaped name, so strict decoding refuses them all.\<close>

lemma fields_not_secret:
  assumes "names \<in> {manifest_fields, object_fields, folder_fields, authority_fields}"
    and "match_field names k = Some f"
  shows "\<not> secret_shaped k"
proof -
  have "\<forall>f \<in> set names. fold_name f \<notin> set SecretShapedKeys"
    using assms(1)
    by (auto simp: manifest_fields_def object_fields_def folder_fields_def authority_fields_def
        SecretShapedKeys_def to_lower_def char_class_defs)
  then show ?thesis using match_field_Some [OF assms(2)] secret_shaped_fold by fastforce
qed

lemma dec_struct_no_secret:
  assumes "dec_struct True names store (JObj ms) r = Some r'"
    and "names \<in> {manifest_fields, object_fields, folder_fields, authority_fields}"
  shows "\<forall>(k, v) \<in> set ms. \<not> secret_shaped k"
  using dec_members_strict [of names store ms r r'] fields_not_secret [OF assms(2)] assms(1)
  by (fastforce simp: dec_struct_def)

lemma all_some_Some: "all_some xs = Some ys \<Longrightarrow> \<forall>x \<in> set xs. \<exists>y. x = Some y"
  by (induction xs arbitrary: ys rule: all_some.induct) (auto split: option.splits)

text \<open>Members of the structs of a manifest: the objects of a list, folder and authority.\<close>

definition inner_members :: "string \<Rightarrow> json \<Rightarrow> (string \<times> json) list" where
  "inner_members f v =
     (if f = ''objects'' then
        (case v of JArr vs \<Rightarrow> concat (map (\<lambda>w. case w of JObj ms \<Rightarrow> ms | _ \<Rightarrow> []) vs) | _ \<Rightarrow> [])
      else (case v of JObj ms \<Rightarrow> ms | _ \<Rightarrow> []))"

lemma manifest_store_no_secret:
  assumes "manifest_store f v m = Some m'" and "(k, w) \<in> set (inner_members f v)"
  shows "\<not> secret_shaped k"
proof -
  consider "f = ''safekeys''" | "f = ''objects''" | "f = ''folder''"
    | "f \<noteq> ''safekeys''" "f \<noteq> ''objects''" "f \<noteq> ''folder''" by blast
  then show ?thesis
  proof cases
    case 1
    then show ?thesis using assms by (auto simp: manifest_store_def inner_members_def dec_string_def split: json.splits)
  next
    case 2
    then obtain vs where v: "v = JArr vs" using assms by (auto simp: inner_members_def split: json.splits)
    then obtain ms where ms: "JObj ms \<in> set vs" "(k, w) \<in> set ms"
      using assms(2) 2 by (auto simp: inner_members_def split: json.splits)
    have "\<exists>y. dec_struct True object_fields object_store (JObj ms) zero_object = Some y"
      using assms(1) 2 v ms(1) all_some_Some [of "map (\<lambda>w. dec_struct True object_fields object_store w zero_object) vs"]
      by (fastforce simp: manifest_store_def dec_slice_def split: option.splits)
    then show ?thesis using dec_struct_no_secret ms(2) by fastforce
  next
    case 3
    then obtain ms where v: "v = JObj ms" "(k, w) \<in> set ms"
      using assms(2) by (auto simp: inner_members_def split: json.splits)
    then show ?thesis using assms(1) 3 dec_struct_no_secret [of folder_fields folder_store ms]
      by (fastforce simp: manifest_store_def dec_pointer_def)
  next
    case 4
    then obtain ms where v: "v = JObj ms" "(k, w) \<in> set ms"
      using assms(2) by (auto simp: inner_members_def split: json.splits)
    then show ?thesis using assms(1) 4 dec_struct_no_secret [of authority_fields authority_store ms]
      by (fastforce simp: manifest_store_def dec_pointer_def)
  qed
qed

lemma DecodeManifest_Inr:
  assumes "DecodeManifest data = Inr m"
  obtains v where "probe data = Inr ()" "Decode data = Some v" "manifest_of_json v = Some m" "Validate m = Inr ()"
  using assms by (auto simp: DecodeManifest_def split: sum.splits option.splits bind_splits)

lemma Validate_Inr:
  "Validate m = Inr () \<longleftrightarrow> m_Safekeys m = ''1'' \<and> m_Objects m \<noteq> [] \<and>
     (\<forall>ob \<in> set (m_Objects m). o_ID ob \<noteq> [] \<and> o_WrappedKey ob \<noteq> [] \<and> ObjectPathPattern (o_Path ob) \<and>
        (o_Alg ob = AlgAES256GCM \<or> o_Alg ob = AlgChaCha20Poly1305))"
  by (simp add: Validate_def Version_def list_ex_iff AlgAES256GCM_def AlgChaCha20Poly1305_def) (metis list.distinct(1))

section \<open>Properties of folders\<close>

text \<open>
  A path the pattern admits names a file directly in the folder's directory of objects:
  joined to the folder it is the folder's own elements, then \<open>objects\<close>, then one name that ends
  in \<open>.enc\<close>, contains no separator and is neither a dot nor two dots.
\<close>

theorem object_path_stays_in_folder:
  assumes "ObjectPathPattern p" and "dir \<noteq> []"
  shows "\<exists>name. Join [dir, p] = Clean (dir @ ''/'' @ p) \<and>
      elems_of (dir @ ''/'' @ p) = elems_of dir @ [''objects'', name] \<and>
      CHR ''/'' \<notin> set name \<and> name \<noteq> ''.'' \<and> name \<noteq> ''..'' \<and> HasSuffix name ''.enc''"
proof -
  obtain name where n: "p = ''objects/'' @ name" "split_on (CHR ''/'') p = [''objects'', name]"
    "CHR ''/'' \<notin> set name" "name \<notin> {[], ''.'', ''..''}" "HasSuffix name ''.enc''"
    using assms(1) by (rule ObjectPathPattern_elems)
  have "elems_of (dir @ CHR ''/'' # p) = elems_of dir @ [''objects'', name]"
    using elems_of_append [OF assms(2), of p] n(2,4) by simp
  moreover have "Join [dir, p] = Clean (dir @ ''/'' @ p)"
    using assms(2) n(1) by (simp add: Join_def)
  ultimately show ?thesis using n(3-5) by auto
qed

lemma object_path_stays_in_folder_witness:
  "ObjectPathPattern ''objects/a..b.enc'' \<and> Join [''/srv/x'', ''objects/a..b.enc''] = ''/srv/x/objects/a..b.enc'' \<and>
   (\<exists>name. elems_of ''/srv/x/objects/a..b.enc'' = [''srv'', ''x'', ''objects'', name])"
proof -
  have p: "ObjectPathPattern ''objects/a..b.enc''" and "elems_of ''/srv/x'' = [''srv'', ''x'']"
    "Clean (''/srv/x'' @ ''/'' @ ''objects/a..b.enc'') = ''/srv/x/objects/a..b.enc''"
    by code_simp+
  then show ?thesis using object_path_stays_in_folder [OF p, of "''/srv/x''"] by auto
qed

text \<open>
  A manifest that decodes has the version of this build and at least one object, and each
  of its objects has an id, a wrapped key, one of the two ciphers and a path inside the folder.
  In none of its structs, whether at the top level, among the objects, in the folder or the
  authority, is there a member with a secret-shaped name.
\<close>

theorem decoded_manifest_is_clean:
  assumes "DecodeManifest data = Inr m" and "Decode data = Some (JObj ms)"
  shows "m_Safekeys m = ''1'' \<and> m_Objects m \<noteq> [] \<and>
    (\<forall>ob \<in> set (m_Objects m). o_ID ob \<noteq> [] \<and> o_WrappedKey ob \<noteq> [] \<and> ObjectPathPattern (o_Path ob) \<and>
        (o_Alg ob = AlgAES256GCM \<or> o_Alg ob = AlgChaCha20Poly1305)) \<and>
    (\<forall>(k, v) \<in> set ms. \<not> secret_shaped k \<and>
       (\<exists>f. match_field manifest_fields k = Some f \<and> (\<forall>(k', v') \<in> set (inner_members f v). \<not> secret_shaped k')))"
proof -
  have m: "manifest_of_json (JObj ms) = Some m" "Validate m = Inr ()"
    using assms by (auto elim!: DecodeManifest_Inr)
  then have d: "dec_members True manifest_fields manifest_store ms zero_manifest = Some m"
    by (simp add: manifest_of_json_def dec_struct_def)
  have "\<not> secret_shaped k \<and>
      (\<exists>f. match_field manifest_fields k = Some f \<and> (\<forall>(k', v') \<in> set (inner_members f v). \<not> secret_shaped k'))"
    if kv: "(k, v) \<in> set ms" for k v
  proof -
    obtain f r1 r2 where f: "match_field manifest_fields k = Some f" "manifest_store f v r1 = Some r2"
      using dec_members_strict [OF d] kv by fastforce
    then show ?thesis using fields_not_secret [of manifest_fields k f] manifest_store_no_secret [OF f(2)] by fastforce
  qed
  then show ?thesis using m(2) Validate_Inr [of m] by blast
qed


definition sample_manifest :: Manifest where
  "sample_manifest = zero_manifest\<lparr>m_Safekeys := ''1'',
     m_Objects := [zero_object\<lparr>o_ID := ''obj_1'', o_Path := ''objects/obj_1.enc'', o_Alg := ''AES-256-GCM'',
       o_WrappedKey := ''local:k:AAAA'', o_WrappingKID := ''k'', o_Size := 42\<rparr>],
     m_Authority := Some \<lparr>au_Issuer = ''https://cp'', au_Scope = []\<rparr>\<rparr>"

lemma decoded_manifest_is_clean_witness:
  "DecodeManifest (Marshal (manifest_json sample_manifest)) = Inr sample_manifest \<and>
   m_Safekeys sample_manifest = ''1''"
proof -
  have d: "DecodeManifest (Marshal (manifest_json sample_manifest)) = Inr sample_manifest" by code_simp
  have "case Decode (Marshal (manifest_json sample_manifest)) of Some (JObj ms) \<Rightarrow> True | _ \<Rightarrow> False" by code_simp
  then have "\<exists>ms. Decode (Marshal (manifest_json sample_manifest)) = Some (JObj ms)"
    by (auto split: option.splits json.splits)
  then show ?thesis using d decoded_manifest_is_clean [OF d] by blast
qed


lemma scan_decoded_False: "\<not> scan_decoded v"
  by (induction v rule: scan_decoded.induct) (auto simp: list_ex_iff)

text \<open>
  The scan for secret-shaped keys sees the members of the top level only: a decoded inner
  value is never of the type the scan has a case for, so it lets every document pass whose own
  members are harmless, whatever they contain.
\<close>

theorem scan_is_shallow:
  "scanForSecretKeys (Raw_map ms) = (if list_ex (\<lambda>(k, v). secret_shaped k) ms
     then Inl (Denial ''malformed'') else Inr ()) \<and>
   scanForSecretKeys (Raw_map [(''folder'', JObj [(''password'', JStr ''hunter2'')])]) = Inr ()"
proof
  have s: "list_ex (\<lambda>(k, raw). secret_shaped k \<or> scan_decoded raw) ms = list_ex (\<lambda>(k, v). secret_shaped k) ms" for ms
    by (simp add: scan_decoded_False)
  show "scanForSecretKeys (Raw_map ms) = (if list_ex (\<lambda>(k, v). secret_shaped k) ms
     then Inl (Denial ''malformed'') else Inr ())"
    by (simp only: scanForSecretKeys_def scanned.case s NewDenial_def ReasonMalformed_def)
  show "scanForSecretKeys (Raw_map [(''folder'', JObj [(''password'', JStr ''hunter2'')])]) = Inr ()"
    by code_simp
qed

section \<open>Writing and reading back\<close>

definition object_utf8 :: "ManifestObject \<Rightarrow> bool" where
  "object_utf8 ob \<longleftrightarrow> list_all utf8_Valid ([o_ID ob, o_Path ob, o_Alg ob, o_WrappedKey ob, o_WrappingKID ob,
     o_ContentType ob, o_Hash ob] @ o_TokenReferences ob) \<and> - (2 ^ 63) \<le> o_Size ob \<and> o_Size ob < 2 ^ 63"

definition manifest_utf8 :: "Manifest \<Rightarrow> bool" where
  "manifest_utf8 m \<longleftrightarrow> utf8_Valid (m_Safekeys m) \<and> list_all object_utf8 (m_Objects m) \<and>
     (case m_Folder m of None \<Rightarrow> True | Some fo \<Rightarrow> list_all utf8_Valid [fo_ID fo, fo_Description fo, fo_Created fo]) \<and>
     (case m_Authority m of None \<Rightarrow> True | Some au \<Rightarrow> list_all utf8_Valid [au_Issuer au, au_Scope au])"

text \<open>An omitted member leaves the zero value of its field.\<close>

lemma dec_members_omit_str:
  assumes "match_field names k = Some k" "store k (JStr s) r = Some r'" "s = [] \<Longrightarrow> r' = r"
  shows "dec_members strict names store (omit_str k s @ ms) r = dec_members strict names store ms r'"
  using assms by (auto simp: omit_str_def)

lemma dec_members_omit_num:
  assumes "match_field names k = Some k" "store k (num_json i) r = Some r'" "i = 0 \<Longrightarrow> r' = r"
  shows "dec_members strict names store (omit_num k i @ ms) r = dec_members strict names store ms r'"
  using assms by (auto simp: omit_num_def)

lemma dec_members_omit_strs:
  assumes "match_field names k = Some k" "store k (str_array xs) r = Some r'" "xs = [] \<Longrightarrow> r' = r"
  shows "dec_members strict names store (omit_strs k xs @ ms) r = dec_members strict names store ms r'"
  using assms by (auto simp: omit_strs_def)

lemma object_of_object_json:
  assumes "object_utf8 ob"
  shows "dec_struct True object_fields object_store (object_json ob) zero_object = Some ob"
proof -
  have n: "dec_int64 (num_json (o_Size ob)) 0 = Some (o_Size ob)"
    using assms by (simp add: dec_int64_def num_json_def object_utf8_def ParseInt_itoa)
  let ?z = "zero_object"
  define r1 where "r1 = ?z\<lparr>o_ID := o_ID ob, o_Path := o_Path ob, o_Alg := o_Alg ob, o_WrappedKey := o_WrappedKey ob\<rparr>"
  define r2 where "r2 = r1\<lparr>o_WrappingKID := o_WrappingKID ob\<rparr>"
  define r3 where "r3 = r2\<lparr>o_ContentType := o_ContentType ob\<rparr>"
  define r4 where "r4 = r3\<lparr>o_Hash := o_Hash ob\<rparr>"
  define r5 where "r5 = r4\<lparr>o_Size := o_Size ob\<rparr>"
  let ?d = "dec_members True object_fields object_store"
  note rs = r1_def r2_def r3_def r4_def r5_def zero_object_def
  have f: "\<And>k. k \<in> set object_fields \<Longrightarrow> match_field object_fields k = Some k" by simp
  have "?d (omit_strs ''token_references'' (o_TokenReferences ob) @ []) r5 = ?d [] ob"
    by (rule dec_members_omit_strs) (auto simp: object_store_def object_fields_def str_array_def rs)
  moreover have "?d (omit_num ''size'' (o_Size ob) @ ms) r4 = ?d ms r5" for ms
    using n by (intro dec_members_omit_num) (auto simp: object_store_def object_fields_def rs)
  moreover have "?d (omit_str ''hash'' (o_Hash ob) @ ms) r3 = ?d ms r4" for ms
    by (rule dec_members_omit_str) (auto simp: object_store_def object_fields_def rs)
  moreover have "?d (omit_str ''content_type'' (o_ContentType ob) @ ms) r2 = ?d ms r3" for ms
    by (rule dec_members_omit_str) (auto simp: object_store_def object_fields_def rs)
  moreover have "?d (omit_str ''wrapping_kid'' (o_WrappingKID ob) @ ms) r1 = ?d ms r2" for ms
    by (rule dec_members_omit_str) (auto simp: object_store_def object_fields_def rs)
  moreover have "?d ([(''id'', JStr (o_ID ob)), (''path'', JStr (o_Path ob)), (''alg'', JStr (o_Alg ob)),
            (''wrapped_key'', JStr (o_WrappedKey ob))] @ ms) ?z = ?d ms r1" for ms
    by (simp add: f object_store_def object_fields_def r1_def)
  ultimately show ?thesis by (simp add: dec_struct_def object_json_def)
qed

lemma all_some_map_Some: "\<forall>x \<in> set xs. f x = Some x \<Longrightarrow> all_some (map f xs) = Some xs"
  by (induction xs) auto

lemma manifest_of_manifest_json:
  assumes "manifest_utf8 m" shows "manifest_of_json (manifest_json m) = Some m"
proof -
  let ?d = "dec_members True manifest_fields manifest_store"
  have objs: "all_some (map (\<lambda>w. dec_struct True object_fields object_store (object_json w) zero_object) (m_Objects m))
      = Some (m_Objects m)"
    using assms object_of_object_json
    by (intro all_some_map_Some) (auto simp: manifest_utf8_def list_all_iff)
  define r1 where "r1 = zero_manifest\<lparr>m_Safekeys := m_Safekeys m, m_Objects := m_Objects m\<rparr>"
  define r2 where "r2 = r1\<lparr>m_Folder := m_Folder m\<rparr>"
  have a: "?d ([(''safekeys'', JStr (m_Safekeys m)), (''objects'', JArr (map object_json (m_Objects m)))] @ ms)
      zero_manifest = ?d ms r1" for ms
    using objs by (simp add: manifest_fields_def manifest_store_def dec_slice_def r1_def o_def)
  have fo: "dec_struct True folder_fields folder_store
      (JObj (omit_str ''id'' (fo_ID fo) @ omit_str ''description'' (fo_Description fo) @ omit_str ''created'' (fo_Created fo)))
      \<lparr>fo_ID = [], fo_Description = [], fo_Created = []\<rparr> = Some fo" for fo
    by (simp add: dec_struct_def omit_str_def folder_fields_def folder_store_def)
  have au: "dec_struct True authority_fields authority_store
      (JObj (omit_str ''issuer'' (au_Issuer au) @ omit_str ''scope'' (au_Scope au)))
      \<lparr>au_Issuer = [], au_Scope = []\<rparr> = Some au" for au
    by (simp add: dec_struct_def omit_str_def authority_fields_def authority_store_def)
  have b: "?d ((case m_Folder m of None \<Rightarrow> []
          | Some fo \<Rightarrow> [(''folder'', JObj (omit_str ''id'' (fo_ID fo)
                 @ omit_str ''description'' (fo_Description fo) @ omit_str ''created'' (fo_Created fo)))]) @ ms) r1
      = ?d ms r2" for ms
    using fo by (cases "m_Folder m")
      (simp_all add: r1_def r2_def zero_manifest_def manifest_fields_def manifest_store_def dec_pointer_def)
  have c: "?d (case m_Authority m of None \<Rightarrow> []
          | Some au \<Rightarrow> [(''authority'', JObj (omit_str ''issuer'' (au_Issuer au) @ omit_str ''scope'' (au_Scope au)))]) r2
      = Some m"
    using au by (cases "m_Authority m")
      (simp_all add: r1_def r2_def zero_manifest_def manifest_fields_def manifest_store_def dec_pointer_def)
  show ?thesis using a b c by (simp add: manifest_of_json_def dec_struct_def manifest_json_def)
qed


lemma json_ok_object: "object_utf8 ob \<Longrightarrow> json_ok (Suc (Suc d)) (object_json ob)"
  unfolding object_json_def object_utf8_def omit_str_def omit_num_def omit_strs_def
  by (simp add: utf8_literal list_all_iff)

lemma json_ok_manifest:
  assumes "manifest_utf8 m" shows "json_ok maxNestingDepth (manifest_json m)"
proof -
  have "json_ok (Suc (Suc (Suc (Suc 0)))) (manifest_json m)"
    using assms unfolding manifest_json_def manifest_utf8_def omit_str_def
    by (cases "m_Folder m"; cases "m_Authority m")
      (simp_all add: utf8_literal list_all_iff json_ok_object)
  then show ?thesis by (rule json_ok_max) simp
qed

lemma Decode_manifest_indent:
  assumes "manifest_utf8 m" shows "Decode (marshal_indent 0 (manifest_json m)) = Some (manifest_json m)"
    and "Unmarshal (marshal_indent 0 (manifest_json m)) = Some (manifest_json m)"
  using Decode_renders [OF renders_marshal_indent [OF json_ok_manifest [OF assms]], of "[]" 0]
    Unmarshal_renders [OF renders_marshal_indent [OF json_ok_manifest [OF assms]], of 0]
  by (simp_all add: num_end_def)

lemma probe_manifest: "manifest_utf8 m \<Longrightarrow> probe (marshal_indent 0 (manifest_json m)) = Inr ()"
proof -
  assume u: "manifest_utf8 m"
  obtain ms where ms: "manifest_json m = JObj ms" by (simp add: manifest_json_def)
  have "\<not> list_ex (\<lambda>(k, v). secret_shaped k) ms"
    using dec_struct_no_secret [of manifest_fields manifest_store ms zero_manifest m]
      manifest_of_manifest_json [OF u] ms
    by (auto simp: manifest_of_json_def list_ex_iff)
  then show ?thesis
    using Decode_manifest_indent(2) [OF u] ms
    by (auto simp: probe_def scanForSecretKeys_def scan_decoded_False)
qed

lemma DecodeManifest_indent:
  assumes "manifest_utf8 m" and "Validate m = Inr ()"
  shows "DecodeManifest (marshal_indent 0 (manifest_json m)) = Inr m"
  using assms probe_manifest Decode_manifest_indent(1) manifest_of_manifest_json
  by (simp add: DecodeManifest_def)

lemma write_objects_paths:
  "write_objects fs C dir pts obs w = (Inr (), obs', w') \<Longrightarrow>
     map o_ID obs' = map o_ID obs \<and> map o_Path obs' = map o_Path obs \<and> map o_Alg obs' = map o_Alg obs \<and>
     map o_WrappedKey obs' = map o_WrappedKey obs"
proof (induction obs arbitrary: w obs')
  case (Cons ob obs)
  then obtain pt w1 obs'' where "map_of pts (o_ID ob) = Some pt"
    "write_objects fs C dir pts obs w1 = (Inr (), obs'', w')"
    "obs' = ob\<lparr>o_Size := int (length pt), o_Hash := (if o_Hash ob = [] then HashObject C pt else o_Hash ob)\<rparr> # obs''"
    by (auto simp: Let_def split: option.splits prod.splits sum.splits)
  then show ?case using Cons.IH by auto
qed simp

lemma Validate_cong:
  assumes "Validate m = Inr ()" "m_Safekeys m' = m_Safekeys m"
    "map o_ID (m_Objects m') = map o_ID (m_Objects m)" "map o_Path (m_Objects m') = map o_Path (m_Objects m)"
    "map o_Alg (m_Objects m') = map o_Alg (m_Objects m)"
    "map o_WrappedKey (m_Objects m') = map o_WrappedKey (m_Objects m)"
  shows "Validate m' = Inr ()"
proof -
  have len: "length (m_Objects m') = length (m_Objects m)" using assms(3) by (metis length_map)
  have i: "o_ID (m_Objects m' ! i) = o_ID (m_Objects m ! i)" "o_Path (m_Objects m' ! i) = o_Path (m_Objects m ! i)"
    "o_Alg (m_Objects m' ! i) = o_Alg (m_Objects m ! i)"
    "o_WrappedKey (m_Objects m' ! i) = o_WrappedKey (m_Objects m ! i)"
    if "i < length (m_Objects m')" for i
    using that len assms(3-6) by (metis nth_map)+
  show ?thesis
    using assms(1,2) len i unfolding Validate_Inr
    by (auto simp: in_set_conv_nth) (metis nth_mem length_0_conv)+
qed

lemma WriteFolder_Inr:
  assumes "WriteFolder fs C now dir m pts desc w = (Inr (), m', w')"
  shows "Validate m' = Inr () \<and>
    (\<exists>w1 w2. WriteFile fs (Join [dir, ManifestName]) (marshal_indent 0 (manifest_json m')) 384 w1 = (Inr (), w2) \<and>
       WriteFile fs (Join [dir, ReadmeName]) FolderReadme 384 w2 = (Inr (), w'))"
proof -
  have v: "Validate m = Inr ()" using assms by (auto simp: WriteFolder_def split: sum.splits)
  obtain w0 where mk: "MkdirAll fs (Join [dir, ObjectDir]) 448 w = (Inr (), w0)"
    using assms v by (auto simp: WriteFolder_def split: sum.splits prod.splits)
  obtain obs w1 where wo: "write_objects fs C dir pts (m_Objects m) w0 = (Inr (), obs, w1)"
    using assms v mk by (auto simp: WriteFolder_def split: sum.splits prod.splits)
  define m1 where "m1 = m\<lparr>m_Objects := obs, m_Folder := Some (folder_info (now w1) desc (m_Folder m))\<rparr>"
  obtain w2 where wm: "m' = m1"
    "WriteFile fs (Join [dir, ManifestName]) (marshal_indent 0 (manifest_json m1)) 384 w1 = (Inr (), w2)"
    "WriteFile fs (Join [dir, ReadmeName]) FolderReadme 384 w2 = (Inr (), w')"
    using assms v mk wo
    by (auto simp: WriteFolder_def Let_def m1_def split: sum.splits prod.splits)
  note m' = wm(1) [unfolded m1_def]
  have "Validate m' = Inr ()"
    using write_objects_paths [OF wo] by (intro Validate_cong [OF v]) (simp_all add: m')
  then show ?thesis using wm by blast
qed


text \<open>
  What \<open>WriteFolder\<close> writes, \<open>ReadManifest\<close> reads back: when writing succeeds, the manifest in
  the folder decodes, strictly and past the scan for secret-shaped keys, to exactly the manifest
  with the sizes and hashes filled in, and the readme is the fixed, secret-free text.
\<close>

theorem written_folder_reads_back:
  assumes "WriteFolder fs C now dir m plaintexts desc w = (Inr (), m', w')"
    and "fs_laws fs" and "dir \<noteq> []" and "manifest_utf8 m'"
  shows "ReadManifest fs dir w' = Inr m' \<and> ReadFile fs (Join [dir, ReadmeName]) w' = Inr FolderReadme"
proof -
  obtain w1 w2 where v: "Validate m' = Inr ()"
    and wm: "WriteFile fs (Join [dir, ManifestName]) (marshal_indent 0 (manifest_json m')) 384 w1 = (Inr (), w2)"
    and wr: "WriteFile fs (Join [dir, ReadmeName]) FolderReadme 384 w2 = (Inr (), w')"
    using WriteFolder_Inr [OF assms(1)] by blast
  obtain a b where "Join [dir, ManifestName] = a @ ManifestName" "Join [dir, ReadmeName] = b @ ReadmeName"
    using Join_suffix [OF assms(3), of ManifestName] Join_suffix [OF assms(3), of ReadmeName]
    by (auto simp: ManifestName_def ReadmeName_def)
  then have "last (Join [dir, ManifestName]) \<noteq> last (Join [dir, ReadmeName])"
    by (simp add: ManifestName_def ReadmeName_def)
  then have "Join [dir, ManifestName] \<noteq> Join [dir, ReadmeName]" by auto
  then have "ReadFile fs (Join [dir, ManifestName]) w' = Inr (marshal_indent 0 (manifest_json m'))"
    using wm wr assms(2) by (simp add: fs_laws_def)
  then show ?thesis
    using DecodeManifest_indent [OF assms(4) v] wr assms(2) by (simp add: ReadManifest_def fs_laws_def)
qed

lemma written_folder_reads_back_witness:
  "\<exists>m' w'. WriteFolder sample_fs sample_ciphers (\<lambda>_. ''2026-01-01T00:00:00Z'') ''/srv/x'' sample_manifest
      [(''obj_1'', ''cipher'')] [] [] = (Inr (), m', w') \<and> ReadManifest sample_fs ''/srv/x'' w' = Inr m'"
proof -
  let ?r = "WriteFolder sample_fs sample_ciphers (\<lambda>_. ''2026-01-01T00:00:00Z'') ''/srv/x'' sample_manifest
      [(''obj_1'', ''cipher'')] [] []"
  have "fst ?r = Inr () \<and> manifest_utf8 (fst (snd ?r))" by code_simp
  then obtain m' w' where r: "?r = (Inr (), m', w')" "manifest_utf8 m'" by (cases ?r) auto
  then show ?thesis using written_folder_reads_back [OF r(1) sample_fs_laws _ r(2)] by auto
qed

end
