(* ===== verification/Folder_Source.thy ===== *)
theory Folder_Source
  imports Protocol_Folder
begin

text \<open>
  pkg/folder: the source of the resolver over local folders. A root holds one folder per
  object, or is itself a folder.
\<close>

section \<open>Operations\<close>

definition isDir :: "'w files \<Rightarrow> string \<Rightarrow> 'w \<Rightarrow> bool" where
  "isDir fs p w = (case Stat fs p w of Inr fi \<Rightarrow> fi_IsDir fi | Inl _ \<Rightarrow> False)"

text \<open>A folder that holds the object: its manifest reads and has an entry for it.\<close>

definition holds :: "'w files \<Rightarrow> string \<Rightarrow> string \<Rightarrow> 'w \<Rightarrow> Manifest option" where
  "holds fs dir sid w =
     (case ReadManifest fs dir w of
        Inl _ \<Rightarrow> None
      | Inr m \<Rightarrow> if Object m sid \<noteq> None then Some m else None)"

definition find :: "'w files \<Rightarrow> string \<Rightarrow> string \<Rightarrow> 'w \<Rightarrow> (string \<times> Manifest) result" where
  "find fs root sid w =
     (let perObj = Join [root, sid] in
      case (if isDir fs perObj w then holds fs perObj sid w else None) of
        Some m \<Rightarrow> Inr (perObj, m)
      | None \<Rightarrow>
          (case holds fs root sid w of
             Some m \<Rightarrow> Inr (root, m)
           | None \<Rightarrow> Inl (NewDenial ReasonMalformed)))"

definition Load :: "'w files \<Rightarrow> string \<Rightarrow> string \<Rightarrow> 'w \<Rightarrow> (ManifestObject \<times> bytes) result" where
  "Load fs root sid w =
     (case find fs root sid w of
        Inl e \<Rightarrow> Inl e
      | Inr (dir, m) \<Rightarrow>
          (case Object m sid of
             None \<Rightarrow> Inl (NewDenial ReasonMalformed)
           | Some ob \<Rightarrow>
               if \<not> ObjectPathPattern (o_Path ob) then Inl (NewDenial ReasonMalformed)
               else
                 (case ReadFile fs (Join [dir, o_Path ob]) w of
                    Inl _ \<Rightarrow> Inl (NewDenial ReasonMalformed)
                  | Inr ct \<Rightarrow> Inr (ob, ct))))"

section \<open>Lemmas\<close>

lemma Object_Some: "Object m sid = Some ob \<Longrightarrow> ob \<in> set (m_Objects m) \<and> o_ID ob = sid"
  by (auto simp: Object_def find_Some_iff)

lemma holds_Some: "holds fs dir sid w = Some m \<Longrightarrow> ReadManifest fs dir w = Inr m \<and> Object m sid \<noteq> None"
  by (auto simp: holds_def split: sum.splits if_splits)

lemma ReadManifest_Validate: "ReadManifest fs dir w = Inr m \<Longrightarrow> Validate m = Inr ()"
  by (auto simp: ReadManifest_def split: sum.splits elim!: DecodeManifest_Inr)

lemma find_Inr:
  "find fs root sid w = Inr (dir, m) \<Longrightarrow>
     dir \<in> {Join [root, sid], root} \<and> ReadManifest fs dir w = Inr m \<and> Object m sid \<noteq> None"
  by (auto simp: find_def Let_def split: option.splits if_splits dest!: holds_Some)

section \<open>Properties\<close>

text \<open>
  What \<open>Load\<close> hands to the resolver is the object that was asked for: it comes from a
  manifest that passed validation, its id is the requested one, its cipher is one of the two,
  and the ciphertext was read from the folder's own directory of objects. Every failure is
  the same denial.
\<close>

theorem Load_is_validated:
  "case Load fs root sid w of
     Inl e \<Rightarrow> e = Denial ''malformed''
   | Inr (ob, ct) \<Rightarrow> \<exists>dir m. dir \<in> {Join [root, sid], root} \<and> ReadManifest fs dir w = Inr m \<and>
       ob \<in> set (m_Objects m) \<and> o_ID ob = sid \<and> o_WrappedKey ob \<noteq> [] \<and> ObjectPathPattern (o_Path ob) \<and>
       (o_Alg ob = AlgAES256GCM \<or> o_Alg ob = AlgChaCha20Poly1305) \<and>
       ReadFile fs (Join [dir, o_Path ob]) w = Inr ct"
proof (cases "find fs root sid w")
  case (Inl e)
  then show ?thesis
    by (auto simp: Load_def find_def Let_def NewDenial_def ReasonMalformed_def split: option.splits if_splits)
next
  case (Inr r)
  then obtain dir m where f: "find fs root sid w = Inr (dir, m)" by (cases r) auto
  note F = find_Inr [OF f]
  then obtain ob where ob: "Object m sid = Some ob" by auto
  note O = Object_Some [OF ob]
  have v: "o_WrappedKey ob \<noteq> []" "ObjectPathPattern (o_Path ob)"
    "o_Alg ob = AlgAES256GCM \<or> o_Alg ob = AlgChaCha20Poly1305"
    using ReadManifest_Validate [of fs dir w m] F O Validate_Inr [of m] by blast+
  show ?thesis
  proof (cases "ReadFile fs (Join [dir, o_Path ob]) w")
    case (Inl e)
    then show ?thesis using f ob v by (simp add: Load_def NewDenial_def ReasonMalformed_def)
  next
    case (Inr ct)
    then have "Load fs root sid w = Inr (ob, ct)" using f ob v by (simp add: Load_def)
    then show ?thesis using F O v Inr by auto
  qed
qed

text \<open>
  The object id is not confined: an id that begins with two dots names a folder outside the
  root, and its manifest is read when it lists that id. The path pattern guards the objects
  of a folder, nothing guards the choice of the folder.
\<close>

theorem sid_can_leave_root:
  "Join [''/srv/folders'', ''../other''] = ''/srv/other'' \<and>
   (\<exists>ob ct. Load sample_fs ''/srv/folders'' ''../other''
      [(''/srv/other/manifest.json'', Marshal (manifest_json
          (sample_manifest\<lparr>m_Objects := map (\<lambda>ob. ob\<lparr>o_ID := ''../other''\<rparr>) (m_Objects sample_manifest)\<rparr>))),
       (''/srv/other/objects/obj_1.enc'', ''cipher'')] = Inr (ob, ct) \<and> ct = ''cipher'')"
proof
  let ?w = "[(''/srv/other/manifest.json'', Marshal (manifest_json
          (sample_manifest\<lparr>m_Objects := map (\<lambda>ob. ob\<lparr>o_ID := ''../other''\<rparr>) (m_Objects sample_manifest)\<rparr>))),
       (''/srv/other/objects/obj_1.enc'', ''cipher'')]"
  show "Join [''/srv/folders'', ''../other''] = ''/srv/other''" by code_simp
  have "case Load sample_fs ''/srv/folders'' ''../other'' ?w of Inl e \<Rightarrow> False | Inr (ob, ct) \<Rightarrow> ct = ''cipher''"
    by code_simp
  then show "\<exists>ob ct. Load sample_fs ''/srv/folders'' ''../other'' ?w = Inr (ob, ct) \<and> ct = ''cipher''"
    by (auto split: sum.splits)
qed

end
