(* ===== verification/Runes.thy ===== *)
theory Runes
  imports Encoding
begin

text \<open>
  Strings as sequences of runes: what \<open>range\<close> over a Go string delivers, and the functions of
  the package \<open>strings\<close> that work on runes (\<open>TrimSpace\<close>, \<open>EqualFold\<close> against an ASCII word).
\<close>

text \<open>Each rune with the bytes it was read from; a byte that is not UTF-8 is U+FFFD.\<close>

function runes :: "string \<Rightarrow> (nat \<times> string) list" where
  "runes s =
     (case s of
        [] \<Rightarrow> []
      | c # r \<Rightarrow>
          (case decode_rune s of
             None \<Rightarrow> (65533, [c]) # runes r
           | Some (u, n) \<Rightarrow> (u, take n s) # runes (drop n s)))"
  by pat_completeness auto
termination
  by (relation "measure length") (auto simp del: decode_rune.simps dest!: decode_rune_size)

declare runes.simps [simp del]

text \<open>\<open>unicode.IsSpace\<close>.\<close>

definition IsSpace :: "nat \<Rightarrow> bool" where
  "IsSpace u \<longleftrightarrow> 9 \<le> u \<and> u \<le> 13 \<or>
     u \<in> {32, 133, 160, 5760, 8232, 8233, 8239, 8287, 12288} \<or> 8192 \<le> u \<and> u \<le> 8202"

definition TrimSpace :: "string \<Rightarrow> string" where
  "TrimSpace s =
     concat (map snd (rev (dropWhile (\<lambda>(u, _). IsSpace u) (rev (dropWhile (\<lambda>(u, _). IsSpace u) (runes s))))))"

text \<open>
  \<open>EqualFold (s, word)\<close> for an ASCII word: rune by rune up to simple case folding, under which
  only U+017F and U+212A fold to an ASCII letter.
\<close>

definition fold_rune :: "nat \<Rightarrow> nat" where
  "fold_rune u = (if 65 \<le> u \<and> u \<le> 90 then u + 32 else if u = 383 then 115 else if u = 8490 then 107 else u)"

definition EqualFold :: "string \<Rightarrow> string \<Rightarrow> bool" where
  "EqualFold s t = (map (fold_rune \<circ> fst) (runes s) = map (fold_rune \<circ> fst) (runes t))"

lemma concat_runes: "concat (map snd (runes s)) = s"
proof (induction s rule: runes.induct)
  case (1 s)
  show ?case
  proof (cases s)
    case (Cons c r)
    then show ?thesis using 1 by (subst runes.simps) (auto simp del: decode_rune.simps split: option.splits)
  qed (simp add: runes.simps)
qed

lemma runes_ascii: "\<forall>c \<in> set s. byte c < 128 \<Longrightarrow> runes s = map (\<lambda>c. (byte c, [c])) s"
  by (induction s) (auto simp: runes.simps [of "_ # _"] runes.simps [of "[]"])

lemma runes_nonempty: "s \<noteq> [] \<Longrightarrow> runes s \<noteq> []"
  by (subst runes.simps) (auto simp del: decode_rune.simps split: list.splits option.splits)

end
