(* ===== verification/Key_Store.thy ===== *)
theory Key_Store
  imports Protocol_Envelope Services File_System Runes
begin

text \<open>
  pkg/keystore: the implementations of \<open>KeyWrapper\<close>, which wrap a data encryption key under a
  key-encryption key: \<open>Local\<close> with the key in a file, \<open>Keychain\<close> with the key in the macOS
  keychain, \<open>Vault\<close> with the key in a remote transit engine. The key-encryption key of the
  first two is a byte array in memory that \<open>Close\<close> overwrites.
\<close>

section \<open>The interface\<close>

text \<open>
  \<open>wrap\<close> and \<open>unwrap\<close> with the state they run in. The law holds under \<open>lawful\<close>, the documented
  behaviour of what the implementation calls: a wrapped key is unwrapped, in any later state,
  to the key it was made from.
\<close>

locale key_wrapper =
  fixes wrap :: "string \<Rightarrow> bytes \<Rightarrow> 'w \<Rightarrow> string result \<times> 'w"
    and unwrap :: "string \<Rightarrow> string \<Rightarrow> 'w \<Rightarrow> bytes result \<times> 'w"
    and lawful :: bool
  assumes unwrap_wrap: "lawful \<Longrightarrow> wrap kid dek w = (Inr wrapped, w') \<Longrightarrow> fst (unwrap kid wrapped w'') = Inr dek"
begin

text \<open>
  A client that seals an object: the object's key is wrapped, the object encrypted under it.
  Whoever unwraps the key and decrypts gets the object back.
\<close>

lemma seal_then_open:
  assumes "lawful" and "wrap kid dek w = (Inr wrapped, w1)"
    and "EncryptObject C rand alg dek plaintext v = (Inr ct, v1)"
    and "\<And>a k n p. a \<in> {aes_gcm C, chacha20poly1305 C} \<Longrightarrow> Open a k n (Seal a k n p) = Some p"
    and "\<And>n w b w'. rand n w = (Some b, w') \<Longrightarrow> length b = n"
  shows "\<exists>w2. unwrap kid wrapped w0 = (Inr dek, w2) \<and> DecryptObject C alg dek ct = Inr plaintext"
proof -
  have "fst (unwrap kid wrapped w0) = Inr dek" using unwrap_wrap [OF assms(1,2)] .
  moreover have "DecryptObject C alg dek ct = Inr plaintext"
    using assms(3) by (rule EncryptObject_inverse) (fact assms(4), fact assms(5))
  ultimately show ?thesis by (metis prod.collapse)
qed

text \<open>Two keys never share a wrapped form.\<close>

lemma wrap_inj:
  assumes "lawful" and "wrap kid a w = (Inr s, w1)" and "wrap kid b v = (Inr s, v1)"
  shows "a = b"
  using unwrap_wrap [OF assms(1,2), of undefined] unwrap_wrap [OF assms(1,3), of undefined] by simp

end

section \<open>Local\<close>

record Local =
  lo_path :: string
  lo_kek :: "addr option"

definition kek_bytes :: "addr option \<Rightarrow> memory \<Rightarrow> bytes" where
  "kek_bytes k m = (case k of None \<Rightarrow> [] | Some a \<Rightarrow> load a m)"

text \<open>\<open>filepath.Dir\<close>: what precedes the last element, cleaned.\<close>

definition Dir :: "string \<Rightarrow> string" where
  "Dir p = Clean (rev (dropWhile (\<lambda>c. c \<noteq> CHR ''/'') (rev p)))"

definition ErrInsecureKeystore :: go_error where
  "ErrInsecureKeystore = Err (''local key store is development-only and holds the KEK in plaintext; '' @
     ''set SAFEKEYS_ALLOW_INSECURE_KEYSTORE=1 to opt in (never in production)'')"

text \<open>
  \<open>NewLocal\<close>: the opt-in, the mode of an existing file (group or world bits are refused), the
  key from the file or a new one written to it, its size. \<open>perm mod 64\<close> is \<open>perm AND 0o077\<close>;
  \<open>IsNotExist\<close> classifies errors of the file system.
\<close>

definition load_or_create_kek ::
  "'w files \<Rightarrow> (go_error \<Rightarrow> bool) \<Rightarrow> 'w random \<Rightarrow> string \<Rightarrow> 'w \<Rightarrow> bytes result \<times> 'w"
where
  "load_or_create_kek fs IsNotExist rand path w =
     (case ReadFile fs path w of
        Inr kek \<Rightarrow> (Inr kek, w)
      | Inl err \<Rightarrow>
          if \<not> IsNotExist err then (Inl err, w)
          else
            (case RandomBytes rand KEKSize w of
               (Inl e, w) \<Rightarrow> (Inl e, w)
             | (Inr kek, w) \<Rightarrow>
                 (case MkdirAll fs (Dir path) 448 w of
                    (Inl e, w) \<Rightarrow> (Inl e, w)
                  | (Inr _, w) \<Rightarrow>
                      (case WriteFile fs path kek 384 w of
                         (Inl e, w) \<Rightarrow> (Inl e, w)
                       | (Inr _, w) \<Rightarrow> (Inr kek, w)))))"

definition NewLocal ::
  "'w files \<Rightarrow> (go_error \<Rightarrow> bool) \<Rightarrow> 'w random \<Rightarrow> (string \<Rightarrow> 'w \<Rightarrow> string) \<Rightarrow> string \<Rightarrow> memory \<Rightarrow> 'w
    \<Rightarrow> Local result \<times> memory \<times> 'w"
where
  "NewLocal fs IsNotExist rand Getenv path m w =
     (if Getenv ''SAFEKEYS_ALLOW_INSECURE_KEYSTORE'' w \<noteq> ''1'' then (Inl ErrInsecureKeystore, m, w)
      else if (case Stat fs path w of Inr st \<Rightarrow> fi_Perm st mod 64 \<noteq> 0 | Inl _ \<Rightarrow> False) then
        (Inl (Err ''local keystore: refusing a key file readable by group or others''), m, w)
      else
        (case load_or_create_kek fs IsNotExist rand path w of
           (Inl e, w) \<Rightarrow> (Inl e, m, w)
         | (Inr kek, w) \<Rightarrow>
             if length kek \<noteq> KEKSize then
               (Inl (Err (''local keystore: bad KEK size '' @ itoa (int (length kek)))), m, w)
             else (case alloc kek m of (a, m) \<Rightarrow> (Inr \<lparr>lo_path = path, lo_kek = Some a\<rparr>, m, w))))"

definition Local_Wrap ::
  "ciphers \<Rightarrow> 'w random \<Rightarrow> memory \<Rightarrow> Local \<Rightarrow> string \<Rightarrow> bytes \<Rightarrow> 'w \<Rightarrow> string result \<times> 'w"
where
  "Local_Wrap C rand m l kid dek w =
     (case EncryptObject C rand AlgAES256GCM (kek_bytes (lo_kek l) m) dek w of
        (Inl e, w) \<Rightarrow> (Inl e, w)
      | (Inr ct, w) \<Rightarrow> (Inr (''local:v1:'' @ EncodeToString RawURLEncoding ct), w))"

definition Local_Unwrap :: "ciphers \<Rightarrow> memory \<Rightarrow> Local \<Rightarrow> string \<Rightarrow> string \<Rightarrow> 'w \<Rightarrow> bytes result \<times> 'w" where
  "Local_Unwrap C m l kid wrapped w =
     (case DecodeString RawURLEncoding (TrimPrefix wrapped ''local:v1:'') of
        None \<Rightarrow> (Inl (NewDenial ReasonKeystoreUnreachable), w)
      | Some ct \<Rightarrow> (DecryptObject C AlgAES256GCM (kek_bytes (lo_kek l) m) ct, w))"

definition Local_Close :: "Local \<Rightarrow> memory \<Rightarrow> Local \<times> memory" where
  "Local_Close l m = (l\<lparr>lo_kek := None\<rparr>, case lo_kek l of None \<Rightarrow> m | Some a \<Rightarrow> Zero a m)"

section \<open>Keychain\<close>

record Keychain =
  kc_service :: string
  kc_account :: string
  kc_exePath :: string
  kc_kek :: "addr option"
  kc_loaded :: bool
  kc_created :: bool

text \<open>
  The command \<open>security\<close>: its exit status with what it printed, or an error of another kind
  (it could not be run, or was killed).
\<close>

datatype run_outcome = Exit nat string | Not_run string

type_synonym 'w security = "string list \<Rightarrow> 'w \<Rightarrow> run_outcome \<times> 'w"

definition kc_read :: "'w security \<Rightarrow> Keychain \<Rightarrow> 'w \<Rightarrow> bytes option result \<times> 'w" where
  "kc_read run k w =
     (case run [''find-generic-password'', ''-s'', kc_service k, ''-a'', kc_account k, ''-w''] w of
        (Not_run e, w) \<Rightarrow> (Inl (Err (''keychain: read: '' @ e)), w)
      | (Exit n text, w) \<Rightarrow>
          if n = 44 then (Inr None, w)
          else if n \<noteq> 0 then (Inl (Err ''keychain: read''), w)
          else
            let s = TrimSuffix text [CHR 0x0A] in
            (Inr (if s = [] then None else Some s), w))"

text \<open>\<open>create\<close> zeroises the key it generated when it returns; the key itself is in the command.\<close>

definition kc_create :: "'w security \<Rightarrow> 'w random \<Rightarrow> Keychain \<Rightarrow> 'w \<Rightarrow> unit result \<times> 'w" where
  "kc_create run rand k w =
     (case RandomBytes rand KEKSize w of
        (Inl e, w) \<Rightarrow> (Inl e, w)
      | (Inr key, w) \<Rightarrow>
          let args = [''add-generic-password'', ''-s'', kc_service k, ''-a'', kc_account k,
                      ''-w'', hex_EncodeToString key, ''-U'']
                     @ (if kc_exePath k \<noteq> [] then [''-T'', kc_exePath k] else []) in
          (case run args w of
             (Exit n _, w) \<Rightarrow> (if n = 0 then Inr () else Inl (Err ''keychain: create''), w)
           | (Not_run e, w) \<Rightarrow> (Inl (Err (''keychain: create: '' @ e)), w)))"

text \<open>After a first read without an item, the item is created and read again.\<close>

definition kc_secret :: "'w security \<Rightarrow> 'w random \<Rightarrow> Keychain \<Rightarrow> 'w \<Rightarrow> (bytes option \<times> bool) result \<times> 'w" where
  "kc_secret run rand k w =
     (case kc_read run k w of
        (Inl e, w) \<Rightarrow> (Inl e, w)
      | (Inr (Some s), w) \<Rightarrow> (Inr (Some s, False), w)
      | (Inr None, w) \<Rightarrow>
          (case kc_create run rand k w of
             (Inl e, w) \<Rightarrow> (Inl e, w)
           | (Inr _, w) \<Rightarrow>
               (case kc_read run k w of
                  (Inl e, w) \<Rightarrow> (Inl e, w)
                | (Inr s, w) \<Rightarrow> (Inr (s, True), w))))"

definition NewKeychain ::
  "'w security \<Rightarrow> 'w random \<Rightarrow> string \<Rightarrow> string option \<Rightarrow> string \<Rightarrow> memory \<Rightarrow> 'w \<Rightarrow> Keychain result \<times> memory \<times> 'w"
where
  "NewKeychain run rand service account exe m w =
     (let k = \<lparr>kc_service = (if service = [] then ''safekeys'' else service),
               kc_account = (case account of None \<Rightarrow> ''kek'' | Some a \<Rightarrow> a), kc_exePath = exe,
               kc_kek = None, kc_loaded = False, kc_created = False\<rparr> in
      case kc_secret run rand k w of
        (Inl e, w) \<Rightarrow> (Inl e, m, w)
      | (Inr (secret, created), w) \<Rightarrow>
          (case hex_DecodeString (TrimSpace (case secret of None \<Rightarrow> [] | Some s \<Rightarrow> s)) of
             None \<Rightarrow> (Inl (Err ''keychain: stored KEK is not valid hex''), m, w)
           | Some kek \<Rightarrow>
               if length kek \<noteq> KEKSize then (Inl (Err ''keychain: KEK size''), m, w)
               else
                 (case alloc kek m of
                    (a, m) \<Rightarrow> (Inr (k\<lparr>kc_kek := Some a, kc_loaded := True, kc_created := created\<rparr>), m, w))))"

definition Keychain_Wrap ::
  "ciphers \<Rightarrow> 'w random \<Rightarrow> memory \<Rightarrow> Keychain \<Rightarrow> string \<Rightarrow> bytes \<Rightarrow> 'w \<Rightarrow> string result \<times> 'w"
where
  "Keychain_Wrap C rand m k kid dek w =
     (case EncryptObject C rand AlgAES256GCM (kek_bytes (kc_kek k) m) dek w of
        (Inl e, w) \<Rightarrow> (Inl e, w)
      | (Inr ct, w) \<Rightarrow> (Inr (''keychain:v1:'' @ EncodeToString RawURLEncoding ct), w))"

definition Keychain_Unwrap :: "ciphers \<Rightarrow> memory \<Rightarrow> Keychain \<Rightarrow> string \<Rightarrow> string \<Rightarrow> 'w \<Rightarrow> bytes result \<times> 'w" where
  "Keychain_Unwrap C m k kid wrapped w =
     (case DecodeString RawURLEncoding (TrimPrefix wrapped ''keychain:v1:'') of
        None \<Rightarrow> (Inl (Err ''keychain: bad wrapped key''), w)
      | Some ct \<Rightarrow> (DecryptObject C AlgAES256GCM (kek_bytes (kc_kek k) m) ct, w))"

definition Keychain_Healthy :: "Keychain \<Rightarrow> unit result" where
  "Keychain_Healthy k = (if \<not> kc_loaded k then Inl (Err ''keychain: not loaded'') else Inr ())"

definition Keychain_Close :: "Keychain \<Rightarrow> memory \<Rightarrow> Keychain \<times> memory" where
  "Keychain_Close k m =
     (k\<lparr>kc_kek := None, kc_loaded := False\<rparr>, case kc_kek k of None \<Rightarrow> m | Some a \<Rightarrow> Zero a m)"

text \<open>Off macOS there is no keychain: opening one is an error.\<close>

definition NewKeychain_other :: "string \<Rightarrow> unit result" where
  "NewKeychain_other service =
     Inl (Err (''keychain: only available on macOS; on Linux use the dev OpenBao instance '' @
       ''(SAFEKEYS_VAULT_ADDR)''))"

section \<open>Vault\<close>

record Vault =
  va_Addr :: string
  va_Token :: string
  va_Mount :: string

definition NewVault :: "string \<Rightarrow> string \<Rightarrow> string \<Rightarrow> Vault" where
  "NewVault addr token mount =
     \<lparr>va_Addr = TrimRight addr ''/'', va_Token = token,
      va_Mount = (if mount = [] then ''transit'' else mount)\<rparr>"

definition vault_request :: "Vault \<Rightarrow> string \<Rightarrow> string \<Rightarrow> json \<Rightarrow> http_request" where
  "vault_request v meth path body =
     \<lparr>rq_Method = meth, rq_URL = va_Addr v @ path,
      rq_Header = [(''X-Vault-Token'', va_Token v), (''Content-Type'', ''application/json'')],
      rq_Body = Marshal body\<rparr>"

text \<open>\<open>do\<close>: the decoded body of a response with status 200.\<close>

definition vault_do :: "'w transport \<Rightarrow> Vault \<Rightarrow> string \<Rightarrow> string \<Rightarrow> json \<Rightarrow> 'w \<Rightarrow> json result \<times> 'w" where
  "vault_do Do v meth path body w =
     (case Do (vault_request v meth path body) w of
        (Inl e, w) \<Rightarrow> (Inl e, w)
      | (Inr resp, w) \<Rightarrow>
          if rs_StatusCode resp \<noteq> StatusOK then
            (Inl (Err (''vault: '' @ meth @ '' '' @ path @ '' -> '' @ itoa (rs_StatusCode resp))), w)
          else
            (case Decode (rs_Body resp) of
               None \<Rightarrow> (Inl (Err ''vault: decode''), w)
             | Some j \<Rightarrow> (Inr j, w)))"

text \<open>The member \<open>data\<close> of the answer and in it the one string that is asked for.\<close>

definition data_field :: "string \<Rightarrow> json \<Rightarrow> string option" where
  "data_field f j =
     dec_struct False [''data'']
       (\<lambda>_ v old. dec_struct False [f] (\<lambda>_ w s. dec_string w s) v old) j []"

definition Vault_Wrap :: "'w transport \<Rightarrow> Vault \<Rightarrow> string \<Rightarrow> bytes \<Rightarrow> 'w \<Rightarrow> string result \<times> 'w" where
  "Vault_Wrap Do v kid dek w =
     (case vault_do Do v ''POST'' (''/v1/'' @ va_Mount v @ ''/encrypt/'' @ kid)
             (JObj [(''plaintext'', JStr (EncodeToString StdEncoding dek))]) w of
        (Inl e, w) \<Rightarrow> (Inl e, w)
      | (Inr j, w) \<Rightarrow>
          (case data_field ''ciphertext'' j of
             None \<Rightarrow> (Inl (Err ''vault: decode''), w)
           | Some c \<Rightarrow> (if c = [] then (Inl (Err ''vault: empty ciphertext''), w) else (Inr c, w))))"

definition Vault_Unwrap :: "'w transport \<Rightarrow> Vault \<Rightarrow> string \<Rightarrow> string \<Rightarrow> 'w \<Rightarrow> bytes result \<times> 'w" where
  "Vault_Unwrap Do v kid wrapped w =
     (case vault_do Do v ''POST'' (''/v1/'' @ va_Mount v @ ''/decrypt/'' @ kid)
             (JObj [(''ciphertext'', JStr wrapped)]) w of
        (Inl e, w) \<Rightarrow> (Inl (NewDenial ReasonKeystoreUnreachable), w)
      | (Inr j, w) \<Rightarrow>
          (case Option.bind (data_field ''plaintext'' j) (DecodeString StdEncoding) of
             None \<Rightarrow> (Inl (NewDenial ReasonKeystoreUnreachable), w)
           | Some dek \<Rightarrow> (Inr dek, w)))"

definition Vault_Healthy :: "'w transport \<Rightarrow> Vault \<Rightarrow> 'w \<Rightarrow> unit result \<times> 'w" where
  "Vault_Healthy Do v w =
     (case Do \<lparr>rq_Method = ''GET'', rq_URL = va_Addr v @ ''/v1/sys/health'', rq_Header = [], rq_Body = []\<rparr> w of
        (Inl e, w) \<Rightarrow> (Inl (NewDenial ReasonKeystoreUnreachable), w)
      | (Inr resp, w) \<Rightarrow>
          (if rs_StatusCode resp \<ge> 500 then Inl (NewDenial ReasonKeystoreUnreachable) else Inr (), w))"

section \<open>The wrappers keep the law\<close>

definition cipher_laws :: "ciphers \<Rightarrow> 'w random \<Rightarrow> bool" where
  "cipher_laws C rand \<longleftrightarrow>
     (\<forall>a \<in> {aes_gcm C, chacha20poly1305 C}. \<forall>k n p. Open a k n (Seal a k n p) = Some p) \<and>
     (\<forall>n w b w'. rand n w = (Some b, w') \<longrightarrow> length b = n)"

lemma cipher_laws_inverse:
  "cipher_laws C rand \<Longrightarrow> EncryptObject C rand alg dek pt w = (Inr ct, w') \<Longrightarrow> DecryptObject C alg dek ct = Inr pt"
  by (rule EncryptObject_inverse) (unfold cipher_laws_def, blast+)

lemma Local_Wrap_Inr: "Local_Wrap C rand m l kid dek w = (Inr s, w') \<Longrightarrow>
    \<exists>ct. EncryptObject C rand AlgAES256GCM (kek_bytes (lo_kek l) m) dek w = (Inr ct, w') \<and>
         s = ''local:v1:'' @ EncodeToString RawURLEncoding ct"
  by (auto simp: Local_Wrap_def split: prod.splits sum.splits)

lemma Keychain_Wrap_Inr: "Keychain_Wrap C rand m k kid dek w = (Inr s, w') \<Longrightarrow>
    \<exists>ct. EncryptObject C rand AlgAES256GCM (kek_bytes (kc_kek k) m) dek w = (Inr ct, w') \<and>
         s = ''keychain:v1:'' @ EncodeToString RawURLEncoding ct"
  by (auto simp: Keychain_Wrap_def split: prod.splits sum.splits)

interpretation local_store: key_wrapper "Local_Wrap C rand m l" "Local_Unwrap C m l" "cipher_laws C rand"
  for C rand m l
  by unfold_locales (auto simp: Local_Unwrap_def TrimPrefix_def dest!: Local_Wrap_Inr cipher_laws_inverse)

interpretation keychain: key_wrapper "Keychain_Wrap C rand m k" "Keychain_Unwrap C m k" "cipher_laws C rand"
  for C rand m k
  by unfold_locales (auto simp: Keychain_Unwrap_def TrimPrefix_def dest!: Keychain_Wrap_Inr cipher_laws_inverse)

text \<open>
  The transit engine: what it encrypted under a key it decrypts under that key, in any later
  state, with status 200 and the plaintext in \<open>data.plaintext\<close>.
\<close>

definition transit_laws :: "'w transport \<Rightarrow> Vault \<Rightarrow> bool" where
  "transit_laws Do v \<longleftrightarrow>
     (\<forall>kid pt c w resp w1.
        Do (vault_request v ''POST'' (''/v1/'' @ va_Mount v @ ''/encrypt/'' @ kid) (JObj [(''plaintext'', JStr pt)])) w
          = (Inr resp, w1) \<longrightarrow>
        rs_StatusCode resp = StatusOK \<longrightarrow>
        Option.bind (Decode (rs_Body resp)) (data_field ''ciphertext'') = Some c \<longrightarrow>
        (\<forall>w2. \<exists>resp2 w3.
           Do (vault_request v ''POST'' (''/v1/'' @ va_Mount v @ ''/decrypt/'' @ kid) (JObj [(''ciphertext'', JStr c)])) w2
             = (Inr resp2, w3) \<and>
           rs_StatusCode resp2 = StatusOK \<and>
           Option.bind (Decode (rs_Body resp2)) (data_field ''plaintext'') = Some pt))"

lemma vault_do_Inr: "vault_do Do v meth path body w = (Inr j, w') \<longleftrightarrow>
    (\<exists>resp. Do (vault_request v meth path body) w = (Inr resp, w') \<and> rs_StatusCode resp = StatusOK \<and>
       Decode (rs_Body resp) = Some j)"
  by (auto simp: vault_do_def split: prod.splits sum.splits option.splits)

interpretation vault: key_wrapper "Vault_Wrap Do v" "Vault_Unwrap Do v" "transit_laws Do v"
  for Do v
proof unfold_locales
  fix kid dek w wrapped w' w''
  assume l: "transit_laws Do v" and wr: "Vault_Wrap Do v kid dek w = (Inr wrapped, w')"
  let ?pt = "EncodeToString StdEncoding dek"
  obtain j w1 where "vault_do Do v ''POST'' (''/v1/'' @ va_Mount v @ ''/encrypt/'' @ kid)
      (JObj [(''plaintext'', JStr ?pt)]) w = (Inr j, w1)" "data_field ''ciphertext'' j = Some wrapped"
    using wr by (auto simp: Vault_Wrap_def split: prod.splits sum.splits option.splits if_splits)
  then obtain resp2 w3 where
    "Do (vault_request v ''POST'' (''/v1/'' @ va_Mount v @ ''/decrypt/'' @ kid) (JObj [(''ciphertext'', JStr wrapped)])) w''
       = (Inr resp2, w3)"
    "rs_StatusCode resp2 = StatusOK" "Option.bind (Decode (rs_Body resp2)) (data_field ''plaintext'') = Some ?pt"
    using l unfolding transit_laws_def vault_do_Inr by (metis bind.bind_lunit)
  then obtain j2 where "vault_do Do v ''POST'' (''/v1/'' @ va_Mount v @ ''/decrypt/'' @ kid)
      (JObj [(''ciphertext'', JStr wrapped)]) w'' = (Inr j2, w3)" "data_field ''plaintext'' j2 = Some ?pt"
    by (auto simp: vault_do_Inr bind_eq_Some_conv)
  then show "fst (Vault_Unwrap Do v kid wrapped w'') = Inr dek"
    by (simp add: Vault_Unwrap_def)
qed

section \<open>Properties\<close>

text \<open>
  An object sealed under the local store opens again: the wrapped key unwraps, in any later
  state, to the key, and the key decrypts the object. The wrapped form is marked with the
  store and its version.
\<close>

theorem local_store_seals_and_opens:
  fixes w w1 w2 w3 :: 'w
  assumes "cipher_laws C rand"
    and "Local_Wrap C rand m l kid dek w = (Inr wrapped, w1)"
    and "EncryptObject C rand alg dek plaintext w1 = (Inr ct, w2)"
  shows "Local_Unwrap C m l kid wrapped w3 = (Inr dek, w3) \<and> DecryptObject C alg dek ct = Inr plaintext \<and>
    HasPrefix wrapped ''local:v1:''"
proof -
  have "fst (Local_Unwrap C m l kid wrapped w3) = Inr dek"
    by (rule local_store.unwrap_wrap [OF assms(1,2)])
  moreover have "snd (Local_Unwrap C m l kid wrapped w3) = w3"
    by (simp add: Local_Unwrap_def split: option.splits)
  ultimately show ?thesis
    using cipher_laws_inverse [OF assms(1,3)] Local_Wrap_Inr [OF assms(2)]
    by (auto simp: prod_eq_iff HasPrefix_def)
qed

definition sample_random :: "nat random" where
  "sample_random n w = (Some (replicate n (CHR ''r'')), w + 1)"

definition sample_local :: Local where
  "sample_local = \<lparr>lo_path = ''/k'', lo_kek = Some 0\<rparr>"

lemma cipher_laws_sample: "cipher_laws sample_ciphers sample_random"
  by (auto simp: cipher_laws_def sample_ciphers_def sample_aead_def sample_random_def)

lemma local_store_seals_and_opens_witness:
  "\<exists>wrapped ct. Local_Wrap sample_ciphers sample_random [replicate 32 (CHR ''k'')] sample_local ''kid''
       (replicate 32 (CHR ''d'')) 0 = (Inr wrapped, 1) \<and>
     Local_Unwrap sample_ciphers [replicate 32 (CHR ''k'')] sample_local ''kid'' wrapped (7::nat)
       = (Inr (replicate 32 (CHR ''d'')), 7) \<and>
     DecryptObject sample_ciphers ''AES-256-GCM'' (replicate 32 (CHR ''d'')) ct = Inr ''secret''"
proof -
  let ?m = "[replicate 32 (CHR ''k'')]" and ?d = "replicate 32 (CHR ''d'')"
  obtain wrapped where w: "Local_Wrap sample_ciphers sample_random ?m sample_local ''kid'' ?d 0 = (Inr wrapped, 1)"
    by (simp add: Local_Wrap_def EncryptObject_def newAEAD_def DEKSize_def RandomBytes_def sample_random_def
        kek_bytes_def sample_local_def load_def)
  obtain ct where c: "EncryptObject sample_ciphers sample_random ''AES-256-GCM'' ?d ''secret'' 1 = (Inr ct, 2)"
    by (simp add: EncryptObject_def newAEAD_def DEKSize_def RandomBytes_def sample_random_def AlgAES256GCM_def)
  show ?thesis using local_store_seals_and_opens [OF cipher_laws_sample w c, of 7] w by blast
qed

text \<open>
  The local store opens only when asked for, and never over an exposed key: it needs the
  opt-in of the environment, refuses a key file with any permission for group or others, and
  holds, at a new address, a key of exactly 32 bytes; otherwise memory is as before.
\<close>

theorem NewLocal_guards:
  "case NewLocal fs IsNotExist rand Getenv path m w of
     (Inl e, m', w') \<Rightarrow> m' = m
   | (Inr l, m', w') \<Rightarrow> Getenv ''SAFEKEYS_ALLOW_INSECURE_KEYSTORE'' w = ''1'' \<and>
       (case Stat fs path w of Inr st \<Rightarrow> fi_Perm st mod 64 = 0 | Inl _ \<Rightarrow> True) \<and>
       (\<exists>kek. length kek = 32 \<and> m' = m @ [kek] \<and> lo_kek l = Some (length m) \<and> kek_bytes (lo_kek l) m' = kek)"
  by (auto simp: NewLocal_def alloc_def kek_bytes_def load_def KEKSize_def split: prod.splits sum.splits)

text \<open>
  Nothing but the vault's own answer unwraps a key: whatever fails (the transport, the
  status, the form of the answer, its base64) the caller sees one and the same denial, and a
  key is returned only from a response with status 200 whose plaintext field decodes to it.
\<close>

theorem vault_unwrap_fails_closed:
  "case Vault_Unwrap Do v kid wrapped w of
     (Inl e, w') \<Rightarrow> e = Denial ''keystore_unreachable''
   | (Inr dek, w') \<Rightarrow> \<exists>resp. Do (vault_request v ''POST'' (''/v1/'' @ va_Mount v @ ''/decrypt/'' @ kid)
          (JObj [(''ciphertext'', JStr wrapped)])) w = (Inr resp, w') \<and> rs_StatusCode resp = 200 \<and>
        Option.bind (Option.bind (Decode (rs_Body resp)) (data_field ''plaintext'')) (DecodeString StdEncoding) = Some dek"
proof (cases "vault_do Do v ''POST'' (''/v1/'' @ va_Mount v @ ''/decrypt/'' @ kid) (JObj [(''ciphertext'', JStr wrapped)]) w")
  case (Pair r w1)
  show ?thesis
  proof (cases r)
    case (Inl e)
    then show ?thesis using Pair by (simp add: Vault_Unwrap_def NewDenial_def ReasonKeystoreUnreachable_def)
  next
    case (Inr j)
    then obtain resp where "Do (vault_request v ''POST'' (''/v1/'' @ va_Mount v @ ''/decrypt/'' @ kid)
          (JObj [(''ciphertext'', JStr wrapped)])) w = (Inr resp, w1)" "rs_StatusCode resp = 200"
        "Decode (rs_Body resp) = Some j"
      using Pair vault_do_Inr [of Do v] by (auto simp: StatusOK_def)
    then show ?thesis
      using Pair Inr
      by (auto simp: Vault_Unwrap_def NewDenial_def ReasonKeystoreUnreachable_def split: option.splits)
  qed
qed

text \<open>A closed store: its key is overwritten and nothing can be unwrapped any more.\<close>

lemma Local_Close_unwraps_nothing:
  assumes "Local_Close l m = (l', m')"
  shows "kek_bytes (lo_kek l) m' = zeros (length (kek_bytes (lo_kek l) m)) \<and>
    is_err (fst (Local_Unwrap C m' l' kid wrapped w))"
  using assms
  by (auto simp: Local_Close_def kek_bytes_def load_Zero zeros_def Local_Unwrap_def DecryptObject_def newAEAD_def
      AlgAES256GCM_def DEKSize_def split: option.splits)

end
