(* ===== verification/Inject.thy ===== *)
theory Inject
  imports Protocol_Envelope Runes Json "HOL-Library.AList"
begin

text \<open>
  pkg/inject: handing a value to its consumer, as a variable in the environment of a command
  that is run, or as a file. What comes back is an \<open>Outcome\<close>: a name or a path, the status
  and the output of the command.
\<close>

section \<open>The operating system\<close>

text \<open>
  A field of the Go interface type \<open>io.Writer\<close>: the nil interface, a buffer, or a file, where
  a nil \<open>*os.File\<close> in the interface is not the nil interface. Open files are descriptors.
\<close>

datatype io_writer = Nil_interface | Buffer_writer | File_writer "nat option"

definition os_Stdout :: nat where "os_Stdout = 1"
definition os_Stderr :: nat where "os_Stderr = 2"

record Cmd =
  cmd_Args :: "string list"
  cmd_Env :: "string list"
  cmd_Stdout :: io_writer
  cmd_Stderr :: io_writer
  cmd_Setpgid :: bool

text \<open>
  What \<open>Wait\<close> reports: an exit status other than zero is an \<open>exec.ExitError\<close>, anything else
  that goes wrong is another error. The output is what buffers received.
\<close>

datatype wait_error = ExitErr int | OtherErr go_error

record waited =
  wt_err :: "wait_error option"
  wt_stdout :: bytes
  wt_stderr :: bytes

record 'w os_calls =
  LookupEnv :: "string \<Rightarrow> 'w \<Rightarrow> string option"
  TempDir :: "'w \<Rightarrow> string"
  CreateTemp :: "string \<Rightarrow> string \<Rightarrow> 'w \<Rightarrow> string result \<times> 'w"
  Chmod :: "string \<Rightarrow> nat \<Rightarrow> 'w \<Rightarrow> unit result \<times> 'w"
  WriteOpen :: "string \<Rightarrow> bytes \<Rightarrow> 'w \<Rightarrow> unit result \<times> 'w"
  CloseOpen :: "string \<Rightarrow> 'w \<Rightarrow> unit result \<times> 'w"
  os_Remove :: "string \<Rightarrow> 'w \<Rightarrow> 'w"
  Start :: "Cmd \<Rightarrow> 'w \<Rightarrow> nat result \<times> 'w"
  Wait :: "nat \<Rightarrow> 'w \<Rightarrow> waited \<times> 'w"

section \<open>The injector\<close>

definition defaultAllowedEnv :: "string list" where
  "defaultAllowedEnv = [''PATH'', ''HOME'', ''USER'', ''SHELL'', ''LANG'', ''LC_ALL'', ''TERM'', ''TMPDIR'']"

record Outcome =
  oc_Descriptor :: string
  oc_ExitCode :: int
  oc_Stdout :: bytes
  oc_Stderr :: bytes

text \<open>
  A nil list of names is \<open>None\<close>. The map of files is an association list with one entry for
  each name; a nil map is the empty one, as reading it is.
\<close>

record 'w ExecInjector =
  in_AllowEnv :: "string list option"
  in_TempDir :: string
  in_Stdout :: "nat option"
  in_Stderr :: "nat option"
  in_OnChildStarted :: "(nat \<Rightarrow> 'w \<Rightarrow> 'w) option"
  in_Capture :: bool
  in_files :: "(string \<times> string) list"

definition NewExecInjector :: "'w ExecInjector" where
  "NewExecInjector =
     \<lparr>in_AllowEnv = Some defaultAllowedEnv, in_TempDir = [], in_Stdout = None, in_Stderr = None,
      in_OnChildStarted = None, in_Capture = False, in_files = []\<rparr>"

definition allowed_env :: "'w ExecInjector \<Rightarrow> string list" where
  "allowed_env ei = (case in_AllowEnv ei of None \<Rightarrow> defaultAllowedEnv | Some names \<Rightarrow> names)"

fun ambient :: "'w os_calls \<Rightarrow> string list \<Rightarrow> 'w \<Rightarrow> string list" where
  "ambient os [] w = []"
| "ambient os (k # ks) w =
     (case LookupEnv os k w of
        None \<Rightarrow> ambient os ks w
      | Some v \<Rightarrow> (k @ ''='' @ v) # ambient os ks w)"

definition scrubbedEnv :: "'w os_calls \<Rightarrow> 'w ExecInjector \<Rightarrow> string \<Rightarrow> bytes \<Rightarrow> 'w \<Rightarrow> string list" where
  "scrubbedEnv os ei name plaintext w = ambient os (allowed_env ei) w @ [name @ ''='' @ plaintext]"

text \<open>\<open>sanitise\<close> works on runes: every rune outside the class gives one underscore.\<close>

definition safe_rune :: "nat \<Rightarrow> bool" where
  "safe_rune r \<longleftrightarrow> (97 \<le> r \<and> r \<le> 122) \<or> (65 \<le> r \<and> r \<le> 90) \<or> (48 \<le> r \<and> r \<le> 57) \<or> r = 45 \<or> r = 95"

definition sanitise :: "string \<Rightarrow> string" where
  "sanitise s =
     (let b = concat (map (\<lambda>(r, bs). if safe_rune r then bs else ''_'') (runes s)) in
      if b = [] then ''secret'' else b)"

text \<open>
  The stream of the child. Without capture the injector's own file is assigned to the
  interface first and then compared with nil.
\<close>

definition stream :: "bool \<Rightarrow> nat option \<Rightarrow> nat \<Rightarrow> io_writer" where
  "stream capture own inherited =
     (if capture then Buffer_writer
      else
        let wr = File_writer own in
        if wr = Nil_interface then File_writer (Some inherited) else wr)"

definition exec_cmd :: "'w os_calls \<Rightarrow> 'w ExecInjector \<Rightarrow> string \<Rightarrow> bytes \<Rightarrow> string list \<Rightarrow> 'w \<Rightarrow> Cmd" where
  "exec_cmd os ei name plaintext command w =
     \<lparr>cmd_Args = command, cmd_Env = scrubbedEnv os ei name plaintext w,
      cmd_Stdout = stream (in_Capture ei) (in_Stdout ei) os_Stdout,
      cmd_Stderr = stream (in_Capture ei) (in_Stderr ei) os_Stderr,
      cmd_Setpgid = True\<rparr>"

definition exec_name :: "string \<Rightarrow> string" where
  "exec_name name = (if name = [] then ''SAFEKEYS_SECRET'' else name)"

definition exec ::
  "'w os_calls \<Rightarrow> 'w ExecInjector \<Rightarrow> string \<Rightarrow> bytes \<Rightarrow> string list \<Rightarrow> 'w \<Rightarrow> Outcome result \<times> 'w"
where
  "exec os ei name plaintext command w =
     (let name = exec_name name in
      case Start os (exec_cmd os ei name plaintext command w) w of
        (Inl e, w) \<Rightarrow> (Inl e, w)
      | (Inr pid, w) \<Rightarrow>
          let w = (case in_OnChildStarted ei of None \<Rightarrow> w | Some f \<Rightarrow> f pid w) in
          (case Wait os pid w of
             (res, w) \<Rightarrow>
               let captured = (\<lambda>code. \<lparr>oc_Descriptor = name, oc_ExitCode = code,
                       oc_Stdout = (if in_Capture ei then wt_stdout res else []),
                       oc_Stderr = (if in_Capture ei then wt_stderr res else [])\<rparr>) in
               (case wt_err res of
                  None \<Rightarrow> (Inr (captured 0), w)
                | Some (ExitErr code) \<Rightarrow> (Inr (captured code), w)
                | Some (OtherErr e) \<Rightarrow> (Inl e, w))))"

text \<open>
  \<open>inject_file\<close> (the method \<open>file\<close>): the mode is set before the content is written; every failure after the creation
  removes the file (closing it first, where it is still open). Errors of a close on the error
  paths are dropped.
\<close>

definition inject_file ::
  "'w os_calls \<Rightarrow> 'w ExecInjector \<Rightarrow> string \<Rightarrow> bytes \<Rightarrow> 'w \<Rightarrow> string result \<times> 'w ExecInjector \<times> 'w"
where
  "inject_file os ei name plaintext w =
     (let name = (if name = [] then ''secret'' else name);
          dir = (if in_TempDir ei = [] then TempDir os w else in_TempDir ei) in
      case CreateTemp os dir (''safekeys-'' @ sanitise name @ ''-*'') w of
        (Inl e, w) \<Rightarrow> (Inl e, ei, w)
      | (Inr path, w) \<Rightarrow>
          (case Chmod os path 384 w of
             (Inl e, w) \<Rightarrow> (Inl e, ei, os_Remove os path (snd (CloseOpen os path w)))
           | (Inr _, w) \<Rightarrow>
               (case WriteOpen os path plaintext w of
                  (Inl e, w) \<Rightarrow> (Inl e, ei, os_Remove os path (snd (CloseOpen os path w)))
                | (Inr _, w) \<Rightarrow>
                    (case CloseOpen os path w of
                       (Inl e, w) \<Rightarrow> (Inl e, ei, os_Remove os path w)
                     | (Inr _, w) \<Rightarrow>
                         (Inr path, ei\<lparr>in_files := AList.update name path (in_files ei)\<rparr>, w)))))"

definition Inject ::
  "'w os_calls \<Rightarrow> string \<Rightarrow> string \<Rightarrow> bytes \<Rightarrow> string list \<Rightarrow> 'w ExecInjector \<Rightarrow> 'w
    \<Rightarrow> Outcome result \<times> 'w ExecInjector \<times> 'w"
where
  "Inject os meth name plaintext command ei w =
     (if meth = ''env'' \<or> meth = ''exec'' \<or> meth = [] then
        (if command = [] then
           (Inl (Err ''inject: exec/env requires a command; refusing to return a value''), ei, w)
         else (case exec os ei name plaintext command w of (r, w) \<Rightarrow> (r, ei, w)))
      else if meth = ''file'' then
        (case inject_file os ei name plaintext w of
           (Inl e, ei, w) \<Rightarrow> (Inl e, ei, w)
         | (Inr path, ei, w) \<Rightarrow>
             (Inr \<lparr>oc_Descriptor = path, oc_ExitCode = 0, oc_Stdout = [], oc_Stderr = []\<rparr>, ei, w))
      else if meth = ''socket'' then
        (Inl (Err ''inject: socket injection is not implemented in the MVP''), ei, w)
      else (Inl (Err ''inject: unknown method''), ei, w))"

text \<open>\<open>ExitCode\<close> reads the status out of an \<open>ExitError\<close>.\<close>

definition ExitCode :: "wait_error \<Rightarrow> int \<times> bool" where
  "ExitCode e = (case e of ExitErr n \<Rightarrow> (n, True) | OtherErr _ \<Rightarrow> (0, False))"

text \<open>The iteration over a Go map has no order; the removals commute, the list has one.\<close>

definition Cleanup :: "'w os_calls \<Rightarrow> 'w ExecInjector \<Rightarrow> 'w \<Rightarrow> 'w ExecInjector \<times> 'w" where
  "Cleanup os ei w = (ei\<lparr>in_files := []\<rparr>, fold (\<lambda>(_, p). os_Remove os p) (in_files ei) w)"

section \<open>Lemmas\<close>

lemma ambient_entries: "e \<in> set (ambient os ks w) \<longleftrightarrow> (\<exists>k v. k \<in> set ks \<and> LookupEnv os k w = Some v \<and> e = k @ ''='' @ v)"
  by (induction ks) (auto split: option.splits)

lemma ambient_cong: "(\<And>k. k \<in> set ks \<Longrightarrow> LookupEnv os k w = LookupEnv os' k w) \<Longrightarrow> ambient os ks w = ambient os' ks w"
  by (induction ks) (auto split: option.splits)

lemma exec_Inr: "exec os ei name plaintext command w = (Inr oc, w') \<Longrightarrow> oc_Descriptor oc = exec_name name"
  by (auto simp: exec_def Let_def split: prod.splits sum.splits option.splits wait_error.splits)

lemma inject_file_Inr:
  "inject_file os ei name plaintext w = (Inr path, ei', w') \<Longrightarrow>
    \<exists>w1 w2 w3. CreateTemp os (if in_TempDir ei = [] then TempDir os w else in_TempDir ei)
         (''safekeys-'' @ sanitise (if name = [] then ''secret'' else name) @ ''-*'') w = (Inr path, w1) \<and>
       Chmod os path 384 w1 = (Inr (), w2) \<and> WriteOpen os path plaintext w2 = (Inr (), w3) \<and>
       CloseOpen os path w3 = (Inr (), w') \<and>
       ei' = ei\<lparr>in_files := AList.update (if name = [] then ''secret'' else name) path (in_files ei)\<rparr>"
  unfolding inject_file_def Let_def by (auto split: prod.splits sum.splits)

lemma exec_LookupEnv_cong:
  assumes "\<And>k. k \<in> set (allowed_env ei) \<Longrightarrow> LookupEnv os k w = f k w"
  shows "exec (os\<lparr>LookupEnv := f\<rparr>) ei name plaintext command w = exec os ei name plaintext command w"
proof -
  have "ambient (os\<lparr>LookupEnv := f\<rparr>) (allowed_env ei) w = ambient os (allowed_env ei) w"
    by (rule ambient_cong) (simp add: assms)
  then have c: "exec_cmd (os\<lparr>LookupEnv := f\<rparr>) ei n plaintext command w = exec_cmd os ei n plaintext command w" for n
    unfolding exec_cmd_def scrubbedEnv_def by (simp only:)
  have "Start (os\<lparr>LookupEnv := f\<rparr>) = Start os" "Wait (os\<lparr>LookupEnv := f\<rparr>) = Wait os" by simp_all
  then show ?thesis unfolding exec_def c by (simp only:)
qed

lemma safe_rune_byte: "safe_rune (byte c) \<longleftrightarrow> is_alnum c \<or> c = CHR ''-'' \<or> c = CHR ''_''"
proof -
  have "c = CHR ''-'' \<longleftrightarrow> byte c = (45::nat)" "c = CHR ''_'' \<longleftrightarrow> byte c = (95::nat)"
    by (simp_all add: byte_eq_iff)
  then show ?thesis unfolding safe_rune_def char_class_defs by argo
qed

lemma safe_rune_ascii: "safe_rune u \<Longrightarrow> u < 128"
  by (auto simp: safe_rune_def)

lemma runes_safe: "(u, bs) \<in> set (runes s) \<Longrightarrow> safe_rune u \<Longrightarrow> \<exists>c. bs = [c] \<and> u = byte c"
proof (induction s rule: runes.induct)
  case (1 s)
  note IH = 1
  show ?case
  proof (cases s)
    case Nil
    then show ?thesis using IH(3) by (simp add: runes.simps)
  next
    case (Cons c r)
    show ?thesis
    proof (cases "decode_rune s")
      case None
      then have "runes s = (65533, [c]) # runes r" using Cons by (subst runes.simps) (simp del: decode_rune.simps)
      moreover have "\<not> safe_rune 65533" by (simp add: safe_rune_def)
      ultimately have "(u, bs) \<in> set (runes r)" using IH(3,4) by auto
      then show ?thesis using IH(1) [OF Cons None] IH(4) by blast
    next
      case (Some x)
      then obtain v n where x: "decode_rune s = Some (v, n)" by (cases x) auto
      then have "runes s = (v, take n s) # runes (drop n s)" using Cons by (subst runes.simps) (simp del: decode_rune.simps)
      then consider (here) "u = v" "bs = take n s" | (later) "(u, bs) \<in> set (runes (drop n s))" using IH(3) by auto
      then show ?thesis
      proof cases
        case here
        have d: "decode_rune (c # r) = Some (u, n)" using x Cons here(1) by (simp only:)
        have "byte c < (128::nat) \<and> n = 1" by (rule decode_rune_low [OF d safe_rune_ascii [OF IH(4)]])
        moreover from this have "u = byte c" using d decode_rune_ascii [of c r] by simp
        ultimately have "n = 1 \<and> u = byte c" by blast
        then show ?thesis using here Cons by simp
      next
        case later
        then show ?thesis using IH(2) [OF Cons x] IH(4) by simp
      qed
    qed
  qed
qed

lemma sanitise_chars:
  assumes "c \<in> set (sanitise s)"
  shows "is_alnum c \<or> c = CHR ''-'' \<or> c = CHR ''_''"
proof -
  let ?b = "concat (map (\<lambda>(r, bs). if safe_rune r then bs else ''_'') (runes s))"
  have "\<forall>d \<in> set ''secret''. is_alnum d" by code_simp
  moreover have "is_alnum c \<or> c = CHR ''-'' \<or> c = CHR ''_''" if b: "c \<in> set ?b"
  proof -
    obtain x where x: "x \<in> set (runes s)" "c \<in> set ((\<lambda>(r, bs). if safe_rune r then bs else ''_'') x)"
      using b by (simp only: set_concat set_map) blast
    then show ?thesis
      using runes_safe [of "fst x" "snd x" s] safe_rune_byte [of c] by (cases x) (auto split: if_splits)
  qed
  moreover have "c \<in> set ''secret'' \<or> c \<in> set ?b"
    using assms unfolding sanitise_def Let_def by (simp only: simp_thms split: if_split_asm)
  ultimately show ?thesis by blast
qed

lemma sanitise_nonempty: "sanitise s \<noteq> []"
  by (simp add: sanitise_def Let_def)

lemma sanitise_id: "s \<noteq> [] \<Longrightarrow> \<forall>c \<in> set s. is_alnum c \<or> c = CHR ''-'' \<or> c = CHR ''_'' \<Longrightarrow> sanitise s = s"
proof -
  assume s: "s \<noteq> []" "\<forall>c \<in> set s. is_alnum c \<or> c = CHR ''-'' \<or> c = CHR ''_''"
  then have "\<forall>c \<in> set s. byte c < 128" by (auto simp: char_class_defs)
  then have r: "runes s = map (\<lambda>c. (byte c, [c])) s" by (rule runes_ascii)
  have "map (\<lambda>(r, bs). if safe_rune r then bs else ''_'') (runes s) = map (\<lambda>c. [c]) s"
    using s(2) by (simp add: r safe_rune_byte)
  then show ?thesis using s(1) by (simp add: sanitise_def Let_def)
qed

text \<open>
  Without capture a nil stream of the injector reaches the child as a nil file inside a
  non-nil interface: it is not replaced by the sidecar's own stream.
\<close>

lemma nil_stream_is_not_inherited:
  "stream False None inherited = File_writer None \<and> stream False None inherited \<noteq> File_writer (Some inherited)"
  by (simp add: stream_def)

section \<open>An operating system for the instances\<close>

text \<open>
  A state has the files with their modes and contents, and the commands that were started.
  A command prints its environment and exits with 3.
\<close>

record sample_os_state =
  so_files :: "(string \<times> nat \<times> bytes) list"
  so_next :: nat
  so_started :: "Cmd list"

definition sample_os :: "sample_os_state os_calls" where
  "sample_os =
     \<lparr>LookupEnv = (\<lambda>k w. if k = ''PATH'' then Some ''/bin'' else if k = ''AWS_KEY'' then Some ''ambient'' else None),
      TempDir = (\<lambda>w. ''/tmp''),
      CreateTemp = (\<lambda>dir pattern w.
        (let p = dir @ ''/'' @ TrimSuffix pattern ''*'' @ nat_digits (so_next w) in
         (Inr p, w\<lparr>so_files := (p, 384, []) # so_files w, so_next := so_next w + 1\<rparr>))),
      Chmod = (\<lambda>p md w. (Inr (), w\<lparr>so_files := map (\<lambda>(q, n, b). (q, if q = p then md else n, b)) (so_files w)\<rparr>)),
      WriteOpen = (\<lambda>p x w. (Inr (), w\<lparr>so_files := map (\<lambda>(q, n, b). (q, n, if q = p then b @ x else b)) (so_files w)\<rparr>)),
      CloseOpen = (\<lambda>p w. (Inr (), w)),
      os_Remove = (\<lambda>p w. w\<lparr>so_files := filter (\<lambda>(q, _). q \<noteq> p) (so_files w)\<rparr>),
      Start = (\<lambda>c w. (Inr (length (so_started w)), w\<lparr>so_started := so_started w @ [c]\<rparr>)),
      Wait = (\<lambda>pid w. (\<lparr>wt_err = Some (ExitErr 3), wt_stdout = concat (cmd_Env (so_started w ! pid)), wt_stderr = []\<rparr>, w))\<rparr>"

definition sample_os_init :: sample_os_state where
  "sample_os_init = \<lparr>so_files = [], so_next = 1, so_started = []\<rparr>"

definition sample_injector :: "sample_os_state ExecInjector" where
  "sample_injector = NewExecInjector\<lparr>in_Capture := True\<rparr>"

text \<open>
  Two file injections under one name: the map keeps the second path only, and the first file
  with its value is still there after the cleanup.
\<close>

lemma same_name_forgets_file:
  "case Inject sample_os ''file'' ''db'' ''first'' [] sample_injector sample_os_init of
     (_, i1, w1) \<Rightarrow>
       (case Inject sample_os ''file'' ''db'' ''second'' [] i1 w1 of
          (_, i2, w2) \<Rightarrow> so_files (snd (Cleanup sample_os i2 w2)) = [(''/tmp/safekeys-db-1'', 384, ''first'')])"
  by code_simp

section \<open>Properties\<close>

text \<open>
  What comes back from an injection does not carry the value: the descriptor is the name
  of the variable or, for a file, the path that the operating system chose before it was given
  any content; a file injection returns no output and neither does a command whose output is
  not captured.
\<close>

theorem Inject_reveals_no_value:
  "case Inject os meth name plaintext command ei w of
     (Inl _, _, _) \<Rightarrow> True
   | (Inr oc, _, _) \<Rightarrow>
       if meth = ''file'' then
         oc_Stdout oc = [] \<and> oc_Stderr oc = [] \<and>
         fst (CreateTemp os (if in_TempDir ei = [] then TempDir os w else in_TempDir ei)
               (''safekeys-'' @ sanitise (if name = [] then ''secret'' else name) @ ''-*'') w) = Inr (oc_Descriptor oc)
       else
         oc_Descriptor oc = (if name = [] then ''SAFEKEYS_SECRET'' else name) \<and>
         (in_Capture ei \<or> oc_Stdout oc = [] \<and> oc_Stderr oc = [])"
proof (cases "meth = ''file''")
  case True
  obtain r ei' w' where f: "inject_file os ei name plaintext w = (r, ei', w')" by (metis prod_cases3)
  show ?thesis
  proof (cases r)
    case (Inr path)
    then show ?thesis using True f inject_file_Inr [of os ei name plaintext w path ei' w'] by (auto simp: Inject_def)
  qed (use True f in \<open>simp add: Inject_def\<close>)
next
  case False
  obtain r w' where e: "exec os ei name plaintext command w = (r, w')" by (metis prod.collapse)
  have "oc_Stdout oc = [] \<and> oc_Stderr oc = []" if "r = Inr oc" "\<not> in_Capture ei" for oc
    using e that by (auto simp: exec_def Let_def split: prod.splits sum.splits option.splits wait_error.splits)
  then show ?thesis
    using False e exec_Inr [of os ei name plaintext command w]
    by (cases r) (auto simp: Inject_def exec_name_def)
qed

text \<open>
  The ambient environment does not reach the child except through the allowed names: two
  environments that agree on them give the same injection, and in the child's environment
  every entry is an allowed variable or the injected one, which comes last.
\<close>

theorem child_environment_is_scrubbed:
  assumes "\<And>k v. k \<in> set (allowed_env ei) \<Longrightarrow> LookupEnv os k v = f k v"
  shows "Inject (os\<lparr>LookupEnv := f\<rparr>) meth name plaintext command ei w = Inject os meth name plaintext command ei w \<and>
    last (cmd_Env (exec_cmd os ei name plaintext command w)) = name @ ''='' @ plaintext \<and>
    list_all (\<lambda>e. list_ex (\<lambda>k. \<exists>v. LookupEnv os k w = Some v \<and> e = k @ ''='' @ v) (allowed_env ei))
      (butlast (cmd_Env (exec_cmd os ei name plaintext command w)))"
proof -
  have "CreateTemp (os\<lparr>LookupEnv := f\<rparr>) = CreateTemp os" "TempDir (os\<lparr>LookupEnv := f\<rparr>) = TempDir os"
    "Chmod (os\<lparr>LookupEnv := f\<rparr>) = Chmod os" "WriteOpen (os\<lparr>LookupEnv := f\<rparr>) = WriteOpen os"
    "CloseOpen (os\<lparr>LookupEnv := f\<rparr>) = CloseOpen os" "os_Remove (os\<lparr>LookupEnv := f\<rparr>) = os_Remove os"
    by simp_all
  then have "inject_file (os\<lparr>LookupEnv := f\<rparr>) ei name plaintext w = inject_file os ei name plaintext w"
    unfolding inject_file_def by (simp only:)
  moreover have "exec (os\<lparr>LookupEnv := f\<rparr>) ei name plaintext command w = exec os ei name plaintext command w"
    by (rule exec_LookupEnv_cong) (rule assms)
  ultimately have i: "Inject (os\<lparr>LookupEnv := f\<rparr>) meth name plaintext command ei w = Inject os meth name plaintext command ei w"
    unfolding Inject_def by (simp only:)
  have "list_ex (\<lambda>k. \<exists>v. LookupEnv os k w = Some v \<and> e = k @ ''='' @ v) (allowed_env ei)"
    if "e \<in> set (ambient os (allowed_env ei) w)" for e
    using that unfolding ambient_entries list_ex_iff by blast
  then show ?thesis using i by (simp add: exec_cmd_def scrubbedEnv_def list_all_iff)
qed

lemma child_environment_is_scrubbed_witness:
  "Inject (sample_os\<lparr>LookupEnv := (\<lambda>k w. if k = ''PATH'' then Some ''/bin'' else None)\<rparr>)
       ''env'' ''TOKEN'' ''v'' [''run''] sample_injector sample_os_init
     = Inject sample_os ''env'' ''TOKEN'' ''v'' [''run''] sample_injector sample_os_init \<and>
   (case Inject sample_os ''env'' ''TOKEN'' ''v'' [''run''] sample_injector sample_os_init of
      (Inr oc, _, w) \<Rightarrow> oc_ExitCode oc = 3 \<and> map cmd_Env (so_started w) = [[''PATH=/bin'', ''TOKEN=v'']]
    | _ \<Rightarrow> False)"
proof
  show "Inject (sample_os\<lparr>LookupEnv := (\<lambda>k w. if k = ''PATH'' then Some ''/bin'' else None)\<rparr>)
       ''env'' ''TOKEN'' ''v'' [''run''] sample_injector sample_os_init
     = Inject sample_os ''env'' ''TOKEN'' ''v'' [''run''] sample_injector sample_os_init"
    by (rule child_environment_is_scrubbed [THEN conjunct1])
      (auto simp: sample_os_def sample_injector_def allowed_env_def NewExecInjector_def defaultAllowedEnv_def)
  show "case Inject sample_os ''env'' ''TOKEN'' ''v'' [''run''] sample_injector sample_os_init of
      (Inr oc, _, w) \<Rightarrow> oc_ExitCode oc = 3 \<and> map cmd_Env (so_started w) = [[''PATH=/bin'', ''TOKEN=v'']]
    | _ \<Rightarrow> False"
    by code_simp
qed

text \<open>
  A file injection stores the value in a file of its own, which is private before it has
  content: the mode is 0600 when the value is written, the name's characters cannot leave the
  directory or the pattern, the path is recorded for the cleanup; a failure after the
  creation removes the file and records nothing.
\<close>

theorem file_injection_is_private:
  "list_all (\<lambda>c. is_alnum c \<or> c = CHR ''-'' \<or> c = CHR ''_'') (sanitise name) \<and> sanitise name \<noteq> [] \<and>
   sanitise (sanitise name) = sanitise name \<and>
   (case inject_file os ei name plaintext w of
      (Inl e, ei', w') \<Rightarrow> ei' = ei \<and>
        (\<exists>pattern. CreateTemp os (if in_TempDir ei = [] then TempDir os w else in_TempDir ei) pattern w = (Inl e, w') \<or>
           (\<exists>path w1 w2. CreateTemp os (if in_TempDir ei = [] then TempDir os w else in_TempDir ei) pattern w
              = (Inr path, w1) \<and> w' = os_Remove os path w2))
    | (Inr path, ei', w') \<Rightarrow> map_of (in_files ei') (if name = [] then ''secret'' else name) = Some path \<and>
        (\<exists>w1 w2 w3. Chmod os path 384 w1 = (Inr (), w2) \<and> WriteOpen os path plaintext w2 = (Inr (), w3) \<and>
           CloseOpen os path w3 = (Inr (), w')))"
proof -
  have c: "\<forall>c \<in> set (sanitise name). is_alnum c \<or> c = CHR ''-'' \<or> c = CHR ''_''" using sanitise_chars by blast
  obtain r ei' w' where f: "inject_file os ei name plaintext w = (r, ei', w')" by (metis prod_cases3)
  show ?thesis
  proof (cases r)
    case (Inr path)
    then show ?thesis
      using c f inject_file_Inr [of os ei name plaintext w path ei' w'] sanitise_id sanitise_nonempty
      by (auto simp: list_all_iff update_conv')
  next
    case (Inl e)
    have "ei' = ei \<and> (\<exists>pattern. CreateTemp os (if in_TempDir ei = [] then TempDir os w else in_TempDir ei) pattern w = (Inl e, w') \<or>
           (\<exists>path w1 w2. CreateTemp os (if in_TempDir ei = [] then TempDir os w else in_TempDir ei) pattern w
              = (Inr path, w1) \<and> w' = os_Remove os path w2))"
      using f Inl unfolding inject_file_def Let_def by (auto split: prod.splits sum.splits) blast+
    then show ?thesis using c f Inl sanitise_id sanitise_nonempty by (auto simp: list_all_iff)
  qed
qed

end
