(* ===== verification/Revocation.thy ===== *)
theory Revocation
  imports Services Url_Parse
begin

text \<open>
  pkg/revocation: the sidecar's check of the control plane's denylist. An answer "revoked" is
  kept for good, an answer "not revoked" only under an explicit \<open>NegativeTTL\<close>, an error counts
  as revoked.
\<close>

section \<open>State\<close>

text \<open>The zero time of an entry, "never expires", is \<open>None\<close>.\<close>

record cacheEntry =
  ce_revoked :: bool
  ce_expires :: "int option"

record ControlPlaneChecker =
  rc_BaseURL :: string
  rc_APIKey :: string
  rc_NegativeTTL :: int
  rc_cache :: "string \<rightharpoonup> cacheEntry"

definition New_checker :: "string \<Rightarrow> string \<Rightarrow> ControlPlaneChecker" where
  "New_checker baseURL apiKey =
     \<lparr>rc_BaseURL = baseURL, rc_APIKey = apiKey, rc_NegativeTTL = 0, rc_cache = (\<lambda>_. None)\<rparr>"

section \<open>Operations\<close>

text \<open>The answer is read for the field \<open>Event\<close> of its events; the outcome is decoded and unused.\<close>

definition event_of_json :: "json \<Rightarrow> (string \<times> string) option" where
  "event_of_json v =
     dec_struct False [''Event'', ''Outcome'']
       (\<lambda>f v (ev, oc). if f = ''Event'' then map_option (\<lambda>x. (x, oc)) (dec_string v ev)
                       else map_option (\<lambda>x. (ev, x)) (dec_string v oc))
       v ([], [])"

definition events_body_of_json :: "json \<Rightarrow> (string \<times> string) list option" where
  "events_body_of_json v =
     dec_struct False [''events''] (\<lambda>f v _. map_option (case_option [] id) (dec_slice event_of_json v)) v []"

definition audit_request :: "ControlPlaneChecker \<Rightarrow> string \<Rightarrow> http_request" where
  "audit_request c jti =
     \<lparr>rq_Method = ''GET'', rq_URL = rc_BaseURL c @ ''/v1/audit?jti='' @ QueryEscape jti,
      rq_Header = [(''X-Safekeys-Key'', rc_APIKey c)], rq_Body = []\<rparr>"

definition revocation_fetch ::
  "'w transport \<Rightarrow> ControlPlaneChecker \<Rightarrow> string \<Rightarrow> 'w \<Rightarrow> bool result \<times> 'w"
where
  "revocation_fetch Do c jti w =
     (if rc_BaseURL c = [] then (Inl (Err ''revocation: no control plane configured''), w)
      else
        (case Do (audit_request c jti) w of
           (Inl e, w) \<Rightarrow> (Inl e, w)
         | (Inr resp, w) \<Rightarrow>
             if rs_StatusCode resp \<noteq> StatusOK then
               (Inl (Err (''revocation: control plane returned '' @ itoa (rs_StatusCode resp))), w)
             else
               (case Option.bind (Decode (rs_Body resp)) events_body_of_json of
                  None \<Rightarrow> (Inl (Err ''revocation: decode''), w)
                | Some events \<Rightarrow> (Inr (list_ex (\<lambda>(ev, _). ev = ''revoke'') events), w))))"

text \<open>An entry that still counts: it never expires, or not yet.\<close>

definition live :: "int \<Rightarrow> cacheEntry \<Rightarrow> bool" where
  "live now e = (case ce_expires e of None \<Rightarrow> True | Some t \<Rightarrow> now < t)"

definition consult ::
  "'w transport \<Rightarrow> ('w \<Rightarrow> int) \<Rightarrow> string \<Rightarrow> ControlPlaneChecker \<Rightarrow> 'w
    \<Rightarrow> (bool \<times> go_error option) \<times> ControlPlaneChecker \<times> 'w"
where
  "consult Do clock jti c w =
     (case revocation_fetch Do c jti w of
        (Inl e, w) \<Rightarrow> ((True, Some e), c, w)
      | (Inr revoked, w) \<Rightarrow>
          ((revoked, None),
           (if revoked then c\<lparr>rc_cache := (rc_cache c)(jti \<mapsto> \<lparr>ce_revoked = True, ce_expires = None\<rparr>)\<rparr>
            else if rc_NegativeTTL c > 0 then
              c\<lparr>rc_cache := (rc_cache c)(jti \<mapsto> \<lparr>ce_revoked = False,
                   ce_expires = Some (clock w + rc_NegativeTTL c)\<rparr>)\<rparr>
            else c), w))"

definition IsRevoked ::
  "'w transport \<Rightarrow> ('w \<Rightarrow> int) \<Rightarrow> string \<Rightarrow> ControlPlaneChecker \<Rightarrow> 'w
    \<Rightarrow> (bool \<times> go_error option) \<times> ControlPlaneChecker \<times> 'w"
where
  "IsRevoked Do clock jti c w =
     (if jti = [] then ((True, None), c, w)
      else
        (case rc_cache c jti of
           Some e \<Rightarrow>
             if live (clock w) e then ((ce_revoked e, None), c, w)
             else consult Do clock jti (c\<lparr>rc_cache := (rc_cache c)(jti := None)\<rparr>) w
         | None \<Rightarrow> consult Do clock jti c w))"

section \<open>The cache over a sequence of checks\<close>

text \<open>
  What the cache may hold: a revoked entry is permanent, and without a \<open>NegativeTTL\<close> every entry
  is one. A step is one check of some token, in a state of the world that time has changed in
  between.
\<close>

definition entry_ok :: "int \<Rightarrow> cacheEntry \<Rightarrow> bool" where
  "entry_ok ttl e \<longleftrightarrow> (if ce_revoked e then ce_expires e = None else ttl > 0 \<and> ce_expires e \<noteq> None)"

definition checker_ok :: "ControlPlaneChecker \<Rightarrow> bool" where
  "checker_ok c \<longleftrightarrow> (\<forall>jti e. rc_cache c jti = Some e \<longrightarrow> entry_ok (rc_NegativeTTL c) e)"

inductive checks :: "'w transport \<Rightarrow> ('w \<Rightarrow> int) \<Rightarrow> ControlPlaneChecker \<Rightarrow> ControlPlaneChecker \<Rightarrow> bool"
  for Do clock where
  checks_none: "checks Do clock c c"
| checks_step: "checks Do clock c c1 \<Longrightarrow> IsRevoked Do clock jti c1 w = (r, c2, w') \<Longrightarrow> checks Do clock c c2"

inductive_cases checks_cases: "checks Do clock c c'"

lemma consult_cache:
  "consult Do clock jti c w = (r, c', w') \<Longrightarrow>
     rc_NegativeTTL c' = rc_NegativeTTL c \<and>
     (c' = c \<or> (\<exists>e. rc_cache c' = (rc_cache c)(jti \<mapsto> e) \<and> entry_ok (rc_NegativeTTL c) e))"
  by (auto simp: consult_def entry_ok_def split: prod.splits sum.splits if_splits)

lemma IsRevoked_ok:
  assumes "checker_ok c" and "IsRevoked Do clock jti c w = (r, c', w')"
  shows "checker_ok c'"
proof -
  have *: "checker_ok c2" if "checker_ok c1" "consult Do clock jti c1 w = (r, c2, w')" for c1 c2
    using consult_cache [OF that(2)] that(1) by (auto simp: checker_ok_def split: if_splits)
  have "checker_ok (c\<lparr>rc_cache := (rc_cache c)(jti := None)\<rparr>)" using assms(1) by (auto simp: checker_ok_def)
  then show ?thesis
    using assms * by (auto simp: IsRevoked_def split: if_splits option.splits)
qed

text \<open>A permanent entry survives every check.\<close>

lemma IsRevoked_keeps_permanent:
  assumes "rc_cache c j = Some \<lparr>ce_revoked = True, ce_expires = None\<rparr>"
    and "IsRevoked Do clock jti c w = (r, c', w')"
  shows "rc_cache c' j = Some \<lparr>ce_revoked = True, ce_expires = None\<rparr>"
proof (cases "jti = j")
  case True
  then show ?thesis using assms by (auto simp: IsRevoked_def live_def split: if_splits)
next
  case False
  have *: "rc_cache c2 j = rc_cache c1 j" if "consult Do clock jti c1 w = (r, c2, w')" for c1 c2
    using consult_cache [OF that] False by auto
  show ?thesis
    using assms False * by (auto simp: IsRevoked_def split: if_splits option.splits)
qed

lemma checks_ok: "checks Do clock c c' \<Longrightarrow> checker_ok c \<Longrightarrow> checker_ok c'"
  by (induction rule: checks.induct) (auto intro: IsRevoked_ok)

lemma checks_keep_permanent:
  "checks Do clock c c' \<Longrightarrow> rc_cache c j = Some \<lparr>ce_revoked = True, ce_expires = None\<rparr> \<Longrightarrow>
    rc_cache c' j = Some \<lparr>ce_revoked = True, ce_expires = None\<rparr>"
  by (induction rule: checks.induct) (auto intro: IsRevoked_keeps_permanent)

lemma checks_NegativeTTL: "checks Do clock c c' \<Longrightarrow> rc_NegativeTTL c' = rc_NegativeTTL c"
proof (induction rule: checks.induct)
  case (checks_step c c1 jti w r c2 w')
  then show ?case
    using consult_cache [of Do clock jti _ w r c2 w']
    by (fastforce simp: IsRevoked_def split: if_splits option.splits)
qed simp

lemma checker_ok_New: "checker_ok (New_checker baseURL apiKey)"
  by (simp add: checker_ok_def New_checker_def)

section \<open>Properties\<close>

text \<open>
  C23. Revocation is monotone at the sidecar: a token that was once reported revoked, without an
  error, is reported revoked by every later check, after any number of checks of this and other
  tokens, at any time and whatever the control plane then answers.
\<close>

theorem revoked_stays_revoked:
  assumes "checker_ok c" and "IsRevoked Do clock jti c w = ((True, None), c1, w1)"
    and "checks Do clock c1 c2"
  shows "IsRevoked Do clock jti c2 w2 = ((True, None), c2, w2)"
proof (cases "jti = []")
  case False
  have "rc_cache c1 jti = Some \<lparr>ce_revoked = True, ce_expires = None\<rparr>"
  proof (cases "rc_cache c jti")
    case None
    then show ?thesis using assms(2) False
      by (auto simp: IsRevoked_def consult_def split: prod.splits sum.splits if_splits)
  next
    case (Some e)
    have perm: "e = \<lparr>ce_revoked = True, ce_expires = None\<rparr>" if "ce_revoked e"
      using assms(1) Some that unfolding checker_ok_def entry_ok_def by (cases e) fastforce
    show ?thesis using assms(2) False Some perm
      by (auto simp: IsRevoked_def consult_def split: prod.splits sum.splits if_splits)
  qed
  then show ?thesis
    using checks_keep_permanent [OF assms(3)] False by (simp add: IsRevoked_def live_def)
qed (simp add: IsRevoked_def)

text \<open>A control plane for the instance: it answers with a revoke event until its clock is 5.\<close>

definition sample_denylist :: "int transport" where
  "sample_denylist rq w =
     (if w < 5 then (Inr \<lparr>rs_StatusCode = 200,
           rs_Body = Marshal (JObj [(''events'', JArr [JObj [(''Event'', JStr ''revoke'')]])])\<rparr>, w + 1)
      else (Inl (Err ''unreachable''), w + 1))"

lemma revoked_stays_revoked_witness:
  "IsRevoked sample_denylist id ''j'' (New_checker ''u'' ''k'') 0
     = ((True, None), (New_checker ''u'' ''k'')\<lparr>rc_cache := [''j'' \<mapsto> \<lparr>ce_revoked = True, ce_expires = None\<rparr>]\<rparr>, 1) \<and>
   fst (IsRevoked sample_denylist id ''j''
     ((New_checker ''u'' ''k'')\<lparr>rc_cache := [''j'' \<mapsto> \<lparr>ce_revoked = True, ce_expires = None\<rparr>]\<rparr>) 9) = (True, None)"
proof -
  have "revocation_fetch sample_denylist (New_checker ''u'' ''k'') ''j'' 0 = (Inr True, 1)" by code_simp
  then have "IsRevoked sample_denylist id ''j'' (New_checker ''u'' ''k'') 0
     = ((True, None), (New_checker ''u'' ''k'')\<lparr>rc_cache := [''j'' \<mapsto> \<lparr>ce_revoked = True, ce_expires = None\<rparr>]\<rparr>, 1)"
    by (simp add: IsRevoked_def consult_def New_checker_def)
  with revoked_stays_revoked [OF checker_ok_New this checks_none, of 9] show ?thesis by simp
qed

text \<open>
  The check fails closed: "not revoked" is only said without an error, for a named token,
  and on the control plane's own word; with the default setting, that is an answer of this very
  call, with status 200 and a body that decodes and has no revoke event.
\<close>

theorem not_revoked_is_the_control_planes_word:
  assumes "checker_ok c" and "IsRevoked Do clock jti c w = ((False, err), c', w')"
  shows "err = None \<and> jti \<noteq> [] \<and>
    ((\<exists>resp events. Do (audit_request c jti) w = (Inr resp, w') \<and> rs_StatusCode resp = 200 \<and>
        Option.bind (Decode (rs_Body resp)) events_body_of_json = Some events \<and> ''revoke'' \<notin> fst ` set events)
     \<or> rc_NegativeTTL c > 0 \<and> (\<exists>t. rc_cache c jti = Some \<lparr>ce_revoked = False, ce_expires = Some t\<rparr> \<and> clock w < t))"
proof -
  have fetched: "err = None \<and> (\<exists>resp events. Do (audit_request c jti) w = (Inr resp, w') \<and> rs_StatusCode resp = 200 \<and>
        Option.bind (Decode (rs_Body resp)) events_body_of_json = Some events \<and> ''revoke'' \<notin> fst ` set events)"
    if "consult Do clock jti (c\<lparr>rc_cache := m\<rparr>) w = ((False, err), c', w')" for m
    using that
    by (auto simp: consult_def revocation_fetch_def audit_request_def StatusOK_def list_ex_iff
        split: prod.splits sum.splits if_splits option.splits)
  have j: "jti \<noteq> []" using assms(2) by (auto simp: IsRevoked_def)
  show ?thesis
  proof (cases "rc_cache c jti")
    case None
    then have "consult Do clock jti (c\<lparr>rc_cache := rc_cache c\<rparr>) w = ((False, err), c', w')"
      using assms(2) j by (simp add: IsRevoked_def)
    then show ?thesis using fetched j by blast
  next
    case (Some e)
    show ?thesis
    proof (cases "live (clock w) e")
      case True
      then have e: "\<not> ce_revoked e" "err = None" using assms(2) j Some by (auto simp: IsRevoked_def)
      then have "rc_NegativeTTL c > 0" "ce_expires e \<noteq> None" using assms(1) Some by (auto simp: checker_ok_def entry_ok_def split: if_splits)
      then show ?thesis using True e j Some by (cases e) (auto simp: live_def)
    next
      case False
      then show ?thesis using assms(2) j Some fetched [of "(rc_cache c)(jti := None)"] by (simp add: IsRevoked_def)
    qed
  qed
qed

definition sample_clear :: "int transport" where
  "sample_clear rq w =
     (Inr \<lparr>rs_StatusCode = 200, rs_Body = Marshal (JObj [(''events'', JArr [JObj [(''Event'', JStr ''issue'')]])])\<rparr>, w + 1)"

lemma not_revoked_is_the_control_planes_word_witness:
  "IsRevoked sample_clear id ''j'' (New_checker ''u'' ''k'') 0 = ((False, None), New_checker ''u'' ''k'', 1) \<and>
   (\<exists>resp. sample_clear (audit_request (New_checker ''u'' ''k'') ''j'') 0 = (Inr resp, 1) \<and> rs_StatusCode resp = 200)"
proof -
  have "revocation_fetch sample_clear (New_checker ''u'' ''k'') ''j'' 0 = (Inr False, 1)" by code_simp
  then have "IsRevoked sample_clear id ''j'' (New_checker ''u'' ''k'') 0 = ((False, None), New_checker ''u'' ''k'', 1)"
    by (simp add: IsRevoked_def consult_def New_checker_def)
  with not_revoked_is_the_control_planes_word [OF checker_ok_New this] show ?thesis
    by (auto simp: New_checker_def)
qed

end
