(* ===== verification/Key_Source.thy ===== *)
theory Key_Source
  imports Protocol_Token Services
begin

text \<open>
  pkg/keysource: the sidecar's verifier over the control plane's published keys. The set of keys
  is a cache that is fetched again when it is old, and once more when a token names a key that
  is not in it. The verifier's own state is passed through its operations next to the state of
  the world, so that it is an instance of the interface \<open>verifier\<close>.
\<close>

section \<open>Loading the keys over HTTP\<close>

definition zero_key :: PublicKey where
  "zero_key = \<lparr>pk_KID = [], pk_Alg = [], pk_Public = []\<rparr>"

definition key_of_json :: "json \<Rightarrow> PublicKey option" where
  "key_of_json v =
     dec_struct False [''kid'', ''alg'', ''public'']
       (\<lambda>f v k.
          if f = ''kid'' then map_option (\<lambda>x. k\<lparr>pk_KID := x\<rparr>) (dec_string v (pk_KID k))
          else if f = ''alg'' then map_option (\<lambda>x. k\<lparr>pk_Alg := x\<rparr>) (dec_string v (pk_Alg k))
          else map_option (\<lambda>x. k\<lparr>pk_Public := x\<rparr>) (dec_string v (pk_Public k)))
       v zero_key"

definition jwks_of_json :: "json \<Rightarrow> PublicJWKS option" where
  "jwks_of_json v =
     dec_struct False [''issuer'', ''keys'']
       (\<lambda>f v j.
          if f = ''issuer'' then map_option (\<lambda>x. j\<lparr>jwks_Issuer := x\<rparr>) (dec_string v (jwks_Issuer j))
          else map_option (\<lambda>x. j\<lparr>jwks_Keys := case_option [] id x\<rparr>) (dec_slice key_of_json v))
       v \<lparr>jwks_Issuer = [], jwks_Keys = []\<rparr>"

definition keys_error :: "go_error \<Rightarrow> go_error" where
  "keys_error e = (case e of Denial r \<Rightarrow> Denial r | Err m \<Rightarrow> Err (''keys: '' @ m))"

definition keys_Fetch :: "'w transport \<Rightarrow> string \<Rightarrow> 'w \<Rightarrow> PublicJWKS result \<times> 'w" where
  "keys_Fetch Do BaseURL w =
     (case Do \<lparr>rq_Method = ''GET'', rq_URL = BaseURL @ ''/v1/keys'', rq_Header = [], rq_Body = []\<rparr> w of
        (Inl e, w) \<Rightarrow> (Inl (keys_error e), w)
      | (Inr resp, w) \<Rightarrow>
          if rs_StatusCode resp \<noteq> StatusOK then
            (Inl (Err (''keys: control plane returned '' @ itoa (rs_StatusCode resp))), w)
          else
            (case Option.bind (Decode (rs_Body resp)) jwks_of_json of
               None \<Rightarrow> (Inl (Err ''keys: decode''), w)
             | Some jwks \<Rightarrow>
                 if length (jwks_Keys jwks) = 0 then (Inl (Err ''keys: control plane published no keys''), w)
                 else (Inr jwks, w)))"

section \<open>The verifier\<close>

record key_cache =
  kv_hasFetcher :: bool
  kv_ttl :: int
  kv_current :: "KeySetVerifier option"
  kv_fetched :: int
  kv_lastErr :: "go_error option"

type_synonym 'w key_fetcher = "'w \<Rightarrow> PublicJWKS result \<times> 'w"

definition kv_refresh ::
  "'w key_fetcher \<Rightarrow> ('w \<Rightarrow> int) \<Rightarrow> key_cache \<Rightarrow> 'w \<Rightarrow> unit result \<times> key_cache \<times> 'w"
where
  "kv_refresh fetch clock v w =
     (if \<not> kv_hasFetcher v then (Inl (Err ''keys: no fetcher configured''), v, w)
      else
        (case fetch w of
           (Inl e, w) \<Rightarrow> (Inl e, v\<lparr>kv_lastErr := Some e\<rparr>, w)
         | (Inr jwks, w) \<Rightarrow>
             (case NewKeySetVerifier (jwks_Keys jwks) of
                Inl e \<Rightarrow> (Inl e, v\<lparr>kv_lastErr := Some e\<rparr>, w)
              | Inr ks \<Rightarrow>
                  (Inr (), v\<lparr>kv_current := Some ks, kv_fetched := clock w, kv_lastErr := None\<rparr>, w))))"

definition New_key_cache ::
  "'w key_fetcher \<Rightarrow> ('w \<Rightarrow> int) \<Rightarrow> int \<Rightarrow> 'w \<Rightarrow> key_cache result \<times> 'w"
where
  "New_key_cache fetch clock ttl w =
     (case kv_refresh fetch clock
             \<lparr>kv_hasFetcher = True, kv_ttl = ttl, kv_current = None, kv_fetched = 0, kv_lastErr = None\<rparr> w of
        (Inl e, _, w) \<Rightarrow> (Inl e, w)
      | (Inr _, v, w) \<Rightarrow> (Inr v, w))"

definition NewFromKeys :: "PublicKey list \<Rightarrow> key_cache result" where
  "NewFromKeys keys =
     (case NewKeySetVerifier keys of
        Inl e \<Rightarrow> Inl e
      | Inr ks \<Rightarrow>
          Inr \<lparr>kv_hasFetcher = False, kv_ttl = 0, kv_current = Some ks, kv_fetched = 0, kv_lastErr = None\<rparr>)"

text \<open>\<open>keySet\<close>: a nil set that a successful refresh cannot leave behind is the empty one.\<close>

definition keySet ::
  "'w key_fetcher \<Rightarrow> ('w \<Rightarrow> int) \<Rightarrow> key_cache \<Rightarrow> 'w \<Rightarrow> KeySetVerifier result \<times> key_cache \<times> 'w"
where
  "keySet fetch clock v w =
     (if kv_current v \<noteq> None \<and> (kv_ttl v \<le> 0 \<or> time_Sub (clock w) (kv_fetched v) < kv_ttl v) then
        (Inr (case_option [] id (kv_current v)), v, w)
      else
        (case kv_refresh fetch clock v w of
           (Inl e, v', w) \<Rightarrow>
             (case kv_current v of
                Some ks \<Rightarrow> (Inr ks, v', w)
              | None \<Rightarrow> (Inl e, v', w))
         | (Inr _, v, w) \<Rightarrow> (Inr (case_option [] id (kv_current v)), v, w)))"

definition kv_VerifyWith ::
  "crypto \<Rightarrow> 'w key_fetcher \<Rightarrow> ('w \<Rightarrow> int) \<Rightarrow> string \<Rightarrow> string \<Rightarrow> string \<Rightarrow> key_cache \<times> 'w
    \<Rightarrow> Header result \<times> key_cache \<times> 'w"
where
  "kv_VerifyWith C fetch clock kid alg jws s =
     (case keySet fetch clock (fst s) (snd s) of
        (Inl _, s) \<Rightarrow> (Inl (NewDenial ReasonKeystoreUnreachable), s)
      | (Inr ks, s) \<Rightarrow>
          (case KeySet_VerifyWith C ks kid alg jws of
             Inr hdr \<Rightarrow> (Inr hdr, s)
           | Inl verr \<Rightarrow>
               if ReasonOf verr \<noteq> ReasonKidUnknown then (Inl verr, s)
               else
                 (case kv_refresh fetch clock (fst s) (snd s) of
                    (Inl _, s) \<Rightarrow> (Inl verr, s)
                  | (Inr _, s) \<Rightarrow>
                      (case keySet fetch clock (fst s) (snd s) of
                         (Inl _, s) \<Rightarrow> (Inl verr, s)
                       | (Inr ks, s) \<Rightarrow> (KeySet_VerifyWith C ks kid alg jws, s)))))"

definition kv_Verify ::
  "crypto \<Rightarrow> 'w key_fetcher \<Rightarrow> ('w \<Rightarrow> int) \<Rightarrow> string \<Rightarrow> key_cache \<times> 'w \<Rightarrow> Header result \<times> key_cache \<times> 'w"
where
  "kv_Verify C fetch clock jws s =
     (case DecodeHeader jws of
        Inl e \<Rightarrow> (Inl e, s)
      | Inr hdr \<Rightarrow> kv_VerifyWith C fetch clock (h_Kid hdr) (h_Alg hdr) jws s)"

definition KeyCount :: "key_cache \<Rightarrow> nat" where
  "KeyCount v = (case kv_current v of None \<Rightarrow> 0 | Some ks \<Rightarrow> length ks)"

section \<open>The key set as a cache\<close>

definition fetched_keys :: "'w key_fetcher \<Rightarrow> 'w \<Rightarrow> KeySetVerifier \<Rightarrow> bool" where
  "fetched_keys fetch w ks \<longleftrightarrow> (\<exists>jwks w'. fetch w = (Inr jwks, w') \<and> NewKeySetVerifier (jwks_Keys jwks) = Inr ks)"

lemma kv_refresh_Inr: "kv_refresh fetch clock v w = (Inr u, v', w') \<Longrightarrow>
    \<exists>ks. kv_current v' = Some ks \<and> fetched_keys fetch w ks \<and> kv_fetched v' = clock w' \<and>
      kv_ttl v' = kv_ttl v \<and> kv_hasFetcher v'"
  by (auto simp: kv_refresh_def fetched_keys_def split: if_splits prod.splits sum.splits)

lemma kv_refresh_Inl: "kv_refresh fetch clock v w = (Inl e, v', w') \<Longrightarrow> kv_current v' = kv_current v"
  by (auto simp: kv_refresh_def split: if_splits prod.splits sum.splits)

lemma keySet_warm:
  assumes "kv_current v = Some ks"
  shows "\<exists>ks' v' w'. keySet fetch clock v w = (Inr ks', v', w') \<and> kv_current v' = Some ks' \<and>
    (ks' = ks \<or> fetched_keys fetch w ks')"
proof (cases "kv_refresh fetch clock v w")
  case (fields r v' w')
  then show ?thesis
    using assms kv_refresh_Inr [of fetch clock v w _ v' w'] kv_refresh_Inl [of fetch clock v w _ v' w']
    by (cases r) (auto simp: keySet_def)
qed

lemma keySet_cold:
  assumes "kv_current v = None"
  shows "(\<exists>ks' v' w'. keySet fetch clock v w = (Inr ks', v', w') \<and> kv_current v' = Some ks' \<and>
       fetched_keys fetch w ks') \<or>
    (\<exists>e v' w'. keySet fetch clock v w = (Inl e, v', w') \<and> kv_current v' = None)"
proof (cases "kv_refresh fetch clock v w")
  case (fields r v' w')
  then show ?thesis
    using assms kv_refresh_Inr [of fetch clock v w _ v' w'] kv_refresh_Inl [of fetch clock v w _ v' w']
    by (cases r) (auto simp: keySet_def)
qed

interpretation key_sets: fetch_cache kv_current "keySet fetch clock" "\<lambda>_. fetched_keys fetch"
  for fetch clock
proof unfold_locales
  fix v v' :: key_cache and w w' ks e
  show "kv_current v' = Some ks" if "keySet fetch clock v w = (Inr ks, v', w')"
    using that keySet_warm [of v _ fetch clock w] keySet_cold [of v fetch clock w]
    by (cases "kv_current v") auto
  show "\<exists>ks' v' w'. keySet fetch clock v w = (Inr ks', v', w') \<and> (ks' = ks \<or> fetched_keys fetch w ks')"
    if "kv_current v = Some ks"
    using keySet_warm [OF that, of fetch clock w] by blast
  show "fetched_keys fetch w ks" if "kv_current v = None" "keySet fetch clock v w = (Inr ks, v', w')"
    using that keySet_cold [of v fetch clock w] by auto
  show "kv_current v' = None" if "keySet fetch clock v w = (Inl e, v', w')"
    using that keySet_warm [of v _ fetch clock w] keySet_cold [of v fetch clock w]
    by (cases "kv_current v") auto
qed

section \<open>The verifier as a verifier\<close>

lemma KeySet_VerifyWith_Inr:
  assumes "KeySet_VerifyWith C ks kid alg jws = Inr h" and "DecodeHeader jws = Inr hdr"
    and "kid = h_Kid hdr" and "alg = h_Alg hdr"
  shows "KeySet_Verify C ks jws = Inr h"
  using assms by (simp add: KeySet_Verify_def)

lemma kv_VerifyWith_Inr:
  assumes "kv_VerifyWith C fetch clock kid alg jws s = (Inr h, s')"
  shows "\<exists>ks. kv_current (fst s') = Some ks \<and> KeySet_VerifyWith C ks kid alg jws = Inr h"
proof -
  obtain r1 v1 w1 where k1: "keySet fetch clock (fst s) (snd s) = (r1, v1, w1)" by (metis prod_cases3)
  then obtain ks where r1: "r1 = Inr ks" using assms by (cases r1) (auto simp: kv_VerifyWith_def)
  have c1: "kv_current v1 = Some ks" using key_sets.get_hands_out k1 r1 by metis
  show ?thesis
  proof (cases "KeySet_VerifyWith C ks kid alg jws")
    case (Inr h')
    then show ?thesis using assms k1 r1 c1 by (auto simp: kv_VerifyWith_def)
  next
    case (Inl verr)
    obtain r2 v2 w2 where k2: "kv_refresh fetch clock v1 w1 = (r2, v2, w2)" by (metis prod_cases3)
    obtain r3 v3 w3 where k3: "keySet fetch clock v2 w2 = (r3, v3, w3)" by (metis prod_cases3)
    obtain ks3 where r3: "r3 = Inr ks3" "s' = (v3, w3)" "KeySet_VerifyWith C ks3 kid alg jws = Inr h"
      using assms k1 r1 k2 k3 Inl by (cases r2; cases r3) (auto simp: kv_VerifyWith_def split: if_splits)
    then show ?thesis using key_sets.get_hands_out [of fetch clock v2 w2] k3 by auto
  qed
qed

interpretation published: verifier "kv_Verify C fetch clock"
  "\<lambda>s h m sig. \<exists>ks k. kv_current (fst s) = Some ks \<and> map_of ks (h_Kid h) = Some k \<and> pk_Alg k = h_Alg h \<and>
     verifyWithPublicKey C k m sig = Inr ()"
  for C fetch clock
proof unfold_locales
  fix jws :: string and s s' :: "key_cache \<times> 'a" and h
  assume "kv_Verify C fetch clock jws s = (Inr h, s')"
  then obtain hdr where hdr: "DecodeHeader jws = Inr hdr" "kv_VerifyWith C fetch clock (h_Kid hdr) (h_Alg hdr) jws s = (Inr h, s')"
    by (auto simp: kv_Verify_def split: sum.splits)
  obtain ks where ks: "kv_current (fst s') = Some ks" "KeySet_VerifyWith C ks (h_Kid hdr) (h_Alg hdr) jws = Inr h"
    using kv_VerifyWith_Inr [OF hdr(2)] by blast
  from KeySet_Verify_Inr [OF KeySet_VerifyWith_Inr [OF ks(2) hdr(1) refl refl]] ks(1)
  show "DecodeHeader jws = Inr h \<and>
       (\<exists>p0 p1 p2 sig. split_on (CHR ''.'') jws = [p0, p1, p2] \<and> b64decode p2 = Some sig \<and>
          (\<exists>ks k. kv_current (fst s') = Some ks \<and> map_of ks (h_Kid h) = Some k \<and> pk_Alg k = h_Alg h \<and>
             verifyWithPublicKey C k (p0 @ ''.'' @ p1) sig = Inr ()))"
    by blast
qed


text \<open>Where the keys of a verifier come from: the set it had, or one that was fetched.\<close>

definition origin_ok :: "'w key_fetcher \<Rightarrow> KeySetVerifier option \<Rightarrow> KeySetVerifier option \<Rightarrow> bool" where
  "origin_ok fetch before' after \<longleftrightarrow> after = before' \<or> (\<exists>ks w. after = Some ks \<and> fetched_keys fetch w ks)"

lemma origin_ok_trans: "origin_ok fetch a b \<Longrightarrow> origin_ok fetch b c \<Longrightarrow> origin_ok fetch a c"
  by (auto simp: origin_ok_def)

lemma kv_refresh_origin: "kv_refresh fetch clock v w = (r, v', w') \<Longrightarrow> origin_ok fetch (kv_current v) (kv_current v')"
  using kv_refresh_Inr [of fetch clock v w _ v' w'] kv_refresh_Inl [of fetch clock v w _ v' w']
  by (cases r) (auto simp: origin_ok_def)

lemma keySet_origin: "keySet fetch clock v w = (r, v', w') \<Longrightarrow> origin_ok fetch (kv_current v) (kv_current v')"
  using keySet_warm [of v _ fetch clock w] keySet_cold [of v fetch clock w]
  by (cases "kv_current v") (auto simp: origin_ok_def)

lemma kv_VerifyWith_origin:
  assumes "kv_VerifyWith C fetch clock kid alg jws (v, w) = (r, v', w')"
  shows "origin_ok fetch (kv_current v) (kv_current v')"
proof -
  obtain r1 v1 w1 where k1: "keySet fetch clock v w = (r1, v1, w1)" by (metis prod_cases3)
  obtain r2 v2 w2 where k2: "kv_refresh fetch clock v1 w1 = (r2, v2, w2)" by (metis prod_cases3)
  obtain r3 v3 w3 where k3: "keySet fetch clock v2 w2 = (r3, v3, w3)" by (metis prod_cases3)
  have "v' \<in> {v1, v2, v3}"
    using assms k1 k2 k3 by (auto simp: kv_VerifyWith_def split: sum.splits if_splits)
  then show ?thesis
    using keySet_origin [OF k1] kv_refresh_origin [OF k2] keySet_origin [OF k3] origin_ok_trans by blast
qed

section \<open>Properties\<close>

text \<open>
  C28. The sidecar accepts a signature only under a key the control plane published: the set that
  verified the token is the one it held or one that was fetched, the token's own key id and
  algorithm select the key in it, and the signature over the token's first two parts verifies
  under that key. Whatever happens, the keys it holds afterwards are the old ones or fetched.
\<close>

theorem only_published_keys_verify:
  "case kv_Verify C fetch clock jws (v, w) of
     (Inl _, v', _) \<Rightarrow> origin_ok fetch (kv_current v) (kv_current v')
   | (Inr h, v', _) \<Rightarrow>
       origin_ok fetch (kv_current v) (kv_current v') \<and> DecodeHeader jws = Inr h \<and>
       (\<exists>ks k p0 p1 p2 sig. kv_current v' = Some ks \<and> split_on (CHR ''.'') jws = [p0, p1, p2] \<and>
          b64decode p2 = Some sig \<and> map_of ks (h_Kid h) = Some k \<and> pk_Alg k = h_Alg h \<and>
          signature_valid C k (p0 @ ''.'' @ p1) sig)"
proof -
  obtain r v' w' where r: "kv_Verify C fetch clock jws (v, w) = (r, v', w')" by (metis prod_cases3)
  then have o: "origin_ok fetch (kv_current v) (kv_current v')"
    using kv_VerifyWith_origin [of C fetch clock _ _ jws v w r v' w']
    by (auto simp: kv_Verify_def origin_ok_def split: sum.splits)
  show ?thesis
  proof (cases r)
    case (Inr h)
    then show ?thesis
      using r o published.checked [of C fetch clock jws "(v, w)" h "(v', w')", unfolded verifyWithPublicKey_Inr] by auto
  qed (use r o in simp)
qed

text \<open>
  A rotation takes effect without a restart: a token whose key id the current set does not
  have is verified against the set that the control plane publishes now, in the same call, and
  the verifier holds that set afterwards.
\<close>

theorem rotation_needs_no_restart:
  assumes "kv_current v = Some ks" and "kv_hasFetcher v"
    and "kv_ttl v \<le> 0 \<or> time_Sub (clock w) (kv_fetched v) < kv_ttl v"
    and "DecodeHeader jws = Inr hdr" and "map_of ks (h_Kid hdr) = None"
    and "fetch w = (Inr jwks, w1)" and "NewKeySetVerifier (jwks_Keys jwks) = Inr ks1"
  shows "kv_Verify C fetch clock jws (v, w) =
    (KeySet_VerifyWith C ks1 (h_Kid hdr) (h_Alg hdr) jws,
     v\<lparr>kv_current := Some ks1, kv_fetched := clock w1, kv_lastErr := None\<rparr>, w1)"
proof -
  let ?v = "v\<lparr>kv_current := Some ks1, kv_fetched := clock w1, kv_lastErr := None\<rparr>"
  have "keySet fetch clock v w = (Inr ks, v, w)" using assms(1,3) by (simp add: keySet_def)
  moreover have "kv_refresh fetch clock v w = (Inr (), ?v, w1)" using assms(2,6,7) by (simp add: kv_refresh_def)
  moreover have "kv_ttl v \<le> 0 \<or> time_Sub (clock w1) (clock w1) < kv_ttl v" by (auto simp: time_Sub_def)
  then have "keySet fetch clock ?v w1 = (Inr ks1, ?v, w1)" by (simp add: keySet_def)
  moreover have "KeySet_VerifyWith C ks (h_Kid hdr) (h_Alg hdr) jws = Inl (NewDenial ReasonKidUnknown)"
    using assms(5) by (simp add: KeySet_VerifyWith_def)
  ultimately show ?thesis using assms(4) by (simp add: kv_Verify_def kv_VerifyWith_def NewDenial_def)
qed

text \<open>A control plane that publishes the key of the sample signer; the verifier starts with none of it.\<close>

definition sample_fetcher :: "int key_fetcher" where
  "sample_fetcher w =
     (Inr \<lparr>jwks_Issuer = ''https://keys.example'', jwks_Keys = Ed25519_PublicKeys sample_crypto sample_signer\<rparr>, w + 1)"

definition sample_key_cache :: key_cache where
  "sample_key_cache = \<lparr>kv_hasFetcher = True, kv_ttl = 0, kv_current = Some [], kv_fetched = 0, kv_lastErr = None\<rparr>"

lemma rotation_needs_no_restart_witness:
  "\<exists>jws h v. Ed25519_Sign sample_crypto sample_signer zero_header sample_claims = Inr jws \<and>
     kv_Verify sample_crypto sample_fetcher id jws (sample_key_cache, 4) = (Inr h, v, 5) \<and>
     h_Kid h = ''k1'' \<and> kv_current v \<noteq> Some []"
proof -
  obtain jws where j: "Ed25519_Sign sample_crypto sample_signer zero_header sample_claims = Inr jws"
    by (simp add: Ed25519_Sign_def signCompact_def sample_facts IsAlgorithmAllowed_iff Let_def)
  obtain ks h where k: "NewKeySetVerifier (Ed25519_PublicKeys sample_crypto sample_signer) = Inr ks"
    "KeySet_Verify sample_crypto ks jws = Inr h" and h: "h_Kid h = ''k1''"
    using signed_EdDSA [OF j, of "CHR ''E'' # drop 32 (ed_prv sample_signer)"] sample_facts
    by (auto simp: sample_signer_def sample_crypto_def ed25519_Public_def)
  have d: "DecodeHeader jws = Inr h" "ks \<noteq> []" using KeySet_Verify_Inr [OF k(2)] by auto
  then have v: "KeySet_VerifyWith sample_crypto ks (h_Kid h) (h_Alg h) jws = Inr h"
    using k(2) by (simp add: KeySet_Verify_def)
  have "kv_Verify sample_crypto sample_fetcher id jws (sample_key_cache, 4) =
    (KeySet_VerifyWith sample_crypto ks (h_Kid h) (h_Alg h) jws,
     sample_key_cache\<lparr>kv_current := Some ks, kv_fetched := id 5, kv_lastErr := None\<rparr>, 5)"
    using rotation_needs_no_restart [of sample_key_cache "[]" id 4 jws h sample_fetcher _ 5 ks sample_crypto] k(1) d(1)
    by (simp add: sample_key_cache_def sample_fetcher_def)
  then show ?thesis using j v h d(2) by simp
qed

text \<open>
  Without keys nothing is accepted: a verifier that has no key set and cannot fetch one
  denies every well-formed token with the reason "key store unreachable", and stays without
  keys; one that has keys goes on with them or with fetched ones.
\<close>

theorem keysource_fails_closed:
  "case kv_current v of
     Some _ \<Rightarrow> (case keySet fetch clock v w of (Inl _, _, _) \<Rightarrow> False | (Inr _, v', _) \<Rightarrow> kv_current v' \<noteq> None)
   | None \<Rightarrow>
       if kv_hasFetcher v \<and> \<not> is_err (fst (fetch w)) then True
       else
         kv_current (fst (snd (kv_Verify C fetch clock jws (v, w)))) = None \<and>
         fst (kv_Verify C fetch clock jws (v, w)) =
           (case DecodeHeader jws of Inl e \<Rightarrow> Inl e | Inr _ \<Rightarrow> Inl (Denial ''keystore_unreachable''))"
proof (cases "kv_current v")
  case None
  show ?thesis
  proof (cases "fetch w")
    case (Pair r w1)
    then show ?thesis
      using None
      by (cases r)
        (auto simp: kv_Verify_def kv_VerifyWith_def keySet_def kv_refresh_def NewDenial_def
          ReasonKeystoreUnreachable_def split: sum.splits)
  qed
next
  case (Some ks)
  then show ?thesis using keySet_warm [OF Some, of fetch clock w] by auto
qed

end
