(* ===== verification/Durations.thy ===== *)
theory Durations
  imports Main "HOL-Library.Word"
begin

text \<open>
  \<open>time.Duration\<close>: nanoseconds in 64 bits. The sources multiply a number of seconds that comes
  from outside with \<open>time.Second\<close>, and the product wraps around.
\<close>

definition Second :: int where "Second = 1000000000"
definition Hour :: int where "Hour = 3600 * Second"

definition wrap64 :: "int \<Rightarrow> int" where
  "wrap64 i = sint (word_of_int i :: 64 word)"

definition duration_seconds :: "int \<Rightarrow> int" where
  "duration_seconds n = wrap64 (n * Second)"

text \<open>\<open>int (ttl.Seconds ())\<close>: truncated towards zero.\<close>

definition whole_seconds :: "int \<Rightarrow> int" where
  "whole_seconds d = sgn d * (\<bar>d\<bar> div Second)"

text \<open>\<open>time.Time.Unix\<close> of a time in nanoseconds.\<close>

definition Unix :: "int \<Rightarrow> int" where
  "Unix t = t div Second"

lemma wrap64_range: "- (2 ^ 63) \<le> wrap64 i \<and> wrap64 i < 2 ^ 63"
  using sint_ge [of "word_of_int i :: 64 word"] sint_lt [of "word_of_int i :: 64 word"] by (simp add: wrap64_def)

lemma wrap64_id: "- (2 ^ 63) \<le> i \<Longrightarrow> i < 2 ^ 63 \<Longrightarrow> wrap64 i = i"
  by (simp add: wrap64_def sint_sbintrunc' signed_take_bit_int_eq_self)

lemma duration_seconds_exact: "\<bar>n\<bar> \<le> 9223372036 \<Longrightarrow> duration_seconds n = n * Second"
  unfolding duration_seconds_def by (rule wrap64_id) (auto simp: Second_def)

lemma whole_seconds_duration: "whole_seconds (n * Second) = n"
  by (cases "n < 0") (auto simp: whole_seconds_def Second_def sgn_if abs_mult)

end
