(* ===== verification/Resolve.thy ===== *)
theory Resolve
  imports Redact Protocol_Token Local_Policy Folder_Source Inject Durations
begin

text \<open>
  pkg/resolve: the path on which a capability token becomes plaintext. The resolver's
  collaborators are fields of a record, as in the code; they read and change a state \<open>'w\<close> of the
  world, which is passed through, and so is the memory that holds the data key and the
  plaintext. A redaction that never ends makes the whole operation not return (\<open>None\<close>).
\<close>

section \<open>Requests, results, audit records\<close>

record AuditRecord =
  ar_At :: int
  ar_Event :: string
  ar_JTI :: string
  ar_SID :: string
  ar_Principal :: string
  ar_Host :: string
  ar_Scope :: string
  ar_Outcome :: string
  ar_Reason :: string

record Request =
  rr_TokenURI :: string
  rr_Scope :: string
  rr_Name :: string
  rr_Command :: "string list"
  rr_Principal :: string
  rr_Host :: string
  rr_Origin :: string

record Result =
  re_Descriptor :: string
  re_ExitCode :: int
  re_Stdout :: bytes
  re_Stderr :: bytes

text \<open>
  \<open>Resolver\<close>: nil collaborators are \<open>None\<close> where the code tests for nil. The revocation checker
  answers with a verdict and an error; the clock counts nanoseconds.
\<close>

record 'w Resolver =
  rv_Audience :: string
  rv_Verify :: "string \<Rightarrow> 'w \<Rightarrow> Header result \<times> 'w"
  rv_Revoked :: "(string \<Rightarrow> 'w \<Rightarrow> (bool \<times> go_error option) \<times> 'w) option"
  rv_Policy :: "(policy_query \<Rightarrow> 'w \<Rightarrow> (bool \<times> string) \<times> 'w) option"
  rv_Inject :: "string \<Rightarrow> string \<Rightarrow> bytes \<Rightarrow> string list \<Rightarrow> 'w \<Rightarrow> Outcome result \<times> 'w"
  rv_Load :: "string \<Rightarrow> 'w \<Rightarrow> (ManifestObject \<times> bytes) result \<times> 'w"
  rv_Unwrap :: "(string \<Rightarrow> string \<Rightarrow> 'w \<Rightarrow> bytes result \<times> 'w) option"
  rv_Auditor :: "(AuditRecord \<Rightarrow> 'w \<Rightarrow> 'w) option"
  rv_Now :: "('w \<Rightarrow> int) option"
  rv_HostName :: string

section \<open>Helpers\<close>

definition methodForScope :: "string \<Rightarrow> string" where
  "methodForScope scope =
     (if scope = ScopeInjectEnv \<or> scope = ScopeUnwrap \<or> scope = ScopeRead then ''env''
      else if scope = ScopeInjectFile then ''file''
      else ''env'')"

definition audit :: "'w Resolver \<Rightarrow> AuditRecord \<Rightarrow> 'w \<Rightarrow> 'w" where
  "audit r rec w = (case rv_Auditor r of None \<Rightarrow> w | Some f \<Rightarrow> f rec w)"

definition resolver_host :: "'w Resolver \<Rightarrow> Request \<Rightarrow> string" where
  "resolver_host r req = (if rr_Host req \<noteq> [] then rr_Host req else rv_HostName r)"

definition resolver_now :: "('w \<Rightarrow> int) \<Rightarrow> 'w Resolver \<Rightarrow> 'w \<Rightarrow> int" where
  "resolver_now time_Now r w = (case rv_Now r of None \<Rightarrow> time_Now w | Some f \<Rightarrow> f w)"

text \<open>\<open>deny\<close>: what is recorded of a denial, and the error the caller gets.\<close>

definition denied_ids :: "Request \<Rightarrow> string \<times> string" where
  "denied_ids req =
     (case ParseURI (rr_TokenURI req) of
        Inl _ \<Rightarrow> ([], [])
      | Inr parsed \<Rightarrow>
          (p_SID parsed, case DecodeClaims (p_JWS parsed) of Inl _ \<Rightarrow> [] | Inr c \<Rightarrow> c_JTI c))"

definition denial_reason :: "go_error \<Rightarrow> string" where
  "denial_reason e = (let reason = ReasonOf e in if reason = [] then ReasonMalformed else reason)"

definition denied_record :: "('w \<Rightarrow> int) \<Rightarrow> 'w Resolver \<Rightarrow> Request \<Rightarrow> string \<Rightarrow> 'w \<Rightarrow> AuditRecord" where
  "denied_record time_Now r req reason w =
     \<lparr>ar_At = resolver_now time_Now r w,
      ar_Event = (if reason = ReasonPolicyDenied then ''policy_deny'' else ''deny''),
      ar_JTI = snd (denied_ids req), ar_SID = fst (denied_ids req), ar_Principal = rr_Principal req,
      ar_Host = resolver_host r req, ar_Scope = rr_Scope req, ar_Outcome = ''denied'', ar_Reason = reason\<rparr>"

definition deny :: "('w \<Rightarrow> int) \<Rightarrow> 'w Resolver \<Rightarrow> Request \<Rightarrow> go_error \<Rightarrow> 'w \<Rightarrow> Result result \<times> 'w" where
  "deny time_Now r req e w =
     (let reason = denial_reason e in
      (Inl (NewDenial reason), audit r (denied_record time_Now r req reason w) w))"

definition redactReason :: "report \<Rightarrow> string" where
  "redactReason rep =
     (let classes = (if length (Encodings rep) = 0 then [''unknown''] else Encodings rep) in
      ''redacted '' @ itoa (int (Matches rep)) @ '' match(es): '' @ join_with '','' classes)"

section \<open>Steps 1 and 2: the token and the local policy\<close>

text \<open>\<open>revokedFn\<close>: without a checker nothing is revoked, an error of the checker denies.\<close>

definition revokedFn :: "'w Resolver \<Rightarrow> string \<Rightarrow> 'w \<Rightarrow> bool \<times> 'w" where
  "revokedFn r jti w =
     (case rv_Revoked r of
        None \<Rightarrow> (False, w)
      | Some check \<Rightarrow> (case check jti w of ((ok, err), w) \<Rightarrow> (err \<noteq> None \<or> ok, w)))"

definition query_of :: "Request \<Rightarrow> Claims \<Rightarrow> policy_query" where
  "query_of req c =
     \<lparr>q_principal = c_Sub c, q_sid = c_SID c, q_scope = rr_Scope req, q_aud = c_Aud c,
      q_injection = methodForScope (rr_Scope req), q_command = rr_Command req,
      q_origin = EffectiveOrigin (rr_Origin req)\<rparr>"

definition authorise ::
  "('w \<Rightarrow> int) \<Rightarrow> 'w Resolver \<Rightarrow> Request \<Rightarrow> 'w \<Rightarrow> Claims result \<times> 'w"
where
  "authorise time_Now r req w =
     (case ParseURI (rr_TokenURI req) of
        Inl e \<Rightarrow> (Inl e, w)
      | Inr parsed \<Rightarrow>
          (case VerifyToken (rv_Verify r) parsed (rv_Audience r) (Unix (resolver_now time_Now r w))
                  (Some (revokedFn r)) w of
             (Inl e, w) \<Rightarrow> (Inl e, w)
           | (Inr c, w) \<Rightarrow>
               if rr_Scope req \<noteq> [] \<and> \<not> ScopeAllows (c_Scope c) (rr_Scope req) then
                 (Inl (NewDenial ReasonScopeNotGranted), w)
               else
                 (case rv_Policy r of
                    None \<Rightarrow> (Inr c, w)
                  | Some allow \<Rightarrow>
                      (case allow (query_of req c) w of
                         ((allowed, rule), w) \<Rightarrow>
                           if allowed then (Inr c, w)
                           else (Inl (NewDenial (if rule \<noteq> [] then rule else ReasonPolicyDenied)), w)))))"

section \<open>Steps 3 and 4: the object and its key\<close>

definition unwrap_dek :: "'w Resolver \<Rightarrow> Claims \<Rightarrow> 'w \<Rightarrow> (ManifestObject \<times> bytes \<times> bytes) result \<times> 'w" where
  "unwrap_dek r c w =
     (case rv_Load r (c_SID c) w of
        (Inl _, w) \<Rightarrow> (Inl (NewDenial ReasonMalformed), w)
      | (Inr (ob, ciphertext), w) \<Rightarrow>
          (case rv_Unwrap r of
             None \<Rightarrow> (Inl (NewDenial ReasonKeystoreUnreachable), w)
           | Some unwrap \<Rightarrow>
               (case unwrap (o_WrappingKID ob) (o_WrappedKey ob) w of
                  (Inl _, w) \<Rightarrow> (Inl (NewDenial ReasonKeystoreUnreachable), w)
                | (Inr dek, w) \<Rightarrow> (Inr (ob, ciphertext, dek), w))))"

section \<open>Steps 6 to 8: injection, redaction, audit\<close>

definition success_record ::
  "('w \<Rightarrow> int) \<Rightarrow> 'w Resolver \<Rightarrow> Request \<Rightarrow> Claims \<Rightarrow> string \<Rightarrow> string \<Rightarrow> 'w \<Rightarrow> AuditRecord"
where
  "success_record time_Now r req c event reason w =
     \<lparr>ar_At = resolver_now time_Now r w, ar_Event = event, ar_JTI = c_JTI c, ar_SID = c_SID c,
      ar_Principal = c_Sub c, ar_Host = resolver_host r req, ar_Scope = rr_Scope req,
      ar_Outcome = ''allowed'', ar_Reason = reason\<rparr>"

text \<open>One stream through a fresh scanner, with its audit record.\<close>

definition scan_stream ::
  "('w \<Rightarrow> int) \<Rightarrow> 'w Resolver \<Rightarrow> Request \<Rightarrow> Claims \<Rightarrow> bytes \<Rightarrow> bytes \<Rightarrow> 'w \<Rightarrow> (bytes \<times> 'w) option"
where
  "scan_stream time_Now r req c value out w =
     (case Scan (New value) out of
        None \<Rightarrow> None
      | Some (out', rep) \<Rightarrow>
          Some (out', if Redacted rep
                      then audit r (success_record time_Now r req c ''redact'' (redactReason rep) w) w
                      else w))"

definition relay ::
  "('w \<Rightarrow> int) \<Rightarrow> 'w Resolver \<Rightarrow> Request \<Rightarrow> Claims \<Rightarrow> bytes \<Rightarrow> Outcome \<Rightarrow> 'w \<Rightarrow> ((bytes \<times> bytes) \<times> 'w) option"
where
  "relay time_Now r req c value oc w =
     (if length (oc_Stdout oc) > 0 \<or> length (oc_Stderr oc) > 0 then
        (case scan_stream time_Now r req c value (oc_Stdout oc) w of
           None \<Rightarrow> None
         | Some (out, w) \<Rightarrow>
             (case scan_stream time_Now r req c value (oc_Stderr oc) w of
                None \<Rightarrow> None
              | Some (err, w) \<Rightarrow> Some ((out, err), w)))
      else Some ((oc_Stdout oc, oc_Stderr oc), w))"

definition exit_reason :: "int \<Rightarrow> string" where
  "exit_reason code = (if code \<noteq> 0 then ''command_exit_'' @ itoa code else [])"

definition deliver ::
  "('w \<Rightarrow> int) \<Rightarrow> 'w Resolver \<Rightarrow> Request \<Rightarrow> Claims \<Rightarrow> bytes \<Rightarrow> 'w \<Rightarrow> (Result result \<times> 'w) option"
where
  "deliver time_Now r req c value w =
     (case rv_Inject r (methodForScope (rr_Scope req)) (rr_Name req) value (rr_Command req) w of
        (Inl _, w) \<Rightarrow> Some (deny time_Now r req (NewDenial ReasonMalformed) w)
      | (Inr oc, w) \<Rightarrow>
          (case relay time_Now r req c value oc w of
             None \<Rightarrow> None
           | Some ((out, err), w) \<Rightarrow>
               Some (Inr \<lparr>re_Descriptor = oc_Descriptor oc, re_ExitCode = oc_ExitCode oc,
                          re_Stdout = out, re_Stderr = err\<rparr>,
                     audit r (success_record time_Now r req c ''resolve'' (exit_reason (oc_ExitCode oc)) w) w)))"

section \<open>Resolve\<close>

text \<open>
  The data key and the plaintext are byte arrays in memory; the deferred calls run when the
  function returns, the release of the plaintext before the zeroing of the key.
\<close>

definition Resolve ::
  "ciphers \<Rightarrow> ('w \<Rightarrow> int) \<Rightarrow> 'w Resolver \<Rightarrow> Request \<Rightarrow> memory \<Rightarrow> 'w \<Rightarrow> (Result result \<times> memory \<times> 'w) option"
where
  "Resolve C time_Now r req m w =
     (case authorise time_Now r req w of
        (Inl e, w) \<Rightarrow> (case deny time_Now r req e w of (res, w) \<Rightarrow> Some (res, m, w))
      | (Inr c, w) \<Rightarrow>
          (case unwrap_dek r c w of
             (Inl e, w) \<Rightarrow> (case deny time_Now r req e w of (res, w) \<Rightarrow> Some (res, m, w))
           | (Inr (ob, ciphertext, dek), w) \<Rightarrow>
               (case alloc dek m of
                  (da, m) \<Rightarrow>
                    (case DecryptObject C (o_Alg ob) (load da m) ciphertext of
                       Inl e \<Rightarrow> (case deny time_Now r req e w of (res, w) \<Rightarrow> Some (res, Zero da m, w))
                     | Inr plaintext \<Rightarrow>
                         (case alloc plaintext m of
                            (pa, m) \<Rightarrow>
                              let secure = SecureBufferFrom pa in
                              (case deliver time_Now r req c (Bytes secure m) w of
                                 None \<Rightarrow> None
                               | Some (res, w) \<Rightarrow>
                                   (case Release (Some secure) m of
                                      (_, m) \<Rightarrow> Some (res, Zero da m, w))))))))"

section \<open>Lemmas\<close>

lemma deny_eq: "deny time_Now r req e w =
    (Inl (Denial (denial_reason e)), audit r (denied_record time_Now r req (denial_reason e) w) w)"
  by (simp add: deny_def Let_def NewDenial_def)

lemma denial_reason_nonempty: "denial_reason e \<noteq> []"
  by (simp add: denial_reason_def Let_def ReasonMalformed_def)

text \<open>Resolve with the memory worked out: what it allocates is zero when it returns.\<close>

lemma Resolve_eq:
  "Resolve C time_Now r req m w =
     (case authorise time_Now r req w of
        (Inl e, w) \<Rightarrow> Some (fst (deny time_Now r req e w), m, snd (deny time_Now r req e w))
      | (Inr c, w) \<Rightarrow>
          (case unwrap_dek r c w of
             (Inl e, w) \<Rightarrow> Some (fst (deny time_Now r req e w), m, snd (deny time_Now r req e w))
           | (Inr (ob, ct, dek), w) \<Rightarrow>
               (case DecryptObject C (o_Alg ob) dek ct of
                  Inl e \<Rightarrow> Some (fst (deny time_Now r req e w), m @ [zeros (length dek)], snd (deny time_Now r req e w))
                | Inr pt \<Rightarrow>
                    map_option (\<lambda>(res, w). (res, m @ [zeros (length dek), zeros (length pt)], w))
                      (deliver time_Now r req c pt w))))"
  by (auto simp: Resolve_def alloc_def load_def nth_append Bytes_def SecureBufferFrom_def Release_def Zero_eq
      list_update_append deny_eq Let_def split: prod.splits sum.splits option.splits)

lemma revokedFn_False: "revokedFn r jti w = (False, w') \<Longrightarrow>
    (case rv_Revoked r of None \<Rightarrow> w' = w | Some check \<Rightarrow> check jti w = ((False, None), w'))"
  by (auto simp: revokedFn_def split: option.splits prod.splits)

lemma authorise_Inr:
  "authorise time_Now r req w = (Inr c, w') \<longleftrightarrow>
     (\<exists>p w1. ParseURI (rr_TokenURI req) = Inr p \<and>
        VerifyToken (rv_Verify r) p (rv_Audience r) (Unix (resolver_now time_Now r w)) (Some (revokedFn r)) w = (Inr c, w1) \<and>
        (rr_Scope req = [] \<or> rr_Scope req \<in> set (c_Scope c)) \<and>
        (case rv_Policy r of None \<Rightarrow> w' = w1
         | Some allow \<Rightarrow> \<exists>rule. allow (query_of req c) w1 = ((True, rule), w')))"
  by (auto simp: authorise_def split: sum.splits prod.splits option.splits if_splits)

lemma unwrap_dek_Inr:
  "unwrap_dek r c w = (Inr (ob, ct, dek), w') \<longleftrightarrow>
     (\<exists>w1 unwrap. rv_Load r (c_SID c) w = (Inr (ob, ct), w1) \<and> rv_Unwrap r = Some unwrap \<and>
        unwrap (o_WrappingKID ob) (o_WrappedKey ob) w1 = (Inr dek, w'))"
  by (auto simp: unwrap_dek_def split: sum.splits prod.splits option.splits)

lemma unwrap_dek_Inl:
  "unwrap_dek r c w = (Inl e, w') \<Longrightarrow> e = Denial ''malformed'' \<or> e = Denial ''keystore_unreachable''"
  by (auto simp: unwrap_dek_def NewDenial_def ReasonMalformed_def ReasonKeystoreUnreachable_def
      split: sum.splits prod.splits option.splits)

text \<open>How a call ends.\<close>

lemma Resolve_Inr:
  assumes "Resolve C time_Now r req m w = Some (Inr res, m', w')"
  obtains c w1 ob ct dek w2 pt where
    "authorise time_Now r req w = (Inr c, w1)" "unwrap_dek r c w1 = (Inr (ob, ct, dek), w2)"
    "DecryptObject C (o_Alg ob) dek ct = Inr pt" "deliver time_Now r req c pt w2 = Some (Inr res, w')"
  using assms unfolding Resolve_eq deny_eq
  by (auto split: prod.splits sum.splits)

lemma deliver_Inr:
  assumes "deliver time_Now r req c value w = Some (Inr res, w')"
  shows "\<exists>oc w1 w2. rv_Inject r (methodForScope (rr_Scope req)) (rr_Name req) value (rr_Command req) w = (Inr oc, w1) \<and>
    relay time_Now r req c value oc w1 = Some ((re_Stdout res, re_Stderr res), w2) \<and>
    re_Descriptor res = oc_Descriptor oc \<and> re_ExitCode res = oc_ExitCode oc \<and>
    w' = audit r (success_record time_Now r req c ''resolve'' (exit_reason (oc_ExitCode oc)) w2) w2"
  using assms by (auto simp: deliver_def deny_eq split: sum.splits prod.splits option.splits)

lemma deliver_Inl:
  assumes "deliver time_Now r req c value w = Some (Inl e, w')"
  shows "\<exists>w1. e = Denial ''malformed'' \<and> w' = audit r (denied_record time_Now r req ''malformed'' w1) w1"
  using assms
  by (auto simp: deliver_def deny_eq denial_reason_def NewDenial_def ReasonMalformed_def
      split: sum.splits prod.splits option.splits)

text \<open>What is relayed has been through the scanner.\<close>

definition hides :: "bytes \<Rightarrow> bytes \<Rightarrow> bool" where
  "hides value out \<longleftrightarrow>
     (\<forall>x s. part value x \<and> s \<in> set (renderings x) \<longrightarrow> \<not> sublist s out \<and> \<not> sublist s (norm_view out))"

lemma Scan_hides:
  assumes "value_safe v"
  shows "\<exists>out' rep. Scan (New v) out = Some (out', rep) \<and> hides v out'"
proof -
  obtain out' rep where *: "Scan (New v) out = Some (out', rep)"
    "\<forall>nd \<in> set (needles (New v)). \<not> sublist (nd_b nd) out'"
    "\<forall>nd \<in> set (needles (New v)). 8 \<le> length (nd_b nd) \<longrightarrow> \<not> sublist (nd_b nd) (norm_view out')"
    using Scan_safe [OF value_safe_scanner [OF assms] New_json_in_needles] by blast
  have "\<not> sublist s out' \<and> \<not> sublist s (norm_view out')" if "part v x" "s \<in> set (renderings x)" for x s
    using renderings_in_needles [OF assms that] renderings_long [OF that] * by blast
  then show ?thesis using * unfolding hides_def by blast
qed

lemma scan_stream_hides:
  assumes "value_safe v"
  shows "\<exists>out' w'. scan_stream time_Now r req c v out w = Some (out', w') \<and> hides v out'"
proof -
  obtain out' rep where "Scan (New v) out = Some (out', rep)" "hides v out'"
    using Scan_hides [OF assms] by blast
  then show ?thesis by (simp add: scan_stream_def)
qed

lemma hides_Nil: "value_safe v \<Longrightarrow> hides v []"
proof -
  assume v: "value_safe v"
  obtain out' rep where "Scan (New v) [] = Some (out', rep)" "hides v out'"
    using Scan_hides [OF v] by blast
  then show ?thesis by (simp add: Scan_def)
qed

lemma relay_hides:
  assumes "value_safe v"
  shows "\<exists>out err w'. relay time_Now r req c v oc w = Some ((out, err), w') \<and> hides v out \<and> hides v err"
proof (cases "oc_Stdout oc = [] \<and> oc_Stderr oc = []")
  case True
  then show ?thesis using hides_Nil [OF assms] by (simp add: relay_def)
next
  case False
  obtain out w1 where o: "scan_stream time_Now r req c v (oc_Stdout oc) w = Some (out, w1)" "hides v out"
    using scan_stream_hides [OF assms, of time_Now r req c "oc_Stdout oc" w] by blast
  obtain err w2 where e: "scan_stream time_Now r req c v (oc_Stderr oc) w1 = Some (err, w2)" "hides v err"
    using scan_stream_hides [OF assms, of time_Now r req c "oc_Stderr oc" w1] by blast
  show ?thesis using o e False by (auto simp: relay_def)
qed

text \<open>
  A request that names no operation skips the check of the token's scope, and is served by
  injection into the environment, whatever the token grants.
\<close>

lemma empty_scope_is_not_checked:
  "rr_Scope req = [] \<Longrightarrow> rv_Policy r = None \<Longrightarrow> ParseURI (rr_TokenURI req) = Inr p \<Longrightarrow>
   VerifyToken (rv_Verify r) p (rv_Audience r) (Unix (resolver_now time_Now r w)) (Some (revokedFn r)) w = (Inr c, w1) \<Longrightarrow>
   authorise time_Now r req w = (Inr c, w1) \<and> methodForScope (rr_Scope req) = ''env''"
  by (simp add: authorise_def methodForScope_def ScopeInjectFile_def)

section \<open>A resolver for the instances\<close>

text \<open>The world is the audit log and the memory of a key store that was asked.\<close>

record sample_world =
  sw_log :: "AuditRecord list"
  sw_unwraps :: "string list"

definition sample_jws :: string where
  "sample_jws = ''e30.'' @ b64 (Marshal (claims_json sample_claims)) @ ''.c2ln''"

definition sample_request :: Request where
  "sample_request = \<lparr>rr_TokenURI = URI ''obj_1'' sample_jws, rr_Scope = ''unwrap'', rr_Name = ''TOKEN'',
     rr_Command = [''run''], rr_Principal = ''agent'', rr_Host = [], rr_Origin = ''cli''\<rparr>"

definition sample_dek :: bytes where "sample_dek = replicate 32 (CHR ''d'')"

definition sample_object :: ManifestObject where
  "sample_object = \<lparr>o_ID = ''obj_1'', o_Path = ''objects/obj_1.enc'', o_Alg = ''AES-256-GCM'', o_WrappedKey = ''wrapped'',
     o_WrappingKID = ''kek-1'', o_ContentType = [], o_Hash = [], o_Size = 0, o_TokenReferences = []\<rparr>"


definition sample_sealed :: bytes where
  "sample_sealed =
     (case EncryptObject sample_ciphers (\<lambda>n w. (Some (replicate n (CHR ''r'')), w)) ''AES-256-GCM'' sample_dek ''s3cretvalue'' () of
        (Inr ct, _) \<Rightarrow> ct | _ \<Rightarrow> [])"

definition sample_resolver :: "sample_world Resolver" where
  "sample_resolver =
     \<lparr>rv_Audience = ''prod'', rv_Verify = (\<lambda>jws w. (Inr zero_header, w)), rv_Revoked = Some (\<lambda>jti w. ((False, None), w)),
      rv_Policy = Some (\<lambda>q w. ((q_command q = [''run''], ''r1''), w)),
      rv_Inject = (\<lambda>meth name value command w.
        (Inr \<lparr>oc_Descriptor = name, oc_ExitCode = 0, oc_Stdout = ''got '' @ value, oc_Stderr = []\<rparr>, w)),
      rv_Load = (\<lambda>sid w. (Inr (sample_object, sample_sealed), w)),
      rv_Unwrap = Some (\<lambda>kid wrapped w. (Inr sample_dek, w\<lparr>sw_unwraps := sw_unwraps w @ [kid]\<rparr>)),
      rv_Auditor = Some (\<lambda>rec w. w\<lparr>sw_log := sw_log w @ [rec]\<rparr>), rv_Now = Some (\<lambda>w. 1500000000000),
      rv_HostName = ''host''\<rparr>"

definition sample_world_init :: sample_world where
  "sample_world_init = \<lparr>sw_log = [], sw_unwraps = []\<rparr>"

lemma sample_authorised:
  "authorise (\<lambda>w. 0) sample_resolver sample_request sample_world_init = (Inr sample_claims, sample_world_init)"
  by code_simp

lemma sample_unwrapped:
  "unwrap_dek sample_resolver sample_claims sample_world_init =
     (Inr (sample_object, sample_sealed, sample_dek), \<lparr>sw_log = [], sw_unwraps = [''kek-1'']\<rparr>)"
  by code_simp

lemma sample_decrypted:
  "DecryptObject sample_ciphers (o_Alg sample_object) sample_dek sample_sealed = Inr ''s3cretvalue''"
  by code_simp


section \<open>Properties\<close>

text \<open>
  C2. Nothing is resolved without the authority that is asked for. If a call returns a result, the
  token parsed and the verifier accepted it, its claims are within their interval, for this
  resolver and for the object named in the URI; the requested operation is granted by the token
  where one is named (an empty scope is not checked); the denylist answered "not revoked" without
  an error where a checker is configured; the local policy allowed exactly this request where one
  is configured; and what was injected is the decryption of the token's own object under its own
  unwrapped key.
\<close>

theorem resolved_means_authorised:
  assumes "Resolve C time_Now r req m w = Some (Inr res, m', w')"
  shows "\<exists>p h w1 c. ParseURI (rr_TokenURI req) = Inr p \<and> rv_Verify r (p_JWS p) w = (Inr h, w1) \<and>
    DecodeClaims (p_JWS p) = Inr c \<and> c_Nbf c \<le> Unix (resolver_now time_Now r w) \<and>
    Unix (resolver_now time_Now r w) < c_Exp c \<and> c_Aud c = rv_Audience r \<and> c_SID c = p_SID p \<and>
    (rr_Scope req = [] \<or> rr_Scope req \<in> set (c_Scope c)) \<and>
    (\<exists>w2 w3 ob ct dek w4 unwrap w5 pt oc w6.
       (case rv_Revoked r of None \<Rightarrow> w2 = w1 | Some check \<Rightarrow> check (c_JTI c) w1 = ((False, None), w2)) \<and>
       (case rv_Policy r of None \<Rightarrow> w3 = w2 | Some allow \<Rightarrow> \<exists>rule. allow (query_of req c) w2 = ((True, rule), w3)) \<and>
       rv_Load r (c_SID c) w3 = (Inr (ob, ct), w4) \<and> rv_Unwrap r = Some unwrap \<and>
       unwrap (o_WrappingKID ob) (o_WrappedKey ob) w4 = (Inr dek, w5) \<and>
       DecryptObject C (o_Alg ob) dek ct = Inr pt \<and>
       rv_Inject r (methodForScope (rr_Scope req)) (rr_Name req) pt (rr_Command req) w5 = (Inr oc, w6) \<and>
       re_Descriptor res = oc_Descriptor oc \<and> re_ExitCode res = oc_ExitCode oc)"
proof -
  obtain c w3 ob ct dek w5 pt where s: "authorise time_Now r req w = (Inr c, w3)"
    "unwrap_dek r c w3 = (Inr (ob, ct, dek), w5)" "DecryptObject C (o_Alg ob) dek ct = Inr pt"
    "deliver time_Now r req c pt w5 = Some (Inr res, w')"
    using assms by (rule Resolve_Inr)
  obtain p w2 where a: "ParseURI (rr_TokenURI req) = Inr p"
    "VerifyToken (rv_Verify r) p (rv_Audience r) (Unix (resolver_now time_Now r w)) (Some (revokedFn r)) w = (Inr c, w2)"
    "rr_Scope req = [] \<or> rr_Scope req \<in> set (c_Scope c)"
    "case rv_Policy r of None \<Rightarrow> w3 = w2 | Some allow \<Rightarrow> \<exists>rule. allow (query_of req c) w2 = ((True, rule), w3)"
    using s(1) unfolding authorise_Inr by blast
  obtain h w1 where v: "rv_Verify r (p_JWS p) w = (Inr h, w1)" "DecodeClaims (p_JWS p) = Inr c"
    "c_Nbf c \<le> Unix (resolver_now time_Now r w)" "Unix (resolver_now time_Now r w) < c_Exp c"
    "c_Aud c = rv_Audience r" "c_SID c = p_SID p" "revokedFn r (c_JTI c) w1 = (False, w2)"
    using a(2) unfolding VerifyToken_Inr_iff by auto
  obtain w4 unwrap where u: "rv_Load r (c_SID c) w3 = (Inr (ob, ct), w4)" "rv_Unwrap r = Some unwrap"
    "unwrap (o_WrappingKID ob) (o_WrappedKey ob) w4 = (Inr dek, w5)"
    using s(2) unfolding unwrap_dek_Inr by blast
  obtain oc w6 where i: "rv_Inject r (methodForScope (rr_Scope req)) (rr_Name req) pt (rr_Command req) w5 = (Inr oc, w6)"
    "re_Descriptor res = oc_Descriptor oc" "re_ExitCode res = oc_ExitCode oc"
    using deliver_Inr [OF s(4)] by blast
  show ?thesis
    by (rule exI [of _ p], rule exI [of _ h], rule exI [of _ w1], rule exI [of _ c])
      (use a(1,3,4) v u i s(3) revokedFn_False [OF v(7)] in blast)
qed

lemma sample_resolved:
  "\<exists>res m' w'. Resolve sample_ciphers (\<lambda>w. 0) sample_resolver sample_request [] sample_world_init = Some (Inr res, m', w')"
proof -
  let ?oc = "\<lparr>oc_Descriptor = ''TOKEN'', oc_ExitCode = 0, oc_Stdout = ''got s3cretvalue'', oc_Stderr = []\<rparr>"
  let ?w = "\<lparr>sw_log = [], sw_unwraps = [''kek-1'']\<rparr>"
  have v: "value_safe ''s3cretvalue''" by code_simp
  obtain out err w' where r: "relay (\<lambda>w. 0) sample_resolver sample_request sample_claims ''s3cretvalue'' ?oc ?w = Some ((out, err), w')"
    using relay_hides [OF v, of "\<lambda>w. 0" sample_resolver sample_request sample_claims ?oc ?w]
    by (elim exE conjE) (rule that)
  have "rv_Inject sample_resolver (methodForScope (rr_Scope sample_request)) (rr_Name sample_request) ''s3cretvalue''
      (rr_Command sample_request) \<lparr>sw_log = [], sw_unwraps = [''kek-1'']\<rparr> =
      (Inr \<lparr>oc_Descriptor = ''TOKEN'', oc_ExitCode = 0, oc_Stdout = ''got s3cretvalue'', oc_Stderr = []\<rparr>,
       \<lparr>sw_log = [], sw_unwraps = [''kek-1'']\<rparr>)"
    by (simp add: sample_resolver_def sample_request_def)
  then show ?thesis
    using r by (simp add: Resolve_eq sample_authorised sample_unwrapped sample_decrypted deliver_def)
qed

lemma resolved_means_authorised_witness:
  "\<exists>p. ParseURI (rr_TokenURI sample_request) = Inr p \<and> p_SID p = c_SID sample_claims \<and>
     DecodeClaims (p_JWS p) = Inr sample_claims"
proof -
  obtain res m' w' where "Resolve sample_ciphers (\<lambda>w. 0) sample_resolver sample_request [] sample_world_init = Some (Inr res, m', w')"
    using sample_resolved by blast
  from resolved_means_authorised [OF this] obtain p c where
    pc: "ParseURI (rr_TokenURI sample_request) = Inr p" "DecodeClaims (p_JWS p) = Inr c" "c_SID c = p_SID p" by blast
  have "(case ParseURI (rr_TokenURI sample_request) of Inr p \<Rightarrow> DecodeClaims (p_JWS p) | Inl e \<Rightarrow> Inl e) = Inr sample_claims"
    by code_simp
  then show ?thesis using pc by auto
qed

text \<open>
  C4. No key store before verification: a request that the token checks or the local policy turn
  down has the same outcome whatever the manifest source, the key store and the injector are.
  They are not consulted, no memory is allocated, and what happens is one denial with one audit
  record.
\<close>

theorem unauthorised_touches_nothing:
  assumes "authorise time_Now r req w = (Inl e, w1)"
  shows "Resolve C time_Now (r\<lparr>rv_Load := source, rv_Unwrap := keystore, rv_Inject := injector\<rparr>) req m w =
    Some (Inl (Denial (denial_reason e)), m, audit r (denied_record time_Now r req (denial_reason e) w1) w1)"
proof -
  let ?r = "r\<lparr>rv_Load := source, rv_Unwrap := keystore, rv_Inject := injector\<rparr>"
  have rf: "revokedFn ?r = revokedFn r" by (rule ext)+ (simp add: revokedFn_def)
  have f: "rv_Verify ?r = rv_Verify r" "rv_Audience ?r = rv_Audience r" "rv_Now ?r = rv_Now r" "rv_Policy ?r = rv_Policy r"
    by simp_all
  have "authorise time_Now ?r req w = authorise time_Now r req w"
    unfolding authorise_def rf resolver_now_def f by (rule refl)
  moreover have "audit ?r = audit r" by (rule ext)+ (simp add: audit_def)
  moreover have "denied_record time_Now ?r req = denied_record time_Now r req"
    by (rule ext)+ (simp add: denied_record_def resolver_now_def resolver_host_def)
  ultimately show ?thesis using assms by (simp add: Resolve_eq deny_eq)
qed

lemma unauthorised_touches_nothing_witness:
  "case Resolve sample_ciphers (\<lambda>w. 0)
          (sample_resolver\<lparr>rv_Load := (\<lambda>_ w. (Inl (Err ''io''), w)), rv_Unwrap := None, rv_Inject := (\<lambda>_ _ _ _ w. (Inl (Err ''io''), w))\<rparr>)
          (sample_request\<lparr>rr_Command := [''printenv'']\<rparr>) [] sample_world_init of
     Some (Inl e, m, w) \<Rightarrow> e = Denial ''r1'' \<and> m = [] \<and> map ar_Reason (sw_log w) = [''r1'']
   | _ \<Rightarrow> False"
proof -
  have "authorise (\<lambda>w. 0) sample_resolver (sample_request\<lparr>rr_Command := [''printenv'']\<rparr>) sample_world_init
      = (Inl (Denial ''r1''), sample_world_init)" by code_simp
  from unauthorised_touches_nothing [OF this] show ?thesis
    by (simp add: denial_reason_def audit_def sample_resolver_def denied_record_def sample_world_init_def)
qed

text \<open>
  C6. Whatever happens, no key and no plaintext is left in memory: when a call returns, with a
  result or with a denial, the arrays it allocated hold only zeros, and every array that was
  there before is as it was.
\<close>

theorem resolve_zeroises:
  "case Resolve C time_Now r req m w of
     None \<Rightarrow> True
   | Some (_, m', _) \<Rightarrow> take (length m) m' = m \<and>
       list_all (\<lambda>b. list_all (\<lambda>x. x = CHR 0x00) b) (drop (length m) m')"
proof -
  have z: "list_all (\<lambda>x. x = CHR 0x00) (zeros n)" for n by (simp add: zeros_def list_all_iff)
  show ?thesis
    unfolding Resolve_eq by (auto simp: z option.map_comp split: prod.splits sum.splits option.splits)
qed

lemma resolve_hides:
  assumes "authorise time_Now r req w = (Inr c, w1)" and "unwrap_dek r c w1 = (Inr (ob, ct, dek), w2)"
    and "DecryptObject C (o_Alg ob) dek ct = Inr pt" and "value_safe pt"
  shows "case Resolve C time_Now r req m w of
     None \<Rightarrow> False
   | Some (Inl e, _, _) \<Rightarrow> e = Denial ''malformed''
   | Some (Inr res, _, _) \<Rightarrow> hides pt (re_Stdout res) \<and> hides pt (re_Stderr res)"
proof -
  obtain i w3 where i: "rv_Inject r (methodForScope (rr_Scope req)) (rr_Name req) pt (rr_Command req) w2 = (i, w3)"
    by (metis prod.collapse)
  show ?thesis
  proof (cases i)
    case (Inl e)
    then show ?thesis
      using assms i by (simp add: Resolve_eq deliver_def deny_eq denial_reason_def NewDenial_def ReasonMalformed_def)
  next
    case (Inr oc)
    obtain out err w4 where "relay time_Now r req c pt oc w3 = Some ((out, err), w4)" "hides pt out" "hides pt err"
      using relay_hides [OF assms(4), of time_Now r req c oc w3] by blast
    then show ?thesis using assms i Inr by (simp add: Resolve_eq deliver_def)
  qed
qed

text \<open>
  C9. The value does not come back in the output: once a value that cannot be confused with the
  placeholder has been decrypted, the call returns, and neither stream of a result contains, as
  it is or without its white space, eight bytes or more of the value in any of the encodings.
\<close>

theorem resolved_output_hides_value:
  assumes "authorise time_Now r req w = (Inr c, w1)" and "unwrap_dek r c w1 = (Inr (ob, ct, dek), w2)"
    and "DecryptObject C (o_Alg ob) dek ct = Inr pt" and "value_safe pt"
  shows "case Resolve C time_Now r req m w of
     None \<Rightarrow> False
   | Some (Inl e, _, _) \<Rightarrow> e = Denial ''malformed''
   | Some (Inr res, _, _) \<Rightarrow> hides pt (re_Stdout res) \<and> hides pt (re_Stderr res)"
  using assms by (rule resolve_hides)

lemma resolved_output_hides_value_witness:
  "\<exists>res m' w'. Resolve sample_ciphers (\<lambda>w. 0) sample_resolver sample_request [] sample_world_init = Some (Inr res, m', w') \<and>
     \<not> sublist ''s3cretvalue'' (re_Stdout res)"
proof -
  obtain res m' w' where r: "Resolve sample_ciphers (\<lambda>w. 0) sample_resolver sample_request [] sample_world_init = Some (Inr res, m', w')"
    using sample_resolved by blast
  have "value_safe ''s3cretvalue''" by code_simp
  from resolved_output_hides_value [OF sample_authorised sample_unwrapped sample_decrypted this, of "[]"] r
  have "hides ''s3cretvalue'' (re_Stdout res)" by simp
  moreover have "part ''s3cretvalue'' ''s3cretvalue''" by (simp add: Redact.part_def)
  moreover have "''s3cretvalue'' \<in> set (renderings ''s3cretvalue'')" by (simp add: renderings_def)
  ultimately show ?thesis using r unfolding hides_def by blast
qed

text \<open>
  C18. Denials are generic and audited: every call that returns an error returns a denial whose
  text is the one word "denied", its last effect is one audit record that says so with a reason,
  and a result's last effect is the record of the resolve; the records carry the ids of the
  token, never the value.
\<close>

theorem outcomes_are_audited:
  "case Resolve C time_Now r req m w of
     None \<Rightarrow> True
   | Some (Inl e, _, w') \<Rightarrow> Error e = ''denied'' \<and> ReasonOf e \<noteq> [] \<and>
       (\<exists>w1. w' = audit r (denied_record time_Now r req (ReasonOf e) w1) w1)
   | Some (Inr res, _, w') \<Rightarrow>
       \<exists>c w1. authorise time_Now r req w = (Inr c, w1) \<and>
         (\<exists>w2. w' = audit r (success_record time_Now r req c ''resolve'' (exit_reason (re_ExitCode res)) w2) w2)"
proof (cases "Resolve C time_Now r req m w")
  case (Some x)
  obtain res m' w' where x: "x = (res, m', w')" by (metis prod_cases3)
  show ?thesis
  proof (cases res)
    case (Inr v)
    then have R: "Resolve C time_Now r req m w = Some (Inr v, m', w')" using Some x by simp
    obtain c w1 ob ct dek w2 pt where s: "authorise time_Now r req w = (Inr c, w1)"
      "deliver time_Now r req c pt w2 = Some (Inr v, w')" using R by (rule Resolve_Inr)
    have "\<exists>w2. w' = audit r (success_record time_Now r req c ''resolve'' (exit_reason (re_ExitCode v)) w2) w2"
      using deliver_Inr [OF s(2)] by auto
    then show ?thesis using R s(1) by auto
  next
    case (Inl e)
    have *: "Error (Denial q) = ''denied'' \<and> ReasonOf (Denial q) = q" for q by (simp add: Error_def)
    have "\<exists>q w1. e = Denial q \<and> q \<noteq> [] \<and> w' = audit r (denied_record time_Now r req q w1) w1"
      using Some x Inl denial_reason_nonempty unfolding Resolve_eq deny_eq
      by (auto split: prod.splits sum.splits dest!: deliver_Inl)
    then show ?thesis using Some x Inl * by auto
  qed
qed simp

end
