(* ===== verification/CP_Store.thy ===== *)
theory CP_Store
  imports Local_Policy
begin

text \<open>
  apps/control-plane/internal/store: the operations of the control plane on its database. Each
  method runs one SQL statement; the tables and what the statements do to them are modelled
  with the constraints of the migrations, in a state of lists of rows. A call of the database
  may fail: the faults of the next calls are part of the state (\<open>None\<close>, or the end of the list,
  is a call that goes through). A statement that is refused or rolled back changes no table, but the
  values it drew from the sequence of audit ids stay drawn; one whose reply is lost has been
  carried out although the caller sees an error. Where a statement stores NULL for an empty string,
  a query reads the empty string back.
\<close>

section \<open>Rows\<close>

record Object =
  obj_ID :: string
  obj_FolderID :: string
  obj_OwnerPrincipal :: string
  obj_ContentType :: string
  obj_WrappingKID :: string
  obj_CreatedAt :: int
  obj_RevokedAt :: "int option"

record Token =
  tk_JTI :: string
  tk_SID :: string
  tk_Iss :: string
  tk_Sub :: string
  tk_Scope :: "string list"
  tk_Aud :: string
  tk_Nbf :: int
  tk_Exp :: int
  tk_IssuedAt :: int
  tk_RevokedAt :: "int option"

record AuditEvent =
  ae_ID :: int
  ae_At :: int
  ae_Event :: string
  ae_JTI :: string
  ae_SID :: string
  ae_Principal :: string
  ae_Host :: string
  ae_Scope :: string
  ae_Outcome :: string
  ae_Reason :: string
  ae_Detail :: "(string \<times> json) list"

text \<open>Nil commands are \<open>None\<close>: the rule has no restriction.\<close>

record PolicyRule =
  pr_ID :: string
  pr_Effect :: string
  pr_Principal :: string
  pr_SID :: string
  pr_Scope :: "string list"
  pr_Aud :: string
  pr_InjectionMethod :: string
  pr_Commands :: "CommandSpec list option"
  pr_Priority :: int
  pr_CreatedAt :: int

text \<open>The commands of a stored rule are the document of the column, or NULL.\<close>

record rule_row =
  row_rule :: PolicyRule
  row_commands :: "bytes option"

text \<open>
  How a call of the database fails: it does not reach the server, the server aborts the statement,
  or the statement is committed and the reply does not arrive.
\<close>

datatype db_fault = Unreached go_error | Rolled_back go_error | Reply_lost go_error

text \<open>\<open>db_audit_seq\<close> is the last value that the sequence behind the \<open>bigserial\<close> of the audit has handed out.\<close>

record db =
  db_objects :: "Object list"
  db_tokens :: "Token list"
  db_audit :: "AuditEvent list"
  db_audit_seq :: int
  db_rules :: "rule_row list"
  db_now :: int
  db_faults :: "db_fault option list"

definition EventIssue :: string where "EventIssue = ''issue''"
definition EventRevoke :: string where "EventRevoke = ''revoke''"
definition EventResolve :: string where "EventResolve = ''resolve''"
definition EventDeny :: string where "EventDeny = ''deny''"
definition EventPolicyDeny :: string where "EventPolicyDeny = ''policy_deny''"

definition ErrNotFound :: go_error where "ErrNotFound = Err ''not found''"

section \<open>One call of the database\<close>

definition db_call :: "(db \<Rightarrow> 'a result \<times> db) \<Rightarrow> db \<Rightarrow> 'a result \<times> db" where
  "db_call f d =
     (case db_faults d of
        [] \<Rightarrow> f d
      | None # fs \<Rightarrow> f (d\<lparr>db_faults := fs\<rparr>)
      | Some (Unreached e) # fs \<Rightarrow> (Inl e, d\<lparr>db_faults := fs\<rparr>)
      | Some (Rolled_back e) # fs \<Rightarrow>
          (Inl e, d\<lparr>db_faults := fs, db_audit_seq := db_audit_seq (snd (f (d\<lparr>db_faults := fs\<rparr>)))\<rparr>)
      | Some (Reply_lost e) # fs \<Rightarrow> (Inl e, snd (f (d\<lparr>db_faults := fs\<rparr>))))"

text \<open>
  A parameter of type \<open>text\<close> is valid UTF-8 without the byte 0, or the statement fails; a document
  of type \<open>jsonb\<close> has no character 0 in its strings.
\<close>

definition pg_text :: "string \<Rightarrow> bool" where
  "pg_text s \<longleftrightarrow> utf8_Valid s \<and> CHR 0x00 \<notin> set s"

fun jsonb_ok :: "json \<Rightarrow> bool" where
  "jsonb_ok (JStr s) = (CHR 0x00 \<notin> set s)"
| "jsonb_ok (JArr vs) = list_all jsonb_ok vs"
| "jsonb_ok (JObj ms) = list_all (\<lambda>(k, v). CHR 0x00 \<notin> set k \<and> jsonb_ok v) ms"
| "jsonb_ok _ = True"

definition db_stmt :: "string list \<Rightarrow> (db \<Rightarrow> 'a result \<times> db) \<Rightarrow> db \<Rightarrow> 'a result \<times> db" where
  "db_stmt args f =
     db_call (\<lambda>d. if \<not> list_all pg_text args then (Inl (Err ''invalid byte sequence for encoding UTF8''), d) else f d)"

definition violates :: "string \<Rightarrow> go_error" where
  "violates c = Err (''violates constraint '' @ c)"

section \<open>Constraints of the schema\<close>

definition id_head :: "char \<Rightarrow> bool" where "id_head c = is_alnum c"
definition id_char :: "char \<Rightarrow> bool" where
  "id_char c \<longleftrightarrow> is_alnum c \<or> c = CHR ''.'' \<or> c = CHR ''_'' \<or> c = CHR '':'' \<or> c = CHR ''-''"

definition objects_id_format :: "string \<Rightarrow> bool" where
  "objects_id_format s \<longleftrightarrow> s \<noteq> [] \<and> id_head (hd s) \<and> list_all id_char (tl s)"

definition tokens_jti_format :: "string \<Rightarrow> bool" where
  "tokens_jti_format s \<longleftrightarrow> s \<noteq> [] \<and> list_all (\<lambda>c. is_alnum c \<or> c = CHR ''_'' \<or> c = CHR ''-'') s"

definition scope_closed :: "string list \<Rightarrow> bool" where
  "scope_closed ss = list_all (\<lambda>s. s \<in> {''read'', ''unwrap'', ''inject-env'', ''inject-file'', ''sign''}) ss"

definition int32 :: "int \<Rightarrow> bool" where
  "int32 i \<longleftrightarrow> - (2 ^ 31) \<le> i \<and> i < 2 ^ 31"

section \<open>Objects\<close>

definition CreateObject :: "Object \<Rightarrow> db \<Rightarrow> unit result \<times> db" where
  "CreateObject ob =
     db_stmt [obj_ID ob, obj_FolderID ob, obj_OwnerPrincipal ob, obj_ContentType ob, obj_WrappingKID ob]
       (\<lambda>d.
       if list_ex (\<lambda>x. obj_ID x = obj_ID ob) (db_objects d) then (Inl (violates ''objects_pkey''), d)
       else if \<not> objects_id_format (obj_ID ob) then (Inl (violates ''objects_id_format''), d)
       else (Inr (), d\<lparr>db_objects := db_objects d @ [ob\<lparr>obj_CreatedAt := db_now d, obj_RevokedAt := None\<rparr>]\<rparr>))"

definition GetObject :: "string \<Rightarrow> db \<Rightarrow> Object result \<times> db" where
  "GetObject i =
     db_stmt [i] (\<lambda>d.
       case List.find (\<lambda>x. obj_ID x = i) (db_objects d) of
         None \<Rightarrow> (Inl ErrNotFound, d)
       | Some ob \<Rightarrow> (Inr ob, d))"

text \<open>\<open>ORDER BY created_at DESC\<close>: the latest first; rows of one instant in the order of insertion.\<close>

definition ListObjects :: "string \<Rightarrow> db \<Rightarrow> Object list result \<times> db" where
  "ListObjects owner =
     db_stmt [owner] (\<lambda>d.
       (Inr (sort_key (\<lambda>x. - obj_CreatedAt x)
               (filter (\<lambda>x. owner = [] \<or> obj_OwnerPrincipal x = owner) (db_objects d))), d))"

section \<open>Tokens\<close>

definition CreateToken :: "Token \<Rightarrow> db \<Rightarrow> unit result \<times> db" where
  "CreateToken t =
     db_stmt ([tk_JTI t, tk_SID t, tk_Iss t, tk_Sub t, tk_Aud t] @ tk_Scope t)
       (\<lambda>d.
       if list_ex (\<lambda>x. tk_JTI x = tk_JTI t) (db_tokens d) then (Inl (violates ''tokens_pkey''), d)
       else if \<not> list_ex (\<lambda>x. obj_ID x = tk_SID t) (db_objects d) then (Inl (violates ''tokens_sid_fkey''), d)
       else if \<not> tokens_jti_format (tk_JTI t) then (Inl (violates ''tokens_jti_format''), d)
       else if tk_Scope t = [] then (Inl (violates ''tokens_scope_nonempty''), d)
       else if tk_Nbf t > tk_Exp t then (Inl (violates ''tokens_time_order''), d)
       else if \<not> scope_closed (tk_Scope t) then (Inl (violates ''tokens_scope_closed''), d)
       else (Inr (), d\<lparr>db_tokens := db_tokens d @ [t\<lparr>tk_RevokedAt := None\<rparr>]\<rparr>))"

definition RevokeToken :: "string \<Rightarrow> db \<Rightarrow> unit result \<times> db" where
  "RevokeToken jti =
     db_stmt [jti] (\<lambda>d.
       (Inr (), d\<lparr>db_tokens := map (\<lambda>t. if tk_JTI t = jti \<and> tk_RevokedAt t = None
                                      then t\<lparr>tk_RevokedAt := Some (db_now d)\<rparr> else t) (db_tokens d)\<rparr>))"

definition store_IsRevoked :: "string \<Rightarrow> db \<Rightarrow> bool result \<times> db" where
  "store_IsRevoked jti =
     db_stmt [jti] (\<lambda>d. (Inr (list_ex (\<lambda>t. tk_JTI t = jti \<and> tk_RevokedAt t \<noteq> None) (db_tokens d)), d))"

definition ListTokens :: "string \<Rightarrow> db \<Rightarrow> Token list result \<times> db" where
  "ListTokens sid =
     db_stmt [sid] (\<lambda>d.
       (Inr (sort_key (\<lambda>t. - tk_IssuedAt t) (filter (\<lambda>t. sid = [] \<or> tk_SID t = sid) (db_tokens d))), d))"

section \<open>Policy\<close>

text \<open>The JSON form of a command specification: nil and empty arguments are both left out.\<close>

definition spec_json :: "CommandSpec \<Rightarrow> json" where
  "spec_json s =
     JObj ([(''exec'', JStr (cs_Exec s))]
           @ (case cs_Args s of None \<Rightarrow> [] | Some [] \<Rightarrow> [] | Some as \<Rightarrow> [(''args'', str_array as)]))"

definition marshalCommands :: "CommandSpec list option \<Rightarrow> bytes option" where
  "marshalCommands specs = (case specs of None \<Rightarrow> None | Some ss \<Rightarrow> Some (Marshal (JArr (map spec_json ss))))"

text \<open>Nil slice, empty column and the document \<open>null\<close> all read as nil.\<close>

definition unmarshalCommands :: "bytes option \<Rightarrow> CommandSpec list option result" where
  "unmarshalCommands b =
     (case b of
        None \<Rightarrow> Inr None
      | Some doc \<Rightarrow>
          if length doc = 0 then Inr None
          else
            (case Option.bind (Unmarshal doc) (dec_slice spec_of_json) of
               None \<Rightarrow> Inl (Err ''policy rule commands'')
             | Some specs \<Rightarrow> Inr specs))"

definition injection_closed :: "string \<Rightarrow> bool" where
  "injection_closed s \<longleftrightarrow> s = [] \<or> s \<in> {''env'', ''file'', ''socket'', ''exec''}"

definition upsert_row :: "PolicyRule \<Rightarrow> db \<Rightarrow> db" where
  "upsert_row r d =
     (let row = \<lparr>row_rule = r, row_commands = marshalCommands (pr_Commands r)\<rparr> in
      if list_ex (\<lambda>x. pr_ID (row_rule x) = pr_ID r) (db_rules d) then
        d\<lparr>db_rules := map (\<lambda>x. if pr_ID (row_rule x) = pr_ID r
                              then row\<lparr>row_rule := r\<lparr>pr_CreatedAt := pr_CreatedAt (row_rule x)\<rparr>\<rparr> else x)
                        (db_rules d)\<rparr>
      else d\<lparr>db_rules := db_rules d @ [row\<lparr>row_rule := r\<lparr>pr_CreatedAt := db_now d\<rparr>\<rparr>]\<rparr>)"

definition UpsertPolicyRule :: "PolicyRule \<Rightarrow> db \<Rightarrow> unit result \<times> db" where
  "UpsertPolicyRule r =
     db_stmt ([pr_ID r, pr_Effect r, pr_Principal r, pr_SID r, pr_Aud r, pr_InjectionMethod r] @ pr_Scope r) (\<lambda>d.
       if \<not> (case pr_Commands r of None \<Rightarrow> True | Some ss \<Rightarrow> jsonb_ok (JArr (map spec_json ss))) then
         (Inl (Err ''unsupported Unicode escape sequence''), d)
       else if \<not> int32 (pr_Priority r) then (Inl (Err ''integer out of range''), d)
       else if \<not> (pr_Effect r = ''allow'' \<or> pr_Effect r = ''deny'') then (Inl (violates ''policy_effect_closed''), d)
       else if pr_Scope r = [] then (Inl (violates ''policy_scope_nonempty''), d)
       else if \<not> scope_closed (pr_Scope r) then (Inl (violates ''policy_scope_closed''), d)
       else if \<not> injection_closed (pr_InjectionMethod r) then (Inl (violates ''policy_injection_closed''), d)
       else (Inr (), upsert_row r d))"

text \<open>\<open>ORDER BY priority DESC, id\<close>; the first row whose document does not decode is an error.\<close>

definition rule_before :: "PolicyRule \<Rightarrow> PolicyRule \<Rightarrow> bool" where
  "rule_before a b \<longleftrightarrow> pr_Priority a > pr_Priority b \<or> (pr_Priority a = pr_Priority b \<and> pr_ID a \<le> pr_ID b)"

fun insert_row :: "rule_row \<Rightarrow> rule_row list \<Rightarrow> rule_row list" where
  "insert_row x [] = [x]"
| "insert_row x (y # ys) = (if rule_before (row_rule x) (row_rule y) then x # y # ys else y # insert_row x ys)"

definition order_rows :: "rule_row list \<Rightarrow> rule_row list" where
  "order_rows rows = foldr insert_row rows []"

fun scan_rows :: "rule_row list \<Rightarrow> PolicyRule list result" where
  "scan_rows [] = Inr []"
| "scan_rows (x # xs) =
     (case unmarshalCommands (row_commands x) of
        Inl e \<Rightarrow> Inl e
      | Inr cmds \<Rightarrow>
          (case scan_rows xs of
             Inl e \<Rightarrow> Inl e
           | Inr rs \<Rightarrow> Inr ((row_rule x)\<lparr>pr_Commands := cmds\<rparr> # rs)))"

definition ListPolicyRules :: "db \<Rightarrow> PolicyRule list result \<times> db" where
  "ListPolicyRules = db_call (\<lambda>d. (scan_rows (order_rows (db_rules d)), d))"

section \<open>Audit\<close>

definition secretShapedDetailKeys :: "string list" where
  "secretShapedDetailKeys =
     [''value'', ''secret'', ''plaintext'', ''dek'', ''kek'', ''unwrapped_key'', ''master_key'', ''password'', ''token'']"

fun equalFold_loop :: "string \<Rightarrow> string \<Rightarrow> bool" where
  "equalFold_loop (a # as) (b # bs) = (if to_lower a \<noteq> to_lower b then False else equalFold_loop as bs)"
| "equalFold_loop _ _ = True"

definition equalFoldASCII :: "string \<Rightarrow> string \<Rightarrow> bool" where
  "equalFoldASCII a b = (if length a \<noteq> length b then False else equalFold_loop a b)"

definition validateDetail :: "(string \<times> json) list \<Rightarrow> unit result" where
  "validateDetail d =
     (case List.find (\<lambda>(k, _). list_ex (equalFoldASCII k) secretShapedDetailKeys) d of
        None \<Rightarrow> Inr ()
      | Some (k, _) \<Rightarrow> Inl (Err (''audit detail may not contain secret-shaped key '' @ k)))"

definition audit_event_closed :: "string \<Rightarrow> bool" where
  "audit_event_closed e \<longleftrightarrow> e \<in> {''issue'', ''revoke'', ''resolve'', ''deny'', ''policy_deny''}"

text \<open>
  The default of the id column draws from the sequence before the constraints of the row are checked,
  and a sequence is not rolled back: a row that is refused leaves a gap in the ids.
\<close>

definition insert_audit :: "AuditEvent \<Rightarrow> db \<Rightarrow> unit result \<times> db" where
  "insert_audit e d =
     (let n = db_audit_seq d + 1; d = d\<lparr>db_audit_seq := n\<rparr> in
      if \<not> audit_event_closed (ae_Event e) then (Inl (violates ''audit_event_closed''), d)
      else if \<not> (ae_Outcome e = ''allowed'' \<or> ae_Outcome e = ''denied'') then (Inl (violates ''audit_outcome_closed''), d)
      else (Inr (), d\<lparr>db_audit := db_audit d @ [e\<lparr>ae_ID := n\<rparr>]\<rparr>))"

definition AppendAudit :: "AuditEvent \<Rightarrow> db \<Rightarrow> unit result \<times> db" where
  "AppendAudit e d =
     (case validateDetail (ae_Detail e) of
        Inl err \<Rightarrow> (Inl err, d)
      | Inr _ \<Rightarrow>
          db_stmt [ae_Event e, ae_JTI e, ae_SID e, ae_Principal e, ae_Host e, ae_Scope e, ae_Outcome e, ae_Reason e] (\<lambda>d.
            if \<not> jsonb_ok (JObj (ae_Detail e)) then (Inl (Err ''unsupported Unicode escape sequence''), d)
            else insert_audit e d) d)"

text \<open>\<open>ORDER BY id DESC LIMIT n\<close>: the latest events first. The rows are kept in the order of their ids.\<close>

definition QueryAudit :: "string \<Rightarrow> string \<Rightarrow> int \<Rightarrow> db \<Rightarrow> AuditEvent list result \<times> db" where
  "QueryAudit sid jti limit =
     (let n = (if limit \<le> 0 \<or> limit > 1000 then 100 else limit) in
      db_stmt [sid, jti] (\<lambda>d.
        (Inr (take (nat n)
           (rev (filter (\<lambda>e. (sid = [] \<or> ae_SID e = sid) \<and> (jti = [] \<or> ae_JTI e = jti)) (db_audit d)))), d)))"

end
