(* ===== verification/CP_Policy.thy ===== *)
theory CP_Policy
  imports CP_Store Protocol_Errors
begin

text \<open>
  apps/control-plane/internal/policy: the engine that decides at issuance. It is an evaluation by
  the first matching rule, like the sidecar's, over the same rules but without the command
  dimension; the lemmas compare the two.
\<close>

record PolicyRequest =
  pq_Principal :: string
  pq_SID :: string
  pq_Scope :: string
  pq_Aud :: string
  pq_InjectionMethod :: string

record Decision =
  dc_Allow :: bool
  dc_RuleID :: string

type_synonym Engine = "PolicyRule list"

definition New_Engine :: "PolicyRule list \<Rightarrow> Engine" where
  "New_Engine rules = rules"

definition cp_matches :: "PolicyRule \<Rightarrow> PolicyRequest \<Rightarrow> bool" where
  "cp_matches r q =
     (if pr_Principal r \<noteq> [] \<and> pr_Principal r \<noteq> pq_Principal q then False
      else if pr_SID r \<noteq> [] \<and> pr_SID r \<noteq> pq_SID q then False
      else if pr_Aud r \<noteq> [] \<and> pr_Aud r \<noteq> pq_Aud q then False
      else if pr_InjectionMethod r \<noteq> [] \<and> pr_InjectionMethod r \<noteq> pq_InjectionMethod q then False
      else ScopeAllows (pr_Scope r) (pq_Scope q))"

definition cp_decide :: "PolicyRule \<Rightarrow> PolicyRequest \<Rightarrow> Decision" where
  "cp_decide r q = \<lparr>dc_Allow = (pr_Effect r = ''allow''), dc_RuleID = pr_ID r\<rparr>"

definition cp_default :: Decision where
  "cp_default = \<lparr>dc_Allow = False, dc_RuleID = ''default-deny''\<rparr>"

fun Evaluate :: "Engine \<Rightarrow> PolicyRequest \<Rightarrow> Decision" where
  "Evaluate [] q = cp_default"
| "Evaluate (r # rs) q = (if \<not> cp_matches r q then Evaluate rs q else cp_decide r q)"

interpretation cp_rules: first_match cp_matches cp_decide cp_default Evaluate
  by unfold_locales simp_all

section \<open>The order of the stored rules\<close>

lemma set_insert_row [simp]: "set (insert_row x ys) = insert x (set ys)"
  by (induction ys) auto

lemma insert_row_sorted:
  "sorted_wrt (\<lambda>a b. rule_before (row_rule a) (row_rule b)) ys \<Longrightarrow>
   sorted_wrt (\<lambda>a b. rule_before (row_rule a) (row_rule b)) (insert_row x ys)"
proof (induction ys)
  case (Cons y ys)
  have "rule_before (row_rule y) (row_rule x)" if "\<not> rule_before (row_rule x) (row_rule y)"
    using that by (auto simp: rule_before_def)
  moreover have "rule_before a c" if "rule_before a b" "rule_before b c" for a b c
    using that by (auto simp: rule_before_def)
  ultimately show ?case using Cons by (auto dest: bspec)
qed simp

lemma order_rows_sorted: "sorted_wrt (\<lambda>a b. rule_before (row_rule a) (row_rule b)) (order_rows rows)"
  unfolding order_rows_def by (induction rows) (auto intro: insert_row_sorted)

lemma set_order_rows [simp]: "set (order_rows rows) = set rows"
  unfolding order_rows_def by (induction rows) auto

lemma length_insert_row [simp]: "length (insert_row x ys) = Suc (length ys)"
  by (induction ys) auto

lemma length_order_rows [simp]: "length (order_rows rows) = length rows"
  unfolding order_rows_def by (induction rows) auto

section \<open>The commands column\<close>

text \<open>What is left of a specification that was stored: an empty argument list becomes nil.\<close>

definition stored_spec :: "CommandSpec \<Rightarrow> CommandSpec" where
  "stored_spec s = (if cs_Args s = Some [] then s\<lparr>cs_Args := None\<rparr> else s)"

lemma dec_slice_JStr [simp]:
  "dec_slice (\<lambda>v. dec_string v []) (str_array xs) = Some (Some xs)"
  by (simp add: str_array_def)

lemma spec_of_spec_json: "spec_of_json (spec_json s) = Some (stored_spec s)"
proof (cases "cs_Args s")
  case (Some as)
  then show ?thesis
    by (cases s; cases as) (simp_all add: spec_of_json_def spec_json_def dec_struct_def stored_spec_def zero_spec_def)
qed (cases s, simp add: spec_of_json_def spec_json_def dec_struct_def stored_spec_def zero_spec_def)

lemma stored_spec_idem [simp]: "stored_spec (stored_spec s) = stored_spec s"
  by (simp add: stored_spec_def)

definition spec_utf8 :: "CommandSpec \<Rightarrow> bool" where
  "spec_utf8 s \<longleftrightarrow> utf8_Valid (cs_Exec s) \<and> (case cs_Args s of None \<Rightarrow> True | Some as \<Rightarrow> list_all utf8_Valid as)"

lemma json_ok_spec: "spec_utf8 s \<Longrightarrow> json_ok (Suc (Suc d)) (spec_json s)"
proof -
  assume "spec_utf8 s"
  moreover have "utf8_Valid ''exec''" "utf8_Valid ''args''" by code_simp+
  ultimately show ?thesis
    by (auto simp: spec_json_def spec_utf8_def list_all_iff split: option.splits list.splits)
qed

lemma Unmarshal_nonempty: "Unmarshal s = Some v \<Longrightarrow> s \<noteq> []"
  by (auto simp: Unmarshal_def parse_first_def parse_value.simps skip_ws_def split: option.splits)

lemma unmarshal_marshalCommands:
  assumes "case cmds of None \<Rightarrow> True | Some ss \<Rightarrow> list_all spec_utf8 ss"
  shows "unmarshalCommands (marshalCommands cmds) = Inr (map_option (map stored_spec) cmds)"
proof (cases cmds)
  case None
  then show ?thesis by (simp add: unmarshalCommands_def marshalCommands_def)
next
  case (Some ss)
  let ?j = "JArr (map spec_json ss)"
  have "json_ok (Suc (Suc (Suc 0))) ?j" using assms Some by (auto simp: list_all_iff intro: json_ok_spec)
  then have u: "Unmarshal (Marshal ?j) = Some ?j" by (intro Unmarshal_Marshal) (erule json_ok_max, simp)
  then have "Marshal ?j \<noteq> []" by (metis Unmarshal_nonempty)
  moreover have "dec_slice spec_of_json ?j = Some (Some (map stored_spec ss))"
    by (simp add: dec_slice_def o_def spec_of_spec_json)
  ultimately show ?thesis using Some u by (simp add: unmarshalCommands_def marshalCommands_def)
qed

end
