(* ===== verification/CP_Issuer.thy ===== *)
theory CP_Issuer
  imports CP_Policy Durations Protocol_Token Protocol_Envelope
begin

text \<open>
  apps/control-plane/internal/token: issuing and revoking tokens over the store. The state is
  the database and the state \<open>'r\<close> of the random source; the clock's reading \<open>now\<close> and the signer
  are arguments. The policy engine is rebuilt from the database for every evaluation, as
  cmd/server sets it up: rules that cannot be read deny everything.
\<close>

section \<open>The issuer\<close>

record IssueRequest =
  iq_SID :: string
  iq_Scope :: "string list"
  iq_Aud :: string
  iq_TTL :: int
  iq_Principal :: string
  iq_Sub :: string

record Issuer =
  is_sign :: "Header \<Rightarrow> Claims \<Rightarrow> string result"
  is_PublicKeys :: "PublicKey list"
  is_issuer :: string

definition MaxTTL :: int where "MaxTTL = 12 * Hour"

definition effective_ttl :: "int \<Rightarrow> int" where
  "effective_ttl ttl =
     (let ttl = (if ttl \<le> 0 then Hour else ttl) in if ttl > MaxTTL then MaxTTL else ttl)"

text \<open>\<open>LoadPolicy\<close> (api.go) and the engine function of the server.\<close>

definition LoadPolicy :: "db \<Rightarrow> Engine result \<times> db" where
  "LoadPolicy d =
     (case ListPolicyRules d of
        (Inl e, d) \<Rightarrow> (Inl (Err (''load policy: '' @ Error e)), d)
      | (Inr rules, d) \<Rightarrow> (Inr (New_Engine rules), d))"

definition current_engine :: "db \<Rightarrow> Engine \<times> db" where
  "current_engine d = (case LoadPolicy d of (Inl _, d) \<Rightarrow> (New_Engine [], d) | (Inr e, d) \<Rightarrow> (e, d))"

definition zero_event :: AuditEvent where
  "zero_event = \<lparr>ae_ID = 0, ae_At = 0, ae_Event = [], ae_JTI = [], ae_SID = [], ae_Principal = [], ae_Host = [],
     ae_Scope = [], ae_Outcome = [], ae_Reason = [], ae_Detail = []\<rparr>"

definition issue_query :: "IssueRequest \<Rightarrow> string \<Rightarrow> PolicyRequest" where
  "issue_query req scope =
     \<lparr>pq_Principal = iq_Principal req, pq_SID = iq_SID req, pq_Scope = scope, pq_Aud = iq_Aud req, pq_InjectionMethod = []\<rparr>"

definition policy_deny_event :: "int \<Rightarrow> IssueRequest \<Rightarrow> string \<Rightarrow> string \<Rightarrow> AuditEvent" where
  "policy_deny_event now req scope rule =
     zero_event\<lparr>ae_At := now, ae_Event := EventPolicyDeny, ae_SID := iq_SID req, ae_Principal := iq_Principal req,
       ae_Scope := scope, ae_Outcome := ''denied'', ae_Reason := rule\<rparr>"

text \<open>Every requested scope must be allowed; an error of the audit is dropped.\<close>

fun check_scopes :: "int \<Rightarrow> IssueRequest \<Rightarrow> string list \<Rightarrow> db \<Rightarrow> unit result \<times> db" where
  "check_scopes now req [] d = (Inr (), d)"
| "check_scopes now req (scope # scopes) d =
     (case current_engine d of
        (engine, d) \<Rightarrow>
          let dec = Evaluate engine (issue_query req scope) in
          if \<not> dc_Allow dec then
            (Inl (NewDenial ReasonPolicyDenied),
             snd (AppendAudit (policy_deny_event now req scope (dc_RuleID dec)) d))
          else check_scopes now req scopes d)"

text \<open>\<open>fmt.Sprint\<close> of a slice of strings.\<close>

definition sprint_strings :: "string list \<Rightarrow> string" where
  "sprint_strings ss = ''['' @ join_with '' '' ss @ '']''"

definition issued_claims :: "Issuer \<Rightarrow> int \<Rightarrow> IssueRequest \<Rightarrow> string \<Rightarrow> Claims" where
  "issued_claims i now req jti =
     \<lparr>c_Iss = is_issuer i, c_Sub = iq_Sub req, c_SID = iq_SID req, c_Scope = iq_Scope req, c_Aud = iq_Aud req,
      c_Exp = Unix (now + effective_ttl (iq_TTL req)), c_Nbf = Unix (now - 30 * Second), c_JTI = jti\<rparr>"

definition token_row :: "int \<Rightarrow> Claims \<Rightarrow> Token" where
  "token_row now c =
     \<lparr>tk_JTI = c_JTI c, tk_SID = c_SID c, tk_Iss = c_Iss c, tk_Sub = c_Sub c, tk_Scope = c_Scope c, tk_Aud = c_Aud c,
      tk_Nbf = c_Nbf c * Second, tk_Exp = c_Exp c * Second, tk_IssuedAt = now, tk_RevokedAt = None\<rparr>"

definition issue_event :: "int \<Rightarrow> IssueRequest \<Rightarrow> string \<Rightarrow> AuditEvent" where
  "issue_event now req jti =
     zero_event\<lparr>ae_At := now, ae_Event := EventIssue, ae_JTI := jti, ae_SID := iq_SID req, ae_Principal := iq_Principal req,
       ae_Scope := sprint_strings (iq_Scope req), ae_Outcome := ''allowed''\<rparr>"

definition mint ::
  "Issuer \<Rightarrow> 'r random \<Rightarrow> int \<Rightarrow> IssueRequest \<Rightarrow> db \<Rightarrow> 'r \<Rightarrow> (string \<times> Claims) result \<times> db \<times> 'r"
where
  "mint i rand now req d s =
     (case NewID rand ''jti'' s of
        (Inl e, s) \<Rightarrow> (Inl e, d, s)
      | (Inr jti, s) \<Rightarrow>
          let c = issued_claims i now req jti in
          (case is_sign i zero_header c of
             Inl e \<Rightarrow> (Inl e, d, s)
           | Inr jws \<Rightarrow>
               (case CreateToken (token_row now c) d of
                  (Inl e, d) \<Rightarrow> (Inl e, d, s)
                | (Inr _, d) \<Rightarrow>
                    (Inr (URI (iq_SID req) jws, c), snd (AppendAudit (issue_event now req jti) d), s))))"

definition Issue ::
  "Issuer \<Rightarrow> 'r random \<Rightarrow> int \<Rightarrow> IssueRequest \<Rightarrow> db \<Rightarrow> 'r \<Rightarrow> (string \<times> Claims) result \<times> db \<times> 'r"
where
  "Issue i rand now req d s =
     (if iq_SID req = [] \<or> length (iq_Scope req) = 0 \<or> iq_Aud req = [] then (Inl (NewDenial ReasonMalformed), d, s)
      else if list_ex (\<lambda>x. \<not> IsScopeValid x) (iq_Scope req) then (Inl (NewDenial ReasonMalformed), d, s)
      else
        (case GetObject (iq_SID req) d of
           (Inl e, d) \<Rightarrow> (Inl (if e = ErrNotFound then NewDenial ReasonMalformed else e), d, s)
         | (Inr _, d) \<Rightarrow>
             (case check_scopes now req (iq_Scope req) d of
                (Inl e, d) \<Rightarrow> (Inl e, d, s)
              | (Inr _, d) \<Rightarrow> mint i rand now req d s)))"

definition revoke_event :: "int \<Rightarrow> string \<Rightarrow> string \<Rightarrow> AuditEvent" where
  "revoke_event now jti by' =
     zero_event\<lparr>ae_At := now, ae_Event := EventRevoke, ae_JTI := jti, ae_Principal := by', ae_Outcome := ''allowed''\<rparr>"

definition Revoke :: "int \<Rightarrow> string \<Rightarrow> string \<Rightarrow> db \<Rightarrow> unit result \<times> db" where
  "Revoke now jti by' d =
     (if jti = [] then (Inl (NewDenial ReasonMalformed), d)
      else
        (case RevokeToken jti d of
           (Inl e, d) \<Rightarrow> (Inl e, d)
         | (Inr _, d) \<Rightarrow> AppendAudit (revoke_event now jti by') d))"

definition Revoked :: "string \<Rightarrow> db \<Rightarrow> bool \<times> db" where
  "Revoked jti d = (case store_IsRevoked jti d of (Inl _, d) \<Rightarrow> (False, d) | (Inr ok, d) \<Rightarrow> (ok, d))"

section \<open>Lemmas\<close>

lemma db_same_seq [simp]: "d\<lparr>db_audit_seq := db_audit_seq d\<rparr> = (d :: db)"
  by (cases d) simp

lemma db_call_cases:
  assumes "db_call f d = (r, d')"
  obtains (through) "f (d\<lparr>db_faults := tl (db_faults d)\<rparr>) = (r, d')"
  | (unreached) e where "r = Inl e" "d' = d\<lparr>db_faults := tl (db_faults d)\<rparr>"
  | (rolled_back) e r1 d1 where "r = Inl e" "f (d\<lparr>db_faults := tl (db_faults d)\<rparr>) = (r1, d1)"
      "d' = d\<lparr>db_faults := tl (db_faults d), db_audit_seq := db_audit_seq d1\<rparr>"
  | (reply_lost) e r1 where "r = Inl e" "f (d\<lparr>db_faults := tl (db_faults d)\<rparr>) = (r1, d')"
proof -
  have n: "d\<lparr>db_faults := []\<rparr> = d" if "db_faults d = []" using that by (cases d) simp
  obtain r1 d1 where f: "f (d\<lparr>db_faults := tl (db_faults d)\<rparr>) = (r1, d1)" by (metis prod.collapse)
  consider (Nil) "db_faults d = []" | (None) fs where "db_faults d = None # fs"
    | (U) e fs where "db_faults d = Some (Unreached e) # fs" | (R) e fs where "db_faults d = Some (Rolled_back e) # fs"
    | (L) e fs where "db_faults d = Some (Reply_lost e) # fs"
    by (metis list.exhaust option.exhaust db_fault.exhaust)
  then show thesis
  proof cases
    case Nil
    then show thesis using assms that(1) n by (simp add: db_call_def)
  next
    case None
    then show thesis using assms that(1) by (simp add: db_call_def)
  next
    case (U e fs)
    then show thesis using assms that(2) by (auto simp: db_call_def)
  next
    case (R e fs)
    then show thesis using assms that(3) f by (auto simp: db_call_def)
  next
    case (L e fs)
    then show thesis using assms that(4) f by (auto simp: db_call_def)
  qed
qed

text \<open>Two states with the same tables differ at most in the faults still to come.\<close>

definition same_tables :: "db \<Rightarrow> db \<Rightarrow> bool" where
  "same_tables d d' \<longleftrightarrow> db_objects d' = db_objects d \<and> db_tokens d' = db_tokens d \<and> db_audit d' = db_audit d \<and>
     db_audit_seq d' = db_audit_seq d \<and> db_rules d' = db_rules d \<and> db_now d' = db_now d"

lemma same_tables_refl [simp]: "same_tables d d"
  by (simp add: same_tables_def)

lemma same_tables_faults [simp]: "same_tables d (d\<lparr>db_faults := fs\<rparr>)"
  by (simp add: same_tables_def)

lemma same_tables_seq [simp]: "same_tables d (d\<lparr>db_faults := fs, db_audit_seq := db_audit_seq d\<rparr>)"
  by (simp add: same_tables_def)

lemma same_tables_trans: "same_tables a b \<Longrightarrow> same_tables b c \<Longrightarrow> same_tables a c"
  by (simp add: same_tables_def)

lemma effective_ttl_range: "0 < effective_ttl ttl \<and> effective_ttl ttl \<le> MaxTTL"
  by (simp add: effective_ttl_def MaxTTL_def Hour_def Second_def Let_def)

text \<open>What each call may change of the tables.\<close>

lemma GetObject_tables: "GetObject i d = (r, d') \<Longrightarrow> same_tables d d'"
  unfolding GetObject_def db_stmt_def by (erule db_call_cases) (auto split: option.splits if_splits)

lemma GetObject_Inr: "GetObject i d = (Inr ob, d') \<Longrightarrow> ob \<in> set (db_objects d) \<and> obj_ID ob = i"
  unfolding GetObject_def db_stmt_def by (erule db_call_cases) (auto simp: find_Some_iff split: option.splits if_splits)

lemma ListPolicyRules_tables: "ListPolicyRules d = (r, d') \<Longrightarrow> same_tables d d'"
  unfolding ListPolicyRules_def by (erule db_call_cases) auto

lemma current_engine_tables: "current_engine d = (e, d') \<Longrightarrow> same_tables d d'"
  by (auto simp: current_engine_def LoadPolicy_def split: prod.splits sum.splits dest!: ListPolicyRules_tables)

lemma insert_audit_cases:
  assumes "insert_audit e d = (r, d')"
  shows "d' = d\<lparr>db_audit_seq := db_audit_seq d + 1\<rparr> \<and> is_err r \<or>
    d' = d\<lparr>db_audit_seq := db_audit_seq d + 1, db_audit := db_audit d @ [e\<lparr>ae_ID := db_audit_seq d + 1\<rparr>]\<rparr> \<and> r = Inr ()"
  using assms by (auto simp: insert_audit_def Let_def split: if_splits)

lemma AppendAudit_cases:
  assumes "AppendAudit e d = (r, d')"
  shows "(db_audit d' = db_audit d \<and> is_err r \<or> (\<exists>n. db_audit d' = db_audit d @ [e\<lparr>ae_ID := n\<rparr>])) \<and>
    db_tokens d' = db_tokens d \<and> db_objects d' = db_objects d \<and> db_rules d' = db_rules d \<and> db_now d' = db_now d"
proof (cases "validateDetail (ae_Detail e)")
  case (Inl err)
  then have "r = Inl err \<and> d' = d" using assms by (simp add: AppendAudit_def)
  then show ?thesis by simp
next
  case (Inr u)
  then show ?thesis using assms unfolding AppendAudit_def Inr sum.case db_stmt_def
    by (elim db_call_cases) (auto split: if_splits dest!: insert_audit_cases)
qed

text \<open>The issuer's own events pass the constraints: they are only lost to a fault.\<close>

lemma AppendAudit_good:
  assumes "ae_Event e \<in> {EventIssue, EventRevoke, EventPolicyDeny}" and "ae_Outcome e \<in> {''allowed'', ''denied''}"
    and "ae_Detail e = []" and "db_faults d = []"
    and "list_all pg_text [ae_JTI e, ae_SID e, ae_Principal e, ae_Host e, ae_Scope e, ae_Reason e]"
  shows "AppendAudit e d =
    (Inr (), d\<lparr>db_audit_seq := db_audit_seq d + 1, db_audit := db_audit d @ [e\<lparr>ae_ID := db_audit_seq d + 1\<rparr>]\<rparr>)"
  using assms
  by (auto simp: AppendAudit_def insert_audit_def Let_def validateDetail_def db_stmt_def db_call_def pg_text_def utf8_literal audit_event_closed_def EventIssue_def EventRevoke_def
      EventPolicyDeny_def)

lemma check_scopes_Inr:
  assumes "check_scopes now req scopes d = (Inr u, d')"
  shows "same_tables d d' \<and>
    list_all (\<lambda>x. \<exists>e d1 d2. same_tables d d1 \<and> current_engine d1 = (e, d2) \<and>
        dc_Allow (Evaluate e (issue_query req x))) scopes"
  using assms
proof (induction now req scopes d arbitrary: d' rule: check_scopes.induct)
  case (2 now req scope scopes d)
  obtain e d1 where e: "current_engine d = (e, d1)" by (metis prod.collapse)
  have a: "dc_Allow (Evaluate e (issue_query req scope))" "check_scopes now req scopes d1 = (Inr u, d')"
    using "2.prems" e by (auto simp: Let_def split: if_splits)
  have d1: "same_tables d d1" using current_engine_tables [OF e] .
  have "same_tables d1 d' \<and> list_all (\<lambda>x. \<exists>e d3 d2. same_tables d1 d3 \<and> current_engine d3 = (e, d2) \<and>
        dc_Allow (Evaluate e (issue_query req x))) scopes"
    using "2.IH" [OF e [symmetric] refl _ a(2)] a(1) by simp
  moreover have "\<exists>e d1 d2. same_tables d d1 \<and> current_engine d1 = (e, d2) \<and> dc_Allow (Evaluate e (issue_query req scope))"
    using e a(1) same_tables_refl by blast
  ultimately show ?case using same_tables_trans [OF d1] by (auto simp: list_all_iff) blast
qed simp

lemma check_scopes_audit:
  "check_scopes now req scopes d = (r, d') \<Longrightarrow>
     db_tokens d' = db_tokens d \<and> db_objects d' = db_objects d \<and> db_rules d' = db_rules d \<and>
     (db_audit d' = db_audit d \<or> (\<exists>x rule n. db_audit d' = db_audit d @ [(policy_deny_event now req x rule)\<lparr>ae_ID := n\<rparr>]))"
proof (induction now req scopes d arbitrary: r d' rule: check_scopes.induct)
  case (2 now req scope scopes d)
  obtain e d1 where e: "current_engine d = (e, d1)" by (metis prod.collapse)
  have d1: "same_tables d d1" using current_engine_tables [OF e] .
  show ?case
  proof (cases "dc_Allow (Evaluate e (issue_query req scope))")
    case True
    then have "check_scopes now req scopes d1 = (r, d')" using "2.prems" e by (simp add: Let_def)
    then show ?thesis using "2.IH" [OF e [symmetric] refl] True d1 by (simp add: same_tables_def)
  next
    case False
    let ?e = "policy_deny_event now req scope (dc_RuleID (Evaluate e (issue_query req scope)))"
    have "d' = snd (AppendAudit ?e d1)" using "2.prems" e False by (simp add: Let_def)
    then obtain r1 where r1: "AppendAudit ?e d1 = (r1, d')" by (cases "AppendAudit ?e d1") auto
    have "db_audit d' = db_audit d1 \<or> (\<exists>n. db_audit d' = db_audit d1 @ [?e\<lparr>ae_ID := n\<rparr>])"
      "db_tokens d' = db_tokens d1" "db_objects d' = db_objects d1" "db_rules d' = db_rules d1"
      using AppendAudit_cases [OF r1] by auto
    then show ?thesis using d1 unfolding same_tables_def by metis
  qed
qed simp


lemma check_scopes_allowed:
  assumes "check_scopes now req scopes d = (Inr u, d')" and "scopes \<noteq> []"
  shows "\<exists>rules. scan_rows (order_rows (db_rules d)) = Inr rules \<and>
    list_all (\<lambda>x. dc_Allow (Evaluate rules (issue_query req x))) scopes"
proof -
  have *: "\<exists>rules. scan_rows (order_rows (db_rules d)) = Inr rules \<and> dc_Allow (Evaluate rules (issue_query req x))"
    if "same_tables d d1" "current_engine d1 = (e, d2)" "dc_Allow (Evaluate e (issue_query req x))" for d1 d2 e x
  proof -
    note H = that
    obtain r d3 where l: "ListPolicyRules d1 = (r, d3)" by (metis prod.collapse)
    have "\<not> dc_Allow (Evaluate [] (issue_query req x))" by (simp add: cp_default_def)
    then obtain rules where r: "r = Inr rules" "e = rules"
      using H(2,3) l by (cases r) (auto simp: current_engine_def LoadPolicy_def New_Engine_def)
    have "scan_rows (order_rows (db_rules d1)) = Inr rules"
      using l r(1) unfolding ListPolicyRules_def by (auto elim: db_call_cases)
    then show ?thesis using H(1,3) r(2) by (simp add: same_tables_def)
  qed
  have all: "\<exists>rules. scan_rows (order_rows (db_rules d)) = Inr rules \<and> dc_Allow (Evaluate rules (issue_query req x))"
    if "x \<in> set scopes" for x
    using check_scopes_Inr [OF assms(1)] that * unfolding list_all_iff by blast
  obtain x where "x \<in> set scopes" using assms(2) by (cases scopes) auto
  then obtain rules where r: "scan_rows (order_rows (db_rules d)) = Inr rules" using all by blast
  then show ?thesis using all by (auto simp: list_all_iff)
qed

lemma CreateToken_Inr:
  assumes "CreateToken t d = (Inr u, d')"
  shows "db_tokens d' = db_tokens d @ [t\<lparr>tk_RevokedAt := None\<rparr>] \<and> (\<forall>x \<in> set (db_tokens d). tk_JTI x \<noteq> tk_JTI t) \<and>
    db_audit d' = db_audit d \<and> db_objects d' = db_objects d \<and> db_rules d' = db_rules d \<and> tokens_jti_format (tk_JTI t)"
  using assms unfolding CreateToken_def db_stmt_def
  by (elim db_call_cases) (auto simp: list_ex_iff split: if_splits)

text \<open>How an issuance ends.\<close>

lemma Issue_Inr:
  assumes "Issue i rand now req d s = (Inr (uri, c), d', s')"
  obtains d1 d2 d3 jti jws ob where
    "iq_SID req \<noteq> []" "iq_Scope req \<noteq> []" "iq_Aud req \<noteq> []" "set (iq_Scope req) \<subseteq> set AllScopes"
    "GetObject (iq_SID req) d = (Inr ob, d1)" "check_scopes now req (iq_Scope req) d1 = (Inr (), d2)"
    "NewID rand ''jti'' s = (Inr jti, s')" "c = issued_claims i now req jti" "is_sign i zero_header c = Inr jws"
    "CreateToken (token_row now c) d2 = (Inr (), d3)" "uri = URI (iq_SID req) jws"
    "d' = snd (AppendAudit (issue_event now req jti) d3)"
  using assms
  by (auto simp: Issue_def mint_def Let_def list_ex_iff IsScopeValid_iff split: if_splits prod.splits sum.splits)

section \<open>Properties\<close>

text \<open>
  C35. Token lifetimes are bounded whatever a client asks for: for every number of seconds in a
  request, also one whose product with \<open>time.Second\<close> wraps around, a token that is issued
  expires at most twelve hours after the issuance and not before it, is valid from thirty
  seconds earlier, and a whole number of seconds within the bound is granted exactly.
\<close>

theorem issued_lifetime_is_bounded:
  assumes "Issue i rand now (req\<lparr>iq_TTL := duration_seconds n\<rparr>) d s = (Inr (uri, c), d', s')"
  shows "c_Nbf c = Unix now - 30 \<and> Unix now \<le> c_Exp c \<and> c_Exp c \<le> Unix now + 43200 \<and>
    (if 1 \<le> n \<and> n \<le> 43200 then c_Exp c = Unix now + n else True)"
proof -
  obtain jti where c: "c = issued_claims i now (req\<lparr>iq_TTL := duration_seconds n\<rparr>) jti"
    using assms by (rule Issue_Inr)
  let ?t = "effective_ttl (duration_seconds n)"
  have r: "0 < ?t" "?t \<le> 43200 * Second" using effective_ttl_range [of "duration_seconds n"]
    by (auto simp: MaxTTL_def Hour_def)
  have e: "c_Exp c = Unix (now + ?t)" "c_Nbf c = Unix (now - 30 * Second)" by (simp_all add: c issued_claims_def)
  have "Unix (now + ?t) \<le> Unix (now + 43200 * Second)" "Unix now \<le> Unix (now + ?t)"
    using r by (auto simp: Unix_def Second_def intro: zdiv_mono1)
  moreover have "Unix (now + k * Second) = Unix now + k" for k by (simp add: Unix_def Second_def)
  moreover have "?t = n * Second" if "1 \<le> n" "n \<le> 43200"
    using that duration_seconds_exact [of n] by (auto simp: effective_ttl_def MaxTTL_def Hour_def Second_def Let_def)
  moreover have "Unix (now - 30 * Second) = Unix now - 30" by (simp add: Unix_def Second_def)
  ultimately show ?thesis using e by auto
qed

text \<open>
  C30. A token exists only where policy allows it: if one is issued, the object is registered,
  the scopes are of the closed list, and the rules of the database, in their order, allow every
  single scope for this principal, object and audience; the token's row is recorded, under an id
  no other token has, with exactly the claims that were signed.
\<close>

theorem issued_means_allowed:
  assumes "Issue i rand now req d s = (Inr (uri, c), d', s')"
  shows "(\<exists>ob. ob \<in> set (db_objects d) \<and> obj_ID ob = iq_SID req) \<and> iq_Scope req \<noteq> [] \<and> set (iq_Scope req) \<subseteq> set AllScopes \<and>
    (\<exists>rules. scan_rows (order_rows (db_rules d)) = Inr rules \<and>
       list_all (\<lambda>x. dc_Allow (Evaluate rules (issue_query req x))) (iq_Scope req)) \<and>
    c_SID c = iq_SID req \<and> c_Scope c = iq_Scope req \<and> c_Aud c = iq_Aud req \<and>
    c_JTI c \<notin> tk_JTI ` set (db_tokens d) \<and> db_tokens d' = db_tokens d @ [token_row now c] \<and>
    (\<exists>jws. is_sign i zero_header c = Inr jws \<and> uri = URI (c_SID c) jws)"
proof -
  obtain d1 d2 d3 jti jws ob where *: "iq_Scope req \<noteq> []" "set (iq_Scope req) \<subseteq> set AllScopes"
    "GetObject (iq_SID req) d = (Inr ob, d1)" "check_scopes now req (iq_Scope req) d1 = (Inr (), d2)"
    "c = issued_claims i now req jti" "is_sign i zero_header c = Inr jws"
    "CreateToken (token_row now c) d2 = (Inr (), d3)" "uri = URI (iq_SID req) jws"
    "d' = snd (AppendAudit (issue_event now req jti) d3)"
    using assms by (rule Issue_Inr)
  have s1: "same_tables d d1" using GetObject_tables [OF *(3)] .
  have s2: "db_tokens d2 = db_tokens d1" using check_scopes_Inr [OF *(4)] by (simp add: same_tables_def)
  have ok: "\<exists>rules. scan_rows (order_rows (db_rules d)) = Inr rules \<and>
       list_all (\<lambda>x. dc_Allow (Evaluate rules (issue_query req x))) (iq_Scope req)"
    using check_scopes_allowed [OF *(4) *(1)] s1 by (simp add: same_tables_def)
  obtain r where "AppendAudit (issue_event now req jti) d3 = (r, d')"
    using *(9) by (cases "AppendAudit (issue_event now req jti) d3") auto
  then have "db_tokens d' = db_tokens d3" using AppendAudit_cases by blast
  moreover have "db_tokens d3 = db_tokens d @ [token_row now c]" "c_JTI c \<notin> tk_JTI ` set (db_tokens d)"
    using CreateToken_Inr [OF *(7)] s1 s2 by (auto simp: same_tables_def token_row_def)
  moreover have "c_SID c = iq_SID req" "c_Scope c = iq_Scope req" "c_Aud c = iq_Aud req" using *(5) by (simp_all add: issued_claims_def)
  ultimately show ?thesis using GetObject_Inr [OF *(3)] *(1,2,6,8) ok by auto
qed

section \<open>Instances\<close>

definition sample_rand :: "nat random" where
  "sample_rand n w = (Some (replicate n (CHR ''r'')), w + 1)"

definition sample_db :: db where
  "sample_db =
     \<lparr>db_objects = [\<lparr>obj_ID = ''obj_1'', obj_FolderID = [], obj_OwnerPrincipal = ''alice'', obj_ContentType = [],
         obj_WrappingKID = ''kek-1'', obj_CreatedAt = 0, obj_RevokedAt = None\<rparr>],
      db_tokens = [], db_audit = [], db_audit_seq = 0,
      db_rules = [\<lparr>row_rule = \<lparr>pr_ID = ''r1'', pr_Effect = ''allow'', pr_Principal = [], pr_SID = [], pr_Scope = [''unwrap''],
           pr_Aud = [], pr_InjectionMethod = [], pr_Commands = None, pr_Priority = 0, pr_CreatedAt = 0\<rparr>, row_commands = None\<rparr>],
      db_now = 0, db_faults = []\<rparr>"

definition sample_issuer :: Issuer where
  "sample_issuer = \<lparr>is_sign = (\<lambda>h c. Inr ''jws''), is_PublicKeys = [], is_issuer = ''https://cp''\<rparr>"

definition sample_issue_request :: IssueRequest where
  "sample_issue_request = \<lparr>iq_SID = ''obj_1'', iq_Scope = [''unwrap''], iq_Aud = ''prod'', iq_TTL = 0,
     iq_Principal = ''alice'', iq_Sub = []\<rparr>"

lemma sample_issued:
  "case Issue sample_issuer sample_rand 1000000000000 (sample_issue_request\<lparr>iq_TTL := duration_seconds 9223372037\<rparr>) sample_db 0 of
     (Inr (uri, c), d, s) \<Rightarrow> c_Exp c = 4600 \<and> map ae_Event (db_audit d) = [''issue''] \<and> length (db_tokens d) = 1 | _ \<Rightarrow> False"
  by code_simp

lemma issued_lifetime_is_bounded_witness:
  "\<exists>uri c d s. Issue sample_issuer sample_rand 1000000000000 (sample_issue_request\<lparr>iq_TTL := duration_seconds 9223372037\<rparr>)
      sample_db 0 = (Inr (uri, c), d, s) \<and> c_Nbf c = 970 \<and> c_Exp c \<le> 44200"
proof -
  obtain uri c d s where i: "Issue sample_issuer sample_rand 1000000000000
      (sample_issue_request\<lparr>iq_TTL := duration_seconds 9223372037\<rparr>) sample_db 0 = (Inr (uri, c), d, s)"
    using sample_issued by (auto split: prod.splits sum.splits)
  then show ?thesis using issued_lifetime_is_bounded [OF i] by (simp add: Unix_def Second_def)
qed

lemma issued_means_allowed_witness:
  "\<exists>uri c d s. Issue sample_issuer sample_rand 1000000000000 (sample_issue_request\<lparr>iq_TTL := duration_seconds 9223372037\<rparr>)
      sample_db 0 = (Inr (uri, c), d, s) \<and> db_tokens d = [token_row 1000000000000 c] \<and> c_Scope c = [''unwrap'']"
proof -
  obtain uri c d s where i: "Issue sample_issuer sample_rand 1000000000000
      (sample_issue_request\<lparr>iq_TTL := duration_seconds 9223372037\<rparr>) sample_db 0 = (Inr (uri, c), d, s)"
    using sample_issued by (auto split: prod.splits sum.splits)
  then show ?thesis using issued_means_allowed [OF i] by (simp add: sample_db_def sample_issue_request_def)
qed

end
