(* ===== verification/Times.thy ===== *)
theory Times
  imports Json Durations
begin

text \<open>
  Times as Go's \<open>encoding/json\<close> writes and reads them: RFC 3339 with the fraction of a second as
  far as it is not zero. A time is its distance from 1970 in nanoseconds; it is written in UTC,
  the location of the servers.
\<close>

section \<open>The calendar\<close>

definition civil_from_days :: "int \<Rightarrow> int \<times> int \<times> int" where
  "civil_from_days days =
     (let z = days + 719468; era = z div 146097; doe = z mod 146097;
          yoe = (doe - doe div 1460 + doe div 36524 - doe div 146096) div 365;
          doy = doe - (365 * yoe + yoe div 4 - yoe div 100);
          mp = (5 * doy + 2) div 153;
          m = (if mp < 10 then mp + 3 else mp - 9) in
      (yoe + era * 400 + (if m \<le> 2 then 1 else 0), m, doy - (153 * mp + 2) div 5 + 1))"

definition days_from_civil :: "int \<Rightarrow> int \<Rightarrow> int \<Rightarrow> int" where
  "days_from_civil y m d =
     (let y = (if m \<le> 2 then y - 1 else y); era = y div 400; yoe = y mod 400;
          doy = (153 * (if m > 2 then m - 3 else m + 9) + 2) div 5 + d - 1;
          doe = yoe * 365 + yoe div 4 - yoe div 100 + doy in
      era * 146097 + doe - 719468)"

definition days_in :: "int \<Rightarrow> int \<Rightarrow> int" where
  "days_in y m =
     (if m = 2 then (if y mod 4 = 0 \<and> (y mod 100 \<noteq> 0 \<or> y mod 400 = 0) then 29 else 28)
      else if m \<in> {4, 6, 9, 11} then 30 else 31)"

section \<open>Writing\<close>

definition pad :: "nat \<Rightarrow> int \<Rightarrow> string" where
  "pad w i = (let ds = nat_digits (nat i) in replicate (w - length ds) (CHR ''0'') @ ds)"

definition fraction :: "int \<Rightarrow> string" where
  "fraction ns = (if ns = 0 then [] else ''.'' @ rev (dropWhile (\<lambda>c. c = CHR ''0'') (rev (pad 9 ns))))"

definition RFC3339Nano :: "int \<Rightarrow> string" where
  "RFC3339Nano t =
     (let sec = t div Second; tod = sec mod 86400 in
      case civil_from_days (sec div 86400) of
        (y, m, d) \<Rightarrow>
          pad 4 y @ ''-'' @ pad 2 m @ ''-'' @ pad 2 d @ ''T'' @ pad 2 (tod div 3600) @ '':''
            @ pad 2 (tod div 60 mod 60) @ '':'' @ pad 2 (tod mod 60) @ fraction (t mod Second) @ ''Z'')"

section \<open>Reading\<close>

text \<open>A number of exactly \<open>w\<close> digits in a range, and what follows it.\<close>

definition field :: "nat \<Rightarrow> int \<Rightarrow> int \<Rightarrow> string \<Rightarrow> (int \<times> string) option" where
  "field w lo hi s =
     (if length s < w then None
      else
        (case atoi_digits 0 (take w s) of
           None \<Rightarrow> None
         | Some n \<Rightarrow> if lo \<le> int n \<and> int n \<le> hi then Some (int n, drop w s) else None))"

definition lit :: "char \<Rightarrow> string \<Rightarrow> string option" where
  "lit c s = (case s of [] \<Rightarrow> None | d # r \<Rightarrow> if d = c then Some r else None)"

definition read_date :: "string \<Rightarrow> (int \<times> string) option" where
  "read_date s =
     Option.bind (field 4 0 9999 s) (\<lambda>(y, s). Option.bind (lit (CHR ''-'') s) (\<lambda>s.
     Option.bind (field 2 1 12 s) (\<lambda>(m, s). Option.bind (lit (CHR ''-'') s) (\<lambda>s.
     Option.bind (field 2 1 (days_in y m) s) (\<lambda>(d, s). Some (days_from_civil y m d, s))))))"

definition read_clock :: "string \<Rightarrow> (int \<times> string) option" where
  "read_clock s =
     Option.bind (lit (CHR ''T'') s) (\<lambda>s. Option.bind (field 2 0 23 s) (\<lambda>(h, s).
     Option.bind (lit (CHR '':'') s) (\<lambda>s. Option.bind (field 2 0 59 s) (\<lambda>(m, s).
     Option.bind (lit (CHR '':'') s) (\<lambda>s. Option.bind (field 2 0 59 s) (\<lambda>(sc, s).
     Some ((h * 60 + m) * 60 + sc, s)))))))"

text \<open>Digits of a fraction after the ninth do not count.\<close>

definition read_fraction :: "string \<Rightarrow> (int \<times> string) option" where
  "read_fraction s =
     (if \<not> HasPrefix s ''.'' then Some (0, s)
      else
        (case digits (tl s) of
           (ds, r) \<Rightarrow>
             if ds = [] then None
             else map_option (\<lambda>n. (int n, r)) (atoi_digits 0 (take 9 (ds @ replicate 9 (CHR ''0''))))))"

definition read_zone :: "string \<Rightarrow> int option" where
  "read_zone s =
     (if s = ''Z'' then Some 0
      else if \<not> (HasPrefix s ''+'' \<or> HasPrefix s ''-'') then None
      else
        Option.bind (field 2 0 23 (tl s)) (\<lambda>(h, r). Option.bind (lit (CHR '':'') r) (\<lambda>r.
        Option.bind (field 2 0 59 r) (\<lambda>(m, r).
          if r \<noteq> [] then None
          else Some ((if HasPrefix s ''-'' then -1 else 1) * (h * 60 + m) * 60)))))"

definition parse_time :: "string \<Rightarrow> int option" where
  "parse_time s =
     Option.bind (read_date s) (\<lambda>(day, s). Option.bind (read_clock s) (\<lambda>(tod, s).
     Option.bind (read_fraction s) (\<lambda>(ns, s).
     map_option (\<lambda>off. (day * 86400 + tod - off) * Second + ns) (read_zone s))))"

section \<open>Lemmas\<close>

lemma pad_digits: "list_all is_digit (pad w i)"
  by (auto simp: pad_def Let_def list_all_iff is_digit_def dest: nat_digits_digit)

lemma RFC3339Nano_ascii: "list_all (\<lambda>c. byte c < 128) (RFC3339Nano t)"
proof -
  have d: "byte c < 128" if "is_digit c" for c using that by (auto simp: is_digit_def)
  have p: "list_all (\<lambda>c. byte c < 128) (pad w i)" for w i using pad_digits d by (auto simp: list_all_iff)
  have "list_all (\<lambda>c. byte c < 128) (fraction n)" for n
    using p [of 9 n] set_dropWhileD by (fastforce simp: fraction_def list_all_iff)
  then show ?thesis using p by (auto simp: RFC3339Nano_def Let_def split: prod.splits)
qed

lemma RFC3339Nano_utf8 [simp]: "utf8_Valid (RFC3339Nano t)"
  by (rule utf8_literal) (rule RFC3339Nano_ascii)

text \<open>Instants on both sides of a leap day, and a zone.\<close>

lemma sample_times:
  "RFC3339Nano 0 = ''1970-01-01T00:00:00Z''" "RFC3339Nano 1709251199500000000 = ''2024-02-29T23:59:59.5Z''"
  "parse_time ''2024-02-29T23:59:59.5Z'' = Some 1709251199500000000"
  "parse_time ''2024-03-01T01:59:59.50+02:00'' = Some 1709251199500000000"
  "parse_time ''2023-02-29T00:00:00Z'' = None" "parse_time ''2024-02-29 23:59:59Z'' = None"
  by code_simp+

end
