(* ===== verification/Http_Server.thy ===== *)
theory Http_Server
  imports Services Url_Parse File_System
begin

text \<open>
  What the control plane's handlers use of \<open>net/http\<close> and \<open>net/url\<close>: the parts of a request,
  its query, the patterns of \<open>ServeMux\<close>, and the way a client's request reaches the handler of
  the server at the origin of its URL.
\<close>

section \<open>Requests\<close>

text \<open>The path is still escaped.\<close>

record api_request =
  ar_Method :: string
  ar_Path :: string
  ar_RawQuery :: string
  ar_Header :: "(string \<times> string) list"
  ar_Body :: bytes

definition trim_ows :: "string \<Rightarrow> string" where
  "trim_ows s =
     (let ws = (\<lambda>c. c = CHR '' '' \<or> c = CHR 0x09) in rev (dropWhile ws (rev (dropWhile ws s))))"

definition header_get :: "string \<Rightarrow> (string \<times> string) list \<Rightarrow> string" where
  "header_get name hs =
     (case List.find (\<lambda>(k, _). map to_lower k = map to_lower name) hs of
        None \<Rightarrow> []
      | Some (_, v) \<Rightarrow> trim_ows v)"

section \<open>The query\<close>

fun QueryUnescape :: "string \<Rightarrow> string option" where
  "QueryUnescape [] = Some []"
| "QueryUnescape (c # r) =
     (if c = CHR ''%'' then
        (case r of
           d # e # r' \<Rightarrow>
             (case (hex_val d, hex_val e) of
                (Some x, Some y) \<Rightarrow> map_option (Cons (char_of (x * 16 + y))) (QueryUnescape r')
              | _ \<Rightarrow> None)
         | _ \<Rightarrow> None)
      else map_option (Cons (if c = CHR ''+'' then CHR '' '' else c)) (QueryUnescape r))"

text \<open>One part of a query: parts that do not decode are dropped, as is a part with a semicolon.\<close>

definition query_part :: "string \<Rightarrow> (string \<times> string) option" where
  "query_part p =
     (if CHR '';'' \<in> set p \<or> p = [] then None
      else
        (case (case cut_at (CHR ''='') p of None \<Rightarrow> (p, []) | Some kv \<Rightarrow> kv) of
           (k, v) \<Rightarrow>
             (case (QueryUnescape k, QueryUnescape v) of
                (Some k, Some v) \<Rightarrow> Some (k, v)
              | _ \<Rightarrow> None)))"

definition ParseQuery :: "string \<Rightarrow> (string \<times> string) list" where
  "ParseQuery q = List.map_filter query_part (split_on (CHR ''&'') q)"

definition query_get :: "string \<Rightarrow> string \<Rightarrow> string" where
  "query_get k q = (case List.find (\<lambda>(k', _). k' = k) (ParseQuery q) of None \<Rightarrow> [] | Some (_, v) \<Rightarrow> v)"

section \<open>Patterns\<close>

definition cleanPath :: "string \<Rightarrow> string" where
  "cleanPath p =
     (let p = (if HasPrefix p ''/'' then p else ''/'' @ p); np = Clean p in
      if HasSuffix p ''/'' \<and> np \<noteq> ''/'' then np @ ''/'' else np)"

definition pathUnescape :: "string \<Rightarrow> string" where
  "pathUnescape s = (case unescape encodePath s of None \<Rightarrow> s | Some t \<Rightarrow> t)"

text \<open>A pattern for GET also takes HEAD.\<close>

definition method_matches :: "string \<Rightarrow> string \<Rightarrow> bool" where
  "method_matches pat m \<longleftrightarrow> m = pat \<or> (pat = ''GET'' \<and> m = ''HEAD'')"

text \<open>Patterns are matched against the elements of the path, each unescaped.\<close>

definition path_elems :: "string \<Rightarrow> string list" where
  "path_elems p = map pathUnescape (tl (split_on (CHR ''/'') p))"

section \<open>From the client to the server\<close>

text \<open>
  The target of a URL at an origin (a scheme and an authority): the fragment stays with the
  client, and what no URL can contain is an error before anything is sent.
\<close>

definition request_target :: "string \<Rightarrow> string \<Rightarrow> (string \<times> string) option" where
  "request_target origin u =
     (if \<not> HasPrefix u origin then None
      else
        (let t = drop (length origin) u; t = takeWhile (\<lambda>c. c \<noteq> CHR ''#'') t in
         case (case cut_at (CHR ''?'') t of None \<Rightarrow> (t, []) | Some pq \<Rightarrow> pq) of
           (p, q) \<Rightarrow>
             if list_ex is_ctl u \<or> unescape encodePath p = None then None else Some (p, q)))"

definition field_value_ok :: "string \<Rightarrow> bool" where
  "field_value_ok v = list_all (\<lambda>c. \<not> (is_ctl c \<and> c \<noteq> CHR 0x09)) v"

definition serve :: "string \<Rightarrow> (api_request \<Rightarrow> 'w \<Rightarrow> http_response \<times> 'w) \<Rightarrow> 'w transport" where
  "serve origin handler rq w =
     (case request_target origin (rq_URL rq) of
        None \<Rightarrow> (Inl (Err ''no route to the host''), w)
      | Some (p, q) \<Rightarrow>
          if \<not> list_all (\<lambda>(_, v). field_value_ok v) (rq_Header rq) then (Inl (Err ''invalid header field value''), w)
          else
            (case handler \<lparr>ar_Method = rq_Method rq, ar_Path = p, ar_RawQuery = q, ar_Header = rq_Header rq,
                           ar_Body = rq_Body rq\<rparr> w of
               (resp, w) \<Rightarrow> (Inr resp, w)))"

section \<open>Lemmas\<close>

lemma hex_val_HEX_digit: "n < 16 \<Longrightarrow> hex_val (HEX_digit n) = Some n"
proof -
  assume "n < 16"
  moreover have "list_all (\<lambda>n. hex_val (HEX_digit n) = Some n) [0..<16]" by code_simp
  ultimately show ?thesis by (simp add: list_all_iff)
qed

lemma nibbles: "byte c div 16 < 16" "byte c mod 16 < 16"
  using byte_less_256 [of c] less_mult_imp_div_less [of "byte c" 16 16] by simp_all

text \<open>What the client escapes the server reads back.\<close>

lemma QueryUnescape_escaped:
  "QueryUnescape (CHR ''%'' # HEX_digit (byte c div 16) # HEX_digit (byte c mod 16) # r) =
     map_option (Cons c) (QueryUnescape r)"
proof -
  have "char_of (byte c div 16 * 16 + byte c mod 16) = c" by (simp only: div_mult_mod_eq char_of_char)
  then show ?thesis using nibbles [of c] by (simp add: hex_val_HEX_digit)
qed

lemma QueryUnescape_QueryEscape [simp]: "QueryUnescape (QueryEscape s) = Some s"
proof (induction s)
  case (Cons c s)
  have n: "\<not> is_alnum (CHR ''%'')" "\<not> is_alnum (CHR ''+'')" by code_simp+
  have q: "QueryEscape (c # s) =
      (if is_alnum c \<or> c \<in> set ''-_.~'' then [c] else if c = CHR '' '' then ''+''
       else [CHR ''%'', HEX_digit (byte c div 16), HEX_digit (byte c mod 16)]) @ QueryEscape s"
    by (simp add: QueryEscape_def)
  consider (plain) "is_alnum c \<or> c \<in> set ''-_.~''" | (space) "\<not> (is_alnum c \<or> c \<in> set ''-_.~'')" "c = CHR '' ''"
    | (escaped) "\<not> (is_alnum c \<or> c \<in> set ''-_.~'')" "c \<noteq> CHR '' ''" by blast
  then show ?case
  proof cases
    case plain
    then have "c \<noteq> CHR ''%''" "c \<noteq> CHR ''+''" using n by auto
    then show ?thesis unfolding q if_P [OF plain] using Cons.IH by simp
  next
    case space
    then show ?thesis unfolding q if_not_P [OF space(1)] using Cons.IH by simp
  next
    case escaped
    show ?thesis
      unfolding q if_not_P [OF escaped(1)] if_not_P [OF escaped(2)]
      using Cons.IH by (simp only: append_Cons append_Nil QueryUnescape_escaped option.map)
  qed
qed (simp add: QueryEscape_def)

definition query_safe :: "char \<Rightarrow> bool" where
  "query_safe c \<longleftrightarrow> is_alnum c \<or> c \<in> set ''-_.~+%''"

lemma QueryEscape_safe: "list_all query_safe (QueryEscape s)"
proof -
  have "list_all (\<lambda>n. query_safe (HEX_digit n)) [0..<16]" by code_simp
  then have h: "query_safe (HEX_digit (byte c div 16))" "query_safe (HEX_digit (byte c mod 16))" for c
    using nibbles [of c] by (simp_all add: list_all_iff)
  have "query_safe (CHR ''%'')" "query_safe (CHR ''+'')" by code_simp+
  then show ?thesis using h by (induction s) (auto simp: QueryEscape_def query_safe_def)
qed

lemma query_safe_not: "query_safe c \<Longrightarrow> c \<notin> set ''#&;=?/'' \<and> \<not> is_ctl c"
  by (auto simp: query_safe_def is_ctl_def is_alnum_def is_digit_def is_upper_def is_lower_def)

lemma QueryEscape_lacks [simp]:
  "c \<in> set ''#&;=?/'' \<Longrightarrow> c \<notin> set (QueryEscape s)"
  using QueryEscape_safe [of s] query_safe_not by (auto simp: list_all_iff)

lemma query_get_one:
  "list_all query_safe k \<Longrightarrow> QueryUnescape k = Some k \<Longrightarrow> query_get k (k @ ''='' @ QueryEscape v) = v"
proof -
  assume k: "list_all query_safe k" "QueryUnescape k = Some k"
  then have n: "CHR ''='' \<notin> set k" "CHR ''&'' \<notin> set k" "CHR '';'' \<notin> set k"
    using query_safe_not by (fastforce simp: list_all_iff)+
  have "cut_at (CHR ''='') (k @ ''='' @ QueryEscape v) = Some (k, QueryEscape v)"
    using n by (simp add: cut_at_append)
  then have "query_part (k @ ''='' @ QueryEscape v) = Some (k, v)"
    using k n by (simp add: query_part_def)
  moreover have "split_on (CHR ''&'') (k @ ''='' @ QueryEscape v) = [k @ ''='' @ QueryEscape v]"
    using n by (intro split_on_no_sep) auto
  ultimately show ?thesis by (simp add: query_get_def ParseQuery_def List.map_filter_def)
qed

lemma HasPrefix_append: "HasPrefix (a @ b) a"
  by (simp add: HasPrefix_def)

lemma drop_append_self: "drop (length a) (a @ b) = b"
  by simp

lemma request_target_plain:
  assumes "list_all (\<lambda>c. \<not> is_ctl c) origin" and "list_all (\<lambda>c. \<not> is_ctl c) p"
    and "CHR ''#'' \<notin> set p" "CHR ''?'' \<notin> set p" "CHR ''%'' \<notin> set p"
  shows "request_target origin (origin @ p) = Some (p, [])"
proof -
  have t: "takeWhile (\<lambda>c. c \<noteq> CHR ''#'') p = p" using assms(3) by (auto intro: takeWhile_eq_all_conv [THEN iffD2])
  have c: "cut_at (CHR ''?'') p = None" using assms(4) by (simp add: cut_at_None_iff)
  have u: "unescape encodePath p = Some p" using assms(5) by (simp add: unescape_plain)
  have n: "\<not> list_ex is_ctl (origin @ p)" using assms(1,2) by (auto simp: list_all_iff list_ex_iff)
  show ?thesis by (simp add: request_target_def Let_def HasPrefix_append t c u n del: list_ex_append)
qed

lemma request_target_query:
  assumes "list_all (\<lambda>c. \<not> is_ctl c) origin" and "list_all (\<lambda>c. \<not> is_ctl c) p"
    and "CHR ''#'' \<notin> set p" "CHR ''?'' \<notin> set p" "CHR ''%'' \<notin> set p"
    and "list_all query_safe k"
  shows "request_target origin (origin @ p @ ''?'' @ k @ ''='' @ QueryEscape v) = Some (p, k @ ''='' @ QueryEscape v)"
proof -
  let ?q = "k @ ''='' @ QueryEscape v"
  have k: "CHR ''#'' \<notin> set k" "list_all (\<lambda>c. \<not> is_ctl c) k"
    using assms(6) query_safe_not by (fastforce simp: list_all_iff)+
  have v: "list_all (\<lambda>c. \<not> is_ctl c) (QueryEscape v)"
    using QueryEscape_safe [of v] by (rule list.pred_mono_strong) (use query_safe_not in blast)
  define x where "x = p @ ''?'' @ ?q"
  have t: "takeWhile (\<lambda>c. c \<noteq> CHR ''#'') x = x"
    unfolding x_def using assms(3) k(1) by (intro takeWhile_eq_all_conv [THEN iffD2]) auto
  have c: "cut_at (CHR ''?'') x = Some (p, ?q)" unfolding x_def using assms(4) by (simp add: cut_at_append)
  have u: "unescape encodePath p = Some p" using assms(5) by (simp add: unescape_plain)
  have "\<not> is_ctl (CHR ''='')" "\<not> is_ctl (CHR ''?'')" by code_simp+
  then have n: "\<not> list_ex is_ctl (origin @ x)"
    unfolding x_def using assms(1,2) k v by (auto simp: list_all_iff list_ex_iff)
  show ?thesis
    unfolding x_def [symmetric] by (simp add: request_target_def Let_def HasPrefix_append t c u n del: list_ex_append)
qed

end
