(* ===== verification/CP_Api.thy ===== *)
theory CP_Api
  imports CP_Issuer Http_Server Times
begin

text \<open>
  apps/control-plane/internal/api: the HTTP interface of the control plane, handler by handler,
  over the store and the issuer. Requests are decoded strictly: a member that no field takes is
  an error, so no request can carry a value. Responses are JSON documents; the members of a Go map
  are written in the order of their names.
\<close>

section \<open>The server\<close>

record 'r Server =
  sv_issuer :: Issuer
  sv_apiKey :: string
  sv_random :: "'r random"

record 'r cp_state =
  st_db :: db
  st_rand :: 'r
  st_now :: int

section \<open>Helpers\<close>

definition writeJSON :: "int \<Rightarrow> json \<Rightarrow> http_response" where
  "writeJSON code v = \<lparr>rs_StatusCode = code, rs_Body = Marshal v @ [CHR 0x0A]\<rparr>"

definition writeErr :: "int \<Rightarrow> string \<Rightarrow> http_response" where
  "writeErr code msg = writeJSON code (JObj [(''error'', JStr msg)])"

definition decodeStrict :: "(json \<Rightarrow> 'a option) \<Rightarrow> api_request \<Rightarrow> 'a option" where
  "decodeStrict of_json rq = Option.bind (Decode (ar_Body rq)) of_json"

text \<open>Running an operation of the store on the state of the server.\<close>

definition on_db :: "(db \<Rightarrow> 'a \<times> db) \<Rightarrow> 'r cp_state \<Rightarrow> 'a \<times> 'r cp_state" where
  "on_db f st = (case f (st_db st) of (a, d) \<Rightarrow> (a, st\<lparr>st_db := d\<rparr>))"

section \<open>Authentication\<close>

definition request_key :: "api_request \<Rightarrow> string" where
  "request_key rq =
     (let key = header_get ''X-Safekeys-Key'' (ar_Header rq) in
      if key = [] then TrimPrefix (header_get ''Authorization'' (ar_Header rq)) ''Bearer '' else key)"

definition auth ::
  "'r Server \<Rightarrow> (api_request \<Rightarrow> 'r cp_state \<Rightarrow> http_response \<times> 'r cp_state)
    \<Rightarrow> api_request \<Rightarrow> 'r cp_state \<Rightarrow> http_response \<times> 'r cp_state"
where
  "auth sv next rq st =
     (if sv_apiKey sv = [] \<or> request_key rq \<noteq> sv_apiKey sv then (writeErr 401 ''unauthorized'', st)
      else next rq st)"

section \<open>Objects\<close>

record createObjectReq =
  co_ID :: string
  co_FolderID :: string
  co_Principal :: string
  co_ContentType :: string
  co_WrappingKID :: string

definition create_store :: "string \<Rightarrow> json \<Rightarrow> createObjectReq \<Rightarrow> createObjectReq option" where
  "create_store f v r =
     (if f = ''id'' then map_option (\<lambda>x. r\<lparr>co_ID := x\<rparr>) (dec_string v (co_ID r))
      else if f = ''folder_id'' then map_option (\<lambda>x. r\<lparr>co_FolderID := x\<rparr>) (dec_string v (co_FolderID r))
      else if f = ''owner_principal'' then map_option (\<lambda>x. r\<lparr>co_Principal := x\<rparr>) (dec_string v (co_Principal r))
      else if f = ''content_type'' then map_option (\<lambda>x. r\<lparr>co_ContentType := x\<rparr>) (dec_string v (co_ContentType r))
      else map_option (\<lambda>x. r\<lparr>co_WrappingKID := x\<rparr>) (dec_string v (co_WrappingKID r)))"

definition create_fields :: "string list" where
  "create_fields = [''id'', ''folder_id'', ''owner_principal'', ''content_type'', ''wrapping_kid'']"

definition create_of_json :: "json \<Rightarrow> createObjectReq option" where
  "create_of_json v =
     dec_struct True create_fields create_store v
       \<lparr>co_ID = [], co_FolderID = [], co_Principal = [], co_ContentType = [], co_WrappingKID = []\<rparr>"

definition requested_object :: "createObjectReq \<Rightarrow> Object" where
  "requested_object req =
     \<lparr>obj_ID = co_ID req, obj_FolderID = co_FolderID req, obj_OwnerPrincipal = co_Principal req,
      obj_ContentType = co_ContentType req, obj_WrappingKID = co_WrappingKID req, obj_CreatedAt = 0, obj_RevokedAt = None\<rparr>"

definition handleCreateObject :: "api_request \<Rightarrow> 'r cp_state \<Rightarrow> http_response \<times> 'r cp_state" where
  "handleCreateObject rq st =
     (case decodeStrict create_of_json rq of
        None \<Rightarrow> (writeErr 400 ''invalid request'', st)
      | Some req \<Rightarrow>
          if co_ID req = [] \<or> co_Principal req = [] \<or> co_WrappingKID req = [] then
            (writeErr 400 ''id, owner_principal and wrapping_kid are required'', st)
          else
            (case on_db (CreateObject (requested_object req)) st of
               (Inl _, st) \<Rightarrow> (writeErr 409 ''object exists or is invalid'', st)
             | (Inr _, st) \<Rightarrow> (writeJSON 201 (JObj [(''id'', JStr (co_ID req))]), st)))"

definition opt_time :: "int option \<Rightarrow> json" where
  "opt_time t = (case t of None \<Rightarrow> JNull | Some t \<Rightarrow> JStr (RFC3339Nano t))"

definition object_json :: "Object \<Rightarrow> json" where
  "object_json ob =
     JObj [(''content_type'', JStr (obj_ContentType ob)), (''created_at'', JStr (RFC3339Nano (obj_CreatedAt ob))),
           (''folder_id'', JStr (obj_FolderID ob)), (''id'', JStr (obj_ID ob)),
           (''owner_principal'', JStr (obj_OwnerPrincipal ob)), (''revoked_at'', opt_time (obj_RevokedAt ob)),
           (''wrapping_kid'', JStr (obj_WrappingKID ob))]"

definition handleListObjects :: "api_request \<Rightarrow> 'r cp_state \<Rightarrow> http_response \<times> 'r cp_state" where
  "handleListObjects rq st =
     (case on_db (ListObjects (query_get ''principal'' (ar_RawQuery rq))) st of
        (Inl _, st) \<Rightarrow> (writeErr 500 ''internal error'', st)
      | (Inr objs, st) \<Rightarrow> (writeJSON 200 (JObj [(''objects'', JArr (map object_json objs))]), st))"

section \<open>Tokens\<close>

record issueTokenReq =
  it_SID :: string
  it_Scope :: "string list"
  it_Aud :: string
  it_TTLSecond :: int
  it_Principal :: string
  it_Sub :: string

definition issue_store :: "string \<Rightarrow> json \<Rightarrow> issueTokenReq \<Rightarrow> issueTokenReq option" where
  "issue_store f v r =
     (if f = ''sid'' then map_option (\<lambda>x. r\<lparr>it_SID := x\<rparr>) (dec_string v (it_SID r))
      else if f = ''scope'' then
        map_option (\<lambda>x. r\<lparr>it_Scope := case_option [] id x\<rparr>) (dec_slice (\<lambda>w. dec_string w []) v)
      else if f = ''aud'' then map_option (\<lambda>x. r\<lparr>it_Aud := x\<rparr>) (dec_string v (it_Aud r))
      else if f = ''ttl_seconds'' then map_option (\<lambda>x. r\<lparr>it_TTLSecond := x\<rparr>) (dec_int64 v (it_TTLSecond r))
      else if f = ''principal'' then map_option (\<lambda>x. r\<lparr>it_Principal := x\<rparr>) (dec_string v (it_Principal r))
      else map_option (\<lambda>x. r\<lparr>it_Sub := x\<rparr>) (dec_string v (it_Sub r)))"

definition issue_fields :: "string list" where
  "issue_fields = [''sid'', ''scope'', ''aud'', ''ttl_seconds'', ''principal'', ''sub'']"

definition issue_of_json :: "json \<Rightarrow> issueTokenReq option" where
  "issue_of_json v =
     dec_struct True issue_fields issue_store v
       \<lparr>it_SID = [], it_Scope = [], it_Aud = [], it_TTLSecond = 0, it_Principal = [], it_Sub = []\<rparr>"

definition issue_request :: "issueTokenReq \<Rightarrow> IssueRequest" where
  "issue_request req =
     \<lparr>iq_SID = it_SID req, iq_Scope = it_Scope req, iq_Aud = it_Aud req, iq_TTL = duration_seconds (it_TTLSecond req),
      iq_Principal = it_Principal req, iq_Sub = it_Sub req\<rparr>"

definition issued_json :: "string \<Rightarrow> Claims \<Rightarrow> json" where
  "issued_json uri c =
     JObj [(''aud'', JStr (c_Aud c)), (''exp'', num_json (c_Exp c)), (''jti'', JStr (c_JTI c)),
           (''nbf'', num_json (c_Nbf c)), (''scope'', str_array (c_Scope c)), (''sid'', JStr (c_SID c)),
           (''token'', JStr uri)]"

definition handleIssueToken :: "'r Server \<Rightarrow> api_request \<Rightarrow> 'r cp_state \<Rightarrow> http_response \<times> 'r cp_state" where
  "handleIssueToken sv rq st =
     (case decodeStrict issue_of_json rq of
        None \<Rightarrow> (writeErr 400 ''invalid request'', st)
      | Some req \<Rightarrow>
          (case Issue (sv_issuer sv) (sv_random sv) (st_now st) (issue_request req) (st_db st) (st_rand st) of
             (Inl e, d, s) \<Rightarrow>
               (if ReasonOf e \<noteq> [] then writeErr 403 ''denied'' else writeErr 500 ''internal error'',
                st\<lparr>st_db := d, st_rand := s\<rparr>)
           | (Inr (uri, c), d, s) \<Rightarrow> (writeJSON 200 (issued_json uri c), st\<lparr>st_db := d, st_rand := s\<rparr>)))"

definition handleRevokeToken :: "string \<Rightarrow> 'r cp_state \<Rightarrow> http_response \<times> 'r cp_state" where
  "handleRevokeToken jti st =
     (if jti = [] then (writeErr 400 ''jti required'', st)
      else
        (case on_db (Revoke (st_now st) jti ''operator'') st of
           (Inl _, st) \<Rightarrow> (writeErr 500 ''internal error'', st)
         | (Inr _, st) \<Rightarrow> (writeJSON 200 (JObj [(''revoked'', JStr jti)]), st)))"

section \<open>Audit\<close>

text \<open>A nil slice or map is written as null.\<close>

definition nil_slice :: "json list \<Rightarrow> json" where
  "nil_slice vs = (if vs = [] then JNull else JArr vs)"

definition event_json :: "AuditEvent \<Rightarrow> json" where
  "event_json e =
     JObj [(''ID'', num_json (ae_ID e)), (''At'', JStr (RFC3339Nano (ae_At e))), (''Event'', JStr (ae_Event e)),
           (''JTI'', JStr (ae_JTI e)), (''SID'', JStr (ae_SID e)), (''Principal'', JStr (ae_Principal e)),
           (''Host'', JStr (ae_Host e)), (''Scope'', JStr (ae_Scope e)), (''Outcome'', JStr (ae_Outcome e)),
           (''Reason'', JStr (ae_Reason e)),
           (''Detail'', if ae_Detail e = [] then JNull else JObj (sort_key fst (ae_Detail e)))]"

definition handleAudit :: "api_request \<Rightarrow> 'r cp_state \<Rightarrow> http_response \<times> 'r cp_state" where
  "handleAudit rq st =
     (case on_db (QueryAudit (query_get ''sid'' (ar_RawQuery rq)) (query_get ''jti'' (ar_RawQuery rq)) 200) st of
        (Inl _, st) \<Rightarrow> (writeErr 500 ''internal error'', st)
      | (Inr events, st) \<Rightarrow> (writeJSON 200 (JObj [(''events'', nil_slice (map event_json events))]), st))"

section \<open>Policy\<close>

definition commands_json :: "CommandSpec list option \<Rightarrow> json" where
  "commands_json cs = (case cs of None \<Rightarrow> JNull | Some ss \<Rightarrow> JArr (map spec_json ss))"

definition policy_json :: "PolicyRule \<Rightarrow> json" where
  "policy_json r =
     JObj [(''ID'', JStr (pr_ID r)), (''Effect'', JStr (pr_Effect r)), (''Principal'', JStr (pr_Principal r)),
           (''SID'', JStr (pr_SID r)), (''Scope'', str_array (pr_Scope r)), (''Aud'', JStr (pr_Aud r)),
           (''InjectionMethod'', JStr (pr_InjectionMethod r)), (''Commands'', commands_json (pr_Commands r)),
           (''Priority'', num_json (pr_Priority r)), (''CreatedAt'', JStr (RFC3339Nano (pr_CreatedAt r)))]"

definition handleListPolicies :: "'r cp_state \<Rightarrow> http_response \<times> 'r cp_state" where
  "handleListPolicies st =
     (case on_db ListPolicyRules st of
        (Inl _, st) \<Rightarrow> (writeErr 500 ''internal error'', st)
      | (Inr rules, st) \<Rightarrow> (writeJSON 200 (JObj [(''rules'', nil_slice (map policy_json rules))]), st))"

definition strict_spec_of_json :: "json \<Rightarrow> CommandSpec option" where
  "strict_spec_of_json v =
     dec_struct True [''exec'', ''args'']
       (\<lambda>f v c.
          if f = ''exec'' then map_option (\<lambda>x. c\<lparr>cs_Exec := x\<rparr>) (dec_string v (cs_Exec c))
          else map_option (\<lambda>x. c\<lparr>cs_Args := x\<rparr>) (dec_slice (\<lambda>w. dec_string w []) v))
       v zero_spec"

definition dec_time :: "json \<Rightarrow> int \<Rightarrow> int option" where
  "dec_time v old = (case v of JNull \<Rightarrow> Some old | JStr s \<Rightarrow> parse_time s | _ \<Rightarrow> None)"

definition policy_store :: "string \<Rightarrow> json \<Rightarrow> PolicyRule \<Rightarrow> PolicyRule option" where
  "policy_store f v r =
     (if f = ''ID'' then map_option (\<lambda>x. r\<lparr>pr_ID := x\<rparr>) (dec_string v (pr_ID r))
      else if f = ''Effect'' then map_option (\<lambda>x. r\<lparr>pr_Effect := x\<rparr>) (dec_string v (pr_Effect r))
      else if f = ''Principal'' then map_option (\<lambda>x. r\<lparr>pr_Principal := x\<rparr>) (dec_string v (pr_Principal r))
      else if f = ''SID'' then map_option (\<lambda>x. r\<lparr>pr_SID := x\<rparr>) (dec_string v (pr_SID r))
      else if f = ''Scope'' then
        map_option (\<lambda>x. r\<lparr>pr_Scope := case_option [] id x\<rparr>) (dec_slice (\<lambda>w. dec_string w []) v)
      else if f = ''Aud'' then map_option (\<lambda>x. r\<lparr>pr_Aud := x\<rparr>) (dec_string v (pr_Aud r))
      else if f = ''InjectionMethod'' then
        map_option (\<lambda>x. r\<lparr>pr_InjectionMethod := x\<rparr>) (dec_string v (pr_InjectionMethod r))
      else if f = ''Commands'' then map_option (\<lambda>x. r\<lparr>pr_Commands := x\<rparr>) (dec_slice strict_spec_of_json v)
      else if f = ''Priority'' then map_option (\<lambda>x. r\<lparr>pr_Priority := x\<rparr>) (dec_int64 v (pr_Priority r))
      else map_option (\<lambda>x. r\<lparr>pr_CreatedAt := x\<rparr>) (dec_time v (pr_CreatedAt r)))"

definition policy_fields :: "string list" where
  "policy_fields = [''ID'', ''Effect'', ''Principal'', ''SID'', ''Scope'', ''Aud'', ''InjectionMethod'', ''Commands'',
     ''Priority'', ''CreatedAt'']"

definition policy_of_json :: "json \<Rightarrow> PolicyRule option" where
  "policy_of_json v =
     dec_struct True policy_fields policy_store v
       \<lparr>pr_ID = [], pr_Effect = [], pr_Principal = [], pr_SID = [], pr_Scope = [], pr_Aud = [],
        pr_InjectionMethod = [], pr_Commands = None, pr_Priority = 0, pr_CreatedAt = 0\<rparr>"

text \<open>
  The set of characters is the Go literal \<open>"\\x00\\n"\<close>, whose backslashes are escaped: it holds the
  backslash, x, 0 and n.
\<close>

definition malformed_chars :: "char set" where
  "malformed_chars = {CHR 0x5C, CHR ''x'', CHR ''0'', CHR ''n''}"

definition ContainsAny :: "string \<Rightarrow> char set \<Rightarrow> bool" where
  "ContainsAny s cs = list_ex (\<lambda>c. c \<in> cs) s"

fun bad_commands :: "CommandSpec list \<Rightarrow> string option" where
  "bad_commands [] = None"
| "bad_commands (c # cs) =
     (if cs_Exec c = [] then Some ''command specs require a non-empty exec''
      else if list_ex (\<lambda>p. ContainsAny p malformed_chars) (case_option [] id (cs_Args c)) then
        Some ''malformed pattern in command args''
      else bad_commands cs)"

definition handlePutPolicy :: "api_request \<Rightarrow> 'r cp_state \<Rightarrow> http_response \<times> 'r cp_state" where
  "handlePutPolicy rq st =
     (case decodeStrict policy_of_json rq of
        None \<Rightarrow> (writeErr 400 ''invalid request'', st)
      | Some r \<Rightarrow>
          if pr_ID r = [] \<or> \<not> (pr_Effect r = ''allow'' \<or> pr_Effect r = ''deny'') \<or> length (pr_Scope r) = 0 then
            (writeErr 400 ''id, effect and scope are required'', st)
          else
            (case bad_commands (case_option [] id (pr_Commands r)) of
               Some msg \<Rightarrow> (writeErr 400 msg, st)
             | None \<Rightarrow>
                 (case on_db (UpsertPolicyRule r) st of
                    (Inl _, st) \<Rightarrow> (writeErr 500 ''internal error'', st)
                  | (Inr _, st) \<Rightarrow> (writeJSON 200 (JObj [(''id'', JStr (pr_ID r))]), st))))"

section \<open>Keys and health\<close>

definition key_json :: "PublicKey \<Rightarrow> json" where
  "key_json k = JObj [(''kid'', JStr (pk_KID k)), (''alg'', JStr (pk_Alg k)), (''public'', JStr (pk_Public k))]"

definition jwks_json :: "PublicJWKS \<Rightarrow> json" where
  "jwks_json j = JObj [(''issuer'', JStr (jwks_Issuer j)), (''keys'', nil_slice (map key_json (jwks_Keys j)))]"

definition handlePublicKeys :: "'r Server \<Rightarrow> http_response" where
  "handlePublicKeys sv =
     writeJSON 200 (jwks_json \<lparr>jwks_Issuer = is_issuer (sv_issuer sv), jwks_Keys = is_PublicKeys (sv_issuer sv)\<rparr>)"

definition handleHealth :: "'r cp_state \<Rightarrow> http_response \<times> 'r cp_state" where
  "handleHealth st =
     (case on_db (db_call (\<lambda>d. (Inr (), d))) st of
        (Inl _, st) \<Rightarrow> (writeErr 503 ''database unreachable'', st)
      | (Inr _, st) \<Rightarrow> (writeJSON 200 (JObj [(''status'', JStr ''ok'')]), st))"

section \<open>Routes\<close>

datatype endpoint =
  EpCreateObject | EpListObjects | EpIssueToken | EpRevokeToken string | EpAudit | EpListPolicies | EpPutPolicy
| EpPublicKeys | EpHealth

definition endpoints :: "string \<Rightarrow> (string \<times> endpoint) list" where
  "endpoints p =
     (let es = path_elems p in
      if es = [''v1'', ''objects''] then [(''POST'', EpCreateObject), (''GET'', EpListObjects)]
      else if es = [''v1'', ''tokens''] then [(''POST'', EpIssueToken)]
      else if length es = 3 \<and> take 2 es = [''v1'', ''tokens''] \<and> \<not> HasSuffix p ''/'' then
        [(''DELETE'', EpRevokeToken (es ! 2))]
      else if es = [''v1'', ''audit''] then [(''GET'', EpAudit)]
      else if es = [''v1'', ''policies''] then [(''GET'', EpListPolicies), (''PUT'', EpPutPolicy)]
      else if es = [''v1'', ''keys''] then [(''GET'', EpPublicKeys)]
      else if es = [''healthz''] then [(''GET'', EpHealth)]
      else [])"

definition run_endpoint ::
  "'r Server \<Rightarrow> endpoint \<Rightarrow> api_request \<Rightarrow> 'r cp_state \<Rightarrow> http_response \<times> 'r cp_state"
where
  "run_endpoint sv ep =
     (case ep of
        EpCreateObject \<Rightarrow> auth sv handleCreateObject
      | EpListObjects \<Rightarrow> auth sv handleListObjects
      | EpIssueToken \<Rightarrow> auth sv (handleIssueToken sv)
      | EpRevokeToken jti \<Rightarrow> auth sv (\<lambda>_. handleRevokeToken jti)
      | EpAudit \<Rightarrow> auth sv handleAudit
      | EpListPolicies \<Rightarrow> auth sv (\<lambda>_. handleListPolicies)
      | EpPutPolicy \<Rightarrow> auth sv handlePutPolicy
      | EpPublicKeys \<Rightarrow> (\<lambda>_ st. (handlePublicKeys sv, st))
      | EpHealth \<Rightarrow> (\<lambda>_. handleHealth))"

text \<open>A path that is not clean is redirected; the response to HEAD has no body.\<close>

definition Handler :: "'r Server \<Rightarrow> api_request \<Rightarrow> 'r cp_state \<Rightarrow> http_response \<times> 'r cp_state" where
  "Handler sv rq st =
     (if cleanPath (ar_Path rq) \<noteq> ar_Path rq then (\<lparr>rs_StatusCode = 307, rs_Body = []\<rparr>, st)
      else
        (case endpoints (ar_Path rq) of
           [] \<Rightarrow> (\<lparr>rs_StatusCode = 404, rs_Body = ''404 page not found'' @ [CHR 0x0A]\<rparr>, st)
         | eps \<Rightarrow>
             (case List.find (\<lambda>(m, _). method_matches m (ar_Method rq)) eps of
                None \<Rightarrow> (\<lparr>rs_StatusCode = 405, rs_Body = ''Method Not Allowed'' @ [CHR 0x0A]\<rparr>, st)
              | Some (_, ep) \<Rightarrow>
                  (case run_endpoint sv ep rq st of
                     (resp, st) \<Rightarrow>
                       (if ar_Method rq = ''HEAD'' then resp\<lparr>rs_Body := []\<rparr> else resp, st)))))"

section \<open>Lemmas\<close>

lemma dec_members_unknown:
  "list_ex (\<lambda>(k, _). match_field names k = None) ms \<Longrightarrow> dec_members True names store ms r = None"
  by (induction True names store ms r rule: dec_members.induct) (auto split: option.splits)

lemma decodeStrict_unknown:
  assumes "Decode (ar_Body rq) = Some (JObj ms)" and "\<And>v. of_json v = dec_struct True names store v z"
    and "(k, v) \<in> set ms" and "match_field names k = None"
  shows "decodeStrict of_json rq = None"
proof -
  have "list_ex (\<lambda>(k, _). match_field names k = None) ms" using assms(3,4) by (auto simp: list_ex_iff)
  then show ?thesis using assms(1,2) by (simp add: decodeStrict_def dec_struct_def dec_members_unknown)
qed

lemma match_field_fold:
  "match_field names k = None \<longleftrightarrow> k \<notin> set names \<and> list_all (\<lambda>f. fold_name f \<noteq> fold_name k) names"
  by (auto simp: match_field_def find_None_iff list_all_iff)

lemma value_is_no_field:
  assumes "fold_name k = ''value''"
  shows "match_field create_fields k = None" "match_field issue_fields k = None" "match_field policy_fields k = None"
proof -
  have "list_all (\<lambda>f. fold_name f \<noteq> ''value'') create_fields" "list_all (\<lambda>f. fold_name f \<noteq> ''value'') issue_fields"
    "list_all (\<lambda>f. fold_name f \<noteq> ''value'') policy_fields"
    by code_simp+
  then show "match_field create_fields k = None" "match_field issue_fields k = None" "match_field policy_fields k = None"
    using assms by (auto simp: match_field_fold list_all_iff)
qed

lemma Handler_cases:
  assumes "Handler sv rq st = (resp, st')"
  obtains (unrouted) "st' = st" "rs_StatusCode resp \<in> {307, 404, 405}"
  | (routed) m ep resp1 where "(m, ep) \<in> set (endpoints (ar_Path rq))" "run_endpoint sv ep rq st = (resp1, st')"
      "rs_StatusCode resp1 = rs_StatusCode resp"
proof (cases "cleanPath (ar_Path rq) \<noteq> ar_Path rq")
  case True
  then show thesis using assms that(1) by (auto simp: Handler_def)
next
  case clean: False
  show thesis
  proof (cases "List.find (\<lambda>(m, _). method_matches m (ar_Method rq)) (endpoints (ar_Path rq))")
    case None
    then show thesis using assms clean that(1) by (auto simp: Handler_def split: list.splits)
  next
    case (Some me)
    then obtain m ep where me: "me = (m, ep)" "(m, ep) \<in> set (endpoints (ar_Path rq))"
      by (cases me) (metis find_Some_iff nth_mem)
    obtain r s where r: "run_endpoint sv ep rq st = (r, s)" by (metis prod.collapse)
    have "endpoints (ar_Path rq) \<noteq> []" using me(2) by auto
    then have "Handler sv rq st = (if ar_Method rq = ''HEAD'' then r\<lparr>rs_Body := []\<rparr> else r, s)"
      using clean Some me(1) r by (auto simp: Handler_def split: list.splits)
    then have "s = st'" "rs_StatusCode r = rs_StatusCode resp" using assms by (auto split: if_splits)
    then show thesis using that(2) [OF me(2)] r by simp
  qed
qed

section \<open>Properties\<close>

text \<open>
  Nothing happens without the key: a request that does not present the configured key, and every
  request while no key is configured, gets no answer 200 unless it asks for the public keys or the
  health of the server, and changes nothing in the tables, the audit included.
\<close>

theorem api_requires_the_key:
  assumes "sv_apiKey sv = [] \<or> request_key rq \<noteq> sv_apiKey sv" and "Handler sv rq st = (resp, st')"
  shows "same_tables (st_db st) (st_db st') \<and> st_rand st' = st_rand st \<and>
    (if path_elems (ar_Path rq) \<in> {[''v1'', ''keys''], [''healthz'']} then True
     else rs_StatusCode resp \<in> {307, 401, 404, 405} \<and> st' = st)"
  using assms(2)
proof (cases rule: Handler_cases)
  case (routed m ep resp1)
  have a: "auth sv h rq st = (writeErr 401 ''unauthorized'', st)" for h using assms(1) by (auto simp: auth_def)
  have c: "rs_StatusCode (writeErr n msg) = n" for n msg by (simp add: writeErr_def writeJSON_def)
  have s: "same_tables (st_db st) (st_db st') \<and> st_rand st' = st_rand st" if "handleHealth st = (resp1, st')"
  proof -
    have "same_tables d d'" if "db_call (\<lambda>d. (Inr (), d)) d = (r, d')" for d d' and r :: "unit result"
      using that by (rule db_call_cases) auto
    then show ?thesis using that by (auto simp: handleHealth_def on_db_def split: prod.splits sum.splits)
  qed
  have p: "ep = EpPublicKeys \<or> ep = EpHealth \<Longrightarrow> path_elems (ar_Path rq) \<in> {[''v1'', ''keys''], [''healthz'']}"
    using routed(1) by (auto simp: endpoints_def Let_def split: if_splits)
  show ?thesis using routed(2,3) s p a c by (cases ep) (auto simp: run_endpoint_def)
qed auto

text \<open>
  The interface takes no values: a body with a member named value, in any capitalization, beside
  whatever else it holds, is refused by all three operations that read one, and nothing changes.
\<close>

theorem no_request_carries_a_value:
  assumes "Decode (ar_Body rq) = Some (JObj ms)" and "(k, v) \<in> set ms" and "fold_name k = ''value''"
  shows "handleCreateObject rq st = (writeErr 400 ''invalid request'', st) \<and>
    handleIssueToken sv rq st = (writeErr 400 ''invalid request'', st) \<and>
    handlePutPolicy rq st = (writeErr 400 ''invalid request'', st)"
proof -
  have "decodeStrict create_of_json rq = None"
    using decodeStrict_unknown [OF assms(1) create_of_json_def assms(2) value_is_no_field(1) [OF assms(3)]] .
  moreover have "decodeStrict issue_of_json rq = None"
    using decodeStrict_unknown [OF assms(1) issue_of_json_def assms(2) value_is_no_field(2) [OF assms(3)]] .
  moreover have "decodeStrict policy_of_json rq = None"
    using decodeStrict_unknown [OF assms(1) policy_of_json_def assms(2) value_is_no_field(3) [OF assms(3)]] .
  ultimately show ?thesis by (simp add: handleCreateObject_def handleIssueToken_def handlePutPolicy_def)
qed

text \<open>
  The check of argument patterns takes a string with escaped backslashes for the set of NUL and
  newline: a pattern of letters with an n, an x, a 0 or a backslash is refused as malformed, and one
  that holds only a newline passes.
\<close>

theorem pattern_check_is_inverted:
  "bad_commands [\<lparr>cs_Exec = ''/usr/bin/node'', cs_Args = Some [p]\<rparr>] =
     (if list_ex (\<lambda>c. c = CHR ''n'' \<or> c = CHR ''x'' \<or> c = CHR ''0'' \<or> c = CHR 0x5C) p
      then Some ''malformed pattern in command args'' else None) \<and>
   bad_commands [\<lparr>cs_Exec = ''/usr/bin/node'', cs_Args = Some [[CHR 0x0A, CHR 0x00]]\<rparr>] = None"
  by (auto simp: ContainsAny_def malformed_chars_def list_ex_iff)

lemma api_requires_the_key_witness:
  "\<exists>resp st'. Handler \<lparr>sv_issuer = sample_issuer, sv_apiKey = ''k'', sv_random = sample_rand\<rparr>
      \<lparr>ar_Method = ''GET'', ar_Path = ''/v1/audit'', ar_RawQuery = [], ar_Header = [(''X-Safekeys-Key'', ''K'')], ar_Body = []\<rparr>
      \<lparr>st_db = sample_db, st_rand = 0, st_now = 0\<rparr> = (resp, st') \<and> rs_StatusCode resp \<in> {307, 401, 404, 405}"
proof -
  let ?sv = "\<lparr>sv_issuer = sample_issuer, sv_apiKey = ''k'', sv_random = sample_rand\<rparr>"
  let ?rq = "\<lparr>ar_Method = ''GET'', ar_Path = ''/v1/audit'', ar_RawQuery = [], ar_Header = [(''X-Safekeys-Key'', ''K'')], ar_Body = []\<rparr>"
  let ?st = "\<lparr>st_db = sample_db, st_rand = 0, st_now = 0\<rparr>"
  obtain resp st' where h: "Handler ?sv ?rq ?st = (resp, st')" by (metis prod.collapse)
  have k: "sv_apiKey ?sv = [] \<or> request_key ?rq \<noteq> sv_apiKey ?sv"
    by (simp add: request_key_def header_get_def trim_ows_def)
  have "path_elems (ar_Path ?rq) \<notin> {[''v1'', ''keys''], [''healthz'']}" by code_simp
  then show ?thesis using api_requires_the_key [OF k h] h by auto
qed

lemma no_request_carries_a_value_witness:
  "\<exists>rq. handlePutPolicy rq \<lparr>st_db = sample_db, st_rand = 0::nat, st_now = 0\<rparr> =
     (writeErr 400 ''invalid request'', \<lparr>st_db = sample_db, st_rand = 0, st_now = 0\<rparr>) \<and>
     Decode (ar_Body rq) = Some (JObj [(''ID'', JStr ''r''), (''Value'', JStr ''s'')])"
proof -
  let ?rq = "\<lparr>ar_Method = ''PUT'', ar_Path = [], ar_RawQuery = [], ar_Header = [],
    ar_Body = Marshal (JObj [(''ID'', JStr ''r''), (''Value'', JStr ''s'')])\<rparr>"
  have d: "Decode (ar_Body ?rq) = Some (JObj [(''ID'', JStr ''r''), (''Value'', JStr ''s'')])" by code_simp
  have f: "fold_name ''Value'' = ''value''" by code_simp
  show ?thesis using no_request_carries_a_value [OF d _ f] d by (intro exI [of _ ?rq]) auto
qed

end
