(* ===== verification/CP_System.thy ===== *)
theory CP_System
  imports CP_Api Revocation
begin

text \<open>
  The control plane as a whole: what requests can do to the database, as an abstract step
  relation over the tables that the handlers implement, the invariants of its reachable states,
  and the sidecar's revocation check run against the handlers.
\<close>

section \<open>The abstract steps\<close>

text \<open>The tables without the faults still to come.\<close>

definition tables :: "db \<Rightarrow> db" where
  "tables d = d\<lparr>db_faults := []\<rparr>"

definition event_texts :: "AuditEvent \<Rightarrow> string list" where
  "event_texts e = [ae_Event e, ae_JTI e, ae_SID e, ae_Principal e, ae_Host e, ae_Scope e, ae_Outcome e, ae_Reason e]"

text \<open>An event is logged under an id the sequence had not handed out; the sequence then stands at it.\<close>

definition logs :: "db \<Rightarrow> AuditEvent \<Rightarrow> int \<Rightarrow> db" where
  "logs d e n = d\<lparr>db_audit_seq := n, db_audit := db_audit d @ [e\<lparr>ae_ID := n\<rparr>]\<rparr>"

text \<open>An attempt to log an event: it is logged, or it is not and at most ids are lost.\<close>

definition may_log :: "AuditEvent \<Rightarrow> db \<Rightarrow> db \<Rightarrow> bool" where
  "may_log e d d' \<longleftrightarrow> (\<exists>n. db_audit_seq d \<le> n \<and> d' = d\<lparr>db_audit_seq := n\<rparr>) \<or>
     list_all pg_text (event_texts e) \<and> (\<exists>n. db_audit_seq d < n \<and> d' = logs d e n)"

definition mark_revoked :: "string \<Rightarrow> db \<Rightarrow> db" where
  "mark_revoked jti d =
     d\<lparr>db_tokens := map (\<lambda>t. if tk_JTI t = jti \<and> tk_RevokedAt t = None then t\<lparr>tk_RevokedAt := Some (db_now d)\<rparr> else t)
         (db_tokens d)\<rparr>"

definition allowed_by_rules :: "db \<Rightarrow> IssueRequest \<Rightarrow> bool" where
  "allowed_by_rules d req \<longleftrightarrow>
     (\<exists>rules. scan_rows (order_rows (db_rules d)) = Inr rules \<and>
        list_all (\<lambda>x. dc_Allow (Evaluate rules (issue_query req x))) (iq_Scope req))"

text \<open>
  A step registers an object under a fresh id, or logs a refusal or fails to, or records a token that
  the rules allow, under a fresh id and with its event or without it, or marks a token revoked,
  with the event or without it, or stores a rule. The event is missing when the second statement
  of the operation failed.
\<close>

inductive db_step :: "db \<Rightarrow> db \<Rightarrow> bool" where
  idle: "db_step d d"
| registers: "obj_ID ob \<notin> obj_ID ` set (db_objects d) \<Longrightarrow> objects_id_format (obj_ID ob) \<Longrightarrow>
    db_step d (d\<lparr>db_objects := db_objects d @ [ob]\<rparr>)"
| refuses: "may_log (policy_deny_event now req x rule) d d' \<Longrightarrow> db_step d d'"
| issues: "tk_JTI t \<notin> tk_JTI ` set (db_tokens d) \<Longrightarrow> tk_RevokedAt t = None \<Longrightarrow> allowed_by_rules d req \<Longrightarrow>
    tk_SID t = iq_SID req \<Longrightarrow> tk_Scope t = iq_Scope req \<Longrightarrow> tk_Aud t = iq_Aud req \<Longrightarrow>
    tk_SID t \<in> obj_ID ` set (db_objects d) \<Longrightarrow>
    may_log (issue_event now req (tk_JTI t)) (d\<lparr>db_tokens := db_tokens d @ [t]\<rparr>) d' \<Longrightarrow> db_step d d'"
| revokes: "jti \<noteq> [] \<Longrightarrow> may_log (revoke_event now jti by') (mark_revoked jti d) d' \<Longrightarrow> db_step d d'"
| stores_rule: "db_step d (upsert_row r d)"

inductive_cases db_step_cases: "db_step d d'"

section \<open>The operations take abstract steps\<close>

lemma tables_simps [simp]:
  "db_objects (tables d) = db_objects d" "db_tokens (tables d) = db_tokens d" "db_audit (tables d) = db_audit d"
  "db_rules (tables d) = db_rules d" "db_now (tables d) = db_now d" "tables (tables d) = tables d"
  "db_audit_seq (tables d) = db_audit_seq d"
  "tables (d\<lparr>db_faults := fs\<rparr>) = tables d"
  "tables (d\<lparr>db_audit_seq := n\<rparr>) = (tables d)\<lparr>db_audit_seq := n\<rparr>"
  by (simp_all add: tables_def)

lemma tables_same_seq [simp]: "(tables d)\<lparr>db_audit_seq := db_audit_seq d\<rparr> = tables d"
  by (metis db_same_seq tables_simps(7))

lemma may_log_skip: "db_audit_seq d \<le> n \<Longrightarrow> may_log e d (d\<lparr>db_audit_seq := n\<rparr>)"
  by (auto simp: may_log_def)

lemma may_log_logs: "list_all pg_text (event_texts e) \<Longrightarrow> db_audit_seq d < n \<Longrightarrow> may_log e d (logs d e n)"
  by (auto simp: may_log_def)

lemma may_log_not [simp]: "may_log e d d"
  by (auto simp: may_log_def intro: exI [of _ "db_audit_seq d"])

lemma same_tables_iff: "same_tables d d' \<longleftrightarrow> tables d' = tables d"
  unfolding same_tables_def tables_def by (cases d; cases d') auto

text \<open>
  A statement fails before it is run, or is run: then its reply arrives or is lost, or its changes are
  rolled back and only the sequence stays where it got.
\<close>

lemma db_stmt_cases:
  assumes "db_stmt args f d = (r, d')"
  obtains (ran) d1 r1 d2 where "tables d1 = tables d" "list_all pg_text args" "f d1 = (r1, d2)"
      "r = r1 \<and> d' = d2 \<or> is_err r \<and> d' = d2 \<or> is_err r \<and> tables d' = (tables d)\<lparr>db_audit_seq := db_audit_seq d2\<rparr>"
      "db_audit_seq d1 = db_audit_seq d"
  | (refused) "is_err r" "tables d' = tables d"
proof -
  let ?d = "d\<lparr>db_faults := tl (db_faults d)\<rparr>"
  let ?f = "\<lambda>d. if \<not> list_all pg_text args then (Inl (Err ''invalid byte sequence for encoding UTF8''), d) else f d"
  obtain r1 d1 where f: "f ?d = (r1, d1)" by (metis prod.collapse)
  have t: "tables ?d = tables d" by simp
  show thesis using assms unfolding db_stmt_def
  proof (rule db_call_cases)
    assume "?f ?d = (r, d')"
    then show thesis using that(1) [OF t _ f] that(2) f by (auto split: if_splits)
  next
    fix e assume "r = Inl e" "d' = ?d"
    then show thesis using that(2) by simp
  next
    fix e r2 d2 assume *: "r = Inl e" "?f ?d = (r2, d2)" "d' = d\<lparr>db_faults := tl (db_faults d), db_audit_seq := db_audit_seq d2\<rparr>"
    then show thesis using that(1) [OF t _ f] that(2) f by (cases "list_all pg_text args") auto
  next
    fix e r2 assume "r = Inl e" "?f ?d = (r2, d')"
    then show thesis using that(1) [OF t _ f] that(2) f by (cases "list_all pg_text args") auto
  qed
qed

lemma tables_upd:
  "tables d1 = tables d \<Longrightarrow> tables (d1\<lparr>db_objects := os\<rparr>) = (tables d)\<lparr>db_objects := os\<rparr>"
  "tables d1 = tables d \<Longrightarrow> tables (d1\<lparr>db_tokens := ts\<rparr>) = (tables d)\<lparr>db_tokens := ts\<rparr>"
  "tables d1 = tables d \<Longrightarrow> tables (d1\<lparr>db_audit := es\<rparr>) = (tables d)\<lparr>db_audit := es\<rparr>"
  "tables d1 = tables d \<Longrightarrow> tables (d1\<lparr>db_rules := rs\<rparr>) = (tables d)\<lparr>db_rules := rs\<rparr>"
  unfolding tables_def by (cases d; cases d1; simp)+

lemma tables_eqD:
  "tables d1 = tables d \<Longrightarrow> db_objects d1 = db_objects d \<and> db_tokens d1 = db_tokens d \<and> db_audit d1 = db_audit d \<and>
     db_rules d1 = db_rules d \<and> db_now d1 = db_now d \<and> db_audit_seq d1 = db_audit_seq d"
  by (metis tables_simps(1-5,7))

lemma tables_cong:
  "tables d1 = tables d \<Longrightarrow> tables (mark_revoked jti d1) = mark_revoked jti (tables d)"
  "tables d1 = tables d \<Longrightarrow> tables (upsert_row r d1) = upsert_row r (tables d)"
  by (frule tables_eqD, simp add: mark_revoked_def upsert_row_def Let_def tables_upd)+

lemma tables_logs:
  "tables (logs d e n) = logs (tables d) e n"
  by (simp add: tables_def logs_def)

lemma CreateObject_step:
  assumes "CreateObject ob d = (r, d')" shows "db_step (tables d) (tables d')"
  using assms unfolding CreateObject_def
proof (rule db_stmt_cases, goal_cases)
  case (1 d1 r1 d2)
  have o: "db_objects d1 = db_objects d" "db_audit_seq d1 = db_audit_seq d" using tables_eqD [OF 1(1)] by simp_all
  have s: "db_step (tables d) ((tables d)\<lparr>db_objects := db_objects (tables d) @ [x]\<rparr>)"
    if "\<forall>y \<in> set (db_objects d). obj_ID y \<noteq> obj_ID x" "objects_id_format (obj_ID x)" for x
    using that by (intro registers) auto
  have "db_step (tables d) (tables d2) \<and> db_audit_seq d2 = db_audit_seq d"
    using 1(3) 1(1) o s [of "ob\<lparr>obj_CreatedAt := db_now d1, obj_RevokedAt := None\<rparr>"]
    by (auto simp: list_ex_iff tables_upd idle split: if_splits)
  then show ?case using 1(4) idle [of "tables d"] by auto
qed (simp add: idle)

lemma UpsertPolicyRule_step:
  assumes "UpsertPolicyRule r d = (x, d')" shows "db_step (tables d) (tables d')"
  using assms unfolding UpsertPolicyRule_def
proof (rule db_stmt_cases, goal_cases)
  case (1 d1 r1 d2)
  have "db_step (tables d) (tables (upsert_row r d1))" by (simp add: tables_cong(2) [OF 1(1)] stores_rule)
  moreover have "db_audit_seq (upsert_row r d1) = db_audit_seq d" "db_audit_seq d1 = db_audit_seq d"
    using tables_eqD [OF 1(1)] by (simp_all add: upsert_row_def Let_def)
  ultimately have "db_step (tables d) (tables d2) \<and> db_audit_seq d2 = db_audit_seq d"
    using 1(1,3) by (auto simp: idle split: if_splits)
  then show ?case using 1(4) idle [of "tables d"] by auto
qed (simp add: idle)

lemma AppendAudit_tables:
  assumes "AppendAudit e d = (r, d')"
  shows "may_log e (tables d) (tables d') \<and> (is_err r \<or> r = Inr () \<and> (\<exists>n. tables d' = logs (tables d) e n))"
proof (cases "validateDetail (ae_Detail e)")
  case (Inl err)
  then show ?thesis using assms by (auto simp: AppendAudit_def Inl)
next
  case (Inr u)
  show ?thesis using assms unfolding AppendAudit_def Inr sum.case
  proof (rule db_stmt_cases, goal_cases)
    case (1 d1 r1 d2)
    let ?n = "db_audit_seq d + 1"
    have q: "db_audit_seq d1 = db_audit_seq d" using tables_eqD [OF 1(1)] by simp
    have t: "list_all pg_text (event_texts e)" using 1(2) by (simp add: event_texts_def)
    have "tables d2 = tables d \<and> is_err r1 \<or> tables d2 = (tables d)\<lparr>db_audit_seq := ?n\<rparr> \<and> is_err r1 \<or>
        tables d2 = logs (tables d) e ?n \<and> r1 = Inr ()"
    proof (cases "jsonb_ok (JObj (ae_Detail e))")
      case True
      then have "insert_audit e d1 = (r1, d2)" using 1(3) by simp
      from insert_audit_cases [OF this] have "d2 = d1\<lparr>db_audit_seq := ?n\<rparr> \<and> is_err r1 \<or> d2 = logs d1 e ?n \<and> r1 = Inr ()"
        using q by (simp add: logs_def)
      then show ?thesis using 1(1) by (auto simp: tables_logs)
    qed (use 1(1,3) in auto)
    moreover from this have "db_audit_seq (tables d2) \<in> {db_audit_seq d, ?n}"
      by (elim disjE conjE) (simp_all only:, simp_all add: logs_def)
    ultimately have "may_log e (tables d) (tables d2)" "may_log e (tables d) ((tables d)\<lparr>db_audit_seq := db_audit_seq d2\<rparr>)"
      "is_err r1 \<or> r1 = Inr () \<and> (\<exists>n. tables d2 = logs (tables d) e n)"
      using t by (auto simp: may_log_skip may_log_logs)
    then show ?case using 1(4) by auto
  qed simp
qed

lemma RevokeToken_tables:
  assumes "RevokeToken jti d = (r, d')"
  shows "tables d' = tables d \<and> is_err r \<or> tables d' = mark_revoked jti (tables d)"
  using assms unfolding RevokeToken_def
proof (rule db_stmt_cases, goal_cases)
  case (1 d1 r1 d2)
  then have d2: "d2 = mark_revoked jti d1" by (simp add: mark_revoked_def)
  moreover have "db_audit_seq d2 = db_audit_seq d" using d2 tables_eqD [OF 1(1)] by (simp add: mark_revoked_def)
  ultimately show ?case using 1(4) tables_cong(1) [OF 1(1)] by auto
qed simp

lemma Revoke_step:
  assumes "Revoke now jti by' d = (r, d')" shows "db_step (tables d) (tables d')"
proof (cases "jti = []")
  case True
  then show ?thesis using assms by (simp add: Revoke_def idle)
next
  case False
  obtain x d1 where r: "RevokeToken jti d = (x, d1)" by (metis prod.collapse)
  show ?thesis
  proof (cases x)
    case (Inl e)
    then have "d' = d1" using assms False r by (simp add: Revoke_def)
    then show ?thesis using RevokeToken_tables [OF r] revokes [OF False may_log_not] by (auto simp: idle)
  next
    case (Inr u)
    then have t: "tables d1 = mark_revoked jti (tables d)" using RevokeToken_tables [OF r] by simp
    have "AppendAudit (revoke_event now jti by') d1 = (r, d')" using assms False r Inr by (simp add: Revoke_def)
    from AppendAudit_tables [OF this] show ?thesis using t revokes [OF False] by metis
  qed
qed

lemma check_scopes_step:
  "check_scopes now req scopes d = (r, d') \<Longrightarrow> db_step (tables d) (tables d')"
proof (induction now req scopes d arbitrary: r d' rule: check_scopes.induct)
  case (2 now req scope scopes d)
  obtain e d1 where e: "current_engine d = (e, d1)" by (metis prod.collapse)
  have d1: "tables d1 = tables d" using current_engine_tables [OF e] by (simp add: same_tables_iff)
  show ?case
  proof (cases "dc_Allow (Evaluate e (issue_query req scope))")
    case True
    then have "check_scopes now req scopes d1 = (r, d')" using "2.prems" e by (simp add: Let_def)
    then show ?thesis using "2.IH" [OF e [symmetric] refl] True d1 by simp
  next
    case False
    let ?e = "policy_deny_event now req scope (dc_RuleID (Evaluate e (issue_query req scope)))"
    have "d' = snd (AppendAudit ?e d1)" using "2.prems" e False by (simp add: Let_def)
    then obtain r1 where r1: "AppendAudit ?e d1 = (r1, d')" by (cases "AppendAudit ?e d1") auto
    show ?thesis using AppendAudit_tables [OF r1] d1 refuses by metis
  qed
qed (simp add: idle)


lemma CreateToken_tables:
  assumes "CreateToken t d = (r, d')"
  shows "tables d' = tables d \<and> is_err r \<or>
    tables d' = (tables d)\<lparr>db_tokens := db_tokens d @ [t\<lparr>tk_RevokedAt := None\<rparr>]\<rparr> \<and>
    tk_JTI t \<notin> tk_JTI ` set (db_tokens d) \<and> tk_SID t \<in> obj_ID ` set (db_objects d)"
  using assms unfolding CreateToken_def
proof (rule db_stmt_cases, goal_cases)
  case (1 d1 r1 d2)
  have u: "tables (d1\<lparr>db_tokens := ts\<rparr>) = (tables d)\<lparr>db_tokens := ts\<rparr>" for ts using tables_upd(2) [OF 1(1)] .
  note d1 = tables_eqD [OF 1(1)]
  have "db_audit_seq d2 = db_audit_seq d" using 1(3) d1 by (auto split: if_splits)
  moreover have "tables d2 = tables d \<and> is_err r1 \<or>
    tables d2 = (tables d)\<lparr>db_tokens := db_tokens d @ [t\<lparr>tk_RevokedAt := None\<rparr>]\<rparr> \<and>
    tk_JTI t \<notin> tk_JTI ` set (db_tokens d) \<and> tk_SID t \<in> obj_ID ` set (db_objects d)"
    using 1(1,3) d1 u by (auto simp: list_ex_iff split: if_splits intro: image_eqI [OF sym])
  ultimately show ?case using 1(4) by auto
qed simp

lemma mint_step:
  assumes "mint i rand now req d s = (r, d', s')" and "allowed_by_rules d req"
  shows "db_step (tables d) (tables d')"
proof -
  obtain x s1 where n: "NewID rand ''jti'' s = (x, s1)" by (metis prod.collapse)
  show ?thesis
  proof (cases "is_err x \<or> is_err (is_sign i zero_header (issued_claims i now req (projr x)))")
    case True
    then have "d' = d" using assms(1) n by (auto simp: mint_def Let_def split: sum.splits)
    then show ?thesis by (simp add: idle)
  next
    case False
    then obtain jti jws where j: "x = Inr jti" "is_sign i zero_header (issued_claims i now req jti) = Inr jws"
      by (cases x; cases "is_sign i zero_header (issued_claims i now req (projr x))") auto
    let ?t = "token_row now (issued_claims i now req jti)"
    let ?e = "issue_event now req jti"
    have t: "tk_JTI ?t = jti" "tk_SID ?t = iq_SID req" "tk_Scope ?t = iq_Scope req" "tk_Aud ?t = iq_Aud req"
      "?t\<lparr>tk_RevokedAt := None\<rparr> = ?t" "tk_RevokedAt ?t = None"
      by (simp_all add: token_row_def issued_claims_def)
    obtain y d1 where c: "CreateToken ?t d = (y, d1)" by (metis prod.collapse)
    have d': "d' = (if is_err y then d1 else snd (AppendAudit ?e d1))"
      using assms(1) n j c by (cases y) (simp_all add: mint_def Let_def)
    show ?thesis
    proof (cases "is_err y \<and> tables d1 = tables d")
      case True
      then show ?thesis using d' by (simp add: idle)
    next
      case False
      then have d1: "tables d1 = (tables d)\<lparr>db_tokens := db_tokens (tables d) @ [?t]\<rparr>"
        "jti \<notin> tk_JTI ` set (db_tokens d)" "iq_SID req \<in> obj_ID ` set (db_objects d)"
        using CreateToken_tables [OF c] t by auto
      obtain r1 d2 where r1: "AppendAudit ?e d1 = (r1, d2)" by (metis prod.collapse)
      show ?thesis
      proof (rule issues [where t = ?t and req = req, OF _ t(6) _ t(2-4)])
        show "may_log (issue_event now req (tk_JTI ?t)) ((tables d)\<lparr>db_tokens := db_tokens (tables d) @ [?t]\<rparr>) (tables d')"
          using AppendAudit_tables [OF r1] r1 d' d1(1) t(1) by (cases "is_err y") simp_all
      qed (use t d1 assms(2) in \<open>simp_all add: allowed_by_rules_def\<close>)
    qed
  qed
qed

lemma Issue_step:
  assumes "Issue i rand now req d s = (r, d', s')"
  shows "db_step (tables d) (tables d')"
proof (cases "iq_SID req = [] \<or> length (iq_Scope req) = 0 \<or> iq_Aud req = [] \<or>
    list_ex (\<lambda>x. \<not> IsScopeValid x) (iq_Scope req)")
  case True
  then have "d' = d" using assms by (auto simp: Issue_def split: if_splits)
  then show ?thesis by (simp add: idle)
next
  case False
  obtain g d1 where g: "GetObject (iq_SID req) d = (g, d1)" by (metis prod.collapse)
  obtain c d2 where c: "check_scopes now req (iq_Scope req) d1 = (c, d2)" by (metis prod.collapse)
  have d1: "tables d1 = tables d" using GetObject_tables [OF g] by (simp add: same_tables_iff)
  show ?thesis
  proof (cases g)
    case (Inl e)
    then have "d' = d1" using assms False g by (auto simp: Issue_def)
    then show ?thesis using d1 by (simp add: idle)
  next
    case Inr1: (Inr ob)
    show ?thesis
    proof (cases c)
      case (Inl e)
      then have "d' = d2" using assms False g c Inr1 by (auto simp: Issue_def)
      then show ?thesis using check_scopes_step [OF c] d1 by simp
    next
      case (Inr u)
      then have m: "mint i rand now req d2 s = (r, d', s')" using assms False g c Inr1 by (auto simp: Issue_def)
      have "same_tables d1 d2" using check_scopes_Inr c Inr by simp
      then have d2: "tables d2 = tables d" using d1 by (simp add: same_tables_iff)
      have "allowed_by_rules d1 req"
        using check_scopes_allowed [of now req "iq_Scope req" d1 u d2] c Inr False by (simp add: allowed_by_rules_def)
      then have "allowed_by_rules d2 req" using d1 d2 tables_eqD [of d1 d2] by (simp add: allowed_by_rules_def)
      from mint_step [OF m this] show ?thesis using d2 by simp
    qed
  qed
qed


lemma on_db_eq: "on_db f st = (a, st') \<longleftrightarrow> f (st_db st) = (a, st_db st') \<and> st' = st\<lparr>st_db := st_db st'\<rparr>"
  by (cases st; cases st') (auto simp: on_db_def split: prod.splits)

lemma readers:
  "ListObjects p d = (r1, d') \<Longrightarrow> tables d' = tables d"
  "QueryAudit a b n d = (r2, d') \<Longrightarrow> tables d' = tables d"
  "ListPolicyRules d = (r3, d') \<Longrightarrow> tables d' = tables d"
  "db_call (\<lambda>d. (Inr (), d)) d = (r4, d') \<Longrightarrow> tables d' = tables d"
proof -
  show "ListObjects p d = (r1, d') \<Longrightarrow> tables d' = tables d"
    unfolding ListObjects_def by (erule db_stmt_cases) auto
  show "QueryAudit a b n d = (r2, d') \<Longrightarrow> tables d' = tables d"
    unfolding QueryAudit_def Let_def by (erule db_stmt_cases) auto
  show "ListPolicyRules d = (r3, d') \<Longrightarrow> tables d' = tables d"
    unfolding ListPolicyRules_def by (erule db_call_cases) auto
  show "db_call (\<lambda>d. (Inr (), d)) d = (r4, d') \<Longrightarrow> tables d' = tables d"
    by (erule db_call_cases) auto
qed

lemma reading_handlers:
  "tables (st_db (snd (handleListObjects rq st))) = tables (st_db st)"
  "tables (st_db (snd (handleAudit rq st))) = tables (st_db st)"
  "tables (st_db (snd (handleListPolicies st))) = tables (st_db st)"
  "tables (st_db (snd (handleHealth st))) = tables (st_db st)"
  by (auto simp: handleListObjects_def handleAudit_def handleListPolicies_def handleHealth_def on_db_eq
      split: prod.splits sum.splits dest: readers)

lemma writing_handlers:
  "db_step (tables (st_db st)) (tables (st_db (snd (handleCreateObject rq st))))"
  "db_step (tables (st_db st)) (tables (st_db (snd (handleIssueToken sv rq st))))"
  "db_step (tables (st_db st)) (tables (st_db (snd (handleRevokeToken jti st))))"
  "db_step (tables (st_db st)) (tables (st_db (snd (handlePutPolicy rq st))))"
proof -
  show "db_step (tables (st_db st)) (tables (st_db (snd (handleCreateObject rq st))))"
    by (auto simp: handleCreateObject_def on_db_eq idle split: option.splits prod.splits sum.splits dest: CreateObject_step)
  show "db_step (tables (st_db st)) (tables (st_db (snd (handleIssueToken sv rq st))))"
    by (auto simp: handleIssueToken_def idle split: option.splits prod.splits sum.splits dest: Issue_step)
  show "db_step (tables (st_db st)) (tables (st_db (snd (handleRevokeToken jti st))))"
    by (auto simp: handleRevokeToken_def on_db_eq idle split: prod.splits sum.splits dest: Revoke_step)
  show "db_step (tables (st_db st)) (tables (st_db (snd (handlePutPolicy rq st))))"
    by (auto simp: handlePutPolicy_def on_db_eq idle split: option.splits prod.splits sum.splits dest: UpsertPolicyRule_step)
qed

lemma run_endpoint_step: "db_step (tables (st_db st)) (tables (st_db (snd (run_endpoint sv ep rq st))))"
  by (cases ep) (simp_all add: run_endpoint_def auth_def reading_handlers writing_handlers idle)

lemma Handler_step: "db_step (tables (st_db st)) (tables (st_db (snd (Handler sv rq st))))"
proof -
  have "db_step (tables (st_db st)) (tables (st_db st'))" if "run_endpoint sv ep rq st = (resp, st')" for ep resp st'
    using run_endpoint_step [of st sv ep rq] that by simp
  then show ?thesis
    by (auto simp: Handler_def idle split: list.splits option.splits prod.splits)
qed

section \<open>The invariant of the tables\<close>

definition event_ok :: "AuditEvent \<Rightarrow> bool" where
  "event_ok e \<longleftrightarrow> list_all pg_text (event_texts e) \<and> ae_Detail e = [] \<and>
     (ae_JTI e = [] \<or> ae_Event e = EventIssue \<or> ae_Event e = EventRevoke)"

definition issue_ids :: "AuditEvent list \<Rightarrow> string list" where
  "issue_ids es = map ae_JTI (filter (\<lambda>e. ae_Event e = EventIssue) es)"

text \<open>
  The ids of the audit are positive and grow in the order of the rows, and the sequence stands at the
  last one or beyond: what failed in between leaves gaps, and no id is given twice.
\<close>

definition ids_ok :: "db \<Rightarrow> bool" where
  "ids_ok d \<longleftrightarrow> sorted_wrt (<) (map ae_ID (db_audit d)) \<and> 0 \<le> db_audit_seq d \<and>
     list_all (\<lambda>e. 0 < ae_ID e \<and> ae_ID e \<le> db_audit_seq d) (db_audit d)"

definition db_ok :: "db \<Rightarrow> bool" where
  "db_ok d \<longleftrightarrow>
     distinct (map obj_ID (db_objects d)) \<and> distinct (map tk_JTI (db_tokens d)) \<and>
     tk_SID ` set (db_tokens d) \<subseteq> obj_ID ` set (db_objects d) \<and>
     distinct (map (pr_ID \<circ> row_rule) (db_rules d)) \<and>
     list_all event_ok (db_audit d) \<and> ids_ok d \<and>
     distinct (issue_ids (db_audit d)) \<and> set (issue_ids (db_audit d)) \<subseteq> tk_JTI ` set (db_tokens d)"

lemma db_ok_tables [simp]: "db_ok (tables d) = db_ok d"
  by (simp add: db_ok_def ids_ok_def)

lemma logs_simps [simp]:
  "db_objects (logs d e n) = db_objects d" "db_tokens (logs d e n) = db_tokens d" "db_rules (logs d e n) = db_rules d"
  "db_now (logs d e n) = db_now d" "db_audit_seq (logs d e n) = n"
  "db_audit (logs d e n) = db_audit d @ [e\<lparr>ae_ID := n\<rparr>]"
  by (simp_all add: logs_def)

lemma ids_ok_simps [simp]:
  "ids_ok (d\<lparr>db_objects := os\<rparr>) = ids_ok d" "ids_ok (d\<lparr>db_tokens := ts\<rparr>) = ids_ok d" "ids_ok (d\<lparr>db_now := t\<rparr>) = ids_ok d"
  by (simp_all add: ids_ok_def)

lemma ids_ok_seq: "ids_ok d \<Longrightarrow> db_audit_seq d \<le> n \<Longrightarrow> ids_ok (d\<lparr>db_audit_seq := n\<rparr>)"
  by (fastforce simp: ids_ok_def list_all_iff)

lemma ids_ok_logs: "ids_ok d \<Longrightarrow> db_audit_seq d < n \<Longrightarrow> ids_ok (logs d e n)"
  by (fastforce simp: ids_ok_def list_all_iff sorted_wrt_append)

lemma mark_revoked_simps [simp]:
  "db_objects (mark_revoked j d) = db_objects d" "db_audit (mark_revoked j d) = db_audit d"
  "db_rules (mark_revoked j d) = db_rules d" "db_now (mark_revoked j d) = db_now d"
  "db_audit_seq (mark_revoked j d) = db_audit_seq d" "ids_ok (mark_revoked j d) = ids_ok d"
  by (simp_all add: mark_revoked_def)

lemma mark_revoked_maps [simp]:
  "map tk_JTI (db_tokens (mark_revoked j d)) = map tk_JTI (db_tokens d)"
  "map tk_SID (db_tokens (mark_revoked j d)) = map tk_SID (db_tokens d)"
  by (simp_all add: mark_revoked_def)

lemma mark_revoked_sets [simp]:
  "tk_SID ` set (db_tokens (mark_revoked j d)) = tk_SID ` set (db_tokens d)"
  "tk_JTI ` set (db_tokens (mark_revoked j d)) = tk_JTI ` set (db_tokens d)"
  by (metis list.set_map mark_revoked_maps)+

text \<open>Logging keeps the invariant, for an issue when the token has none yet.\<close>

lemma event_ok_id [simp]: "event_ok (e\<lparr>ae_ID := n\<rparr>) = event_ok e"
  by (simp add: event_ok_def event_texts_def)

lemma db_ok_seq: "db_ok d \<Longrightarrow> db_audit_seq d \<le> n \<Longrightarrow> db_ok (d\<lparr>db_audit_seq := n\<rparr>)"
  by (simp add: db_ok_def ids_ok_seq)

lemma db_ok_logs:
  assumes "db_ok d" and "event_ok e" and "db_audit_seq d < n"
    and "ae_Event e = EventIssue \<Longrightarrow> ae_JTI e \<in> tk_JTI ` set (db_tokens d) - set (issue_ids (db_audit d))"
  shows "db_ok (logs d e n)"
proof -
  have "issue_ids (db_audit (logs d e n)) =
      issue_ids (db_audit d) @ (if ae_Event e = EventIssue then [ae_JTI e] else [])"
    by (simp add: issue_ids_def)
  then show ?thesis using assms ids_ok_logs by (auto simp: db_ok_def)
qed

lemma db_ok_may_log:
  assumes "may_log e d d'" and "db_ok d" and "list_all pg_text (event_texts e) \<Longrightarrow> event_ok e"
    and "ae_Event e = EventIssue \<Longrightarrow> ae_JTI e \<in> tk_JTI ` set (db_tokens d) - set (issue_ids (db_audit d))"
  shows "db_ok d'"
  using assms db_ok_seq db_ok_logs unfolding may_log_def by blast

lemma step_events_ok:
  "list_all pg_text (event_texts (policy_deny_event now req x rule)) \<Longrightarrow> event_ok (policy_deny_event now req x rule)"
  "list_all pg_text (event_texts (issue_event now req jti)) \<Longrightarrow> event_ok (issue_event now req jti)"
  "list_all pg_text (event_texts (revoke_event now jti by')) \<Longrightarrow> event_ok (revoke_event now jti by')"
  by (auto simp: event_ok_def policy_deny_event_def issue_event_def revoke_event_def zero_event_def)

lemma event_names:
  "ae_Event (policy_deny_event now req x rule) = EventPolicyDeny" "ae_Event (issue_event now req jti) = EventIssue"
  "ae_Event (revoke_event now jti by') = EventRevoke" "ae_JTI (issue_event now req jti) = jti"
  "ae_JTI (revoke_event now jti by') = jti" "EventPolicyDeny \<noteq> EventIssue" "EventRevoke \<noteq> EventIssue"
  "EventPolicyDeny \<noteq> EventRevoke" "EventIssue \<noteq> EventRevoke"
  by (simp_all add: policy_deny_event_def issue_event_def revoke_event_def zero_event_def EventPolicyDeny_def
      EventIssue_def EventRevoke_def)

lemma map_upd_ids:
  "(\<And>x. pr_ID (row_rule (f x)) = i) \<Longrightarrow>
     map (pr_ID \<circ> row_rule) (map (\<lambda>x. if pr_ID (row_rule x) = i then f x else x) xs) = map (pr_ID \<circ> row_rule) xs"
  by (induction xs) auto

lemma upsert_rule_ids:
  assumes "distinct (map (pr_ID \<circ> row_rule) (db_rules d))"
  shows "distinct (map (pr_ID \<circ> row_rule) (db_rules (upsert_row r d)))"
proof (cases "list_ex (\<lambda>x. pr_ID (row_rule x) = pr_ID r) (db_rules d)")
  case True
  let ?row = "\<lparr>row_rule = r, row_commands = marshalCommands (pr_Commands r)\<rparr>"
  have "db_rules (upsert_row r d) = map (\<lambda>x. if pr_ID (row_rule x) = pr_ID r
      then ?row\<lparr>row_rule := r\<lparr>pr_CreatedAt := pr_CreatedAt (row_rule x)\<rparr>\<rparr> else x) (db_rules d)"
    using True by (simp add: upsert_row_def Let_def)
  moreover have "map (pr_ID \<circ> row_rule) \<dots> = map (pr_ID \<circ> row_rule) (db_rules d)"
    by (rule map_upd_ids) simp
  ultimately show ?thesis using assms by metis
next
  case False
  then show ?thesis using assms by (auto simp: upsert_row_def Let_def list_ex_iff)
qed

lemma upsert_row_simps [simp]:
  "db_objects (upsert_row r d) = db_objects d" "db_tokens (upsert_row r d) = db_tokens d"
  "db_audit (upsert_row r d) = db_audit d" "db_now (upsert_row r d) = db_now d"
  "db_audit_seq (upsert_row r d) = db_audit_seq d" "ids_ok (upsert_row r d) = ids_ok d"
  by (simp_all add: upsert_row_def ids_ok_def Let_def)

lemma db_step_ok:
  assumes "db_step d d'" and "db_ok d" shows "db_ok d'"
  using assms
proof (induction rule: db_step.induct)
  case (registers ob d)
  then show ?case by (auto simp: db_ok_def)
next
  case (refuses now req x rule d d')
  show ?case by (rule db_ok_may_log [OF refuses.hyps refuses.prems step_events_ok(1)]) (simp_all add: event_names)
next
  case (issues t d req now d')
  have n: "tk_JTI t \<notin> set (issue_ids (db_audit d))" using issues.hyps(1) issues.prems by (auto simp: db_ok_def)
  have "db_ok (d\<lparr>db_tokens := db_tokens d @ [t]\<rparr>)" using issues.prems issues.hyps by (auto simp: db_ok_def)
  from db_ok_may_log [OF issues.hyps(8) this step_events_ok(2)] show ?case using n by (simp add: event_names)
next
  case (revokes jti now by' d d')
  have "db_ok (mark_revoked jti d)" using revokes.prems by (simp add: db_ok_def)
  from db_ok_may_log [OF revokes.hyps(2) this step_events_ok(3)] show ?case by (simp add: event_names)
next
  case (stores_rule d r)
  then show ?case using upsert_rule_ids [of d r] by (simp add: db_ok_def)
qed

section \<open>Reachable states\<close>

text \<open>
  Between the requests time passes, randomness is drawn, any plan of faults may come up, and the
  sequence of the audit may skip values, as it does after a crash of the server.
\<close>

inductive reaches :: "'r Server \<Rightarrow> 'r cp_state \<Rightarrow> 'r cp_state \<Rightarrow> bool" for sv where
  reaches_start: "reaches sv st st"
| reaches_request: "reaches sv st st1 \<Longrightarrow> Handler sv rq st1 = (resp, st2) \<Longrightarrow> reaches sv st st2"
| reaches_world: "reaches sv st st1 \<Longrightarrow>
    reaches sv st \<lparr>st_db = (st_db st1)\<lparr>db_now := n, db_faults := fs, db_audit_seq := db_audit_seq (st_db st1) + int k\<rparr>,
      st_rand = s, st_now = t\<rparr>"

inductive_cases reaches_cases: "reaches sv st st'"

text \<open>A relation of tables that every abstract step keeps and time does not touch is kept on every run.\<close>

lemma reaches_induct_db [consumes 1]:
  assumes "reaches sv st st'"
    and "\<And>d. P d d" and "\<And>a b c. P a b \<Longrightarrow> db_step b c \<Longrightarrow> P a c"
    and "\<And>a b n k. P a b \<Longrightarrow> P a (b\<lparr>db_now := n, db_audit_seq := db_audit_seq b + int k\<rparr>)"
  shows "P (tables (st_db st)) (tables (st_db st'))"
  using assms(1)
proof (induction rule: reaches.induct)
  case (reaches_request st st1 rq resp st2)
  then show ?case using assms(3) Handler_step [of st1 sv rq] by simp
next
  case (reaches_world st st1 k fs n s t)
  have "tables ((st_db st1)\<lparr>db_now := n, db_faults := fs, db_audit_seq := db_audit_seq (st_db st1) + int k\<rparr>) =
      (tables (st_db st1))\<lparr>db_now := n, db_audit_seq := db_audit_seq (tables (st_db st1)) + int k\<rparr>"
    by (simp add: tables_def)
  then show ?case using assms(4) [OF reaches_world.IH, of k n] by (simp only: cp_state.simps)
qed (rule assms(2))

lemma reaches_ok: "reaches sv st st' \<Longrightarrow> db_ok (st_db st) \<Longrightarrow> db_ok (st_db st')"
proof -
  assume "reaches sv st st'" "db_ok (st_db st)"
  moreover have "db_ok (tables (st_db st)) \<longrightarrow> db_ok (tables (st_db st'))" if "reaches sv st st'"
    using that
  proof (rule reaches_induct_db)
    show "(db_ok a \<longrightarrow> db_ok (b\<lparr>db_now := n, db_audit_seq := db_audit_seq b + int k\<rparr>))" if "db_ok a \<longrightarrow> db_ok b" for a b n k
      using that ids_ok_seq [of b "db_audit_seq b + int k"] by (auto simp: db_ok_def ids_ok_def)
  qed (use db_step_ok in blast)+
  ultimately show ?thesis by simp
qed


section \<open>History\<close>

definition token_later :: "Token \<Rightarrow> Token \<Rightarrow> bool" where
  "token_later t t' \<longleftrightarrow> t' = t \<or> (tk_RevokedAt t = None \<and> tk_RevokedAt t' \<noteq> None \<and> t'\<lparr>tk_RevokedAt := None\<rparr> = t)"

definition history :: "db \<Rightarrow> db \<Rightarrow> bool" where
  "history d d' \<longleftrightarrow> prefix (db_audit d) (db_audit d') \<and> prefix (db_objects d) (db_objects d') \<and>
     list_all2 token_later (db_tokens d) (take (length (db_tokens d)) (db_tokens d'))"

lemma token_later_refl [simp]: "token_later t t"
  by (simp add: token_later_def)

lemma token_later_trans: "token_later a b \<Longrightarrow> token_later b c \<Longrightarrow> token_later a c"
  by (auto simp: token_later_def)

lemma history_refl [simp]: "history d d"
  by (simp add: history_def list.rel_refl)

lemma history_trans:
  assumes "history a b" and "history b c" shows "history a c"
proof -
  have l: "length (db_tokens a) \<le> length (db_tokens b)"
    using assms(1) list_all2_lengthD by (fastforce simp: history_def)
  have "list_all2 token_later (take (length (db_tokens a)) (db_tokens b))
      (take (length (db_tokens a)) (take (length (db_tokens b)) (db_tokens c)))"
    using assms(2) unfolding history_def by (blast intro: list_all2_takeI)
  then have "list_all2 token_later (take (length (db_tokens a)) (db_tokens b)) (take (length (db_tokens a)) (db_tokens c))"
    using l by (simp add: min_absorb1)
  then have "list_all2 token_later (db_tokens a) (take (length (db_tokens a)) (db_tokens c))"
    using assms(1) token_later_trans by (auto simp: history_def intro: list_all2_trans)
  then show ?thesis using assms by (auto simp: history_def intro: prefix_order.trans)
qed

lemma history_mark_revoked: "history d (mark_revoked jti d)"
proof -
  have "list_all2 token_later (db_tokens d) (db_tokens (mark_revoked jti d))"
    by (auto simp: mark_revoked_def list_all2_map2 list_all2_same token_later_def)
  moreover from this have "length (db_tokens (mark_revoked jti d)) = length (db_tokens d)"
    by (simp add: list_all2_lengthD)
  ultimately show ?thesis by (simp add: history_def)
qed

lemma history_may_log: "may_log e d d' \<Longrightarrow> history d d'"
  by (auto simp: may_log_def history_def list.rel_refl)

lemma db_step_history: "db_step d d' \<Longrightarrow> history d d'"
proof (induction rule: db_step.induct)
  case (issues t d req now d')
  have "history d (d\<lparr>db_tokens := db_tokens d @ [t]\<rparr>)" by (simp add: history_def list.rel_refl)
  then show ?case using issues.hyps(8) history_may_log history_trans by blast
next
  case (revokes jti now by' d d')
  then show ?case using history_mark_revoked history_may_log history_trans by blast
qed (auto simp: history_may_log, simp_all add: history_def list.rel_refl)

lemma reaches_history: "reaches sv st st' \<Longrightarrow> history (st_db st) (st_db st')"
proof -
  assume "reaches sv st st'"
  then have "history (tables (st_db st)) (tables (st_db st'))"
  proof (rule reaches_induct_db)
    show "history a c" if "history a b" "db_step b c" for a b c using that db_step_history history_trans by blast
    show "history a (b\<lparr>db_now := n, db_audit_seq := db_audit_seq b + int k\<rparr>)" if "history a b" for a b n k
      using that by (simp add: history_def)
  qed simp
  then show ?thesis by (simp add: history_def)
qed

section \<open>What the audit shows of a revocation\<close>

definition revoke_logged :: "db \<Rightarrow> string \<Rightarrow> bool" where
  "revoke_logged d jti = list_ex (\<lambda>e. ae_JTI e = jti \<and> ae_Event e = EventRevoke) (db_audit d)"

text \<open>At most one event of a token is not a revocation, so the latest two hundred show one if there is one.\<close>

lemma filter_eq_distinct: "distinct (map f (filter P xs)) \<Longrightarrow> length (filter P (filter (\<lambda>x. f x = a) xs)) \<le> 1"
proof (induction xs)
  case (Cons x xs)
  show ?case
  proof (cases "P x \<and> f x = a")
    case True
    then have "f x \<notin> set (map f (filter P xs))" using Cons.prems by auto
    then have "filter P (filter (\<lambda>y. f y = a) xs) = []" using True by (force simp: filter_empty_conv image_iff)
    then show ?thesis using True by simp
  next
    case False
    then show ?thesis using Cons by (auto split: if_splits)
  qed
qed simp

lemma latest_shows_revocation:
  assumes "db_ok d" and "jti \<noteq> []"
  shows "list_ex (\<lambda>e. ae_Event e = EventRevoke) (take 200 (rev (filter (\<lambda>e. ae_JTI e = jti) (db_audit d)))) =
    revoke_logged d jti"
proof -
  let ?L = "filter (\<lambda>e. ae_JTI e = jti) (db_audit d)"
  let ?T = "take 200 (rev ?L)"
  let ?I = "\<lambda>e. ae_Event e = EventIssue"
  have kinds: "ae_Event e = EventIssue \<or> ae_Event e = EventRevoke" if "e \<in> set ?L" for e
    using assms that by (auto simp: db_ok_def list_all_iff event_ok_def)
  have one: "length (filter ?I ?L) \<le> 1"
    using assms(1) by (intro filter_eq_distinct) (simp add: db_ok_def issue_ids_def)
  have sub: "set ?T \<subseteq> set ?L" using set_take_subset by fastforce
  have "\<exists>e \<in> set ?T. ae_Event e = EventRevoke" if "200 < length ?L"
  proof (rule ccontr)
    assume "\<not> (\<exists>e \<in> set ?T. ae_Event e = EventRevoke)"
    then have "\<forall>e \<in> set ?T. ?I e" using kinds sub by blast
    then have "filter ?I ?T = ?T" by (simp add: filter_id_conv)
    then have "length (filter ?I ?T) = 200" using that by simp
    moreover have "length (filter ?I (rev ?L)) = length (filter ?I ?T) + length (filter ?I (drop 200 (rev ?L)))"
      by (metis append_take_drop_id filter_append length_append)
    moreover have "length (filter ?I (rev ?L)) \<le> 1" using one by (simp only: rev_filter [symmetric] length_rev)
    ultimately show False by linarith
  qed
  moreover have "set ?T = set ?L" if "\<not> 200 < length ?L" using that by simp
  moreover have "revoke_logged d jti \<longleftrightarrow> (\<exists>e \<in> set ?L. ae_Event e = EventRevoke)"
    by (auto simp: revoke_logged_def list_ex_iff)
  ultimately show ?thesis using sub unfolding list_ex_iff by blast
qed


section \<open>The sidecar's revocation check against the handlers\<close>

lemma event_fields:
  "map (match_field [''Event'', ''Outcome''])
     [''ID'', ''At'', ''Event'', ''JTI'', ''SID'', ''Principal'', ''Host'', ''Scope'', ''Outcome'', ''Reason'', ''Detail''] =
   [None, None, Some ''Event'', None, None, None, None, None, Some ''Outcome'', None, None]"
  by code_simp

lemma event_of_event_json: "event_of_json (event_json e) = Some (ae_Event e, ae_Outcome e)"
  using event_fields by (simp add: event_of_json_def event_json_def dec_struct_def)

lemma event_json_ok:
  assumes "event_ok e" shows "json_ok (Suc d) (event_json e)"
proof -
  have "list_all utf8_Valid [''ID'', ''At'', ''Event'', ''JTI'', ''SID'', ''Principal'', ''Host'', ''Scope'', ''Outcome'', ''Reason'', ''Detail'']"
    by code_simp
  then show ?thesis using assms by (simp add: event_json_def event_ok_def event_texts_def pg_text_def)
qed

lemma events_body:
  assumes "list_all event_ok es"
  shows "Option.bind (Decode (Marshal (JObj [(''events'', nil_slice (map event_json es))]) @ [CHR 0x0A])) events_body_of_json =
    Some (map (\<lambda>e. (ae_Event e, ae_Outcome e)) es)"
proof -
  let ?j = "JObj [(''events'', nil_slice (map event_json es))]"
  have "utf8_Valid ''events''" by code_simp
  then have "json_ok (Suc (Suc (Suc 0))) ?j"
    using assms event_json_ok by (auto simp: nil_slice_def list_all_iff)
  then have "json_ok maxNestingDepth ?j" by (rule json_ok_max) simp
  then have "Decode (Marshal ?j @ [CHR 0x0A]) = Some ?j" by (rule Decode_Marshal) (simp add: num_end_def is_digit_def)
  moreover have "events_body_of_json ?j = Some (map (\<lambda>e. (ae_Event e, ae_Outcome e)) es)"
    by (cases es) (simp_all add: events_body_of_json_def dec_struct_def nil_slice_def dec_slice_def o_def event_of_event_json)
  ultimately show ?thesis by simp
qed

text \<open>The request of the checker is routed to the audit with the id it escaped.\<close>

lemma audit_route:
  "cleanPath ''/v1/audit'' = ''/v1/audit''" "endpoints ''/v1/audit'' = [(''GET'', EpAudit)]"
  "list_all (\<lambda>c. \<not> is_ctl c) ''/v1/audit''" "CHR ''#'' \<notin> set ''/v1/audit''" "CHR ''?'' \<notin> set ''/v1/audit''"
  "CHR ''%'' \<notin> set ''/v1/audit''" "list_all query_safe ''jti''" "QueryUnescape ''jti'' = Some ''jti''"
  by code_simp+

lemma query_get_other:
  assumes "list_all query_safe k" and "QueryUnescape k = Some k" and "k' \<noteq> k"
  shows "query_get k' (k @ ''='' @ QueryEscape v) = []"
proof -
  have n: "CHR ''='' \<notin> set k" "CHR ''&'' \<notin> set k" "CHR '';'' \<notin> set k"
    using assms(1) query_safe_not by (fastforce simp: list_all_iff)+
  have "cut_at (CHR ''='') (k @ ''='' @ QueryEscape v) = Some (k, QueryEscape v)"
    using n by (simp add: cut_at_append)
  then have "query_part (k @ ''='' @ QueryEscape v) = Some (k, v)"
    using assms n by (simp add: query_part_def)
  moreover have "split_on (CHR ''&'') (k @ ''='' @ QueryEscape v) = [k @ ''='' @ QueryEscape v]"
    using n by (intro split_on_no_sep) auto
  ultimately show ?thesis using assms(3) by (simp add: query_get_def ParseQuery_def List.map_filter_def)
qed

text \<open>
  A deployment: the sidecar's checker addresses the origin of the control plane with its key, which
  a header can carry as it is. It caches revocations only.
\<close>

definition deployed :: "string \<Rightarrow> 'r Server \<Rightarrow> ControlPlaneChecker \<Rightarrow> bool" where
  "deployed origin sv c \<longleftrightarrow>
     rc_BaseURL c = origin \<and> origin \<noteq> [] \<and> list_all (\<lambda>x. \<not> is_ctl x) origin \<and>
     rc_APIKey c = sv_apiKey sv \<and> sv_apiKey sv \<noteq> [] \<and> trim_ows (sv_apiKey sv) = sv_apiKey sv \<and>
     field_value_ok (sv_apiKey sv) \<and> rc_NegativeTTL c = 0"

lemma audit_rows:
  assumes "jti \<noteq> []" and "QueryAudit [] jti 200 d = (x, d')"
  shows "tables d' = tables d \<and>
    (x = Inr (take 200 (rev (filter (\<lambda>e. ae_JTI e = jti) (db_audit d)))) \<or> is_err x)"
  using assms(2) unfolding QueryAudit_def Let_def
proof (rule db_stmt_cases, goal_cases)
  case (1 d1 r1 d2)
  then show ?case using tables_eqD [OF 1(1)] assms(1) by auto
qed simp

lemma audit_over_serve:
  assumes "deployed origin sv c" and "db_ok (st_db st)" and "jti \<noteq> []"
    and "QueryAudit [] jti 200 (st_db st) = (x, d')"
  shows "revocation_fetch (serve origin (Handler sv)) c jti st =
    ((case x of Inl _ \<Rightarrow> Inl (Err (''revocation: control plane returned '' @ itoa 500))
              | Inr _ \<Rightarrow> Inr (revoke_logged (st_db st) jti)), st\<lparr>st_db := d'\<rparr>)"
proof -
  let ?q = "''jti='' @ QueryEscape jti"
  let ?rq = "\<lparr>ar_Method = ''GET'', ar_Path = ''/v1/audit'', ar_RawQuery = ?q,
     ar_Header = [(''X-Safekeys-Key'', rc_APIKey c)], ar_Body = []\<rparr>"
  let ?es = "take 200 (rev (filter (\<lambda>e. ae_JTI e = jti) (db_audit (st_db st))))"
  let ?body = "JObj [(''events'', nil_slice (map event_json ?es))]"
  let ?resp = "if is_err x then writeErr 500 ''internal error'' else writeJSON 200 ?body"
  have key: "request_key ?rq = sv_apiKey sv"
    using assms(1) by (simp add: deployed_def request_key_def header_get_def)
  have g: "query_get ''jti'' ?q = jti" "query_get ''sid'' ?q = []"
    using query_get_one [OF audit_route(7,8), of jti] query_get_other [OF audit_route(7,8), of "''sid''" jti] by simp_all
  have x: "x = Inr ?es \<or> is_err x" using audit_rows [OF assms(3,4)] by simp
  have h: "handleAudit ?rq st = (?resp, st\<lparr>st_db := d'\<rparr>)"
    using g assms(4) x by (cases x) (auto simp: handleAudit_def on_db_def)
  have H: "Handler sv ?rq st = (?resp, st\<lparr>st_db := d'\<rparr>)"
    using h key assms(1)
    by (simp add: Handler_def audit_route method_matches_def run_endpoint_def auth_def deployed_def)
  have t: "request_target origin (rq_URL (audit_request c jti)) = Some (''/v1/audit'', ?q)"
    using request_target_query [OF _ audit_route(3-7), of origin jti] assms(1) by (simp add: deployed_def audit_request_def)
  have s: "serve origin (Handler sv) (audit_request c jti) st = (Inr ?resp, st\<lparr>st_db := d'\<rparr>)"
    unfolding serve_def t using H assms(1) by (simp add: audit_request_def deployed_def)
  have ok: "list_all event_ok ?es"
    using assms(2) set_take_subset [of 200] by (fastforce simp: db_ok_def list_all_iff)
  have "list_ex (\<lambda>(ev, _). ev = ''revoke'') (map (\<lambda>e. (ae_Event e, ae_Outcome e)) ?es) =
      list_ex (\<lambda>e. ae_Event e = EventRevoke) ?es"
    by (simp only: list_ex_iff set_map) (simp add: EventRevoke_def)
  then show ?thesis
    using events_body [OF ok] latest_shows_revocation [OF assms(2,3)] assms(1) x
    by (cases x) (auto simp: revocation_fetch_def s writeJSON_def writeErr_def StatusOK_def deployed_def simp del: Marshal.simps)
qed

section \<open>Control plane and sidecar together\<close>

text \<open>
  The runs of a deployment: requests to the control plane, the passing of time, and the sidecar's
  checks, which go through the same handlers.
\<close>

inductive deployment ::
  "string \<Rightarrow> 'r Server \<Rightarrow> ControlPlaneChecker \<Rightarrow> 'r cp_state \<Rightarrow> ControlPlaneChecker \<Rightarrow> 'r cp_state \<Rightarrow> bool"
  for origin sv c0 st0
where
  deployment_start: "deployment origin sv c0 st0 c0 st0"
| deployment_runs: "deployment origin sv c0 st0 c st \<Longrightarrow> reaches sv st st' \<Longrightarrow> deployment origin sv c0 st0 c st'"
| deployment_check: "deployment origin sv c0 st0 c st \<Longrightarrow>
    IsRevoked (serve origin (Handler sv)) clock jti c st = (r, c', st') \<Longrightarrow> deployment origin sv c0 st0 c' st'"

text \<open>The cache tells the truth: what it holds is logged by the control plane.\<close>

definition cache_true :: "ControlPlaneChecker \<Rightarrow> db \<Rightarrow> bool" where
  "cache_true c d \<longleftrightarrow>
     (\<forall>jti e. rc_cache c jti = Some e \<longrightarrow> ce_revoked e \<and> ce_expires e = None \<and> revoke_logged d jti)"

lemma revoke_logged_history: "history d d' \<Longrightarrow> revoke_logged d jti \<Longrightarrow> revoke_logged d' jti"
  by (auto simp: history_def revoke_logged_def list_ex_iff dest: set_mono_prefix)

lemma revoke_logged_tables [simp]: "revoke_logged (tables d) = revoke_logged d"
  by (simp add: revoke_logged_def fun_eq_iff)

lemma cache_true_tables: "cache_true c d \<Longrightarrow> tables d' = tables d \<Longrightarrow> cache_true c d'"
  unfolding cache_true_def by (metis revoke_logged_tables)

lemma check_answer:
  assumes "deployed origin sv c" and "db_ok (st_db st)" and "cache_true c (st_db st)"
    and "IsRevoked (serve origin (Handler sv)) clock jti c st = (r, c', st')"
  shows "deployed origin sv c' \<and> tables (st_db st') = tables (st_db st) \<and> cache_true c' (st_db st') \<and>
    (if jti = [] then r = (True, None)
     else if snd r = None then fst r = revoke_logged (st_db st) jti else fst r)"
proof (cases "jti = [] \<or> rc_cache c jti \<noteq> None")
  case True
  have l: "live t e \<and> ce_revoked e \<and> revoke_logged (st_db st) jti" if "rc_cache c jti = Some e" for e t
    using assms(3) that by (auto simp: cache_true_def live_def)
  have "r = (True, None) \<and> c' = c \<and> st' = st \<and> (if jti = [] then True else revoke_logged (st_db st) jti)"
    using assms(4) True l by (auto simp: IsRevoked_def split: if_splits option.splits)
  then show ?thesis using assms(1,3) by auto
next
  case False
  obtain x d' where q: "QueryAudit [] jti 200 (st_db st) = (x, d')" by (metis prod.collapse)
  have j: "jti \<noteq> []" "rc_cache c jti = None" using False by auto
  have d': "tables d' = tables (st_db st)" using audit_rows [OF j(1) q] by simp
  have f: "consult (serve origin (Handler sv)) clock jti c st = (r, c', st')"
    using assms(4) j by (simp add: IsRevoked_def)
  have n: "\<not> rc_NegativeTTL c > 0" using assms(1) by (simp add: deployed_def)
  have c': "c' = c \<or> (c' = c\<lparr>rc_cache := (rc_cache c)(jti \<mapsto> \<lparr>ce_revoked = True, ce_expires = None\<rparr>)\<rparr> \<and>
      revoke_logged (st_db st) jti)"
    and st': "st' = st\<lparr>st_db := d'\<rparr>"
    and r: "if snd r = None then fst r = revoke_logged (st_db st) jti else fst r"
    using f n by (auto simp: consult_def audit_over_serve [OF assms(1,2) j(1) q] split: sum.splits if_splits)
  have t: "tables (st_db st') = tables (st_db st)" using st' d' by simp
  then have "revoke_logged (st_db st') = revoke_logged (st_db st)" by (metis revoke_logged_tables)
  then have "cache_true c' (st_db st')" using c' assms(3) by (auto simp: cache_true_def split: if_splits)
  moreover have "deployed origin sv c'" using c' assms(1) by (auto simp: deployed_def)
  ultimately show ?thesis using r t j(1) by simp
qed

lemma deployment_inv:
  assumes "deployment origin sv c0 st0 c st" and "deployed origin sv c0" and "db_ok (st_db st0)"
    and "cache_true c0 (st_db st0)"
  shows "deployed origin sv c \<and> db_ok (st_db st) \<and> cache_true c (st_db st) \<and> history (st_db st0) (st_db st)"
  using assms
proof (induction rule: deployment.induct)
  case (deployment_runs c st st')
  have h: "history (st_db st) (st_db st')" using deployment_runs.hyps(2) by (rule reaches_history)
  then have "cache_true c (st_db st')"
    using deployment_runs revoke_logged_history unfolding cache_true_def by blast
  then show ?case using deployment_runs reaches_ok h history_trans by blast
next
  case (deployment_check c st clock jti r c' st')
  then have i: "deployed origin sv c" "db_ok (st_db st)" "cache_true c (st_db st)" "history (st_db st0) (st_db st)" by auto
  have t: "tables (st_db st') = tables (st_db st)" "deployed origin sv c'" "cache_true c' (st_db st')"
    using check_answer [OF i(1-3) deployment_check.hyps(2)] by auto
  have "db_ok (st_db st')" using i(2) t(1) by (metis db_ok_tables)
  moreover have "history (st_db st0) (st_db st')" using i(4) t(1) tables_eqD [OF t(1)] by (simp add: history_def)
  ultimately show ?case using t by simp
qed simp


text \<open>A request to revoke that is answered 200 has logged the revocation.\<close>

lemma revoke_answered:
  assumes "Handler sv rq st = (resp, st')" and "ar_Method rq = ''DELETE''"
    and "endpoints (ar_Path rq) = [(''DELETE'', EpRevokeToken jti)]" and "rs_StatusCode resp = 200"
  shows "revoke_logged (st_db st') jti"
proof -
  have "handleRevokeToken jti st = (resp, st')"
    using assms by (auto simp: Handler_def method_matches_def run_endpoint_def auth_def writeErr_def writeJSON_def
        split: if_splits prod.splits)
  then obtain u where "Revoke (st_now st) jti ''operator'' (st_db st) = (Inr u, st_db st')" and j: "jti \<noteq> []"
    using assms(4) by (auto simp: handleRevokeToken_def on_db_eq writeErr_def writeJSON_def split: if_splits prod.splits sum.splits)
  then obtain d1 where "AppendAudit (revoke_event (st_now st) jti ''operator'') d1 = (Inr u, st_db st')"
    using j by (auto simp: Revoke_def split: prod.splits sum.splits)
  then obtain n where "tables (st_db st') = logs (tables d1) (revoke_event (st_now st) jti ''operator'') n"
    using AppendAudit_tables by fastforce
  then have "revoke_logged (tables (st_db st')) jti"
    by (simp add: revoke_logged_def event_names revoke_event_def zero_event_def)
  then show ?thesis by simp
qed

lemma deployed_New [simp]: "cache_true (New_checker origin key) d"
  by (simp add: cache_true_def New_checker_def)

section \<open>Properties\<close>

text \<open>
  C27. The HTTP interface implements the abstract steps: whatever the request, its method, path,
  query, headers and body, and whichever statements of the database fail on the way, before or after
  they are carried out, the handlers change the tables as one abstract step does.
\<close>

theorem handler_refines_step:
  "db_step (tables (st_db st)) (tables (st_db (snd (Handler sv rq st))))"
  by (rule Handler_step)


text \<open>
  C34. The tables stay consistent: from a consistent database, whatever requests are served, in
  whatever order and with whatever faults (statements that do not arrive, are rolled back after they
  drew an id, or are carried out although the reply is lost), object ids, token ids and rule ids
  stay unique, every token belongs to a registered object, the ids of the events are positive and
  strictly increase in the order of the rows (so none is given twice, although failed statements
  leave gaps), events hold text only, and every token has at most one issue event, which names a
  recorded token.
\<close>

theorem store_stays_consistent:
  assumes "reaches sv st st'" and "db_ok (st_db st)"
  shows "db_ok (st_db st')"
  using assms by (rule reaches_ok)

text \<open>
  History only grows: no request removes or rewrites an audit event or an object, and a token
  record changes in one way only, from not revoked to revoked; its time of revocation is never
  moved.
\<close>

theorem history_only_grows:
  assumes "reaches sv st st'"
  shows "prefix (db_audit (st_db st)) (db_audit (st_db st')) \<and> prefix (db_objects (st_db st)) (db_objects (st_db st')) \<and>
    list_all2 token_later (db_tokens (st_db st)) (take (length (db_tokens (st_db st))) (db_tokens (st_db st')))"
  using reaches_history [OF assms] by (simp add: history_def)

text \<open>
  C21. The sidecar's check, with its cache, is the control plane's log: in every run of a deployment a
  check that has no error answers exactly whether a revocation of the token is logged at that
  moment, although the log is read through the HTTP interface two hundred events at a time; a check
  with an error answers revoked.
\<close>

theorem revocation_check_refines_log:
  assumes "deployment origin sv (New_checker origin (sv_apiKey sv)) st0 c st"
    and "deployed origin sv (New_checker origin (sv_apiKey sv))" and "db_ok (st_db st0)" and "jti \<noteq> []"
    and "IsRevoked (serve origin (Handler sv)) clock jti c st = ((b, err), c', st')"
  shows "if err = None then b = revoke_logged (st_db st) jti else b"
proof -
  have i: "deployed origin sv c" "db_ok (st_db st)" "cache_true c (st_db st)"
    using deployment_inv [OF assms(1-3)] by simp_all
  show ?thesis using check_answer [OF i assms(5)] assms(4) by (cases err) auto
qed

text \<open>
  C15. A revocation that was acknowledged holds: after a DELETE of a token was answered with 200, every
  check of that token by the sidecar, at any later time, whatever else is requested and whichever
  calls fail, answers revoked.
\<close>

theorem acknowledged_revocation_holds:
  assumes "deployment origin sv (New_checker origin (sv_apiKey sv)) st0 c1 st1"
    and "deployed origin sv (New_checker origin (sv_apiKey sv))" and "db_ok (st_db st0)"
    and "Handler sv rq st1 = (resp, st2)" and "ar_Method rq = ''DELETE''"
    and "endpoints (ar_Path rq) = [(''DELETE'', EpRevokeToken jti)]" and "rs_StatusCode resp = 200"
    and "deployment origin sv c1 st2 c3 st3"
    and "IsRevoked (serve origin (Handler sv)) clock jti c3 st3 = ((b, err), c', st')"
  shows b
proof -
  have r: "reaches sv st1 st2" using reaches_request [OF reaches_start assms(4)] .
  have i: "deployed origin sv c1" "db_ok (st_db st2)" "cache_true c1 (st_db st2)"
    using deployment_inv [OF deployment_runs [OF assms(1) r] assms(2,3)] by simp_all
  have j: "deployed origin sv c3" "db_ok (st_db st3)" "cache_true c3 (st_db st3)" "history (st_db st2) (st_db st3)"
    using deployment_inv [OF assms(8) i] by simp_all
  have "revoke_logged (st_db st3) jti"
    using revoke_answered [OF assms(4-7)] revoke_logged_history [OF j(4)] by simp
  then show b using check_answer [OF j(1-3) assms(9)] by (auto split: if_splits)
qed

text \<open>
  Revocation is not atomic: when the token's row is marked but the statement that logs the event
  fails, the request fails, the control plane's own denylist has the token, and the log, the only
  thing the sidecar reads, does not.
\<close>

theorem revocation_can_be_half_done:
  assumes "db_faults d = None # Some (Unreached e) # fs" and "jti \<noteq> []" and "pg_text jti" and "pg_text by'"
    and "jti \<in> tk_JTI ` set (db_tokens d)"
  shows "fst (Revoke now jti by' d) = Inl e \<and>
    list_ex (\<lambda>t. tk_JTI t = jti \<and> tk_RevokedAt t \<noteq> None) (db_tokens (snd (Revoke now jti by' d))) \<and>
    revoke_logged (snd (Revoke now jti by' d)) jti = revoke_logged d jti"
proof -
  have "RevokeToken jti d = (Inr (), (mark_revoked jti d)\<lparr>db_faults := Some (Unreached e) # fs\<rparr>)"
    using assms(1,3) by (simp add: RevokeToken_def db_stmt_def db_call_def mark_revoked_def)
  moreover have "AppendAudit (revoke_event now jti by') ((mark_revoked jti d)\<lparr>db_faults := Some (Unreached e) # fs\<rparr>) =
      (Inl e, (mark_revoked jti d)\<lparr>db_faults := fs\<rparr>)"
    by (simp add: AppendAudit_def revoke_event_def zero_event_def validateDetail_def db_stmt_def db_call_def)
  ultimately have r: "Revoke now jti by' d = (Inl e, (mark_revoked jti d)\<lparr>db_faults := fs\<rparr>)"
    using assms(2) by (simp add: Revoke_def)
  obtain t where t: "t \<in> set (db_tokens d)" "tk_JTI t = jti" using assms(5) by auto
  let ?t = "if tk_RevokedAt t = None then t\<lparr>tk_RevokedAt := Some (db_now d)\<rparr> else t"
  have "?t \<in> set (db_tokens (mark_revoked jti d))" using t by (auto simp: mark_revoked_def)
  then have "\<exists>t \<in> set (db_tokens (mark_revoked jti d)). tk_JTI t = jti \<and> tk_RevokedAt t \<noteq> None"
    using t by (intro bexI [of _ ?t]) (auto split: if_splits)
  then show ?thesis using r by (simp add: list_ex_iff revoke_logged_def)
qed


section \<open>Instances\<close>

definition sample_server :: "nat Server" where
  "sample_server = \<lparr>sv_issuer = sample_issuer, sv_apiKey = ''k'', sv_random = sample_rand\<rparr>"

definition sample_state :: "nat cp_state" where
  "sample_state = \<lparr>st_db = sample_db, st_rand = 0, st_now = 1000000000000\<rparr>"

definition sample_issue :: api_request where
  "sample_issue = \<lparr>ar_Method = ''POST'', ar_Path = ''/v1/tokens'', ar_RawQuery = [], ar_Header = [(''X-Safekeys-Key'', ''k'')],
     ar_Body = Marshal (JObj [(''sid'', JStr ''obj_1''), (''scope'', str_array [''unwrap'']), (''aud'', JStr ''prod''),
       (''principal'', JStr ''alice'')])\<rparr>"

definition sample_revoke :: api_request where
  "sample_revoke = \<lparr>ar_Method = ''DELETE'', ar_Path = ''/v1/tokens/jti_1'', ar_RawQuery = [],
     ar_Header = [(''Authorization'', ''Bearer k'')], ar_Body = []\<rparr>"

definition sample_revoked :: "nat cp_state" where
  "sample_revoked = snd (Handler sample_server sample_revoke sample_state)"

lemma sample_db_ok: "db_ok (st_db sample_state)"
  by (simp add: sample_state_def sample_db_def db_ok_def ids_ok_def issue_ids_def)

lemma sample_deployed: "deployed ''https://cp'' sample_server (New_checker ''https://cp'' (sv_apiKey sample_server))"
  by (simp add: deployed_def sample_server_def New_checker_def) code_simp

lemma sample_answer:
  "rs_StatusCode (fst (Handler sample_server sample_revoke sample_state)) = 200"
  "endpoints (ar_Path sample_revoke) = [(''DELETE'', EpRevokeToken ''jti_1'')]" "ar_Method sample_revoke = ''DELETE''"
  by code_simp+

lemma sample_reaches: "reaches sample_server sample_state (snd (Handler sample_server sample_issue sample_state))"
  using reaches_request [OF reaches_start] by (metis prod.collapse)

lemma store_stays_consistent_witness:
  "db_ok (st_db (snd (Handler sample_server sample_issue sample_state))) \<and>
   length (db_tokens (st_db (snd (Handler sample_server sample_issue sample_state)))) = 1"
  using store_stays_consistent [OF sample_reaches sample_db_ok] by simp code_simp

lemma history_only_grows_witness:
  "prefix (db_audit sample_db) (db_audit (st_db (snd (Handler sample_server sample_issue sample_state))))"
  using history_only_grows [OF sample_reaches] by (simp add: sample_state_def)

lemma revocation_check_refines_log_witness:
  "\<exists>b err c' st'. IsRevoked (serve ''https://cp'' (Handler sample_server)) st_now ''jti_1''
      (New_checker ''https://cp'' ''k'') sample_state = ((b, err), c', st') \<and>
    (if err = None then b = revoke_logged sample_db ''jti_1'' else b)"
proof -
  have k: "sv_apiKey sample_server = ''k''" by (simp add: sample_server_def)
  obtain b err c' st' where e: "IsRevoked (serve ''https://cp'' (Handler sample_server)) st_now ''jti_1''
      (New_checker ''https://cp'' ''k'') sample_state = ((b, err), c', st')" by (metis prod.collapse)
  have "''jti_1'' \<noteq> []" by simp
  from revocation_check_refines_log [OF deployment_start sample_deployed sample_db_ok this, unfolded k, OF e] e
  show ?thesis by (auto simp: sample_state_def)
qed

lemma acknowledged_revocation_holds_witness:
  "fst (fst (IsRevoked (serve ''https://cp'' (Handler sample_server)) st_now ''jti_1''
      (New_checker ''https://cp'' ''k'') sample_revoked))"
proof -
  let ?c = "New_checker ''https://cp'' ''k''"
  have k: "sv_apiKey sample_server = ''k''" by (simp add: sample_server_def)
  obtain b err c' st' where e: "IsRevoked (serve ''https://cp'' (Handler sample_server)) st_now ''jti_1'' ?c sample_revoked =
      ((b, err), c', st')" by (metis prod.collapse)
  have h: "Handler sample_server sample_revoke sample_state =
      (fst (Handler sample_server sample_revoke sample_state), sample_revoked)"
    by (simp add: sample_revoked_def)
  from acknowledged_revocation_holds [OF deployment_start sample_deployed sample_db_ok h sample_answer(3,2,1)
      deployment_start, unfolded k, OF e] e
  show ?thesis by simp
qed

lemma revocation_can_be_half_done_witness:
  "\<exists>d e. fst (Revoke 0 ''r1'' ''operator'' d) = Inl e \<and> \<not> revoke_logged (snd (Revoke 0 ''r1'' ''operator'' d)) ''r1''"
proof -
  let ?t = "token_row 0 (issued_claims sample_issuer 0 sample_issue_request ''r1'')"
  let ?d = "sample_db\<lparr>db_tokens := [?t], db_faults := [None, Some (Unreached (Err ''down''))]\<rparr>"
  have "pg_text ''r1''" "pg_text ''operator''" by code_simp+
  then show ?thesis
    using revocation_can_be_half_done [of ?d "Err ''down''" "[]" "''r1''" "''operator''" 0]
    by (intro exI [of _ ?d] exI [of _ "Err ''down''"])
      (simp add: token_row_def issued_claims_def revoke_logged_def sample_db_def)
qed

end
