(* ===== verification/Cp_Client.thy ===== *)
theory Cp_Client
  imports Services Json Durations
begin

text \<open>
  pkg/cpclient: the client of the control plane, used by the sidecar and the command line. Every
  operation is one request; an answer of 300 or more is an error that names only the status.
\<close>

section \<open>Data\<close>

record Client =
  cl_BaseURL :: string
  cl_APIKey :: string

text \<open>The HTTP client, with its timeout, is the transport the operations are given.\<close>

definition New_Client :: "string \<Rightarrow> string \<Rightarrow> Client" where
  "New_Client baseURL apiKey = \<lparr>cl_BaseURL = baseURL, cl_APIKey = apiKey\<rparr>"

record ObjectInfo =
  oi_ID :: string
  oi_FolderID :: string
  oi_OwnerPrincipal :: string
  oi_ContentType :: string
  oi_WrappingKID :: string
  oi_CreatedAt :: string

record TokenInfo =
  ti_Token :: string
  ti_JTI :: string
  ti_SID :: string
  ti_Aud :: string
  ti_Scope :: "string list"
  ti_Exp :: int

record AuditInfo =
  ai_ID :: int
  ai_At :: string
  ai_Event :: string
  ai_JTI :: string
  ai_SID :: string
  ai_Principal :: string
  ai_Outcome :: string
  ai_Reason :: string

definition zero_object_info :: ObjectInfo where
  "zero_object_info = \<lparr>oi_ID = [], oi_FolderID = [], oi_OwnerPrincipal = [], oi_ContentType = [], oi_WrappingKID = [],
     oi_CreatedAt = []\<rparr>"

definition zero_token_info :: TokenInfo where
  "zero_token_info = \<lparr>ti_Token = [], ti_JTI = [], ti_SID = [], ti_Aud = [], ti_Scope = [], ti_Exp = 0\<rparr>"

definition zero_audit_info :: AuditInfo where
  "zero_audit_info = \<lparr>ai_ID = 0, ai_At = [], ai_Event = [], ai_JTI = [], ai_SID = [], ai_Principal = [], ai_Outcome = [],
     ai_Reason = []\<rparr>"

section \<open>Answers\<close>

definition object_info_store :: "string \<Rightarrow> json \<Rightarrow> ObjectInfo \<Rightarrow> ObjectInfo option" where
  "object_info_store f v r =
     (if f = ''id'' then map_option (\<lambda>x. r\<lparr>oi_ID := x\<rparr>) (dec_string v (oi_ID r))
      else if f = ''folder_id'' then map_option (\<lambda>x. r\<lparr>oi_FolderID := x\<rparr>) (dec_string v (oi_FolderID r))
      else if f = ''owner_principal'' then map_option (\<lambda>x. r\<lparr>oi_OwnerPrincipal := x\<rparr>) (dec_string v (oi_OwnerPrincipal r))
      else if f = ''content_type'' then map_option (\<lambda>x. r\<lparr>oi_ContentType := x\<rparr>) (dec_string v (oi_ContentType r))
      else if f = ''wrapping_kid'' then map_option (\<lambda>x. r\<lparr>oi_WrappingKID := x\<rparr>) (dec_string v (oi_WrappingKID r))
      else map_option (\<lambda>x. r\<lparr>oi_CreatedAt := x\<rparr>) (dec_string v (oi_CreatedAt r)))"

definition object_info_of_json :: "json \<Rightarrow> ObjectInfo option" where
  "object_info_of_json v =
     dec_struct False [''id'', ''folder_id'', ''owner_principal'', ''content_type'', ''wrapping_kid'', ''created_at'']
       object_info_store v zero_object_info"

definition objects_of_json :: "json \<Rightarrow> ObjectInfo list option" where
  "objects_of_json v =
     dec_struct False [''objects''] (\<lambda>f v _. map_option (case_option [] id) (dec_slice object_info_of_json v)) v []"

definition token_info_store :: "string \<Rightarrow> json \<Rightarrow> TokenInfo \<Rightarrow> TokenInfo option" where
  "token_info_store f v r =
     (if f = ''token'' then map_option (\<lambda>x. r\<lparr>ti_Token := x\<rparr>) (dec_string v (ti_Token r))
      else if f = ''jti'' then map_option (\<lambda>x. r\<lparr>ti_JTI := x\<rparr>) (dec_string v (ti_JTI r))
      else if f = ''sid'' then map_option (\<lambda>x. r\<lparr>ti_SID := x\<rparr>) (dec_string v (ti_SID r))
      else if f = ''aud'' then map_option (\<lambda>x. r\<lparr>ti_Aud := x\<rparr>) (dec_string v (ti_Aud r))
      else if f = ''scope'' then
        map_option (\<lambda>x. r\<lparr>ti_Scope := case_option [] id x\<rparr>) (dec_slice (\<lambda>w. dec_string w []) v)
      else map_option (\<lambda>x. r\<lparr>ti_Exp := x\<rparr>) (dec_int64 v (ti_Exp r)))"

definition token_fields :: "string list" where
  "token_fields = [''token'', ''jti'', ''sid'', ''aud'', ''scope'', ''exp'']"

definition token_info_of_json :: "json \<Rightarrow> TokenInfo option" where
  "token_info_of_json v = dec_struct False token_fields token_info_store v zero_token_info"

definition audit_info_store :: "string \<Rightarrow> json \<Rightarrow> AuditInfo \<Rightarrow> AuditInfo option" where
  "audit_info_store f v r =
     (if f = ''ID'' then map_option (\<lambda>x. r\<lparr>ai_ID := x\<rparr>) (dec_int64 v (ai_ID r))
      else if f = ''At'' then map_option (\<lambda>x. r\<lparr>ai_At := x\<rparr>) (dec_string v (ai_At r))
      else if f = ''Event'' then map_option (\<lambda>x. r\<lparr>ai_Event := x\<rparr>) (dec_string v (ai_Event r))
      else if f = ''JTI'' then map_option (\<lambda>x. r\<lparr>ai_JTI := x\<rparr>) (dec_string v (ai_JTI r))
      else if f = ''SID'' then map_option (\<lambda>x. r\<lparr>ai_SID := x\<rparr>) (dec_string v (ai_SID r))
      else if f = ''Principal'' then map_option (\<lambda>x. r\<lparr>ai_Principal := x\<rparr>) (dec_string v (ai_Principal r))
      else if f = ''Outcome'' then map_option (\<lambda>x. r\<lparr>ai_Outcome := x\<rparr>) (dec_string v (ai_Outcome r))
      else map_option (\<lambda>x. r\<lparr>ai_Reason := x\<rparr>) (dec_string v (ai_Reason r)))"

definition audit_info_of_json :: "json \<Rightarrow> AuditInfo option" where
  "audit_info_of_json v =
     dec_struct False [''ID'', ''At'', ''Event'', ''JTI'', ''SID'', ''Principal'', ''Outcome'', ''Reason'']
       audit_info_store v zero_audit_info"

definition audit_of_json :: "json \<Rightarrow> AuditInfo list option" where
  "audit_of_json v =
     dec_struct False [''events''] (\<lambda>f v _. map_option (case_option [] id) (dec_slice audit_info_of_json v)) v []"

section \<open>One request\<close>

definition cp_request :: "Client \<Rightarrow> string \<Rightarrow> string \<Rightarrow> json option \<Rightarrow> http_request" where
  "cp_request c meth path body =
     \<lparr>rq_Method = meth, rq_URL = cl_BaseURL c @ path,
      rq_Header = (''X-Safekeys-Key'', cl_APIKey c) # (if body = None then [] else [(''Content-Type'', ''application/json'')]),
      rq_Body = (case body of None \<Rightarrow> [] | Some j \<Rightarrow> Marshal j)\<rparr>"

text \<open>An empty answer leaves the result as it was; the zero value is its argument.\<close>

definition cp_do ::
  "'w transport \<Rightarrow> Client \<Rightarrow> string \<Rightarrow> string \<Rightarrow> json option \<Rightarrow> (json \<Rightarrow> 'a option) \<Rightarrow> 'a \<Rightarrow> 'w \<Rightarrow> 'a result \<times> 'w"
where
  "cp_do Do c meth path body of_json zero w =
     (case Do (cp_request c meth path body) w of
        (Inl e, w) \<Rightarrow> (Inl e, w)
      | (Inr resp, w) \<Rightarrow>
          if rs_StatusCode resp \<ge> 300 then
            (Inl (Err (''control plane: '' @ meth @ '' '' @ path @ '' -> '' @ itoa (rs_StatusCode resp))), w)
          else if length (rs_Body resp) > 0 then
            (case Option.bind (Unmarshal (rs_Body resp)) of_json of
               None \<Rightarrow> (Inl (Err ''json''), w)
             | Some x \<Rightarrow> (Inr x, w))
          else (Inr zero, w))"

text \<open>With a nil result the answer is not looked at.\<close>

definition cp_send ::
  "'w transport \<Rightarrow> Client \<Rightarrow> string \<Rightarrow> string \<Rightarrow> json option \<Rightarrow> 'w \<Rightarrow> unit result \<times> 'w"
where
  "cp_send Do c meth path body w =
     (case Do (cp_request c meth path body) w of
        (Inl e, w) \<Rightarrow> (Inl e, w)
      | (Inr resp, w) \<Rightarrow>
          if rs_StatusCode resp \<ge> 300 then
            (Inl (Err (''control plane: '' @ meth @ '' '' @ path @ '' -> '' @ itoa (rs_StatusCode resp))), w)
          else (Inr (), w))"

section \<open>Operations\<close>

definition create_body :: "ObjectInfo \<Rightarrow> json" where
  "create_body ob =
     JObj [(''content_type'', JStr (oi_ContentType ob)), (''folder_id'', JStr (oi_FolderID ob)), (''id'', JStr (oi_ID ob)),
           (''owner_principal'', JStr (oi_OwnerPrincipal ob)), (''wrapping_kid'', JStr (oi_WrappingKID ob))]"

definition client_CreateObject :: "'w transport \<Rightarrow> Client \<Rightarrow> ObjectInfo \<Rightarrow> 'w \<Rightarrow> unit result \<times> 'w" where
  "client_CreateObject Do c ob = cp_send Do c ''POST'' ''/v1/objects'' (Some (create_body ob))"

definition client_ListObjects :: "'w transport \<Rightarrow> Client \<Rightarrow> string \<Rightarrow> 'w \<Rightarrow> ObjectInfo list result \<times> 'w" where
  "client_ListObjects Do c who =
     cp_do Do c ''GET'' (''/v1/objects'' @ (if who \<noteq> [] then ''?principal='' @ who else [])) None objects_of_json []"

text \<open>A nil slice of scopes is written as null.\<close>

definition issue_body :: "string \<Rightarrow> string list \<Rightarrow> string \<Rightarrow> int \<Rightarrow> string \<Rightarrow> json" where
  "issue_body sid scope aud ttl who =
     JObj [(''aud'', JStr aud), (''principal'', JStr who), (''scope'', if scope = [] then JNull else str_array scope),
           (''sid'', JStr sid), (''ttl_seconds'', num_json (whole_seconds ttl))]"

definition client_IssueToken ::
  "'w transport \<Rightarrow> Client \<Rightarrow> string \<Rightarrow> string list \<Rightarrow> string \<Rightarrow> int \<Rightarrow> string \<Rightarrow> 'w \<Rightarrow> TokenInfo result \<times> 'w"
where
  "client_IssueToken Do c sid scope aud ttl who =
     cp_do Do c ''POST'' ''/v1/tokens'' (Some (issue_body sid scope aud ttl who)) token_info_of_json zero_token_info"

definition client_RevokeToken :: "'w transport \<Rightarrow> Client \<Rightarrow> string \<Rightarrow> 'w \<Rightarrow> unit result \<times> 'w" where
  "client_RevokeToken Do c jti = cp_send Do c ''DELETE'' (''/v1/tokens/'' @ jti) None"

definition client_Audit :: "'w transport \<Rightarrow> Client \<Rightarrow> string \<Rightarrow> 'w \<Rightarrow> AuditInfo list result \<times> 'w" where
  "client_Audit Do c sid =
     cp_do Do c ''GET'' (''/v1/audit'' @ (if sid \<noteq> [] then ''?sid='' @ sid else [])) None audit_of_json []"

definition client_PutPolicy :: "'w transport \<Rightarrow> Client \<Rightarrow> json \<Rightarrow> 'w \<Rightarrow> unit result \<times> 'w" where
  "client_PutPolicy Do c rule = cp_send Do c ''PUT'' ''/v1/policies'' (Some rule)"

definition client_Healthy :: "'w transport \<Rightarrow> Client \<Rightarrow> 'w \<Rightarrow> unit result \<times> 'w" where
  "client_Healthy Do c = cp_send Do c ''GET'' ''/healthz'' None"

text \<open>An integer of 64 bits is written and read back.\<close>

definition int64 :: "int \<Rightarrow> bool" where
  "int64 i \<longleftrightarrow> - (2 ^ 63) \<le> i \<and> i < 2 ^ 63"

lemma dec_int64_num: "int64 i \<Longrightarrow> dec_int64 (num_json i) old = Some i"
  by (simp add: dec_int64_def num_json_def int64_def ParseInt_itoa)

end
