(* ===== verification/Remote.thy ===== *)
theory Remote
  imports CP_System Cp_Client Key_Source Local_Policy
begin

text \<open>
  The clients of the control plane run against its handlers: what a call of pkg/cpclient, of the
  policy fetcher and of the key fetcher comes to at the other end. The two sides are written
  apart (the names of the members, the statuses, the escaping), and the lemmas show that they fit.
\<close>

section \<open>A request on its way\<close>

definition connected :: "string \<Rightarrow> 'r Server \<Rightarrow> Client \<Rightarrow> bool" where
  "connected origin sv c \<longleftrightarrow>
     cl_BaseURL c = origin \<and> list_all (\<lambda>x. \<not> is_ctl x) origin \<and> cl_APIKey c = sv_apiKey sv \<and> sv_apiKey sv \<noteq> [] \<and>
     trim_ows (sv_apiKey sv) = sv_apiKey sv \<and> field_value_ok (sv_apiKey sv)"

definition arrived :: "Client \<Rightarrow> string \<Rightarrow> string \<Rightarrow> json option \<Rightarrow> api_request" where
  "arrived c meth p body =
     \<lparr>ar_Method = meth, ar_Path = p, ar_RawQuery = [], ar_Header = rq_Header (cp_request c meth p body),
      ar_Body = rq_Body (cp_request c meth p body)\<rparr>"

definition plain_path :: "string \<Rightarrow> bool" where
  "plain_path p \<longleftrightarrow> list_all (\<lambda>c. \<not> is_ctl c \<and> c \<notin> set ''#?%'') p"

lemma serve_request:
  assumes "connected origin sv c" and "plain_path p"
  shows "serve origin (Handler sv) (cp_request c meth p body) st =
    (Inr (fst (Handler sv (arrived c meth p body) st)), snd (Handler sv (arrived c meth p body) st))"
proof -
  have "request_target origin (origin @ p) = Some (p, [])"
    using assms by (intro request_target_plain) (auto simp: connected_def plain_path_def list_all_iff)
  then have t: "request_target origin (rq_URL (cp_request c meth p body)) = Some (p, [])"
    using assms(1) by (simp add: cp_request_def connected_def)
  have "field_value_ok ''application/json''" by code_simp
  then have h: "list_all (\<lambda>(_, v). field_value_ok v) (rq_Header (cp_request c meth p body))"
    using assms(1) by (simp add: cp_request_def connected_def)
  have m: "rq_Method (cp_request c meth p body) = meth" by (simp add: cp_request_def)
  show ?thesis
    unfolding serve_def t option.case prod.case using h by (simp add: arrived_def m split: prod.splits)
qed

lemma arrived_simps [simp]:
  "ar_Method (arrived c meth p body) = meth" "ar_Path (arrived c meth p body) = p" "ar_RawQuery (arrived c meth p body) = []"
  "ar_Body (arrived c meth p body) = (case body of None \<Rightarrow> [] | Some j \<Rightarrow> Marshal j)"
  by (simp_all add: arrived_def cp_request_def)

lemma arrived_key: "connected origin sv c \<Longrightarrow> request_key (arrived c meth p body) = sv_apiKey sv"
  by (simp add: arrived_def cp_request_def request_key_def header_get_def connected_def)

lemma Handler_routed:
  assumes "cleanPath p = p" and "endpoints p = eps" and "(meth, ep) \<in> set eps" and "distinct (map fst eps)"
    and "meth \<noteq> ''HEAD''" "ar_Path rq = p" "ar_Method rq = meth"
  shows "Handler sv rq st = run_endpoint sv ep rq st"
proof -
  have mm: "method_matches m meth \<longleftrightarrow> m = meth" for m using assms(5) by (auto simp: method_matches_def)
  have "List.find (\<lambda>(m, _). m = meth) eps = Some (meth, ep)" if "(meth, ep) \<in> set eps" "distinct (map fst eps)"
    using that by (induction eps) force+
  then have "List.find (\<lambda>(m, _). method_matches m (ar_Method rq)) (endpoints (ar_Path rq)) = Some (meth, ep)"
    using assms mm by simp
  moreover have "endpoints (ar_Path rq) \<noteq> []" using assms by auto
  ultimately show ?thesis using assms(1,5-7) by (auto simp: Handler_def split: list.splits prod.splits)
qed

lemma run_endpoint_auth:
  assumes "connected origin sv c"
  shows "auth sv h (arrived c meth p body) st = h (arrived c meth p body) st"
  using arrived_key [OF assms, of meth p body] assms by (simp add: auth_def connected_def)

lemma routes:
  "cleanPath ''/v1/objects'' = ''/v1/objects''" "cleanPath ''/v1/tokens'' = ''/v1/tokens''"
  "cleanPath ''/v1/policies'' = ''/v1/policies''" "cleanPath ''/v1/keys'' = ''/v1/keys''"
  "endpoints ''/v1/objects'' = [(''POST'', EpCreateObject), (''GET'', EpListObjects)]"
  "endpoints ''/v1/tokens'' = [(''POST'', EpIssueToken)]"
  "endpoints ''/v1/policies'' = [(''GET'', EpListPolicies), (''PUT'', EpPutPolicy)]"
  "endpoints ''/v1/keys'' = [(''GET'', EpPublicKeys)]"
  "plain_path ''/v1/objects''" "plain_path ''/v1/tokens''" "plain_path ''/v1/policies''" "plain_path ''/v1/keys''"
  by code_simp+

lemma json_ok_flat:
  "json_ok (Suc 0) v \<Longrightarrow> json_ok maxNestingDepth v" "json_ok (Suc (Suc 0)) v \<Longrightarrow> json_ok maxNestingDepth v"
  by (rule json_ok_max, assumption, linarith)+

section \<open>Registering an object\<close>

definition info_texts :: "ObjectInfo \<Rightarrow> string list" where
  "info_texts ob = [oi_ID ob, oi_FolderID ob, oi_OwnerPrincipal ob, oi_ContentType ob, oi_WrappingKID ob]"

definition object_row :: "ObjectInfo \<Rightarrow> Object" where
  "object_row ob =
     \<lparr>obj_ID = oi_ID ob, obj_FolderID = oi_FolderID ob, obj_OwnerPrincipal = oi_OwnerPrincipal ob,
      obj_ContentType = oi_ContentType ob, obj_WrappingKID = oi_WrappingKID ob, obj_CreatedAt = 0, obj_RevokedAt = None\<rparr>"

lemma create_decodes:
  assumes "list_all utf8_Valid (info_texts ob)"
  shows "decodeStrict create_of_json (arrived c meth p (Some (create_body ob))) =
    Some \<lparr>co_ID = oi_ID ob, co_FolderID = oi_FolderID ob, co_Principal = oi_OwnerPrincipal ob,
      co_ContentType = oi_ContentType ob, co_WrappingKID = oi_WrappingKID ob\<rparr>"
proof -
  have "list_all utf8_Valid [''content_type'', ''folder_id'', ''id'', ''owner_principal'', ''wrapping_kid'']" by code_simp
  then have "json_ok (Suc 0) (create_body ob)" using assms by (simp add: create_body_def info_texts_def)
  then have "Decode (Marshal (create_body ob) @ []) = Some (create_body ob)"
    by (intro Decode_Marshal json_ok_flat) (simp_all add: num_end_def)
  then show ?thesis
    by (simp add: decodeStrict_def create_of_json_def create_body_def dec_struct_def create_fields_def create_store_def
        match_field_exact del: Marshal.simps)
qed

definition status_error :: "string \<Rightarrow> string \<Rightarrow> int \<Rightarrow> go_error" where
  "status_error meth p code = Err (''control plane: '' @ meth @ '' '' @ p @ '' -> '' @ itoa code)"


lemma remote_create:
  assumes "connected origin sv c" and "list_all utf8_Valid (info_texts ob)"
    and "oi_ID ob \<noteq> []" "oi_OwnerPrincipal ob \<noteq> []" "oi_WrappingKID ob \<noteq> []"
  shows "client_CreateObject (serve origin (Handler sv)) c ob st =
    (case CreateObject (object_row ob) (st_db st) of
       (Inl _, d) \<Rightarrow> (Inl (status_error ''POST'' ''/v1/objects'' 409), st\<lparr>st_db := d\<rparr>)
     | (Inr _, d) \<Rightarrow> (Inr (), st\<lparr>st_db := d\<rparr>))"
proof -
  let ?rq = "arrived c ''POST'' ''/v1/objects'' (Some (create_body ob))"
  have "Handler sv ?rq st = run_endpoint sv EpCreateObject ?rq st"
    by (rule Handler_routed [OF routes(1,5)]) simp_all
  then have "Handler sv ?rq st = handleCreateObject ?rq st"
    by (simp add: run_endpoint_def run_endpoint_auth [OF assms(1)])
  then show ?thesis
    using create_decodes [OF assms(2), of c "''POST''" "''/v1/objects''"] assms(3-5)
    unfolding client_CreateObject_def cp_send_def serve_request [OF assms(1) routes(9)]
    by (simp add: handleCreateObject_def requested_object_def object_row_def on_db_def status_error_def writeErr_def
        writeJSON_def split: prod.splits sum.splits)
qed

section \<open>Issuing a token\<close>

definition issue_for :: "string \<Rightarrow> string list \<Rightarrow> string \<Rightarrow> int \<Rightarrow> string \<Rightarrow> IssueRequest" where
  "issue_for sid scope aud ttl who =
     \<lparr>iq_SID = sid, iq_Scope = scope, iq_Aud = aud, iq_TTL = duration_seconds (whole_seconds ttl), iq_Principal = who, iq_Sub = []\<rparr>"

definition info_of :: "string \<Rightarrow> Claims \<Rightarrow> TokenInfo" where
  "info_of uri c = \<lparr>ti_Token = uri, ti_JTI = c_JTI c, ti_SID = c_SID c, ti_Aud = c_Aud c, ti_Scope = c_Scope c, ti_Exp = c_Exp c\<rparr>"

lemmas dec_num [simp] = dec_int64_num

lemma whole_seconds_int64: "int64 ttl \<Longrightarrow> int64 (whole_seconds ttl)"
proof -
  assume t: "int64 ttl"
  have "\<bar>ttl\<bar> div Second \<le> \<bar>ttl\<bar>" by (simp add: Second_def)
  moreover have "0 \<le> \<bar>ttl\<bar> div Second" by (simp add: Second_def pos_imp_zdiv_nonneg_iff)
  ultimately show ?thesis using t by (auto simp: int64_def whole_seconds_def sgn_if)
qed

lemma issue_decodes:
  assumes "list_all utf8_Valid ([sid, aud, who] @ scope)" and "int64 ttl"
  shows "decodeStrict issue_of_json (arrived c meth p (Some (issue_body sid scope aud ttl who))) =
    Some \<lparr>it_SID = sid, it_Scope = scope, it_Aud = aud, it_TTLSecond = whole_seconds ttl, it_Principal = who, it_Sub = []\<rparr>"
proof -
  let ?j = "issue_body sid scope aud ttl who"
  have "list_all utf8_Valid [''aud'', ''principal'', ''scope'', ''sid'', ''ttl_seconds'']" by code_simp
  then have "json_ok (Suc (Suc 0)) ?j" using assms by (auto simp: issue_body_def list_all_iff)
  then have "Decode (Marshal ?j @ []) = Some ?j" by (intro Decode_Marshal json_ok_flat) (simp_all add: num_end_def)
  moreover have "dec_slice (\<lambda>w. dec_string w []) (if scope = [] then JNull else str_array scope) =
      Some (if scope = [] then None else Some scope)"
    by (simp add: dec_slice_def str_array_def o_def)
  ultimately show ?thesis
    using whole_seconds_int64 [OF assms(2)]
    by (simp add: decodeStrict_def issue_of_json_def issue_body_def dec_struct_def issue_fields_def issue_store_def
        match_field_exact del: Marshal.simps)
qed

lemma token_info_reads:
  assumes "list_all utf8_Valid ([uri, c_JTI c, c_SID c, c_Aud c] @ c_Scope c)" and "int64 (c_Exp c)"
  shows "Option.bind (Unmarshal (Marshal (issued_json uri c) @ [CHR 0x0A])) token_info_of_json = Some (info_of uri c)"
proof -
  let ?j = "issued_json uri c"
  have "list_all utf8_Valid [''aud'', ''exp'', ''jti'', ''nbf'', ''scope'', ''sid'', ''token'']" by code_simp
  then have "json_ok (Suc (Suc 0)) ?j" using assms by (auto simp: issued_json_def list_all_iff)
  then have r: "renders maxNestingDepth ?j (Marshal ?j)" by (intro renders_Marshal json_ok_flat)
  have "parse_first (Marshal ?j @ [CHR 0x0A]) = Some (?j, [CHR 0x0A])"
    by (rule parse_first_renders [OF r]) (simp add: num_end_def is_digit_def)
  then have u: "Unmarshal (Marshal ?j @ [CHR 0x0A]) = Some ?j" by (simp add: Unmarshal_def skip_ws_def is_space_def)
  have n: "match_field token_fields ''nbf'' = None" by code_simp
  have m: "match_field token_fields k = Some k" if "k \<in> set token_fields" for k using that by (rule match_field_exact)
  have "dec_slice (\<lambda>w. dec_string w []) (str_array (c_Scope c)) = Some (Some (c_Scope c))" by (simp add: str_array_def)
  then have "token_info_of_json ?j = Some (info_of uri c)"
    using assms(2)
    by (simp add: token_info_of_json_def issued_json_def dec_struct_def token_info_store_def n m
        zero_token_info_def info_of_def) (simp add: token_fields_def n [unfolded token_fields_def] zero_token_info_def token_info_store_def info_of_def)
  then show ?thesis using u by simp
qed


lemma utf8_append: "utf8_Valid a \<Longrightarrow> utf8_Valid b \<Longrightarrow> utf8_Valid (a @ b)"
proof (induction a rule: utf8_Valid.induct)
  case (1 a)
  show ?case
  proof (cases "a = []")
    case False
    then obtain u n where d: "decode_rune a = Some (u, n)" and v: "utf8_Valid (drop n a)"
      using "1.prems"(1) utf8_Valid.simps [of a] by (auto split: option.splits)
    have n: "0 < n" "n \<le> length a" using decode_rune_size [OF d] by simp_all
    have "decode_rune (a @ b) = Some (u, n)"
      using decode_rune_append [OF d, of "drop n a @ b"] by (simp add: append_assoc [symmetric] del: append_assoc)
    moreover have "drop n (a @ b) = drop n a @ b" using n by simp
    ultimately show ?thesis using "1.IH" [OF False d refl v "1.prems"(2)] utf8_Valid.simps [of "a @ b"] False by simp
  qed (use "1.prems" in simp)
qed

text \<open>The signer's compact tokens are ASCII, as base64url is.\<close>

definition signs_ascii :: "Issuer \<Rightarrow> bool" where
  "signs_ascii i \<longleftrightarrow> (\<forall>h c jws. is_sign i h c = Inr jws \<longrightarrow> list_all (\<lambda>x. byte x < 128) jws)"

lemma jti_utf8: "tokens_jti_format s \<Longrightarrow> utf8_Valid s"
  by (rule utf8_literal) (auto simp: tokens_jti_format_def list_all_iff char_class_defs)

lemma remote_issue:
  assumes "connected origin sv c" and "list_all utf8_Valid ([sid, aud, who] @ scope)" and "int64 ttl"
    and "signs_ascii (sv_issuer sv)" and "0 \<le> st_now st" and "st_now st < 2 ^ 62"
  shows "client_IssueToken (serve origin (Handler sv)) c sid scope aud ttl who st =
    (case Issue (sv_issuer sv) (sv_random sv) (st_now st) (issue_for sid scope aud ttl who) (st_db st) (st_rand st) of
       (Inl e, d, s) \<Rightarrow> (Inl (status_error ''POST'' ''/v1/tokens'' (if ReasonOf e \<noteq> [] then 403 else 500)), st\<lparr>st_db := d, st_rand := s\<rparr>)
     | (Inr (uri, cl), d, s) \<Rightarrow> (Inr (info_of uri cl), st\<lparr>st_db := d, st_rand := s\<rparr>))"
proof -
  let ?rq = "arrived c ''POST'' ''/v1/tokens'' (Some (issue_body sid scope aud ttl who))"
  let ?q = "issue_for sid scope aud ttl who"
  have "Handler sv ?rq st = run_endpoint sv EpIssueToken ?rq st"
    by (rule Handler_routed [OF routes(2,6)]) simp_all
  then have h: "Handler sv ?rq st = handleIssueToken sv ?rq st"
    by (simp add: run_endpoint_def run_endpoint_auth [OF assms(1)])
  obtain r d s where i: "Issue (sv_issuer sv) (sv_random sv) (st_now st) ?q (st_db st) (st_rand st) = (r, d, s)"
    by (metis prod.collapse)
  have q: "issue_request \<lparr>it_SID = sid, it_Scope = scope, it_Aud = aud, it_TTLSecond = whole_seconds ttl, it_Principal = who,
      it_Sub = []\<rparr> = ?q" by (simp add: issue_request_def issue_for_def)
  show ?thesis
  proof (cases r)
    case (Inl e)
    then show ?thesis
      using issue_decodes [OF assms(2,3), of c "''POST''" "''/v1/tokens''"] q i h
      unfolding client_IssueToken_def cp_do_def serve_request [OF assms(1) routes(10)]
      by (simp add: handleIssueToken_def status_error_def writeErr_def writeJSON_def)
  next
    case (Inr uc)
    then obtain uri cl where uc: "r = Inr (uri, cl)" by (cases uc) auto
    from i [unfolded uc] obtain d2 d3 jti jws where *: "cl = issued_claims (sv_issuer sv) (st_now st) ?q jti"
      "is_sign (sv_issuer sv) zero_header cl = Inr jws" "CreateToken (token_row (st_now st) cl) d2 = (Inr (), d3)"
      "uri = URI (iq_SID ?q) jws"
      by (rule Issue_Inr) blast
    have j: "utf8_Valid (c_JTI cl)" using CreateToken_Inr [OF *(3)] by (simp add: token_row_def jti_utf8)
    have "utf8_Valid jws" using *(2) assms(4) by (auto simp: signs_ascii_def intro: utf8_literal)
    moreover have "utf8_Valid URIScheme" "utf8_Valid ''://v''" "utf8_Valid Version" "utf8_Valid ''/''" "utf8_Valid ''#''"
      by code_simp+
    moreover have "utf8_Valid sid" using assms(2) by simp
    ultimately have u: "utf8_Valid uri"
      unfolding *(4) URI_def issue_for_def IssueRequest.simps by (intro utf8_append)
    have f: "c_SID cl = sid" "c_Aud cl = aud" "c_Scope cl = scope" using *(1)
      by (simp_all add: issued_claims_def issue_for_def)
    have e: "int64 (c_Exp cl)"
    proof -
      let ?t = "st_now st + effective_ttl (iq_TTL ?q)"
      have t: "0 \<le> ?t" "?t < 2 ^ 63" using assms(5,6) effective_ttl_range [of "iq_TTL ?q"]
        by (auto simp: MaxTTL_def Hour_def Second_def)
      have "c_Exp cl = ?t div Second" using *(1) by (simp add: issued_claims_def Unix_def)
      moreover have "0 \<le> x div Second" "x div Second \<le> x" if "0 \<le> x" for x :: int
        using that by (simp_all add: Second_def pos_imp_zdiv_nonneg_iff)
      ultimately show ?thesis using t by (smt (verit) int64_def)
    qed
    have "Option.bind (Unmarshal (Marshal (issued_json uri cl) @ [CHR 0x0A])) token_info_of_json = Some (info_of uri cl)"
      using assms(2) by (intro token_info_reads [OF _ e]) (simp add: u j f)
    then show ?thesis
      using issue_decodes [OF assms(2,3), of c "''POST''" "''/v1/tokens''"] q i h uc
      unfolding client_IssueToken_def cp_do_def serve_request [OF assms(1) routes(10)]
      by (simp add: handleIssueToken_def writeJSON_def del: Marshal.simps)
  qed
qed


section \<open>Revoking a token\<close>

lemma revoke_route:
  assumes "tokens_jti_format jti"
  defines "p \<equiv> ''/v1/tokens/'' @ jti"
  shows "cleanPath p = p" "endpoints p = [(''DELETE'', EpRevokeToken jti)]" "plain_path p"
proof -
  have j: "jti \<noteq> []" "list_all (\<lambda>c. is_alnum c \<or> c = CHR ''_'' \<or> c = CHR ''-'') jti"
    using assms(1) by (simp_all add: tokens_jti_format_def)
  have lit: "\<not> is_alnum (CHR ''/'')" "\<not> is_alnum (CHR ''.'')" "\<not> is_alnum (CHR ''%'')" "\<not> is_alnum (CHR ''#'')"
    "\<not> is_alnum (CHR ''?'')" by code_simp+
  have n: "CHR ''/'' \<notin> set jti" "CHR ''.'' \<notin> set jti" "CHR ''%'' \<notin> set jti" "CHR ''#'' \<notin> set jti" "CHR ''?'' \<notin> set jti"
    using j(2) lit by (auto simp: list_all_iff)
  have c: "\<not> is_ctl x" if "x \<in> set jti" for x
    using j(2) that by (auto simp: list_all_iff is_ctl_def char_class_defs)
  have s1: "split_on (CHR ''/'') jti = [jti]" using n(1) by (rule split_on_no_sep)
  have d: "jti \<noteq> ''.''" "jti \<noteq> ''..''" using n(2) by auto
  have "elems_of (''/v1/tokens'' @ CHR ''/'' # jti) = elems_of ''/v1/tokens'' @ [jti]"
    using s1 j(1) d by (subst elems_of_append) auto
  moreover have "elems_of ''/v1/tokens'' = [''v1'', ''tokens'']" by code_simp
  ultimately have e: "elems_of p = [''v1'', ''tokens'', jti]" by (simp add: p_def)
  have hd: "HasPrefix p ''/''" by (simp add: p_def HasPrefix_def)
  have "last jti \<noteq> CHR ''/''" using n(1) j(1) last_in_set by metis
  then have sl: "\<not> HasSuffix p ''/''"
    using j(1) unfolding p_def HasSuffix_def suffix_def by (metis last_appendR last_snoc append_self_conv2 snoc_eq_iff_butlast)
  show "cleanPath p = p" using e hd sl by (simp add: cleanPath_def Let_def Clean_def) (simp add: p_def)
  have "split_on (CHR ''/'') p = split_on (CHR ''/'') ''/v1/tokens'' @ [jti]"
    using split_on_append [of "CHR ''/''" "''/v1/tokens''" jti] s1 by (simp add: p_def)
  moreover have "split_on (CHR ''/'') ''/v1/tokens'' = [[], ''v1'', ''tokens'']" by code_simp
  moreover have "pathUnescape jti = jti" "pathUnescape ''v1'' = ''v1''" "pathUnescape ''tokens'' = ''tokens''"
    using n(3) by (simp_all add: pathUnescape_def unescape_plain)
  ultimately have "path_elems p = [''v1'', ''tokens'', jti]" by (simp add: path_elems_def)
  then show "endpoints p = [(''DELETE'', EpRevokeToken jti)]" using sl by (simp add: endpoints_def)
  have "plain_path ''/v1/tokens/''" by code_simp
  then show "plain_path p" using c n by (auto simp: p_def plain_path_def list_all_iff)
qed

lemma remote_revoke:
  assumes "connected origin sv c" and "tokens_jti_format jti"
  shows "client_RevokeToken (serve origin (Handler sv)) c jti st =
    (case Revoke (st_now st) jti ''operator'' (st_db st) of
       (Inl _, d) \<Rightarrow> (Inl (status_error ''DELETE'' (''/v1/tokens/'' @ jti) 500), st\<lparr>st_db := d\<rparr>)
     | (Inr _, d) \<Rightarrow> (Inr (), st\<lparr>st_db := d\<rparr>))"
proof -
  let ?p = "''/v1/tokens/'' @ jti"
  let ?rq = "arrived c ''DELETE'' ?p None"
  have "Handler sv ?rq st = run_endpoint sv (EpRevokeToken jti) ?rq st"
    by (rule Handler_routed [OF revoke_route(1,2) [OF assms(2)]]) simp_all
  then have h: "Handler sv ?rq st = handleRevokeToken jti st"
    by (simp add: run_endpoint_def run_endpoint_auth [OF assms(1)])
  have j: "jti \<noteq> []" using assms(2) by (simp add: tokens_jti_format_def)
  show ?thesis
    unfolding client_RevokeToken_def cp_send_def serve_request [OF assms(1) revoke_route(3) [OF assms(2)]] h
    by (simp add: j handleRevokeToken_def on_db_def status_error_def writeErr_def writeJSON_def
        split: prod.splits sum.splits)
qed


section \<open>The stored policy and the published keys\<close>

text \<open>A rule as the sidecar has it: nil and empty commands are the same there.\<close>

definition as_local :: "PolicyRule \<Rightarrow> Rule" where
  "as_local r =
     \<lparr>r_ID = pr_ID r, r_Effect = pr_Effect r, r_Principal = pr_Principal r, r_SID = pr_SID r, r_Scope = pr_Scope r,
      r_Aud = pr_Aud r, r_InjectionMethod = pr_InjectionMethod r,
      r_Commands = map stored_spec (case_option [] id (pr_Commands r)), r_Priority = pr_Priority r\<rparr>"

definition rule_text :: "PolicyRule \<Rightarrow> bool" where
  "rule_text r \<longleftrightarrow>
     list_all utf8_Valid ([pr_ID r, pr_Effect r, pr_Principal r, pr_SID r, pr_Aud r, pr_InjectionMethod r] @ pr_Scope r) \<and>
     list_all spec_utf8 (case_option [] id (pr_Commands r)) \<and> int32 (pr_Priority r)"

lemma rule_fields:
  "map (match_field [''ID'', ''Effect'', ''Principal'', ''SID'', ''Scope'', ''Aud'', ''InjectionMethod'', ''Commands'', ''Priority''])
     [''ID'', ''Effect'', ''Principal'', ''SID'', ''Scope'', ''Aud'', ''InjectionMethod'', ''Commands'', ''Priority'', ''CreatedAt''] =
   [Some ''ID'', Some ''Effect'', Some ''Principal'', Some ''SID'', Some ''Scope'', Some ''Aud'', Some ''InjectionMethod'',
    Some ''Commands'', Some ''Priority'', None]"
  by code_simp

lemma rule_of_policy_json:
  assumes "rule_text r" shows "rule_of_json (policy_json r) = Some (as_local r)"
proof -
  have c: "map_option (case_option [] id) (dec_slice spec_of_json (commands_json (pr_Commands r))) =
      Some (map stored_spec (case_option [] id (pr_Commands r)))"
    by (cases "pr_Commands r") (simp_all add: commands_json_def dec_slice_def o_def spec_of_spec_json)
  then obtain cs where cs: "dec_slice spec_of_json (commands_json (pr_Commands r)) = Some cs"
    "case_option [] id cs = map stored_spec (case_option [] id (pr_Commands r))" by auto
  have s: "dec_slice (\<lambda>w. dec_string w []) (str_array (pr_Scope r)) = Some (Some (pr_Scope r))" by (simp add: str_array_def)
  have p: "dec_int64 (num_json (pr_Priority r)) old = Some (pr_Priority r)" for old
    using assms by (auto simp: rule_text_def int32_def int64_def intro: dec_num)
  show ?thesis
    using rule_fields cs s p
    by (simp add: rule_of_json_def policy_json_def dec_struct_def rule_store_def zero_rule_def as_local_def id_def)
qed

lemma json_ok_policy: "rule_text r \<Longrightarrow> json_ok (Suc (Suc (Suc (Suc 0)))) (policy_json r)"
proof -
  assume r: "rule_text r"
  have "list_all utf8_Valid [''ID'', ''Effect'', ''Principal'', ''SID'', ''Scope'', ''Aud'', ''InjectionMethod'', ''Commands'',
      ''Priority'', ''CreatedAt'']" by code_simp
  moreover have "json_ok (Suc (Suc (Suc 0))) (commands_json (pr_Commands r))"
    using r by (auto simp: rule_text_def commands_json_def list_all_iff intro: json_ok_spec split: option.splits)
  ultimately show ?thesis using r by (auto simp: policy_json_def rule_text_def list_all_iff)
qed

lemma dec_nil_slice:
  "all_some (map f vs) = Some ys \<Longrightarrow> map_option (case_option [] id) (dec_slice f (nil_slice vs)) = Some ys"
  by (cases "vs = []") (auto simp: nil_slice_def dec_slice_def)

lemma rules_body:
  assumes "list_all rule_text rules"
  shows "Option.bind (Decode (Marshal (JObj [(''rules'', nil_slice (map policy_json rules))]) @ [CHR 0x0A])) rules_body_of_json =
    Some (map as_local rules)"
proof -
  let ?j = "JObj [(''rules'', nil_slice (map policy_json rules))]"
  have "utf8_Valid ''rules''" by code_simp
  then have "json_ok (Suc (Suc (Suc (Suc (Suc (Suc 0)))))) ?j"
    using assms json_ok_policy by (auto simp: nil_slice_def list_all_iff)
  then have "json_ok maxNestingDepth ?j" by (rule json_ok_max) simp
  then have "Decode (Marshal ?j @ [CHR 0x0A]) = Some ?j" by (rule Decode_Marshal) (simp add: num_end_def is_digit_def)
  moreover have "all_some (map rule_of_json (map policy_json rules)) = Some (map as_local rules)"
    using assms by (induction rules) (simp_all add: rule_of_policy_json)
  from dec_nil_slice [OF this] have "rules_body_of_json ?j = Some (map as_local rules)"
    by (auto simp: rules_body_of_json_def dec_struct_def)
  ultimately show ?thesis by simp
qed

lemma remote_policy:
  assumes "connected origin sv \<lparr>cl_BaseURL = origin, cl_APIKey = key\<rparr>"
    and "ListPolicyRules (st_db st) = (Inr rules, d')" and "list_all rule_text rules"
  shows "HTTP_Fetch (serve origin (Handler sv)) origin key st = (Inr (map as_local rules), st\<lparr>st_db := d'\<rparr>)"
proof -
  let ?c = "\<lparr>cl_BaseURL = origin, cl_APIKey = key\<rparr>"
  let ?rq = "arrived ?c ''GET'' ''/v1/policies'' None"
  have "Handler sv ?rq st = run_endpoint sv EpListPolicies ?rq st"
    by (rule Handler_routed [OF routes(3,7)]) simp_all
  then have h: "Handler sv ?rq st =
      (writeJSON 200 (JObj [(''rules'', nil_slice (map policy_json rules))]), st\<lparr>st_db := d'\<rparr>)"
    by (simp add: run_endpoint_def run_endpoint_auth [OF assms(1)] handleListPolicies_def on_db_def assms(2))
  have r: "\<lparr>rq_Method = ''GET'', rq_URL = origin @ ''/v1/policies'', rq_Header = [(''X-Safekeys-Key'', key)], rq_Body = []\<rparr> =
      cp_request ?c ''GET'' ''/v1/policies'' None"
    by (simp add: cp_request_def)
  show ?thesis
    unfolding HTTP_Fetch_def r serve_request [OF assms(1) routes(11)] h
    using rules_body [OF assms(3)] by (simp add: writeJSON_def StatusOK_def del: Marshal.simps)
qed

definition keys_text :: "'r Server \<Rightarrow> bool" where
  "keys_text sv \<longleftrightarrow> utf8_Valid (is_issuer (sv_issuer sv)) \<and>
     list_all (\<lambda>k. list_all utf8_Valid [pk_KID k, pk_Alg k, pk_Public k]) (is_PublicKeys (sv_issuer sv))"

lemma jwks_reads:
  assumes "keys_text sv"
  defines "j \<equiv> \<lparr>jwks_Issuer = is_issuer (sv_issuer sv), jwks_Keys = is_PublicKeys (sv_issuer sv)\<rparr>"
  shows "Option.bind (Decode (Marshal (jwks_json j) @ [CHR 0x0A])) jwks_of_json = Some j"
proof -
  have l: "list_all utf8_Valid [''issuer'', ''keys'', ''kid'', ''alg'', ''public'']" by code_simp
  then have "json_ok (Suc (Suc (Suc 0))) (jwks_json j)"
    using assms by (auto simp: jwks_json_def nil_slice_def key_json_def keys_text_def list_all_iff)
  then have "json_ok maxNestingDepth (jwks_json j)" by (rule json_ok_max) simp
  then have d: "Decode (Marshal (jwks_json j) @ [CHR 0x0A]) = Some (jwks_json j)"
    by (rule Decode_Marshal) (simp add: num_end_def is_digit_def)
  have k: "key_of_json (key_json k) = Some k" for k
    by (cases k) (simp add: key_of_json_def key_json_def dec_struct_def zero_key_def)
  have "jwks_of_json (jwks_json j) = Some j"
    by (cases j; cases "jwks_Keys j")
      (simp_all add: jwks_of_json_def jwks_json_def dec_struct_def nil_slice_def dec_slice_def o_def k)
  then show ?thesis using d by simp
qed

lemma remote_keys:
  assumes "list_all (\<lambda>x. \<not> is_ctl x) origin" and "keys_text sv" and "is_PublicKeys (sv_issuer sv) \<noteq> []"
  shows "keys_Fetch (serve origin (Handler sv)) origin st =
    (Inr \<lparr>jwks_Issuer = is_issuer (sv_issuer sv), jwks_Keys = is_PublicKeys (sv_issuer sv)\<rparr>, st)"
proof -
  let ?rq = "\<lparr>ar_Method = ''GET'', ar_Path = ''/v1/keys'', ar_RawQuery = [], ar_Header = [], ar_Body = []\<rparr>"
  have "Handler sv ?rq st = run_endpoint sv EpPublicKeys ?rq st"
    by (rule Handler_routed [OF routes(4,8)]) simp_all
  then have h: "Handler sv ?rq st = (handlePublicKeys sv, st)" by (simp add: run_endpoint_def)
  have t: "request_target origin (origin @ ''/v1/keys'') = Some (''/v1/keys'', [])"
    using assms(1) routes(12) by (intro request_target_plain) (auto simp: plain_path_def list_all_iff)
  have s: "serve origin (Handler sv) \<lparr>rq_Method = ''GET'', rq_URL = origin @ ''/v1/keys'', rq_Header = [], rq_Body = []\<rparr> st =
      (Inr (handlePublicKeys sv), st)"
    unfolding serve_def http_request.simps t by (simp add: h)
  show ?thesis
    unfolding keys_Fetch_def s using jwks_reads [OF assms(2)] assms(3)
    by (simp add: handlePublicKeys_def writeJSON_def StatusOK_def del: Marshal.simps)
qed


section \<open>The order of the rules on both sides\<close>

lemma fold_ins_rev_sorted:
  "sorted_wrt (\<lambda>a b. \<not> before b a) s \<Longrightarrow> list_all (\<lambda>y. list_all (\<lambda>x. \<not> before x y) s) p \<Longrightarrow>
     fold ins_rev s p = rev s @ p"
proof (induction s arbitrary: p)
  case (Cons x s)
  have "ins_rev x p = x # p" using Cons.prems(2) by (cases p) auto
  moreover have "list_all (\<lambda>y. list_all (\<lambda>x. \<not> before x y) s) (x # p)"
    using Cons.prems by (auto simp: list_all_iff)
  ultimately show ?case using Cons.IH [of "x # p"] Cons.prems(1) by simp
qed simp

lemma sorted_rules_id: "sorted_wrt (\<lambda>a b. \<not> before b a) rs \<Longrightarrow> sorted_rules rs = rs"
  by (simp add: sorted_rules_eq fold_ins_rev_sorted)

lemma scan_rows_order:
  "scan_rows xs = Inr rs \<Longrightarrow> sorted_wrt (\<lambda>a b. rule_before (row_rule a) (row_rule b)) xs \<Longrightarrow> sorted_wrt rule_before rs \<and>
     map (\<lambda>r. (pr_ID r, pr_Priority r)) rs = map (\<lambda>x. (pr_ID (row_rule x), pr_Priority (row_rule x))) xs"
proof (induction xs arbitrary: rs)
  case (Cons x xs)
  obtain cs rs' where rs: "rs = (row_rule x)\<lparr>pr_Commands := cs\<rparr> # rs'" "scan_rows xs = Inr rs'"
    using Cons.prems(1) by (auto split: sum.splits)
  have IH: "sorted_wrt rule_before rs'"
    "map (\<lambda>r. (pr_ID r, pr_Priority r)) rs' = map (\<lambda>x. (pr_ID (row_rule x), pr_Priority (row_rule x))) xs"
    using Cons.IH [OF rs(2)] Cons.prems(2) by simp_all
  have "rule_before (row_rule x) r" if "r \<in> set rs'" for r
  proof -
    have "(pr_ID r, pr_Priority r) \<in> set (map (\<lambda>r. (pr_ID r, pr_Priority r)) rs')" using that by force
    then obtain y where "y \<in> set xs" "pr_ID r = pr_ID (row_rule y)" "pr_Priority r = pr_Priority (row_rule y)"
      unfolding IH(2) by auto
    then show ?thesis using Cons.prems(2) by (auto simp: rule_before_def)
  qed
  then have "list_all (\<lambda>r. rule_before ((row_rule x)\<lparr>pr_Commands := cs\<rparr>) r) rs'"
    by (auto simp: list_all_iff rule_before_def)
  then show ?case using IH rs(1) by (simp add: list_all_iff)
qed simp

lemma listed_rules_sorted:
  assumes "ListPolicyRules d = (Inr rules, d')" shows "sorted_rules (map as_local rules) = map as_local rules"
proof -
  have "scan_rows (order_rows (db_rules d)) = Inr rules"
    using assms unfolding ListPolicyRules_def by (auto elim: db_call_cases)
  then have "sorted_wrt rule_before rules" using scan_rows_order order_rows_sorted by blast
  then have "sorted_wrt (\<lambda>a b. \<not> before b a) (map as_local rules)"
    unfolding sorted_wrt_map
    by (rule sorted_wrt_mono_rel [rotated]) (auto simp: rule_before_def before_def as_local_def)
  then show ?thesis by (rule sorted_rules_id)
qed

text \<open>What issuance looks at of a resolve-time request: its method of injection is not among it.\<close>

definition issuance_query :: "policy_query \<Rightarrow> PolicyRequest" where
  "issuance_query q = \<lparr>pq_Principal = q_principal q, pq_SID = q_sid q, pq_Scope = q_scope q, pq_Aud = q_aud q,
     pq_InjectionMethod = []\<rparr>"

lemma matches_both_sides:
  "pr_InjectionMethod r = [] \<Longrightarrow> matches (as_local r) q = cp_matches r (issuance_query q)"
  by (simp add: matches_def cp_matches_def as_local_def issuance_query_def ScopeAllows_iff list_ex_iff)

lemma allow_loop_refines:
  "list_all (\<lambda>r. pr_InjectionMethod r = []) rules \<Longrightarrow> allow_loop (map as_local rules) q = (True, i) \<Longrightarrow>
     Evaluate rules (issuance_query q) = \<lparr>dc_Allow = True, dc_RuleID = i\<rparr>"
proof (induction rules)
  case (Cons r rules)
  have m: "matches (as_local r) q = cp_matches r (issuance_query q)" using Cons.prems(1) by (simp add: matches_both_sides)
  show ?case
  proof (cases "matches (as_local r) q")
    case True
    then have "verdict (as_local r) q = (True, i)" using Cons.prems(2) by simp
    then have "pr_Effect r = ''allow'' \<and> pr_ID r = i"
      by (auto simp: verdict_def as_local_def split: if_splits)
    then show ?thesis using True m by (simp add: cp_decide_def)
  next
    case False
    then show ?thesis using Cons m by simp
  qed
qed simp

section \<open>From issuance to verification\<close>

text \<open>The control plane of a deployment signs with an Ed25519 key and publishes it.\<close>

definition signs_with :: "crypto \<Rightarrow> Ed25519Signer \<Rightarrow> 'r Server \<Rightarrow> bool" where
  "signs_with C s sv \<longleftrightarrow> is_sign (sv_issuer sv) = Ed25519_Sign C s \<and>
     is_PublicKeys (sv_issuer sv) = Ed25519_PublicKeys C s"

definition uri_text :: "string \<Rightarrow> bool" where
  "uri_text s \<longleftrightarrow> utf8_Valid s \<and> uri_safe s"

lemma Ed25519_PublicKeys_one: "Ed25519_PublicKeys C s \<noteq> []"
  by (simp add: Ed25519_PublicKeys_def)

lemma Unix_int64: "\<bar>t\<bar> < 2 ^ 63 \<Longrightarrow> int64 (Unix t)"
  by (auto simp: int64_def Unix_def Second_def)

lemma kv_accepts:
  assumes "fetch w = (Inr jwks, w)" and "NewKeySetVerifier (jwks_Keys jwks) = Inr ks" and "KeySet_Verify C ks jws = Inr h"
    and "New_key_cache fetch clock ttl w = (Inr v, w')"
  shows "w' = w \<and> (\<exists>v'. kv_Verify C fetch clock jws (v, w) = (Inr h, v', w))"
proof -
  have v: "w' = w" "kv_current v = Some ks" "kv_hasFetcher v"
    using assms(1,2,4) by (auto simp: New_key_cache_def kv_refresh_def)
  have r: "kv_refresh fetch clock v w = (Inr (), v\<lparr>kv_current := Some ks, kv_fetched := clock w, kv_lastErr := None\<rparr>, w)"
    using v assms(1,2) by (simp add: kv_refresh_def)
  obtain hd where hd: "DecodeHeader jws = Inr hd" "KeySet_VerifyWith C ks (h_Kid hd) (h_Alg hd) jws = Inr h"
    using assms(3) by (auto simp: KeySet_Verify_def split: sum.splits)
  have "\<exists>v'. keySet fetch clock v w = (Inr ks, v', w)" using v r by (simp add: keySet_def)
  then show ?thesis using hd v(1) by (auto simp: kv_Verify_def kv_VerifyWith_def)
qed


lemma published_text:
  assumes "signs_with C s sv" and "utf8_Valid (is_issuer (sv_issuer sv))" and "utf8_Valid (ed_kid s)"
    and "x509_MarshalPKIXPublicKey C (Ed25519_public (ed25519_Public (ed_prv s))) = Some der"
  shows "keys_text sv"
proof -
  have "byte c < 128" if "b64_safe_char c" for c
    using that by (auto simp: b64_safe_char_def char_class_defs)
  then have "utf8_Valid (EncodeToString StdEncoding der)"
    using EncodeToString_chars [of _ StdEncoding der] by (intro utf8_ascii) blast
  moreover have "utf8_Valid AlgEdDSA" by code_simp
  ultimately show ?thesis
    using assms by (simp add: keys_text_def signs_with_def Ed25519_PublicKeys_def ed25519PublicKey_def)
qed

section \<open>Properties\<close>

text \<open>
  C12. What the control plane issues, a sidecar accepts: it fetches the published keys over HTTP, parses
  the token's URI, and at every second of the token's lifetime its verifier returns the very claims
  that were issued. The laws of the signature scheme are assumed for the one key in use.
\<close>

theorem issued_token_is_accepted:
  assumes "Issue (sv_issuer sv) rand now req d rs = (Inr (uri, c), d', rs')" and "signs_with C s sv"
    and "utf8_Valid (ed_kid s)" and "ed_kid s \<noteq> []"
    and "\<And>m. ed25519_Verify C (ed25519_Public (ed_prv s)) m (ed25519_Sign C (ed_prv s) m)"
    and "x509_MarshalPKIXPublicKey C (Ed25519_public (ed25519_Public (ed_prv s))) = Some der" and "der \<noteq> []"
    and "x509_ParsePKIXPublicKey C der = Some (Ed25519_public (ed25519_Public (ed_prv s)))"
    and "list_all utf8_Valid [is_issuer (sv_issuer sv), iq_Sub req, iq_SID req, iq_Aud req]" and "uri_safe (iq_SID req)"
    and "list_all (\<lambda>x. \<not> is_ctl x) origin"
    and "New_key_cache (keys_Fetch (serve origin (Handler sv)) origin) clock ttl st = (Inr v, st1)"
    and "Unix now - 30 \<le> t" and "t < c_Exp c" and "\<bar>now\<bar> < 2 ^ 62"
  shows "\<exists>p v'. ParseURI uri = Inr p \<and>
    VerifyToken (\<lambda>jws (v, w). kv_Verify C (keys_Fetch (serve origin (Handler sv)) origin) clock jws (v, w)) p (iq_Aud req) t None
      (v, st1) = (Inr c, v', st1)"
proof -
  let ?fetch = "keys_Fetch (serve origin (Handler sv)) origin"
  from assms(1) obtain d1 d2 d3 jti jws ob where i: "set (iq_Scope req) \<subseteq> set AllScopes"
    "c = issued_claims (sv_issuer sv) now req jti" "is_sign (sv_issuer sv) zero_header c = Inr jws"
    "CreateToken (token_row now c) d2 = (Inr (), d3)" "uri = URI (iq_SID req) jws"
    by (rule Issue_Inr) blast
  have sg: "Ed25519_Sign C s zero_header c = Inr jws" using i(3) assms(2) by (simp add: signs_with_def)
  have "list_all utf8_Valid AllScopes" by code_simp
  then have "list_all utf8_Valid (iq_Scope req)" using i(1) by (auto simp: list_all_iff)
  moreover have "utf8_Valid (c_JTI c)" using CreateToken_Inr [OF i(4)] by (simp add: token_row_def jti_utf8)
  moreover have "int64 (Unix (now + effective_ttl (iq_TTL req)))" "int64 (Unix (now - 30 * Second))"
    using assms(15) effective_ttl_range [of "iq_TTL req"] by (auto intro!: Unix_int64 simp: MaxTTL_def Hour_def Second_def)
  ultimately have cu: "claims_utf8 c" using assms(9) i(2) by (simp add: claims_utf8_def issued_claims_def int64_def)
  let ?h = "\<lparr>h_Alg = AlgEdDSA, h_Kid = ed_kid s, h_Typ = TokenType\<rparr>"
  obtain ks where ks: "NewKeySetVerifier (Ed25519_PublicKeys C s) = Inr ks" "KeySet_Verify C ks jws = Inr ?h"
    and dc: "DecodeClaims jws = Inr c"
    using signed_EdDSA [OF sg assms(3-8)] cu by blast
  have f: "?fetch st = (Inr \<lparr>jwks_Issuer = is_issuer (sv_issuer sv), jwks_Keys = Ed25519_PublicKeys C s\<rparr>, st)"
    using remote_keys [OF assms(11) published_text [OF assms(2) _ assms(3,6)], of st] assms(2,9) Ed25519_PublicKeys_one
    by (simp add: signs_with_def)
  obtain v' where kv: "st1 = st" "kv_Verify C ?fetch clock jws (v, st) = (Inr ?h, v', st)"
    using kv_accepts [OF f _ ks(2) assms(12)] ks(1) by auto
  obtain sig hb where j: "jws = b64 hb @ ''.'' @ b64 (Marshal (claims_json c)) @ ''.'' @ b64 sig" and vc: "validateClaims c = Inr ()"
    using sg unfolding Ed25519_Sign_def by (rule signCompact_Inr) blast
  have "CHR ''%'' \<notin> set (b64 x)" for x
    using EncodeToString_chars [of "CHR ''%''" RawURLEncoding x]
    by (auto simp: b64_def b64_safe_char_def char_class_defs)
  then have p: "ParseURI uri = Inr \<lparr>p_SID = iq_SID req, p_JWS = jws, p_Version = Version\<rparr>"
    unfolding i(5) using assms(10) by (intro ParseURI_URI) (auto simp: j)
  have "c_Nbf c = Unix now - 30" "c_SID c = iq_SID req" "c_Aud c = iq_Aud req"
    using i(2) by (simp_all add: issued_claims_def Unix_def Second_def)
  then have "VerifyToken (\<lambda>jws (v, w). kv_Verify C ?fetch clock jws (v, w)) \<lparr>p_SID = iq_SID req, p_JWS = jws, p_Version = Version\<rparr>
      (iq_Aud req) t None (v, st1) = (Inr c, v', st1)"
    using kv dc vc assms(13,14) by (simp add: VerifyToken_def)
  then show ?thesis using p by blast
qed

text \<open>
  C26. The policy the sidecar enforces is the stored one: its engine, fetched over HTTP, holds the rules
  of the database in the order of their evaluation there, and where no rule names a method of
  injection, a request the sidecar allows is one for which the control plane would issue, by the
  same rule. The sidecar only refuses more, for the command.
\<close>

theorem sidecar_policy_refines_issuance:
  assumes "connected origin sv \<lparr>cl_BaseURL = origin, cl_APIKey = key\<rparr>"
    and "ListPolicyRules (st_db st) = (Inr rules, d')" and "list_all rule_text rules"
  shows "\<exists>e. New_engine (HTTP_Fetch (serve origin (Handler sv)) origin key) clock ttl st = (Inr e, st\<lparr>st_db := d'\<rparr>) \<and>
    e_rules e = Some (map as_local rules) \<and>
    (if list_all (\<lambda>r. pr_InjectionMethod r = []) rules \<and> fst (allow_loop (map as_local rules) q)
     then Evaluate rules (issuance_query q) = \<lparr>dc_Allow = True, dc_RuleID = snd (allow_loop (map as_local rules) q)\<rparr> else True)"
  using remote_policy [OF assms] listed_rules_sorted [OF assms(2)]
    allow_loop_refines [of rules q "snd (allow_loop (map as_local rules) q)"]
  by (simp add: New_engine_def refresh_def) (metis prod.collapse)

lemma remote_revocation:
  assumes "connected origin sv cl" and "deployed origin sv c" and "db_ok (st_db st)" and "cache_true c (st_db st)"
    and "db_faults (st_db st) = []" and "tokens_jti_format jti"
  shows "\<exists>st'. client_RevokeToken (serve origin (Handler sv)) cl jti st = (Inr (), st') \<and>
    fst (IsRevoked (serve origin (Handler sv)) clock jti c st') = (True, None)"
proof -
  let ?e = "revoke_event (st_now st) jti ''operator''"
  let ?d = "mark_revoked jti (st_db st)"
  let ?n = "db_audit_seq ?d + 1"
  have j: "jti \<noteq> []" "pg_text jti"
    using assms(6) jti_utf8 [OF assms(6)] by (auto simp: tokens_jti_format_def pg_text_def list_all_iff char_class_defs)
  have "RevokeToken jti (st_db st) = (Inr (), ?d)"
    using assms(5) j by (simp add: RevokeToken_def db_stmt_def db_call_def mark_revoked_def)
  moreover have "pg_text []" "pg_text ''operator''" by code_simp+
  then have "AppendAudit ?e ?d = (Inr (), logs ?d ?e ?n)"
    unfolding logs_def using assms(5) j(2)
    by (intro AppendAudit_good) (simp_all add: revoke_event_def zero_event_def mark_revoked_def)
  ultimately have r: "client_RevokeToken (serve origin (Handler sv)) cl jti st = (Inr (), st\<lparr>st_db := logs ?d ?e ?n\<rparr>)"
    using remote_revoke [OF assms(1,6), of st] j(1) by (simp add: Revoke_def)
  let ?st = "st\<lparr>st_db := logs ?d ?e ?n\<rparr>"
  have step: "db_step (st_db st) (logs ?d ?e ?n)"
  proof (rule revokes [OF j(1) may_log_logs])
    show "list_all pg_text (event_texts ?e)"
      using j \<open>pg_text []\<close> \<open>pg_text ''operator''\<close>
      by (auto simp: event_texts_def revoke_event_def zero_event_def EventRevoke_def, code_simp+)
  qed simp
  have ok: "db_ok (st_db ?st)" using db_step_ok [OF step assms(3)] by simp
  have "history (st_db st) (st_db ?st)" using db_step_history [OF step] by simp
  then have ct: "cache_true c (st_db ?st)" using assms(4) revoke_logged_history unfolding cache_true_def by blast
  have lg: "revoke_logged (st_db ?st) jti" by (simp add: revoke_logged_def event_names revoke_event_def zero_event_def)
  obtain x d' where q: "QueryAudit [] jti 200 (st_db ?st) = (x, d')" by (metis prod.collapse)
  have x: "\<not> is_err x"
    using q assms(5) j \<open>pg_text []\<close> by (auto simp: QueryAudit_def db_stmt_def db_call_def logs_def mark_revoked_def)
  obtain b err c' st' where i: "IsRevoked (serve origin (Handler sv)) clock jti c ?st = ((b, err), c', st')"
    by (metis prod.collapse)
  have "err = None"
  proof (cases "rc_cache c jti")
    case None
    then show ?thesis
      using i j(1) x audit_over_serve [OF assms(2) ok j(1) q]
      by (auto simp: IsRevoked_def consult_def split: sum.splits if_splits)
  next
    case (Some e)
    then show ?thesis using i j(1) ct by (auto simp: IsRevoked_def cache_true_def live_def)
  qed
  then have "fst (IsRevoked (serve origin (Handler sv)) clock jti c ?st) = (True, None)"
    using check_answer [OF assms(2) ok ct i] j(1) lg i by simp
  then show ?thesis using r by blast
qed

text \<open>
  Revoking works: while the database answers, a client's request to revoke a token succeeds and the
  sidecar's very next check of the token answers revoked, without an error.
\<close>

theorem revocation_takes_effect:
  assumes "connected origin sv cl" and "deployed origin sv c" and "db_ok (st_db st)" and "cache_true c (st_db st)"
    and "db_faults (st_db st) = []" and "tokens_jti_format jti"
  shows "\<exists>st'. client_RevokeToken (serve origin (Handler sv)) cl jti st = (Inr (), st') \<and>
    fst (IsRevoked (serve origin (Handler sv)) clock jti c st') = (True, None)"
  using assms by (rule remote_revocation)

section \<open>Instances\<close>

definition signing_server :: "nat Server" where
  "signing_server =
     \<lparr>sv_issuer = \<lparr>is_sign = Ed25519_Sign sample_crypto sample_signer, is_PublicKeys = Ed25519_PublicKeys sample_crypto sample_signer,
        is_issuer = ''https://cp''\<rparr>, sv_apiKey = ''k'', sv_random = sample_rand\<rparr>"

definition is_ok :: "'a result \<Rightarrow> bool" where "is_ok r = (case r of Inl _ \<Rightarrow> False | Inr _ \<Rightarrow> True)"

lemma is_okE: "is_ok r \<Longrightarrow> (\<And>x. r = Inr x \<Longrightarrow> P) \<Longrightarrow> P"
  by (cases r) (auto simp: is_ok_def)

lemma signing_facts:
  "is_ok (fst (Issue (sv_issuer signing_server) sample_rand 0 sample_issue_request sample_db 0))"
  "is_ok (fst (New_key_cache (keys_Fetch (serve ''https://cp'' (Handler signing_server)) ''https://cp'') st_now 0 sample_state))"
  "uri_safe ''obj_1''" "list_all utf8_Valid [''https://cp'', [], ''obj_1'', ''prod'', ''k1'']"
  "list_all (\<lambda>x. \<not> is_ctl x) ''https://cp''"
  "x509_MarshalPKIXPublicKey sample_crypto (Ed25519_public (ed25519_Public (ed_prv sample_signer))) =
     Some (CHR ''E'' # ed25519_Public (ed_prv sample_signer))"
  by code_simp+

lemma issued_token_is_accepted_witness:
  "\<exists>uri c d rs p v v' st. Issue (sv_issuer signing_server) sample_rand 0 sample_issue_request sample_db 0 = (Inr (uri, c), d, rs) \<and>
     ParseURI uri = Inr p \<and>
     VerifyToken (\<lambda>jws (v, w). kv_Verify sample_crypto (keys_Fetch (serve ''https://cp'' (Handler signing_server)) ''https://cp'') st_now jws (v, w))
       p ''prod'' 0 None (v, st) = (Inr c, v', st)"
proof -
  obtain uc where "fst (Issue (sv_issuer signing_server) sample_rand 0 sample_issue_request sample_db 0) = Inr uc"
    using signing_facts(1) by (rule is_okE)
  then obtain uri c d rs where i: "Issue (sv_issuer signing_server) sample_rand 0 sample_issue_request sample_db 0 = (Inr (uri, c), d, rs)"
    by (cases uc) (metis prod.collapse)
  obtain v where "fst (New_key_cache (keys_Fetch (serve ''https://cp'' (Handler signing_server)) ''https://cp'') st_now 0 sample_state) = Inr v"
    using signing_facts(2) by (rule is_okE)
  then obtain st where k: "New_key_cache (keys_Fetch (serve ''https://cp'' (Handler signing_server)) ''https://cp'') st_now 0 sample_state = (Inr v, st)"
    by (metis prod.collapse)
  have s: "signs_with sample_crypto sample_signer signing_server" by (simp add: signs_with_def signing_server_def)
  obtain jti where "c = issued_claims (sv_issuer signing_server) 0 sample_issue_request jti" using i by (rule Issue_Inr)
  then have e: "0 < c_Exp c"
    by (simp add: issued_claims_def sample_issue_request_def effective_ttl_def MaxTTL_def Unix_def Hour_def Second_def)
  have u: "Unix 0 - 30 \<le> 0" by (simp add: Unix_def)
  have x: "iq_SID sample_issue_request = ''obj_1''" "iq_Sub sample_issue_request = []" "iq_Aud sample_issue_request = ''prod''"
    "is_issuer (sv_issuer signing_server) = ''https://cp''" "ed_kid sample_signer = ''k1''"
    by (simp_all add: sample_issue_request_def signing_server_def sample_signer_def)
  have "\<exists>p v'. ParseURI uri = Inr p \<and>
     VerifyToken (\<lambda>jws (v, w). kv_Verify sample_crypto (keys_Fetch (serve ''https://cp'' (Handler signing_server)) ''https://cp'') st_now jws (v, w))
       p (iq_Aud sample_issue_request) 0 None (v, st) = (Inr c, v', st)"
    by (rule issued_token_is_accepted [OF i s _ _ _ signing_facts(6) _ _ _ _ signing_facts(5) k u e])
      (use signing_facts(3,4) x in \<open>simp_all add: sample_crypto_def ed25519_Public_def\<close>)
  then show ?thesis using i x(3) by metis
qed

lemma sample_connected: "connected ''https://cp'' signing_server \<lparr>cl_BaseURL = ''https://cp'', cl_APIKey = ''k''\<rparr>"
  by code_simp

lemma sample_rules:
  "ListPolicyRules (st_db sample_state) = (Inr [(row_rule (hd (db_rules sample_db)))\<lparr>pr_Commands := None\<rparr>], sample_db)"
  by code_simp

lemma sidecar_policy_refines_issuance_witness:
  "\<exists>e. New_engine (HTTP_Fetch (serve ''https://cp'' (Handler signing_server)) ''https://cp'' ''k'') st_now 0 sample_state =
      (Inr e, sample_state\<lparr>st_db := sample_db\<rparr>) \<and> RuleCount e = 1"
proof -
  have t: "list_all rule_text [(row_rule (hd (db_rules sample_db)))\<lparr>pr_Commands := None\<rparr>]" by code_simp
  obtain e where "New_engine (HTTP_Fetch (serve ''https://cp'' (Handler signing_server)) ''https://cp'' ''k'') st_now 0 sample_state =
      (Inr e, sample_state\<lparr>st_db := sample_db\<rparr>)" "e_rules e = Some (map as_local [(row_rule (hd (db_rules sample_db)))\<lparr>pr_Commands := None\<rparr>])"
    using sidecar_policy_refines_issuance [OF sample_connected sample_rules t, of st_now 0] by blast
  then show ?thesis by (auto simp: RuleCount_def)
qed

lemma revocation_takes_effect_witness:
  "\<exists>st'. client_RevokeToken (serve ''https://cp'' (Handler sample_server)) \<lparr>cl_BaseURL = ''https://cp'', cl_APIKey = ''k''\<rparr> ''t1'' sample_state =
      (Inr (), st') \<and> fst (IsRevoked (serve ''https://cp'' (Handler sample_server)) st_now ''t1''
        (New_checker ''https://cp'' (sv_apiKey sample_server)) st') = (True, None)"
proof -
  have c: "connected ''https://cp'' sample_server \<lparr>cl_BaseURL = ''https://cp'', cl_APIKey = ''k''\<rparr>" by code_simp
  have f: "db_faults (st_db sample_state) = []" "tokens_jti_format ''t1''" by code_simp+
  show ?thesis by (rule revocation_takes_effect [OF c sample_deployed sample_db_ok deployed_New f])
qed

end
