(* ===== verification/Profile.thy ===== *)
theory Profile
  imports Protocol_Errors Runes
begin

text \<open>
  pkg/profile: the production profile, in which a start collects the development settings it
  finds active and refuses to go on. The environment is read on each call.
\<close>

definition Dev :: string where "Dev = ''dev''"
definition Production :: string where "Production = ''production''"
definition EnvVar :: string where "EnvVar = ''SAFEKEYS_PROFILE''"

type_synonym 'w getenv = "string \<Rightarrow> 'w \<Rightarrow> string"

definition Current :: "'w getenv \<Rightarrow> 'w \<Rightarrow> string" where
  "Current Getenv w = (if EqualFold (TrimSpace (Getenv EnvVar w)) Production then Production else Dev)"

definition IsProduction :: "'w getenv \<Rightarrow> 'w \<Rightarrow> bool" where
  "IsProduction Getenv w \<longleftrightarrow> Current Getenv w = Production"

record Check =
  ck_reasons :: "string list"

definition zero_check :: Check where "zero_check = \<lparr>ck_reasons = []\<rparr>"

definition Refuse :: "'w getenv \<Rightarrow> 'w \<Rightarrow> bool \<Rightarrow> string \<Rightarrow> Check \<Rightarrow> Check" where
  "Refuse Getenv w active reason c =
     (if active \<and> IsProduction Getenv w then c\<lparr>ck_reasons := ck_reasons c @ [reason]\<rparr> else c)"

definition Fail :: "Check \<Rightarrow> go_error option" where
  "Fail c =
     (if length (ck_reasons c) = 0 then None
      else Some (Err (''production profile refuses this configuration:'' @ [CHR 0x0A] @ ''  - ''
         @ join_with ([CHR 0x0A] @ ''  - '') (ck_reasons c) @ [CHR 0x0A]
         @ ''set these explicitly for production, or unset '' @ EnvVar @ '' for development'')))"

text \<open>The reasons of a check are those of its active settings, in their order, in production.\<close>

definition refuse_all :: "'w getenv \<Rightarrow> 'w \<Rightarrow> (bool \<times> string) list \<Rightarrow> Check \<Rightarrow> Check" where
  "refuse_all Getenv w settings c = fold (\<lambda>(active, reason). Refuse Getenv w active reason) settings c"

lemma reasons_refuse_all:
  "ck_reasons (refuse_all Getenv w settings c) =
     ck_reasons c @ (if IsProduction Getenv w then map snd (filter fst settings) else [])"
  by (induction settings arbitrary: c) (auto simp: refuse_all_def Refuse_def split: if_splits)

lemma Fail_None: "Fail c = None \<longleftrightarrow> ck_reasons c = []"
  by (simp add: Fail_def)

lemma refuse_all_passes:
  "Fail (refuse_all Getenv w settings zero_check) = None \<longleftrightarrow>
     (IsProduction Getenv w \<longrightarrow> list_all (\<lambda>s. \<not> fst s) settings)"
  by (auto simp: Fail_None reasons_refuse_all zero_check_def list_all_iff filter_empty_conv)

end
