(* ===== verification/Credential.thy ===== *)
theory Credential
  imports File_System Key_Store Profile
begin

text \<open>
  pkg/credential: a credential from a file that a variable names, else from a variable; and the
  items of the macOS keychain. Absence is no error, a configured source that fails is.
\<close>

section \<open>Sources\<close>

datatype credential_source = SourceNone | SourceFile | SourceEnv | SourceKeychain

definition Source_String :: "credential_source \<Rightarrow> string" where
  "Source_String s =
     (case s of SourceFile \<Rightarrow> ''file'' | SourceEnv \<Rightarrow> ''env'' | SourceKeychain \<Rightarrow> ''keychain'' | SourceNone \<Rightarrow> ''none'')"

text \<open>The text of the error of an empty source, to which the variable and its path are added.\<close>

definition ErrEmpty :: string where "ErrEmpty = ''credential: configured source is empty''"

section \<open>Files and variables\<close>

text \<open>\<open>Perm AND 0o004\<close>: the file is readable by all.\<close>

definition world_readable :: "file_info \<Rightarrow> bool" where
  "world_readable fi \<longleftrightarrow> fi_Perm fi div 4 mod 2 \<noteq> 0"

definition FromFile :: "'w files \<Rightarrow> string \<Rightarrow> 'w \<Rightarrow> string result" where
  "FromFile fs path w =
     (case Stat fs path w of
        Inl e \<Rightarrow> Inl (Err (''credential: stat '' @ path @ '': '' @ Error e))
      | Inr info \<Rightarrow>
          if fi_IsDir info then Inl (Err (''credential: '' @ path @ '' is a directory''))
          else if world_readable info then
            Inl (Err (''credential: '' @ path @ '' is world-readable; refusing to load a shared secret''))
          else
            (case ReadFile fs path w of
               Inl e \<Rightarrow> Inl (Err (''credential: read '' @ path @ '': '' @ Error e))
             | Inr raw \<Rightarrow> Inr (TrimRight raw [CHR 0x0D, CHR 0x0A, CHR 0x09, CHR '' ''])))"

text \<open>The value, the source it came from and the error, which are returned side by side.\<close>

definition FromEnv ::
  "'w getenv \<Rightarrow> 'w files \<Rightarrow> string \<Rightarrow> string \<Rightarrow> 'w \<Rightarrow> string \<times> credential_source \<times> go_error option"
where
  "FromEnv Getenv fs envKey fileKey w =
     (let path = Getenv fileKey w; v = Getenv envKey w in
      if fileKey \<noteq> [] \<and> path \<noteq> [] then
        (case FromFile fs path w of
           Inl err \<Rightarrow> ([], SourceFile, Some err)
         | Inr f \<Rightarrow>
             if f = [] then ([], SourceFile, Some (Err (ErrEmpty @ '' ('' @ fileKey @ ''='' @ path @ '')'')))
             else (f, SourceFile, None))
      else if envKey \<noteq> [] \<and> v \<noteq> [] then (v, SourceEnv, None)
      else ([], SourceNone, None))"

section \<open>Keychain items\<close>

text \<open>Exit status 44 is an item that does not exist; every other failure is an error.\<close>

definition FromKeychain :: "'w security \<Rightarrow> string \<Rightarrow> string \<Rightarrow> 'w \<Rightarrow> (string \<times> bool) result \<times> 'w" where
  "FromKeychain run service account w =
     (case run [''find-generic-password'', ''-s'', service, ''-a'', account, ''-w''] w of
        (Not_run e, w) \<Rightarrow> (Inl (Err (''keychain: read '' @ service @ ''/'' @ account @ '': '' @ e)), w)
      | (Exit n text, w) \<Rightarrow>
          if n = 0 then (Inr (TrimSuffix text [CHR 0x0A], True), w)
          else if n = 44 then (Inr ([], False), w)
          else (Inl (Err (''keychain: read '' @ service @ ''/'' @ account)), w))"

definition ToKeychain :: "'w security \<Rightarrow> string \<Rightarrow> string \<Rightarrow> string \<Rightarrow> 'w \<Rightarrow> unit result \<times> 'w" where
  "ToKeychain run service account v w =
     (case run [''add-generic-password'', ''-s'', service, ''-a'', account, ''-w'', v, ''-U''] w of
        (Exit n _, w) \<Rightarrow> (if n = 0 then Inr () else Inl (Err (''keychain: write '' @ service @ ''/'' @ account)), w)
      | (Not_run e, w) \<Rightarrow> (Inl (Err (''keychain: write '' @ service @ ''/'' @ account @ '': '' @ e)), w))"

text \<open>Off macOS there is no keychain.\<close>

definition FromKeychain_other :: "string \<Rightarrow> string \<Rightarrow> (string \<times> bool) result" where
  "FromKeychain_other service account = Inl (Err ''keychain: only available on macOS'')"

definition ToKeychain_other :: "string \<Rightarrow> string \<Rightarrow> string \<Rightarrow> unit result" where
  "ToKeychain_other service account v = Inl (Err ''keychain: only available on macOS'')"

section \<open>Properties\<close>

lemma TrimRight_ends: "TrimRight s cs \<noteq> [] \<Longrightarrow> last (TrimRight s cs) \<notin> set cs"
  using hd_dropWhile [of "\<lambda>c. c \<in> set cs" "rev s"] by (simp add: TrimRight_def last_rev)

text \<open>
  A configured credential file decides alone: whatever the variable beside it holds, the answer
  is the file's content without its trailing white space, which is not empty and whose file is
  readable neither as a directory nor by everyone, or an error with no value. A value without
  error and without a file comes from the variable itself.
\<close>

theorem credential_file_decides:
  "case FromEnv Getenv fs envKey fileKey w of (v, src, err) \<Rightarrow>
     (case err of
        Some e \<Rightarrow> v = [] \<and> src = SourceFile
      | None \<Rightarrow>
          (case src of
             SourceFile \<Rightarrow> v \<noteq> [] \<and> last v \<notin> {CHR 0x0D, CHR 0x0A, CHR 0x09, CHR '' ''} \<and>
               (\<exists>raw info. ReadFile fs (Getenv fileKey w) w = Inr raw \<and> Stat fs (Getenv fileKey w) w = Inr info \<and>
                  prefix v raw \<and> \<not> fi_IsDir info \<and> \<not> world_readable info)
           | SourceEnv \<Rightarrow> v = Getenv envKey w \<and> v \<noteq> [] \<and> (fileKey = [] \<or> Getenv fileKey w = [])
           | SourceNone \<Rightarrow> v = [] \<and> (fileKey = [] \<or> Getenv fileKey w = []) \<and> (envKey = [] \<or> Getenv envKey w = [])
           | SourceKeychain \<Rightarrow> False))"
proof -
  have "prefix (TrimRight s cs) s" for s cs :: string
    using suffix_dropWhile [of "\<lambda>c. c \<in> set cs" "rev s"] by (simp add: TrimRight_def suffix_to_prefix)
  moreover have "TrimRight raw [CHR 0x0D, CHR 0x0A, CHR 0x09, CHR '' ''] \<noteq> [] \<Longrightarrow>
      last (TrimRight raw [CHR 0x0D, CHR 0x0A, CHR 0x09, CHR '' '']) \<notin> {CHR 0x0D, CHR 0x0A, CHR 0x09, CHR '' ''}" for raw
    using TrimRight_ends [of raw "[CHR 0x0D, CHR 0x0A, CHR 0x09, CHR '' '']"] by simp
  ultimately show ?thesis
    by (cases "Stat fs (Getenv fileKey w) w"; cases "ReadFile fs (Getenv fileKey w) w")
      (auto simp: FromEnv_def FromFile_def Let_def)
qed

end
