(* ===== verification/Creator.thy ===== *)
theory Creator
  imports Resolve Key_Store Cp_Client
begin

text \<open>
  pkg/created: the creation of a secret in the sidecar. The value is read from a file or taken
  from the caller's buffer, encrypted under a new data key, the key wrapped, the folder written,
  and only then the object registered with the control plane and a token requested.

  Memory is explicit as in the resolver: the value and the data key are byte arrays that the
  deferred calls overwrite when the operation returns. The field \<open>Now\<close> of the creator is not read.
\<close>

section \<open>Data\<close>

record CreateRequest =
  cq_ObjectID :: string
  cq_SourceFile :: string
  cq_Value :: "addr option"
  cq_ContentType :: string
  cq_Scope :: "string list"
  cq_Audience :: string
  cq_TTL :: int
  cq_Principal :: string
  cq_FolderRoot :: string

record CreateResult =
  cx_ObjectID :: string
  cx_Folder :: string
  cx_Token :: string
  cx_JTI :: string
  cx_Expires :: int
  cx_Scope :: "string list"

record 'w Registry =
  rg_CreateObject :: "ObjectInfo \<Rightarrow> 'w \<Rightarrow> unit result \<times> 'w"
  rg_IssueToken :: "string \<Rightarrow> string list \<Rightarrow> string \<Rightarrow> int \<Rightarrow> string \<Rightarrow> 'w \<Rightarrow> TokenInfo result \<times> 'w"

record 'w Creator =
  cr_Wrapper :: "(string \<Rightarrow> bytes \<Rightarrow> 'w \<Rightarrow> string result \<times> 'w) option"
  cr_KID :: string
  cr_Registry :: "'w Registry option"
  cr_FolderRoot :: string
  cr_DefaultPrincipal :: string
  cr_DefaultAudience :: string

section \<open>The steps\<close>

text \<open>\<open>fmt.Errorf\<close> with \<open>%w\<close>: a wrapped denial keeps its reason.\<close>

definition wrapped_error :: "string \<Rightarrow> go_error \<Rightarrow> go_error" where
  "wrapped_error pre e = (case e of Denial r \<Rightarrow> Denial r | Err m \<Rightarrow> Err (pre @ m))"

definition obtain_plaintext :: "'w files \<Rightarrow> CreateRequest \<Rightarrow> memory \<Rightarrow> 'w \<Rightarrow> addr result \<times> memory" where
  "obtain_plaintext fs q m w =
     (if cq_SourceFile q \<noteq> [] then
        (case ReadFile fs (cq_SourceFile q) w of
           Inl _ \<Rightarrow> (Inl (NewDenial ReasonMalformed), m)
         | Inr b \<Rightarrow> (case alloc b m of (a, m) \<Rightarrow> (Inr a, m)))
      else
        (case cq_Value q of
           None \<Rightarrow> (Inl (NewDenial ReasonMalformed), m)
         | Some a \<Rightarrow> (if length (load a m) > 0 then Inr a else Inl (NewDenial ReasonMalformed), m)))"

definition choose_id :: "'w random \<Rightarrow> CreateRequest \<Rightarrow> 'w \<Rightarrow> string result \<times> 'w" where
  "choose_id rand q w = (if cq_ObjectID q = [] then NewID rand ''obj'' w else (Inr (cq_ObjectID q), w))"

definition folder_root :: "'w Creator \<Rightarrow> CreateRequest \<Rightarrow> string" where
  "folder_root cr q = (if cq_FolderRoot q = [] then cr_FolderRoot cr else cq_FolderRoot q)"

definition folder_dir :: "'w Creator \<Rightarrow> CreateRequest \<Rightarrow> string \<Rightarrow> string" where
  "folder_dir cr q objID = Join [folder_root cr q, objID]"

definition content_type :: "CreateRequest \<Rightarrow> string" where
  "content_type q = (if cq_ContentType q = [] then ''text/plain'' else cq_ContentType q)"

definition new_manifest :: "string \<Rightarrow> string \<Rightarrow> string \<Rightarrow> string \<Rightarrow> Manifest" where
  "new_manifest objID wrapped kid ctype =
     \<lparr>m_Safekeys = Version,
      m_Objects = [\<lparr>o_ID = objID, o_Path = ''objects/'' @ objID @ ''.enc'', o_Alg = AlgAES256GCM, o_WrappedKey = wrapped,
         o_WrappingKID = kid, o_ContentType = ctype, o_Hash = [], o_Size = 0, o_TokenReferences = []\<rparr>],
      m_Folder = None, m_Authority = None\<rparr>"

text \<open>Steps 3 to 5: encrypt, wrap the key, write the folder.\<close>

definition seal_object ::
  "'w files \<Rightarrow> ciphers \<Rightarrow> 'w random \<Rightarrow> ('w \<Rightarrow> string) \<Rightarrow> 'w Creator \<Rightarrow> (string \<Rightarrow> bytes \<Rightarrow> 'w \<Rightarrow> string result \<times> 'w)
    \<Rightarrow> CreateRequest \<Rightarrow> string \<Rightarrow> bytes \<Rightarrow> bytes \<Rightarrow> 'w \<Rightarrow> unit result \<times> 'w"
where
  "seal_object fs C rand now cr wrap q objID dek plaintext w =
     (case EncryptObject C rand AlgAES256GCM dek plaintext w of
        (Inl e, w) \<Rightarrow> (Inl e, w)
      | (Inr ciphertext, w) \<Rightarrow>
          (case wrap (cr_KID cr) dek w of
             (Inl _, w) \<Rightarrow> (Inl (NewDenial ReasonKeystoreUnreachable), w)
           | (Inr wrapped, w) \<Rightarrow>
               (case WriteFolder fs C now (folder_dir cr q objID)
                       (new_manifest objID wrapped (cr_KID cr) (content_type q))
                       [(objID, ciphertext)] (''Safekeys folder for '' @ objID) w of
                  (r, _, w) \<Rightarrow> (r, w))))"

text \<open>Step 6: identifiers only.\<close>

definition the_principal :: "'w Creator \<Rightarrow> CreateRequest \<Rightarrow> string" where
  "the_principal cr q = (if cq_Principal q = [] then cr_DefaultPrincipal cr else cq_Principal q)"

definition the_audience :: "'w Creator \<Rightarrow> CreateRequest \<Rightarrow> string" where
  "the_audience cr q = (if cq_Audience q = [] then cr_DefaultAudience cr else cq_Audience q)"

definition the_scope :: "CreateRequest \<Rightarrow> string list" where
  "the_scope q = (if length (cq_Scope q) = 0 then [ScopeInjectEnv, ScopeRead] else cq_Scope q)"

definition registration :: "'w Creator \<Rightarrow> CreateRequest \<Rightarrow> string \<Rightarrow> ObjectInfo" where
  "registration cr q objID =
     \<lparr>oi_ID = objID, oi_FolderID = objID, oi_OwnerPrincipal = the_principal cr q, oi_ContentType = content_type q,
      oi_WrappingKID = cr_KID cr, oi_CreatedAt = []\<rparr>"

definition register ::
  "'w Creator \<Rightarrow> 'w Registry \<Rightarrow> CreateRequest \<Rightarrow> string \<Rightarrow> 'w \<Rightarrow> CreateResult result \<times> 'w"
where
  "register cr reg q objID w =
     (if the_principal cr q = [] then (Inl (NewDenial ReasonMalformed), w)
      else
        (case rg_CreateObject reg (registration cr q objID) w of
           (Inl e, w) \<Rightarrow> (Inl (wrapped_error ''register object: '' e), w)
         | (Inr _, w) \<Rightarrow>
             if the_audience cr q = [] then (Inl (NewDenial ReasonMalformed), w)
             else
               (case rg_IssueToken reg objID (the_scope q) (the_audience cr q) (cq_TTL q) (the_principal cr q) w of
                  (Inl e, w) \<Rightarrow> (Inl (wrapped_error ''issue token: '' e), w)
                | (Inr info, w) \<Rightarrow>
                    (Inr \<lparr>cx_ObjectID = objID, cx_Folder = folder_dir cr q objID, cx_Token = ti_Token info,
                         cx_JTI = ti_JTI info, cx_Expires = ti_Exp info, cx_Scope = ti_Scope info\<rparr>, w))))"

section \<open>Create\<close>

definition create_with_key ::
  "'w files \<Rightarrow> ciphers \<Rightarrow> 'w random \<Rightarrow> ('w \<Rightarrow> string) \<Rightarrow> 'w Creator \<Rightarrow> (string \<Rightarrow> bytes \<Rightarrow> 'w \<Rightarrow> string result \<times> 'w)
    \<Rightarrow> 'w Registry \<Rightarrow> CreateRequest \<Rightarrow> bytes \<Rightarrow> memory \<Rightarrow> 'w \<Rightarrow> CreateResult result \<times> memory \<times> 'w"
where
  "create_with_key fs C rand now cr wrap reg q plaintext m w =
     (case choose_id rand q w of
        (Inl e, w) \<Rightarrow> (Inl e, m, w)
      | (Inr objID, w) \<Rightarrow>
          (case NewDEK rand w of
             (Inl e, w) \<Rightarrow> (Inl e, m, w)
           | (Inr dek, w) \<Rightarrow>
               (case alloc dek m of
                  (da, m) \<Rightarrow>
                    (case seal_object fs C rand now cr wrap q objID (load da m) plaintext w of
                       (Inl e, w) \<Rightarrow> (Inl e, Zero da m, w)
                     | (Inr _, w) \<Rightarrow>
                         (case register cr reg q objID w of (r, w) \<Rightarrow> (r, Zero da m, w))))))"

definition Create ::
  "'w files \<Rightarrow> ciphers \<Rightarrow> 'w random \<Rightarrow> ('w \<Rightarrow> string) \<Rightarrow> 'w Creator \<Rightarrow> CreateRequest \<Rightarrow> memory \<Rightarrow> 'w
    \<Rightarrow> CreateResult result \<times> memory \<times> 'w"
where
  "Create fs C rand now cr q m w =
     (case (cr_Wrapper cr, cr_Registry cr) of
        (Some wrap, Some reg) \<Rightarrow>
          (case obtain_plaintext fs q m w of
             (Inl e, m) \<Rightarrow> (Inl e, m, w)
           | (Inr pa, m) \<Rightarrow>
               let secure = SecureBufferFrom pa in
               (case (if Len (Some secure) m = 0 then (Inl (NewDenial ReasonMalformed), m, w)
                      else create_with_key fs C rand now cr wrap reg q (Bytes secure m) m w) of
                  (r, m, w) \<Rightarrow> (r, snd (Release (Some secure) m), w)))
      | _ \<Rightarrow> (Inl (NewDenial ReasonMalformed), m, w))"

end
