(* ===== verification/Creation.thy ===== *)
theory Creation
  imports Creator
begin

text \<open>
  What the creation of a secret guarantees: the value in memory does not outlive the call, files
  are written in one folder only, what was sealed opens again through the resolver, and a
  refusal by the control plane comes too late. The lemma on sealing is proved in the locale of
  key wrappers, so it holds for every key store.
\<close>

section \<open>Paths of a folder\<close>

lemma last_join_with: "es \<noteq> [] \<Longrightarrow> last es \<noteq> [] \<Longrightarrow> join_with sep es \<noteq> [] \<and> last (join_with sep es) = last (last es)"
  by (induction sep es rule: join_with.induct) auto

lemma last_split_on: "last (split_on c s) \<noteq> [] \<Longrightarrow> s \<noteq> [] \<and> last (last (split_on c s)) = last s"
proof (induction s)
  case (Cons x s)
  have "split_on c s = [[]] \<Longrightarrow> s = []" by (cases s) (auto split: list.splits if_splits)
  then show ?case using Cons by (auto split: list.splits if_splits)
qed simp

lemma last_Join:
  assumes "dir \<noteq> []" and "\<forall>e \<in> set (split_on (CHR ''/'') s). e \<noteq> [] \<and> e \<noteq> ''.'' \<and> e \<noteq> ''..''"
  shows "last (Join [dir, s]) = last s"
proof -
  have l: "last (split_on (CHR ''/'') s) \<noteq> []" using assms(2) last_in_set by fastforce
  note ls = last_split_on [OF l]
  have e: "elems_of (dir @ CHR ''/'' # s) = elems_of dir @ split_on (CHR ''/'') s"
    using elems_of_append [OF assms] .
  have j: "Join [dir, s] = Clean (dir @ CHR ''/'' # s)" using assms(1) ls by (simp add: Join_def)
  have "join_with ''/'' (elems_of dir @ split_on (CHR ''/'') s) \<noteq> [] \<and>
      last (join_with ''/'' (elems_of dir @ split_on (CHR ''/'') s)) = last s"
    using last_join_with [of "elems_of dir @ split_on (CHR ''/'') s" "''/''"] l ls by simp
  then show ?thesis unfolding j Clean_def Let_def e by auto
qed

text \<open>An object id under which a folder can be written.\<close>

definition object_id :: "string \<Rightarrow> bool" where
  "object_id s \<longleftrightarrow> ObjectPathPattern (''objects/'' @ s @ ''.enc'')"

lemma object_id_iff: "object_id s \<longleftrightarrow> (\<exists>c body. s = c # body \<and> is_alnum c \<and> list_all path_char body)"
  by (simp add: object_id_def ObjectPathPattern_iff)

lemma object_id_elem:
  assumes "object_id s"
  shows "s \<noteq> []" "CHR ''/'' \<notin> set s" "s \<notin> {[], ''.'', ''..''}" "utf8_Valid s" "split_on (CHR ''/'') s = [s]"
proof -
  obtain c body where s: "s = c # body" "is_alnum c" "list_all path_char body" using assms object_id_iff by blast
  show "s \<noteq> []" using s by simp
  show n: "CHR ''/'' \<notin> set s" using s path_char_not_slash by (auto simp: list_all_iff)
  show "s \<notin> {[], ''.'', ''..''}" using s by (auto simp: char_class_defs)
  show "utf8_Valid s" using s
    by (intro utf8_ascii) (auto simp: list_all_iff path_char_def char_class_defs)
  show "split_on (CHR ''/'') s = [s]" using n by (rule split_on_no_sep)
qed

lemma object_path_elems:
  assumes "object_id s"
  shows "\<forall>e \<in> set (split_on (CHR ''/'') (''objects/'' @ s @ ''.enc'')). e \<noteq> [] \<and> e \<noteq> ''.'' \<and> e \<noteq> ''..''"
proof -
  obtain n where "split_on (CHR ''/'') (''objects/'' @ s @ ''.enc'') = [''objects'', n]" "n \<notin> {[], ''.'', ''..''}"
    using assms ObjectPathPattern_elems unfolding object_id_def by metis
  then show ?thesis by simp
qed

text \<open>The three files of a folder are different files.\<close>

lemma folder_files_differ:
  assumes "dir \<noteq> []" and "object_id s"
  shows "Join [dir, ''objects/'' @ s @ ''.enc''] \<noteq> Join [dir, ManifestName]"
    and "Join [dir, ''objects/'' @ s @ ''.enc''] \<noteq> Join [dir, ReadmeName]"
    and "Join [dir, ManifestName] \<noteq> Join [dir, ReadmeName]"
proof -
  have m: "split_on (CHR ''/'') ManifestName = [ManifestName]" "split_on (CHR ''/'') ReadmeName = [ReadmeName]"
    by code_simp+
  have a: "last (Join [dir, ''objects/'' @ s @ ''.enc'']) = CHR ''c''"
    using last_Join [OF assms(1) object_path_elems [OF assms(2)]] by simp
  have b: "last (Join [dir, ManifestName]) = CHR ''n''"
    using last_Join [OF assms(1), of ManifestName] m by (simp add: ManifestName_def)
  have c: "last (Join [dir, ReadmeName]) = CHR ''s''"
    using last_Join [OF assms(1), of ReadmeName] m by (simp add: ReadmeName_def)
  show "Join [dir, ''objects/'' @ s @ ''.enc''] \<noteq> Join [dir, ManifestName]" by (rule notI) (use a b in simp)
  show "Join [dir, ''objects/'' @ s @ ''.enc''] \<noteq> Join [dir, ReadmeName]" by (rule notI) (use a c in simp)
  show "Join [dir, ManifestName] \<noteq> Join [dir, ReadmeName]" by (rule notI) (use b c in simp)
qed

lemma Join_nonempty: "e \<noteq> [] \<Longrightarrow> CHR ''/'' \<notin> set e \<Longrightarrow> e \<notin> {[], ''.'', ''..''} \<Longrightarrow> Join [dir, e] \<noteq> []"
proof (cases "dir = []")
  case False
  assume "e \<noteq> []" "CHR ''/'' \<notin> set e" "e \<notin> {[], ''.'', ''..''}"
  then show ?thesis using Join_suffix [OF False] by fastforce
next
  case True
  assume e: "e \<noteq> []" "CHR ''/'' \<notin> set e" "e \<notin> {[], ''.'', ''..''}"
  then have "elems_of e = [e]" using split_on_no_sep [OF e(2)] by (simp add: elems_of_def)
  then show ?thesis using True e by (simp add: Join_def Clean_def Let_def)
qed

section \<open>What is sealed\<close>

lemma seal_object_Inr:
  assumes "seal_object fs C rand now cr wrap q objID dek p w = (Inr (), w')"
  obtains ct w1 wrapped w2 m' where
    "EncryptObject C rand AlgAES256GCM dek p w = (Inr ct, w1)" "wrap (cr_KID cr) dek w1 = (Inr wrapped, w2)"
    "WriteFolder fs C now (folder_dir cr q objID) (new_manifest objID wrapped (cr_KID cr) (content_type q))
       [(objID, ct)] (''Safekeys folder for '' @ objID) w2 = (Inr (), m', w')"
  using assms by (auto simp: seal_object_def split: sum.splits prod.splits)

text \<open>The folder of one object, with the writes in their order.\<close>

definition sealed_manifest :: "ciphers \<Rightarrow> string \<Rightarrow> string \<Rightarrow> string \<Rightarrow> string \<Rightarrow> string \<Rightarrow> bytes \<Rightarrow> Manifest" where
  "sealed_manifest C objID wrapped kid ctype created ct =
     \<lparr>m_Safekeys = Version,
      m_Objects = [\<lparr>o_ID = objID, o_Path = ''objects/'' @ objID @ ''.enc'', o_Alg = AlgAES256GCM, o_WrappedKey = wrapped,
         o_WrappingKID = kid, o_ContentType = ctype, o_Hash = HashObject C ct, o_Size = int (length ct),
         o_TokenReferences = []\<rparr>],
      m_Folder = Some \<lparr>fo_ID = [], fo_Description = ''Safekeys folder for '' @ objID, fo_Created = created\<rparr>,
      m_Authority = None\<rparr>"

lemma WriteFolder_one:
  assumes "WriteFolder fs C now dir (new_manifest objID wrapped kid ctype) [(objID, ct)] (''Safekeys folder for '' @ objID) w
    = (Inr (), m', w')"
  obtains w0 w1 w2 where "object_id objID" "wrapped \<noteq> []"
    "m' = sealed_manifest C objID wrapped kid ctype (now w1) ct" "Validate m' = Inr ()"
    "MkdirAll fs (Join [dir, ObjectDir]) 448 w = (Inr (), w0)"
    "WriteFile fs (Join [dir, ''objects/'' @ objID @ ''.enc'']) ct 384 w0 = (Inr (), w1)"
    "WriteFile fs (Join [dir, ManifestName]) (marshal_indent 0 (manifest_json m')) 384 w1 = (Inr (), w2)"
    "WriteFile fs (Join [dir, ReadmeName]) FolderReadme 384 w2 = (Inr (), w')"
proof -
  have v: "Validate (new_manifest objID wrapped kid ctype) = Inr ()"
    using assms by (auto simp: WriteFolder_def split: sum.splits)
  have o: "object_id objID" "wrapped \<noteq> []"
    using v unfolding Validate_Inr by (auto simp: new_manifest_def object_id_def)
  obtain w0 where mk: "MkdirAll fs (Join [dir, ObjectDir]) 448 w = (Inr (), w0)"
    using assms v by (auto simp: WriteFolder_def split: sum.splits prod.splits)
  obtain w1 where wo: "WriteFile fs (Join [dir, ''objects/'' @ objID @ ''.enc'']) ct 384 w0 = (Inr (), w1)"
    using assms v mk by (auto simp: WriteFolder_def new_manifest_def split: sum.splits prod.splits)
  have m': "m' = sealed_manifest C objID wrapped kid ctype (now w1) ct \<and>
     (\<exists>w2. WriteFile fs (Join [dir, ManifestName]) (marshal_indent 0 (manifest_json m')) 384 w1 = (Inr (), w2) \<and>
       WriteFile fs (Join [dir, ReadmeName]) FolderReadme 384 w2 = (Inr (), w'))"
    using assms v mk wo
    by (auto simp: WriteFolder_def Let_def new_manifest_def sealed_manifest_def folder_info_def split: sum.splits prod.splits)
  show thesis using that o m' mk wo WriteFolder_Inr [OF assms] by blast
qed

text \<open>
  What the creation relies on: a file is only written into a directory; the texts of the
  manifest are UTF-8; a ciphertext is no longer than memory allows.
\<close>

definition dir_law :: "'w files \<Rightarrow> string \<Rightarrow> bool" where
  "dir_law fs dir \<longleftrightarrow>
     (\<forall>b perm w w'. WriteFile fs (Join [dir, ReadmeName]) b perm w = (Inr (), w') \<longrightarrow> isDir fs dir w')"

definition manifest_texts ::
  "('w \<Rightarrow> string) \<Rightarrow> (string \<Rightarrow> bytes \<Rightarrow> 'w \<Rightarrow> string result \<times> 'w) \<Rightarrow> 'w Creator \<Rightarrow> CreateRequest \<Rightarrow> bool"
where
  "manifest_texts now wrap cr q \<longleftrightarrow>
     (\<forall>w. utf8_Valid (now w)) \<and> (\<forall>kid dek w s w'. wrap kid dek w = (Inr s, w') \<longrightarrow> utf8_Valid s) \<and>
     utf8_Valid (cr_KID cr) \<and> utf8_Valid (content_type q)"

definition seal_fits :: "ciphers \<Rightarrow> bytes \<Rightarrow> bool" where
  "seal_fits C p \<longleftrightarrow> (\<forall>k n. length k = 32 \<and> length n = NonceSize (aes_gcm C) \<longrightarrow> int (length n + length (Seal (aes_gcm C) k n p)) < 2 ^ 63)"

definition same_files :: "'w files \<Rightarrow> 'w \<Rightarrow> 'w \<Rightarrow> bool" where
  "same_files fs w w' \<longleftrightarrow> (\<forall>p. ReadFile fs p w' = ReadFile fs p w \<and> Stat fs p w' = Stat fs p w)"

lemma Load_same_files: "same_files fs w w' \<Longrightarrow> Load fs root sid w' = Load fs root sid w"
proof -
  assume *: "same_files fs w w'"
  then have h: "ReadFile fs p w' = ReadFile fs p w" "isDir fs p w' = isDir fs p w" for p
    by (simp_all add: same_files_def isDir_def)
  then have r: "holds fs d sid w' = holds fs d sid w" for d by (simp add: holds_def ReadManifest_def)
  show ?thesis unfolding Load_def find_def h r by (rule refl)
qed

lemma EncryptObject_length:
  assumes "EncryptObject C rand AlgAES256GCM dek p w = (Inr ct, w1)" and "cipher_laws C rand" and "seal_fits C p"
  shows "int (length ct) < 2 ^ 63"
proof -
  obtain nonce where n: "ct = nonce @ Seal (aes_gcm C) dek nonce p" "rand (NonceSize (aes_gcm C)) w = (Some nonce, w1)"
    "length dek = 32"
    using assms(1)
    by (auto simp: DEKSize_def EncryptObject_def newAEAD_def RandomBytes_def split: sum.splits prod.splits option.splits if_splits)
  then have "length nonce = NonceSize (aes_gcm C)" using assms(2) unfolding cipher_laws_def by blast
  then show ?thesis using n assms(3) by (simp add: seal_fits_def)
qed

lemma one_object_utf8:
  assumes "list_all utf8_Valid [a, b, c, d, e, f, g, h, i, j]" and "int n < 2 ^ 63"
  shows "manifest_utf8 \<lparr>m_Safekeys = a,
      m_Objects = [\<lparr>o_ID = b, o_Path = c, o_Alg = d, o_WrappedKey = e, o_WrappingKID = f, o_ContentType = g, o_Hash = h,
        o_Size = int n, o_TokenReferences = []\<rparr>],
      m_Folder = Some \<lparr>fo_ID = [], fo_Description = i, fo_Created = j\<rparr>, m_Authority = None\<rparr>"
proof -
  have "utf8_Valid []" by code_simp
  then show ?thesis using assms by (simp add: manifest_utf8_def object_utf8_def)
qed

lemma path_char_ascii: "path_char c \<Longrightarrow> byte c < 128" "is_alnum c \<Longrightarrow> byte c < 128"
  by (auto simp: path_char_def char_class_defs)

lemma sealed_manifest_utf8:
  assumes "object_id objID" and "utf8_Valid wrapped" and "utf8_Valid kid" and "utf8_Valid ctype" and "utf8_Valid created"
    and "int (length ct) < 2 ^ 63"
  shows "manifest_utf8 (sealed_manifest C objID wrapped kid ctype created ct)"
proof -
  have ascii: "byte c < 128" if "c \<in> set objID" for c
    using assms(1) that path_char_ascii by (auto simp: object_id_iff list_all_iff)
  have a: "utf8_Valid (''objects/'' @ objID @ ''.enc'')" "utf8_Valid (''Safekeys folder for '' @ objID)"
    using ascii by (auto intro!: utf8_ascii)
  have h: "utf8_Valid (HashObject C ct)"
    unfolding HashObject_def by (rule utf8_ascii) (auto dest!: EncodeToString_chars simp: b64_safe_char_def char_class_defs)
  have l: "utf8_Valid Version" "utf8_Valid AlgAES256GCM" by code_simp+
  show ?thesis
    unfolding sealed_manifest_def
    by (rule one_object_utf8) (use object_id_elem(4) [OF assms(1)] assms(2-6) a h l in \<open>simp_all only: list.pred_inject simp_thms\<close>)
qed

lemma fs_written: "fs_laws fs \<Longrightarrow> WriteFile fs p b perm w = (Inr (), w') \<Longrightarrow> ReadFile fs p w' = Inr b"
  and fs_unwritten: "fs_laws fs \<Longrightarrow> WriteFile fs p b perm w = (Inr (), w') \<Longrightarrow> q \<noteq> p \<Longrightarrow> ReadFile fs q w' = ReadFile fs q w"
  unfolding fs_laws_def by blast+

lemma sealed_folder_reads:
  assumes "WriteFolder fs C now dir (new_manifest objID wrapped kid ctype) [(objID, ct)] (''Safekeys folder for '' @ objID) w
    = (Inr (), m', w')"
    and "fs_laws fs" and "dir \<noteq> []" and "dir_law fs dir" and "manifest_utf8 m'"
  shows "ReadManifest fs dir w' = Inr m' \<and> isDir fs dir w' \<and>
    ReadFile fs (Join [dir, ''objects/'' @ objID @ ''.enc'']) w' = Inr ct"
proof -
  obtain w0 w1 w2 where o: "object_id objID" and v: "Validate m' = Inr ()"
    and wo: "WriteFile fs (Join [dir, ''objects/'' @ objID @ ''.enc'']) ct 384 w0 = (Inr (), w1)"
    and wm: "WriteFile fs (Join [dir, ManifestName]) (marshal_indent 0 (manifest_json m')) 384 w1 = (Inr (), w2)"
    and wr: "WriteFile fs (Join [dir, ReadmeName]) FolderReadme 384 w2 = (Inr (), w')"
    by (rule WriteFolder_one [OF assms(1)]) blast
  note d = folder_files_differ [OF assms(3) o]
  have "ReadFile fs (Join [dir, ManifestName]) w' = Inr (marshal_indent 0 (manifest_json m'))"
    by (simp only: fs_unwritten [OF assms(2) wr d(3)] fs_written [OF assms(2) wm])
  moreover have "ReadFile fs (Join [dir, ''objects/'' @ objID @ ''.enc'']) w' = Inr ct"
    by (simp only: fs_unwritten [OF assms(2) wr d(2)] fs_unwritten [OF assms(2) wm d(1)] fs_written [OF assms(2) wo])
  moreover have "isDir fs dir w'" using assms(4) wr unfolding dir_law_def by blast
  ultimately show ?thesis using DecodeManifest_indent [OF assms(5) v] by (simp add: ReadManifest_def)
qed

context key_wrapper
begin

lemma sealed_object_opens:
  assumes "lawful" and "seal_object fs C rand now cr wrap q objID dek p w = (Inr (), w')"
    and "fs_laws fs" and "dir_law fs (folder_dir cr q objID)" and "cipher_laws C rand"
    and "manifest_texts now wrap cr q" and "seal_fits C p"
  shows "\<exists>ob ct. Load fs (folder_root cr q) objID w' = Inr (ob, ct) \<and>
    (\<forall>u. fst (unwrap (o_WrappingKID ob) (o_WrappedKey ob) u) = Inr dek) \<and> DecryptObject C (o_Alg ob) dek ct = Inr p"
proof -
  obtain ct w1 wrapped w2 m' where e: "EncryptObject C rand AlgAES256GCM dek p w = (Inr ct, w1)"
    and wr: "wrap (cr_KID cr) dek w1 = (Inr wrapped, w2)"
    and wf: "WriteFolder fs C now (folder_dir cr q objID) (new_manifest objID wrapped (cr_KID cr) (content_type q))
       [(objID, ct)] (''Safekeys folder for '' @ objID) w2 = (Inr (), m', w')"
    by (rule seal_object_Inr [OF assms(2)])
  obtain w3 where o: "object_id objID" and m': "m' = sealed_manifest C objID wrapped (cr_KID cr) (content_type q) (now w3) ct"
    by (rule WriteFolder_one [OF wf]) blast
  have u: "manifest_utf8 m'"
    unfolding m'
  proof (rule sealed_manifest_utf8 [OF o])
    show "utf8_Valid wrapped" using assms(6) wr unfolding manifest_texts_def by blast
  qed (use assms(6) EncryptObject_length [OF e assms(5,7)] in \<open>auto simp: manifest_texts_def\<close>)
  have dir: "folder_dir cr q objID \<noteq> []"
    using Join_nonempty object_id_elem [OF o] by (simp add: folder_dir_def)
  note r = sealed_folder_reads [OF wf assms(3) dir assms(4) u]
  have ob: "Object m' objID = Some (hd (m_Objects m'))" by (simp add: m' sealed_manifest_def Object_def)
  have "Load fs (folder_root cr q) objID w' = Inr (hd (m_Objects m'), ct)"
    using r ob o unfolding folder_dir_def
    by (simp add: Load_def find_def holds_def Let_def) (simp add: m' sealed_manifest_def object_id_def)
  moreover have "fst (unwrap (cr_KID cr) wrapped u) = Inr dek" for u using unwrap_wrap [OF assms(1) wr] .
  moreover have "DecryptObject C AlgAES256GCM dek ct = Inr p" using cipher_laws_inverse [OF assms(5) e] .
  ultimately show ?thesis by (auto simp: m' sealed_manifest_def)
qed

end

section \<open>Create with the memory worked out\<close>

definition source_bytes :: "'w files \<Rightarrow> CreateRequest \<Rightarrow> memory \<Rightarrow> 'w \<Rightarrow> bytes option" where
  "source_bytes fs q m w =
     (if cq_SourceFile q \<noteq> [] then (case ReadFile fs (cq_SourceFile q) w of Inl _ \<Rightarrow> None | Inr b \<Rightarrow> Some b)
      else map_option (\<lambda>a. load a m) (cq_Value q))"

definition create_run ::
  "'w files \<Rightarrow> ciphers \<Rightarrow> 'w random \<Rightarrow> ('w \<Rightarrow> string) \<Rightarrow> 'w Creator \<Rightarrow> (string \<Rightarrow> bytes \<Rightarrow> 'w \<Rightarrow> string result \<times> 'w)
    \<Rightarrow> 'w Registry \<Rightarrow> CreateRequest \<Rightarrow> bytes \<Rightarrow> 'w \<Rightarrow> CreateResult result \<times> nat list \<times> 'w"
where
  "create_run fs C rand now cr wrap reg q p w =
     (case choose_id rand q w of
        (Inl e, w) \<Rightarrow> (Inl e, [], w)
      | (Inr objID, w) \<Rightarrow>
          (case NewDEK rand w of
             (Inl e, w) \<Rightarrow> (Inl e, [], w)
           | (Inr dek, w) \<Rightarrow>
               (case seal_object fs C rand now cr wrap q objID dek p w of
                  (Inl e, w) \<Rightarrow> (Inl e, [length dek], w)
                | (Inr _, w) \<Rightarrow> (case register cr reg q objID w of (r, w) \<Rightarrow> (r, [length dek], w)))))"

lemma create_with_key_eq:
  "create_with_key fs C rand now cr wrap reg q p m w =
     (case create_run fs C rand now cr wrap reg q p w of (r, ns, w) \<Rightarrow> (r, m @ map zeros ns, w))"
  by (simp add: create_with_key_def create_run_def alloc_def load_def Zero_eq split: prod.split sum.split)

lemma Create_eq:
  "Create fs C rand now cr q m w =
     (case (cr_Wrapper cr, cr_Registry cr, source_bytes fs q m w) of
        (Some wrap, Some reg, Some p) \<Rightarrow>
          (case (if p = [] then (Inl (Denial ''malformed''), [], w) else create_run fs C rand now cr wrap reg q p w) of
             (r, ns, w) \<Rightarrow>
               (r, (if cq_SourceFile q \<noteq> [] then m @ [zeros (length p)]
                    else case cq_Value q of None \<Rightarrow> m | Some a \<Rightarrow> m[a := zeros (length p)]) @ map zeros ns, w))
      | _ \<Rightarrow> (Inl (Denial ''malformed''), m, w))"
proof -
  have u: "m[a := []] = m" if "load a m = []" for a
    using that by (cases "a < length m") (auto simp: zeros_def load_def list_update_same_conv list_update_beyond)
  have l: "(m @ map zeros ns)[a := x] = m[a := x] @ map zeros ns" if "load a m \<noteq> []" for a x ns
    using that by (auto simp: load_def list_update_append split: if_splits)
  have k: "load a (m @ map zeros ns) = load a m" if "load a m \<noteq> []" for a ns
    using that by (auto simp: load_def nth_append split: if_splits)
  show ?thesis
    by (auto simp: Create_def obtain_plaintext_def source_bytes_def alloc_def SecureBufferFrom_def Bytes_def Len_def
        Release_def create_with_key_eq Zero_eq NewDenial_def ReasonMalformed_def load_def [of "length m"] nth_append
        zeros_def [of 0] u l k Let_def split: option.split sum.split prod.split)
qed

lemma create_run_Inr:
  assumes "create_run fs C rand now cr wrap reg q p w = (Inr res, ns, w')"
  obtains objID w1 dek w2 w3 where "choose_id rand q w = (Inr objID, w1)" "NewDEK rand w1 = (Inr dek, w2)"
    "seal_object fs C rand now cr wrap q objID dek p w2 = (Inr (), w3)" "register cr reg q objID w3 = (Inr res, w')"
    "ns = [length dek]"
  using assms by (auto simp: create_run_def split: sum.splits prod.splits)

lemma Create_Inr:
  assumes "Create fs C rand now cr q m w = (Inr res, m', w')"
  obtains wrap reg p objID w1 dek w2 w3 where "cr_Wrapper cr = Some wrap" "cr_Registry cr = Some reg"
    "source_bytes fs q m w = Some p" "p \<noteq> []"
    "choose_id rand q w = (Inr objID, w1)" "NewDEK rand w1 = (Inr dek, w2)"
    "seal_object fs C rand now cr wrap q objID dek p w2 = (Inr (), w3)" "register cr reg q objID w3 = (Inr res, w')"
  using assms unfolding Create_eq
  by (auto split: option.splits prod.splits if_splits elim!: create_run_Inr)

lemma register_Inr:
  assumes "register cr reg q objID w = (Inr res, w')"
  obtains w1 info where "rg_CreateObject reg (registration cr q objID) w = (Inr (), w1)"
    "rg_IssueToken reg objID (the_scope q) (the_audience cr q) (cq_TTL q) (the_principal cr q) w1 = (Inr info, w')"
    "cx_ObjectID res = objID" "cx_Folder res = folder_dir cr q objID" "cx_Token res = ti_Token info"
  using assms by (auto simp: register_def split: sum.splits prod.splits if_splits)

lemma NewDEK_length: "NewDEK rand w = (Inr dek, w') \<Longrightarrow> cipher_laws C rand \<Longrightarrow> length dek = 32"
proof -
  assume a: "NewDEK rand w = (Inr dek, w')" "cipher_laws C rand"
  then have "rand 32 w = (Some dek, w')"
    by (auto simp: NewDEK_def RandomBytes_def DEKSize_def split: prod.splits option.splits)
  then show ?thesis using a(2) unfolding cipher_laws_def by blast
qed

section \<open>Which files a creation changes\<close>

definition other_files_kept :: "'w files \<Rightarrow> string set \<Rightarrow> 'w \<Rightarrow> 'w \<Rightarrow> bool" where
  "other_files_kept fs S w w' \<longleftrightarrow> (\<forall>f. f \<notin> S \<longrightarrow> ReadFile fs f w' = ReadFile fs f w)"

lemma kept_trans: "other_files_kept fs S a b \<Longrightarrow> other_files_kept fs S b c \<Longrightarrow> other_files_kept fs S a c"
  and kept_refl: "other_files_kept fs S a a"
  and kept_same: "same_files fs a b \<Longrightarrow> other_files_kept fs S a b"
  by (simp_all add: other_files_kept_def same_files_def)

text \<open>Randomness and the key store touch no file, a write, failed or not, no other file.\<close>

definition only_writes_write ::
  "'w files \<Rightarrow> 'w random \<Rightarrow> (string \<Rightarrow> bytes \<Rightarrow> 'w \<Rightarrow> string result \<times> 'w) \<Rightarrow> bool"
where
  "only_writes_write fs rand wrap \<longleftrightarrow>
     (\<forall>S n w. other_files_kept fs S w (snd (rand n w))) \<and>
     (\<forall>S kid dek w. other_files_kept fs S w (snd (wrap kid dek w))) \<and>
     (\<forall>S d perm w. other_files_kept fs S w (snd (MkdirAll fs d perm w))) \<and>
     (\<forall>S p b perm w. p \<in> S \<longrightarrow> other_files_kept fs S w (snd (WriteFile fs p b perm w)))"

definition folder_files :: "string \<Rightarrow> string \<Rightarrow> string set" where
  "folder_files dir objID =
     {Join [dir, ''objects/'' @ objID @ ''.enc''], Join [dir, ManifestName], Join [dir, ReadmeName]}"

lemma kept_calls:
  assumes "only_writes_write fs rand wrap"
  shows "rand n w = (x, w1) \<Longrightarrow> other_files_kept fs S w w1"
    and "wrap kid dek w = (y, w1) \<Longrightarrow> other_files_kept fs S w w1"
    and "MkdirAll fs d perm w = (z, w1) \<Longrightarrow> other_files_kept fs S w w1"
    and "WriteFile fs p b perm w = (z, w1) \<Longrightarrow> p \<in> S \<Longrightarrow> other_files_kept fs S w w1"
proof -
  have k: "other_files_kept fs S w (snd (rand n w))" "other_files_kept fs S w (snd (wrap kid dek w))"
    "other_files_kept fs S w (snd (MkdirAll fs d perm w))"
    "p \<in> S \<Longrightarrow> other_files_kept fs S w (snd (WriteFile fs p b perm w))"
    using assms by (simp_all add: only_writes_write_def)
  show "rand n w = (x, w1) \<Longrightarrow> other_files_kept fs S w w1" "wrap kid dek w = (y, w1) \<Longrightarrow> other_files_kept fs S w w1"
    "MkdirAll fs d perm w = (z, w1) \<Longrightarrow> other_files_kept fs S w w1"
    "WriteFile fs p b perm w = (z, w1) \<Longrightarrow> p \<in> S \<Longrightarrow> other_files_kept fs S w w1"
    using k by auto
qed

lemma write_objects_kept:
  assumes "only_writes_write fs rand wrap" and "\<forall>ob \<in> set obs. Join [dir, o_Path ob] \<in> S"
    and "write_objects fs C dir pts obs w = (r, obs', w')"
  shows "other_files_kept fs S w w'"
  using assms(2,3)
proof (induction obs arbitrary: w r obs' w')
  case (Cons ob obs)
  have p: "Join [dir, o_Path ob] \<in> S" using Cons.prems(1) by simp
  show ?case
  proof (cases "map_of pts (o_ID ob)")
    case (Some pt)
    obtain x w1 where x: "WriteFile fs (Join [dir, o_Path ob]) pt 384 w = (x, w1)" by fastforce
    note k = kept_calls(4) [OF assms(1) x p]
    obtain r1 obs1 w2 where y: "write_objects fs C dir pts obs w1 = (r1, obs1, w2)" by (metis prod_cases3)
    then have "other_files_kept fs S w1 w2" using Cons.IH Cons.prems(1) by simp
    then show ?thesis using Cons.prems(2) Some x y k
      by (cases x) (auto simp: Let_def intro: kept_trans)
  qed (use Cons.prems(2) in \<open>simp add: kept_refl\<close>)
qed (simp add: kept_refl)

lemma WriteFolder_kept:
  assumes "only_writes_write fs rand wrap" and "\<forall>ob \<in> set (m_Objects m). Join [dir, o_Path ob] \<in> S"
    and "Join [dir, ManifestName] \<in> S" and "Join [dir, ReadmeName] \<in> S"
    and "WriteFolder fs C now dir m pts desc w = (r, m', w')"
  shows "other_files_kept fs S w w'"
proof -
  obtain x w0 where x: "MkdirAll fs (Join [dir, ObjectDir]) 448 w = (x, w0)" by fastforce
  obtain y obs w1 where y: "write_objects fs C dir pts (m_Objects m) w0 = (y, obs, w1)" by (metis prod_cases3)
  define m1 where "m1 = m\<lparr>m_Objects := obs, m_Folder := Some (folder_info (now w1) desc (m_Folder m))\<rparr>"
  obtain u w2 where u: "WriteFile fs (Join [dir, ManifestName]) (marshal_indent 0 (manifest_json m1)) 384 w1 = (u, w2)" by fastforce
  obtain v w3 where v: "WriteFile fs (Join [dir, ReadmeName]) FolderReadme 384 w2 = (v, w3)" by fastforce
  note k0 = kept_calls(3) [OF assms(1) x, of S]
  note k1 = kept_trans [OF k0 write_objects_kept [OF assms(1,2) y]]
  note k2 = kept_trans [OF k1 kept_calls(4) [OF assms(1) u assms(3)]]
  note k3 = kept_trans [OF k2 kept_calls(4) [OF assms(1) v assms(4)]]
  have "w' \<in> {w, w0, w1, w2, w3}"
    using assms(5) x y u v by (auto simp: WriteFolder_def Let_def m1_def split: sum.splits)
  then show ?thesis using k0 k1 k2 k3 kept_refl by auto
qed

section \<open>Properties\<close>

text \<open>
  C24. However a creation ends, no copy of the value or of its data key stays in memory: every array
  the operation allocated is zero when it returns, a buffer the caller handed over is
  overwritten in place, and all other memory is as before.
\<close>

theorem create_zeroises:
  "\<exists>ns. fst (snd (Create fs C rand now cr q m w)) =
     (if cq_SourceFile q = [] \<and> cr_Wrapper cr \<noteq> None \<and> cr_Registry cr \<noteq> None
      then case cq_Value q of None \<Rightarrow> m | Some a \<Rightarrow> m[a := zeros (length (load a m))] else m) @ map zeros ns"
proof -
  have k: "\<exists>ns'. zeros k # map zeros ns = map zeros ns'" "\<exists>ns'. [zeros k] = map zeros ns'" for k ns
    by (rule exI [of _ "k # ns"], simp) (rule exI [of _ "[k]"], simp)
  show ?thesis
    unfolding Create_eq source_bytes_def
    by (auto simp: k split: option.split sum.split prod.split)
qed

text \<open>The registry is remote: its calls do not touch the files of the host.\<close>

definition registry_remote :: "'w files \<Rightarrow> 'w Registry \<Rightarrow> bool" where
  "registry_remote fs reg \<longleftrightarrow>
     (\<forall>ob w. same_files fs w (snd (rg_CreateObject reg ob w))) \<and>
     (\<forall>sid scope aud ttl who w. same_files fs w (snd (rg_IssueToken reg sid scope aud ttl who w)))"

lemma same_files_trans: "same_files fs a b \<Longrightarrow> same_files fs b c \<Longrightarrow> same_files fs a c"
  and same_files_refl: "same_files fs a a"
  by (simp_all add: same_files_def)

lemma register_same_files:
  assumes "registry_remote fs reg" shows "same_files fs w (snd (register cr reg q objID w))"
proof -
  have "same_files fs w (snd (rg_CreateObject reg ob w))" "same_files fs w (snd (rg_IssueToken reg sid scope aud ttl who w))"
    for ob sid scope aud ttl who w
    using assms by (simp_all add: registry_remote_def)
  then show ?thesis
    unfolding register_def
    by (auto simp: same_files_refl split: sum.split prod.split) (metis same_files_trans snd_conv)+
qed

text \<open>
  C7. A created secret is a usable one. When a creation succeeds, a resolver over the same folder and
  the same key store, given a token for the new object, hands exactly the created value to the
  command, in any later state that has the folder; its key and value are zeroed afterwards.
  The wrapper may be any that keeps the law of key wrappers.
\<close>

theorem created_secret_reaches_the_command:
  assumes "Create fs C rand now cr q m w = (Inr res, m', w')" and "source_bytes fs q m w = Some p"
    and "cr_Wrapper cr = Some wrap" and "key_wrapper wrap unwrap lawful" and lawful
    and "cr_Registry cr = Some reg" and "registry_remote fs reg"
    and "fs_laws fs" and "dir_law fs (cx_Folder res)" and "cipher_laws C rand"
    and "manifest_texts now wrap cr q" and "seal_fits C p"
    and "rv_Load r = (\<lambda>sid v. (Load fs (folder_root cr q) sid v, v))" and "rv_Unwrap r = Some unwrap"
    and "authorise time_Now r rq v = (Inr c, v1)" and "c_SID c = cx_ObjectID res" and "same_files fs w' v1"
  shows "\<exists>v2. Resolve C time_Now r rq m2 v =
    map_option (\<lambda>(result, u). (result, m2 @ [zeros 32, zeros (length p)], u)) (deliver time_Now r rq c p v2)"
proof -
  obtain objID w1 dek w2 w3 where k: "NewDEK rand w1 = (Inr dek, w2)"
    and s: "seal_object fs C rand now cr wrap q objID dek p w2 = (Inr (), w3)"
    and g: "register cr reg q objID w3 = (Inr res, w')"
    by (rule Create_Inr [OF assms(1)]) (use assms(2,3,6) in auto)
  have id: "cx_ObjectID res = objID" "cx_Folder res = folder_dir cr q objID" by (rule register_Inr [OF g]; simp)+
  obtain ob ct where ob: "Load fs (folder_root cr q) objID w3 = Inr (ob, ct)"
    "\<And>u. fst (unwrap (o_WrappingKID ob) (o_WrappedKey ob) u) = Inr dek" "DecryptObject C (o_Alg ob) dek ct = Inr p"
    using key_wrapper.sealed_object_opens [OF assms(4,5) s assms(8) _ assms(10-12)] assms(9) id(2) by auto
  have "same_files fs w3 w'" using register_same_files [OF assms(7), of w3 cr q objID] g by simp
  then have "Load fs (folder_root cr q) objID v1 = Inr (ob, ct)"
    using ob(1) Load_same_files assms(17) same_files_trans by metis
  moreover obtain v2 where "unwrap (o_WrappingKID ob) (o_WrappedKey ob) v1 = (Inr dek, v2)"
    using ob(2) [of v1] by (metis prod.collapse)
  ultimately have "unwrap_dek r c v1 = (Inr (ob, ct, dek), v2)"
    using assms(13,14,16) id(1) by (simp add: unwrap_dek_def)
  moreover have "length dek = 32"
    using NewDEK_length [OF k assms(10)] .
  ultimately show ?thesis
    using assms(15) ob(3) by (intro exI [of _ v2]) (simp add: Resolve_eq)
qed

text \<open>
  A refused creation is not undone. The folder is written before the control plane is asked, so
  when it refuses the object (because the id is taken, say) the caller gets an error, and the
  folder of that id already holds the new value under a new key: whoever resolves the object
  from now on gets the new value in place of the old one.
\<close>

theorem refused_creation_replaces_the_object:
  assumes "cr_Wrapper cr = Some wrap" and "key_wrapper wrap unwrap lawful" and lawful and "cr_Registry cr = Some reg"
    and "source_bytes fs q m w = Some p" and "p \<noteq> []"
    and "choose_id rand q w = (Inr objID, w1)" and "NewDEK rand w1 = (Inr dek, w2)"
    and "seal_object fs C rand now cr wrap q objID dek p w2 = (Inr (), w3)" and "the_principal cr q \<noteq> []"
    and "rg_CreateObject reg (registration cr q objID) w3 = (Inl e, w4)" and "registry_remote fs reg"
    and "fs_laws fs" and "dir_law fs (folder_dir cr q objID)" and "cipher_laws C rand"
    and "manifest_texts now wrap cr q" and "seal_fits C p"
  shows "fst (Create fs C rand now cr q m w) = Inl (wrapped_error ''register object: '' e) \<and>
    snd (snd (Create fs C rand now cr q m w)) = w4 \<and>
    (\<exists>ob ct. Load fs (folder_root cr q) objID w4 = Inr (ob, ct) \<and>
       fst (unwrap (o_WrappingKID ob) (o_WrappedKey ob) w4) = Inr dek \<and> DecryptObject C (o_Alg ob) dek ct = Inr p)"
proof -
  have "register cr reg q objID w3 = (Inl (wrapped_error ''register object: '' e), w4)"
    using assms(10,11) by (simp add: register_def)
  then have "create_run fs C rand now cr wrap reg q p w = (Inl (wrapped_error ''register object: '' e), [length dek], w4)"
    using assms(7-9) by (simp add: create_run_def)
  moreover have "same_files fs w3 w4" using assms(11,12) unfolding registry_remote_def by (metis snd_conv)
  then have "Load fs (folder_root cr q) objID w4 = Load fs (folder_root cr q) objID w3" by (rule Load_same_files)
  ultimately show ?thesis
    using key_wrapper.sealed_object_opens [OF assms(2,3,9,13-17)] assms(1,4,5,6) by (auto simp: Create_eq)
qed

lemma RandomBytes_kept:
  "only_writes_write fs rand wrap \<Longrightarrow> RandomBytes rand n w = (x, w1) \<Longrightarrow> other_files_kept fs S w w1"
  unfolding RandomBytes_def by (auto split: prod.splits option.splits dest: kept_calls(1))

lemma seal_object_kept:
  assumes "only_writes_write fs rand wrap" and "seal_object fs C rand now cr wrap q objID dek p w = (r, w')"
    and "folder_files (folder_dir cr q objID) objID \<subseteq> S"
  shows "other_files_kept fs S w w'"
proof -
  note k = RandomBytes_kept [OF assms(1)]
  have e: "EncryptObject C rand alg dek p w = (x, w1) \<Longrightarrow> other_files_kept fs S w w1" for alg w x w1
    unfolding EncryptObject_def by (auto simp: kept_refl split: sum.splits prod.splits dest: k)
  have f: "WriteFolder fs C now (folder_dir cr q objID) (new_manifest objID wrapped kid ctype) pts desc w = (y, m', w1)
    \<Longrightarrow> other_files_kept fs S w w1" for wrapped kid ctype pts desc w y m' w1
    using assms(3) by (intro WriteFolder_kept [OF assms(1)]) (auto simp: folder_files_def new_manifest_def)
  show ?thesis
    using assms(2) unfolding seal_object_def
    by (auto split: sum.splits prod.splits dest!: e kept_calls(2) [OF assms(1), of _ _ _ _ _ S] f intro: kept_trans)
qed

text \<open>With an id that is no object id nothing is sealed and no file is touched.\<close>

lemma seal_object_bad_id:
  assumes "only_writes_write fs rand wrap" and "seal_object fs C rand now cr wrap q objID dek p w = (r, w')" and "\<not> object_id objID"
  shows "other_files_kept fs S w w' \<and> r \<noteq> Inr ()"
proof -
  have v: "\<exists>e. Validate (new_manifest objID wrapped kid ctype) = Inl e" for wrapped kid ctype
    using assms(3) Validate_Inr [of "new_manifest objID wrapped kid ctype"]
    by (cases "Validate (new_manifest objID wrapped kid ctype)") (auto simp: new_manifest_def object_id_def)
  have f: "WriteFolder fs C now dir (new_manifest objID wrapped kid ctype) pts desc w = (y, m', w1) \<Longrightarrow>
    w1 = w \<and> y \<noteq> Inr ()" for dir wrapped kid ctype pts desc w y m' w1
    using v [of wrapped kid ctype] by (auto simp: WriteFolder_def)
  note k = RandomBytes_kept [OF assms(1)]
  have e: "EncryptObject C rand alg dek p w = (x, w1) \<Longrightarrow> other_files_kept fs S w w1" for alg w x w1
    unfolding EncryptObject_def by (auto simp: kept_refl split: sum.splits prod.splits dest: k)
  show ?thesis
    using assms(2) unfolding seal_object_def
    by (auto split: sum.splits prod.splits dest!: e kept_calls(2) [OF assms(1), of _ _ _ _ _ S] f intro: kept_trans)
qed

text \<open>
  C40. A creation writes inside its own folder only: a file that differs afterwards, however the creation
  ended, is one of the three files of the folder \<open>root/id\<close>, and the id is one path element that
  begins with a letter or digit, whatever id the caller asked for.
\<close>

theorem creation_stays_in_its_folder:
  assumes "cr_Wrapper cr = Some wrap" and "cr_Registry cr = Some reg"
    and "only_writes_write fs rand wrap" and "registry_remote fs reg"
    and "ReadFile fs f (snd (snd (Create fs C rand now cr q m w))) \<noteq> ReadFile fs f w"
  shows "\<exists>objID. object_id objID \<and> cq_ObjectID q \<in> {[], objID} \<and> f \<in> folder_files (folder_dir cr q objID) objID"
proof -
  obtain p where p: "source_bytes fs q m w = Some p" "p \<noteq> []"
    and f: "ReadFile fs f (snd (snd (create_run fs C rand now cr wrap reg q p w))) \<noteq> ReadFile fs f w"
    using assms(1,2,5) by (auto simp: Create_eq split: option.splits prod.splits if_splits)
  note k = RandomBytes_kept [OF assms(3), where S = "{}"]
  have n: "choose_id rand q w = (x, w1) \<Longrightarrow> ReadFile fs f w1 = ReadFile fs f w" for x w1
    using k by (fastforce simp: choose_id_def NewID_def other_files_kept_def split: if_splits prod.splits sum.splits)
  have d: "NewDEK rand w1 = (x, w2) \<Longrightarrow> ReadFile fs f w2 = ReadFile fs f w1" for w1 x w2
    using k by (auto simp: NewDEK_def other_files_kept_def)
  have g: "ReadFile fs f (snd (register cr reg q objID w3)) = ReadFile fs f w3" for objID w3
    using register_same_files [OF assms(4)] by (simp add: same_files_def)
  obtain objID w1 where o: "choose_id rand q w = (Inr objID, w1)"
    using f n by (cases "choose_id rand q w"; cases "fst (choose_id rand q w)") (auto simp: create_run_def)
  obtain dek w2 where dk: "NewDEK rand w1 = (Inr dek, w2)"
    using f n d o by (cases "NewDEK rand w1"; cases "fst (NewDEK rand w1)") (auto simp: create_run_def)
  obtain r w3 where s: "seal_object fs C rand now cr wrap q objID dek p w2 = (r, w3)" by fastforce
  have "ReadFile fs f w3 \<noteq> ReadFile fs f w2"
    using f n [OF o] d [OF dk] g [of objID w3] o dk s by (cases r) (auto simp: create_run_def split: prod.splits)
  then have "object_id objID" "f \<in> folder_files (folder_dir cr q objID) objID"
    using seal_object_bad_id [OF assms(3) s, where S = "{}"]
      seal_object_kept [OF assms(3) s, of "folder_files (folder_dir cr q objID) objID"]
    by (auto simp: other_files_kept_def)
  moreover have "cq_ObjectID q \<in> {[], objID}" using o by (auto simp: choose_id_def split: if_splits)
  ultimately show ?thesis by blast
qed

section \<open>Instances\<close>

text \<open>A host with directories, a local key store and a registry that accepts or refuses.\<close>

definition host_fs :: "(string \<times> bytes) list files" where
  "host_fs = sample_fs\<lparr>Stat := (\<lambda>p w. if list_ex (\<lambda>(q, _). HasPrefix q (p @ ''/'')) w
      then Inr \<lparr>fi_IsDir = True, fi_Perm = 448, fi_Socket = False\<rparr>
      else if map_of w p \<noteq> None then Inr \<lparr>fi_IsDir = False, fi_Perm = 384, fi_Socket = False\<rparr>
      else Inl (Err ''no such file''))\<rparr>"

definition host_rand :: "(string \<times> bytes) list random" where
  "host_rand n w = (Some (replicate n (CHR ''r'')), w)"

definition host_keys :: memory where "host_keys = [replicate 32 (CHR ''k'')]"

definition host_now :: "(string \<times> bytes) list \<Rightarrow> string" where "host_now w = ''2026-01-01T00:00:00Z''"

definition host_registry :: "bool \<Rightarrow> (string \<times> bytes) list Registry" where
  "host_registry refuse =
     \<lparr>rg_CreateObject = (\<lambda>ob w. (if refuse then Inl (Err ''409'') else Inr (), w)),
      rg_IssueToken = (\<lambda>sid scope aud ttl who w. (Inr zero_token_info, w))\<rparr>"

lemma host_registry_remote: "registry_remote host_fs (host_registry refuse)"
  by (simp add: registry_remote_def host_registry_def same_files_refl)

definition host_creator :: "bool \<Rightarrow> (string \<times> bytes) list Creator" where
  "host_creator refuse =
     \<lparr>cr_Wrapper = Some (Local_Wrap sample_ciphers host_rand host_keys sample_local), cr_KID = ''kek-1'',
      cr_Registry = Some (host_registry refuse),
      cr_FolderRoot = ''/srv'', cr_DefaultPrincipal = ''operator'', cr_DefaultAudience = ''prod''\<rparr>"

definition host_request :: CreateRequest where
  "host_request = \<lparr>cq_ObjectID = ''obj_1'', cq_SourceFile = [], cq_Value = Some 0, cq_ContentType = [], cq_Scope = [],
     cq_Audience = [], cq_TTL = 0, cq_Principal = [], cq_FolderRoot = []\<rparr>"

definition host_resolver :: "(string \<times> bytes) list Resolver" where
  "host_resolver =
     \<lparr>rv_Audience = ''prod'', rv_Verify = (\<lambda>jws w. (Inr zero_header, w)), rv_Revoked = None, rv_Policy = None,
      rv_Inject = (\<lambda>meth name value command w.
        (Inr \<lparr>oc_Descriptor = name, oc_ExitCode = 0, oc_Stdout = [], oc_Stderr = []\<rparr>, w)),
      rv_Load = (\<lambda>sid v. (Load host_fs (folder_root (host_creator False) host_request) sid v, v)),
      rv_Unwrap = Some (Local_Unwrap sample_ciphers host_keys sample_local),
      rv_Auditor = None, rv_Now = Some (\<lambda>w. 1500000000000), rv_HostName = ''host''\<rparr>"

lemma host_laws:
  "fs_laws host_fs" "cipher_laws sample_ciphers host_rand" "dir_law host_fs ''/srv/obj_1''"
  "seal_fits sample_ciphers ''s3cretvalue''"
  "manifest_texts host_now (Local_Wrap sample_ciphers host_rand host_keys sample_local) (host_creator refuse) host_request"
  "only_writes_write host_fs host_rand (Local_Wrap sample_ciphers host_rand host_keys sample_local)"
proof -
  have w: "Local_Wrap sample_ciphers host_rand host_keys sample_local kid dek w = (x, w') \<Longrightarrow>
      w' = w \<and> (\<forall>s. x = Inr s \<longrightarrow> utf8_Valid s)" for kid dek w x w'
  proof -
    have a: "utf8_Valid (''local:v1:'' @ EncodeToString RawURLEncoding ct)" for ct
      by (rule utf8_ascii) (auto dest!: EncodeToString_chars simp: b64_safe_char_def char_class_defs)
    assume *: "Local_Wrap sample_ciphers host_rand host_keys sample_local kid dek w = (x, w')"
    then have "w' = w"
      by (auto simp: Local_Wrap_def EncryptObject_def RandomBytes_def host_rand_def split: sum.splits prod.splits)
    then show ?thesis using * a by (auto dest!: Local_Wrap_Inr)
  qed
  show "fs_laws host_fs" using sample_fs_laws by (simp add: fs_laws_def host_fs_def)
  show "cipher_laws sample_ciphers host_rand"
    by (auto simp: cipher_laws_def sample_ciphers_def sample_aead_def host_rand_def)
  have "HasPrefix (Join [''/srv/obj_1'', ReadmeName]) (''/srv/obj_1'' @ ''/'')" by code_simp
  then show "dir_law host_fs ''/srv/obj_1''"
    by (auto simp: dir_law_def isDir_def host_fs_def sample_fs_def)
  show "seal_fits sample_ciphers ''s3cretvalue''"
    by (simp add: seal_fits_def sample_ciphers_def sample_aead_def)
  have "utf8_Valid ''2026-01-01T00:00:00Z''" "utf8_Valid (cr_KID (host_creator refuse))" "utf8_Valid (content_type host_request)"
    by (simp_all add: host_creator_def content_type_def host_request_def utf8_literal)
  then show "manifest_texts host_now (Local_Wrap sample_ciphers host_rand host_keys sample_local) (host_creator refuse) host_request"
    using w by (auto simp: manifest_texts_def host_now_def)
  have "snd (Local_Wrap sample_ciphers host_rand host_keys sample_local kid dek w) = w" for kid dek w
    using w by (metis prod.collapse)
  then show "only_writes_write host_fs host_rand (Local_Wrap sample_ciphers host_rand host_keys sample_local)"
    by (auto simp: only_writes_write_def other_files_kept_def host_rand_def host_fs_def sample_fs_def)
qed

lemma host_wrapper: "key_wrapper (Local_Wrap sample_ciphers host_rand host_keys sample_local)
    (Local_Unwrap sample_ciphers host_keys sample_local) (cipher_laws sample_ciphers host_rand)"
  by (rule local_store.key_wrapper_axioms)

lemma host_authorised: "authorise (\<lambda>w. 0) host_resolver sample_request w = (Inr sample_claims, w)"
  by code_simp

lemma host_creates:
  "\<exists>res m' w'. Create host_fs sample_ciphers host_rand host_now (host_creator False) host_request [''s3cretvalue''] []
      = (Inr res, m', w') \<and> cx_ObjectID res = ''obj_1'' \<and> cx_Folder res = ''/srv/obj_1''"
proof -
  let ?c = "Create host_fs sample_ciphers host_rand host_now (host_creator False) host_request [''s3cretvalue''] []"
  have "case fst ?c of Inl e \<Rightarrow> False | Inr res \<Rightarrow> cx_ObjectID res = ''obj_1'' \<and> cx_Folder res = ''/srv/obj_1''"
    by code_simp
  then show ?thesis by (cases ?c) (auto split: sum.splits)
qed

lemma created_secret_reaches_the_command_witness:
  "\<exists>res m' w' v2. Create host_fs sample_ciphers host_rand host_now (host_creator False) host_request [''s3cretvalue''] []
      = (Inr res, m', w') \<and>
    Resolve sample_ciphers (\<lambda>w. 0) host_resolver sample_request [] w' =
      map_option (\<lambda>(result, u). (result, [zeros 32, zeros 11], u))
        (deliver (\<lambda>w. 0) host_resolver sample_request sample_claims ''s3cretvalue'' v2)"
proof -
  obtain res m' w' where c: "Create host_fs sample_ciphers host_rand host_now (host_creator False) host_request
      [''s3cretvalue''] [] = (Inr res, m', w')" "cx_ObjectID res = ''obj_1''" "cx_Folder res = ''/srv/obj_1''"
    using host_creates by blast
  let ?wrap = "Local_Wrap sample_ciphers host_rand host_keys sample_local"
  have "\<exists>v2. Resolve sample_ciphers (\<lambda>w. 0) host_resolver sample_request [] w' =
      map_option (\<lambda>(result, u). (result, [] @ [zeros 32, zeros (length ''s3cretvalue'')], u))
        (deliver (\<lambda>w. 0) host_resolver sample_request sample_claims ''s3cretvalue'' v2)"
  proof (rule created_secret_reaches_the_command [OF c(1) _ _ host_wrapper host_laws(2) _ host_registry_remote host_laws(1) _ host_laws(2)])
    show "manifest_texts host_now ?wrap (host_creator False) host_request" by (rule host_laws(5))
    show "seal_fits sample_ciphers ''s3cretvalue''" by (rule host_laws(4))
    show "dir_law host_fs (cx_Folder res)" using host_laws(3) c(3) by simp
    show "authorise (\<lambda>w. 0) host_resolver sample_request w' = (Inr sample_claims, w')" by (rule host_authorised)
    have "c_SID sample_claims = ''obj_1''" by code_simp
    then show "c_SID sample_claims = cx_ObjectID res" using c(2) by simp
  qed (simp_all add: source_bytes_def host_request_def host_creator_def load_def same_files_refl
      host_resolver_def folder_root_def)
  then show ?thesis using c(1) by (simp add: eval_nat_numeral)
qed

lemma creation_stays_in_its_folder_witness:
  "\<exists>objID. object_id objID \<and>
     ''/srv/obj_1/manifest.json'' \<in> folder_files (folder_dir (host_creator False) host_request objID) objID"
proof -
  let ?c = "Create host_fs sample_ciphers host_rand host_now (host_creator False) host_request [''s3cretvalue''] []"
  have "\<exists>objID. object_id objID \<and> cq_ObjectID host_request \<in> {[], objID} \<and>
      ''/srv/obj_1/manifest.json'' \<in> folder_files (folder_dir (host_creator False) host_request objID) objID"
  proof (rule creation_stays_in_its_folder [OF _ _ host_laws(6) host_registry_remote])
    have "(case ReadFile host_fs ''/srv/obj_1/manifest.json'' (snd (snd ?c)) of Inl _ \<Rightarrow> False | Inr _ \<Rightarrow> True)"
      "\<not> (case ReadFile host_fs ''/srv/obj_1/manifest.json'' [] of Inl _ \<Rightarrow> False | Inr _ \<Rightarrow> True)"
      by code_simp+
    then show "ReadFile host_fs ''/srv/obj_1/manifest.json'' (snd (snd ?c)) \<noteq> ReadFile host_fs ''/srv/obj_1/manifest.json'' []"
      by metis
  qed (simp_all add: host_creator_def)
  then show ?thesis by blast
qed

lemma refused_creation_replaces_the_object_witness:
  "\<exists>w4 ob ct dek. snd (snd (Create host_fs sample_ciphers host_rand host_now (host_creator True) host_request
        [''s3cretvalue''] [])) = w4 \<and>
     fst (Create host_fs sample_ciphers host_rand host_now (host_creator True) host_request [''s3cretvalue''] [])
       = Inl (Err ''register object: 409'') \<and>
     Load host_fs ''/srv'' ''obj_1'' w4 = Inr (ob, ct) \<and> DecryptObject sample_ciphers (o_Alg ob) dek ct = Inr ''s3cretvalue''"
proof -
  let ?wrap = "Local_Wrap sample_ciphers host_rand host_keys sample_local"
  let ?seal = "seal_object host_fs sample_ciphers host_rand host_now (host_creator True) ?wrap host_request ''obj_1''
    (replicate 32 (CHR ''r'')) ''s3cretvalue'' []"
  have "(case fst ?seal of Inl _ \<Rightarrow> False | Inr _ \<Rightarrow> True)" by code_simp
  then obtain w3 where s: "?seal = (Inr (), w3)" by (cases ?seal) (auto split: sum.splits)
  have d: "folder_dir (host_creator True) host_request ''obj_1'' = ''/srv/obj_1''" by code_simp
  have "fst (Create host_fs sample_ciphers host_rand host_now (host_creator True) host_request [''s3cretvalue''] []) =
      Inl (wrapped_error ''register object: '' (Err ''409'')) \<and>
    snd (snd (Create host_fs sample_ciphers host_rand host_now (host_creator True) host_request [''s3cretvalue''] [])) = w3 \<and>
    (\<exists>ob ct. Load host_fs (folder_root (host_creator True) host_request) ''obj_1'' w3 = Inr (ob, ct) \<and>
       fst (Local_Unwrap sample_ciphers host_keys sample_local (o_WrappingKID ob) (o_WrappedKey ob) w3) = Inr (replicate 32 (CHR ''r'')) \<and>
       DecryptObject sample_ciphers (o_Alg ob) (replicate 32 (CHR ''r'')) ct = Inr ''s3cretvalue'')"
  proof (rule refused_creation_replaces_the_object [OF _ host_wrapper host_laws(2) _ _ _ _ _ s _ _ host_registry_remote host_laws(1) _ host_laws(2)])
    show "manifest_texts host_now ?wrap (host_creator True) host_request" by (rule host_laws(5))
    show "seal_fits sample_ciphers ''s3cretvalue''" by (rule host_laws(4))
    show "dir_law host_fs (folder_dir (host_creator True) host_request ''obj_1'')" using host_laws(3) d by simp
  qed (simp_all add: source_bytes_def host_request_def host_creator_def load_def host_registry_def
      choose_id_def NewDEK_def RandomBytes_def host_rand_def DEKSize_def the_principal_def)
  moreover have "folder_root (host_creator True) host_request = ''/srv''" by code_simp
  moreover have "wrapped_error ''register object: '' (Err ''409'') = Err ''register object: 409''" by code_simp
  ultimately show ?thesis by auto
qed

end
