(* ===== verification/Sidecar_Wire.thy ===== *)
theory Sidecar_Wire
  imports Protocol_Folder Cp_Client Encoding
begin

text \<open>
  The messages of the sidecar's socket (pkg/sidecar/server.go): a request and a response are one
  JSON value each, read without regard to unknown members and written without the empty ones.
  Byte slices travel as base64.
\<close>

section \<open>Requests\<close>

definition OpResolve :: string where "OpResolve = ''resolve''"
definition OpCreate :: string where "OpCreate = ''create''"
definition OpList :: string where "OpList = ''list''"
definition OpRevoke :: string where "OpRevoke = ''revoke''"

record WireRequest =
  wq_Op :: string
  wq_Token :: string
  wq_Scope :: string
  wq_Name :: string
  wq_Command :: "string list"
  wq_Origin :: string
  wq_ObjectID :: string
  wq_SourceFile :: string
  wq_ContentType :: string
  wq_ScopeList :: "string list"
  wq_Audience :: string
  wq_TTLSeconds :: int
  wq_JTI :: string
  wq_Principal :: string

definition zero_request :: WireRequest where
  "zero_request = \<lparr>wq_Op = [], wq_Token = [], wq_Scope = [], wq_Name = [], wq_Command = [], wq_Origin = [],
     wq_ObjectID = [], wq_SourceFile = [], wq_ContentType = [], wq_ScopeList = [], wq_Audience = [],
     wq_TTLSeconds = 0, wq_JTI = [], wq_Principal = []\<rparr>"

definition wire_request_fields :: "string list" where
  "wire_request_fields = [''op'', ''token'', ''scope'', ''name'', ''command'', ''origin'', ''object_id'', ''source_file'',
     ''content_type'', ''scope_list'', ''audience'', ''ttl_seconds'', ''jti'', ''principal'']"

definition dec_strings :: "json \<Rightarrow> string list option" where
  "dec_strings v = map_option (case_option [] id) (dec_slice (\<lambda>w. dec_string w []) v)"

definition wire_request_store :: "string \<Rightarrow> json \<Rightarrow> WireRequest \<Rightarrow> WireRequest option" where
  "wire_request_store f v r =
     (if f = ''op'' then map_option (\<lambda>x. r\<lparr>wq_Op := x\<rparr>) (dec_string v (wq_Op r))
      else if f = ''token'' then map_option (\<lambda>x. r\<lparr>wq_Token := x\<rparr>) (dec_string v (wq_Token r))
      else if f = ''scope'' then map_option (\<lambda>x. r\<lparr>wq_Scope := x\<rparr>) (dec_string v (wq_Scope r))
      else if f = ''name'' then map_option (\<lambda>x. r\<lparr>wq_Name := x\<rparr>) (dec_string v (wq_Name r))
      else if f = ''command'' then map_option (\<lambda>x. r\<lparr>wq_Command := x\<rparr>) (dec_strings v)
      else if f = ''origin'' then map_option (\<lambda>x. r\<lparr>wq_Origin := x\<rparr>) (dec_string v (wq_Origin r))
      else if f = ''object_id'' then map_option (\<lambda>x. r\<lparr>wq_ObjectID := x\<rparr>) (dec_string v (wq_ObjectID r))
      else if f = ''source_file'' then map_option (\<lambda>x. r\<lparr>wq_SourceFile := x\<rparr>) (dec_string v (wq_SourceFile r))
      else if f = ''content_type'' then map_option (\<lambda>x. r\<lparr>wq_ContentType := x\<rparr>) (dec_string v (wq_ContentType r))
      else if f = ''scope_list'' then map_option (\<lambda>x. r\<lparr>wq_ScopeList := x\<rparr>) (dec_strings v)
      else if f = ''audience'' then map_option (\<lambda>x. r\<lparr>wq_Audience := x\<rparr>) (dec_string v (wq_Audience r))
      else if f = ''ttl_seconds'' then map_option (\<lambda>x. r\<lparr>wq_TTLSeconds := x\<rparr>) (dec_int64 v (wq_TTLSeconds r))
      else if f = ''jti'' then map_option (\<lambda>x. r\<lparr>wq_JTI := x\<rparr>) (dec_string v (wq_JTI r))
      else map_option (\<lambda>x. r\<lparr>wq_Principal := x\<rparr>) (dec_string v (wq_Principal r)))"

definition wire_request_of_json :: "json \<Rightarrow> WireRequest option" where
  "wire_request_of_json v = dec_struct False wire_request_fields wire_request_store v zero_request"

definition wire_request_members :: "WireRequest \<Rightarrow> (string \<times> json) list" where
  "wire_request_members r =
     omit_str ''op'' (wq_Op r) @ omit_str ''token'' (wq_Token r) @ omit_str ''scope'' (wq_Scope r)
       @ omit_str ''name'' (wq_Name r) @ omit_strs ''command'' (wq_Command r) @ omit_str ''origin'' (wq_Origin r)
       @ omit_str ''object_id'' (wq_ObjectID r) @ omit_str ''source_file'' (wq_SourceFile r)
       @ omit_str ''content_type'' (wq_ContentType r) @ omit_strs ''scope_list'' (wq_ScopeList r)
       @ omit_str ''audience'' (wq_Audience r) @ omit_num ''ttl_seconds'' (wq_TTLSeconds r)
       @ omit_str ''jti'' (wq_JTI r) @ omit_str ''principal'' (wq_Principal r)"

definition wire_request_json :: "WireRequest \<Rightarrow> json" where
  "wire_request_json r = JObj (wire_request_members r)"

section \<open>Responses\<close>

record CreatedInfo =
  ci_ObjectID :: string
  ci_Folder :: string
  ci_Token :: string
  ci_JTI :: string
  ci_Expires :: int
  ci_Scope :: "string list"

record WireResponse =
  ws_OK :: bool
  ws_Descriptor :: string
  ws_ExitCode :: int
  ws_Stdout :: bytes
  ws_Stderr :: bytes
  ws_Error :: string
  ws_Created :: "CreatedInfo option"
  ws_Objects :: "ObjectInfo list"

definition zero_created :: CreatedInfo where
  "zero_created = \<lparr>ci_ObjectID = [], ci_Folder = [], ci_Token = [], ci_JTI = [], ci_Expires = 0, ci_Scope = []\<rparr>"

definition zero_response :: WireResponse where
  "zero_response = \<lparr>ws_OK = False, ws_Descriptor = [], ws_ExitCode = 0, ws_Stdout = [], ws_Stderr = [], ws_Error = [],
     ws_Created = None, ws_Objects = []\<rparr>"

definition created_fields :: "string list" where
  "created_fields = [''object_id'', ''folder'', ''token'', ''jti'', ''expires'', ''scope'']"

definition created_store :: "string \<Rightarrow> json \<Rightarrow> CreatedInfo \<Rightarrow> CreatedInfo option" where
  "created_store f v r =
     (if f = ''object_id'' then map_option (\<lambda>x. r\<lparr>ci_ObjectID := x\<rparr>) (dec_string v (ci_ObjectID r))
      else if f = ''folder'' then map_option (\<lambda>x. r\<lparr>ci_Folder := x\<rparr>) (dec_string v (ci_Folder r))
      else if f = ''token'' then map_option (\<lambda>x. r\<lparr>ci_Token := x\<rparr>) (dec_string v (ci_Token r))
      else if f = ''jti'' then map_option (\<lambda>x. r\<lparr>ci_JTI := x\<rparr>) (dec_string v (ci_JTI r))
      else if f = ''expires'' then map_option (\<lambda>x. r\<lparr>ci_Expires := x\<rparr>) (dec_int64 v (ci_Expires r))
      else map_option (\<lambda>x. r\<lparr>ci_Scope := x\<rparr>) (dec_strings v))"

definition created_json :: "CreatedInfo \<Rightarrow> json" where
  "created_json c =
     JObj ([(''object_id'', JStr (ci_ObjectID c)), (''folder'', JStr (ci_Folder c)), (''token'', JStr (ci_Token c))]
       @ omit_str ''jti'' (ci_JTI c) @ omit_num ''expires'' (ci_Expires c) @ omit_strs ''scope'' (ci_Scope c))"

text \<open>
  A byte slice: \<open>null\<close> is the nil slice, a string is base64, an array is taken element by element
  (numbers of 8 bits, \<open>null\<close> for zero).
\<close>

definition dec_byte :: "json \<Rightarrow> char option" where
  "dec_byte v =
     (case v of
        JNull \<Rightarrow> Some (CHR 0x00)
      | JNum s \<Rightarrow>
          if HasPrefix s ''-'' then None
          else Option.bind (ParseInt 64 s) (\<lambda>i. if i < 256 then Some (char_of (nat i)) else None)
      | _ \<Rightarrow> None)"

definition dec_bytes :: "json \<Rightarrow> bytes option" where
  "dec_bytes v =
     (case v of
        JNull \<Rightarrow> Some []
      | JStr s \<Rightarrow> DecodeString StdEncoding s
      | JArr vs \<Rightarrow> all_some (map dec_byte vs)
      | _ \<Rightarrow> None)"

definition omit_bytes :: "string \<Rightarrow> bytes \<Rightarrow> (string \<times> json) list" where
  "omit_bytes k b = (if b = [] then [] else [(k, JStr (EncodeToString StdEncoding b))])"

definition object_info_json :: "ObjectInfo \<Rightarrow> json" where
  "object_info_json ob =
     JObj [(''id'', JStr (oi_ID ob)), (''folder_id'', JStr (oi_FolderID ob)), (''owner_principal'', JStr (oi_OwnerPrincipal ob)),
           (''content_type'', JStr (oi_ContentType ob)), (''wrapping_kid'', JStr (oi_WrappingKID ob)),
           (''created_at'', JStr (oi_CreatedAt ob))]"

definition wire_response_fields :: "string list" where
  "wire_response_fields = [''ok'', ''descriptor'', ''exit_code'', ''stdout'', ''stderr'', ''error'', ''created'', ''objects'']"

definition wire_response_store :: "string \<Rightarrow> json \<Rightarrow> WireResponse \<Rightarrow> WireResponse option" where
  "wire_response_store f v r =
     (if f = ''ok'' then map_option (\<lambda>x. r\<lparr>ws_OK := x\<rparr>) (dec_bool v (ws_OK r))
      else if f = ''descriptor'' then map_option (\<lambda>x. r\<lparr>ws_Descriptor := x\<rparr>) (dec_string v (ws_Descriptor r))
      else if f = ''exit_code'' then map_option (\<lambda>x. r\<lparr>ws_ExitCode := x\<rparr>) (dec_int64 v (ws_ExitCode r))
      else if f = ''stdout'' then map_option (\<lambda>x. r\<lparr>ws_Stdout := x\<rparr>) (dec_bytes v)
      else if f = ''stderr'' then map_option (\<lambda>x. r\<lparr>ws_Stderr := x\<rparr>) (dec_bytes v)
      else if f = ''error'' then map_option (\<lambda>x. r\<lparr>ws_Error := x\<rparr>) (dec_string v (ws_Error r))
      else if f = ''created'' then
        map_option (\<lambda>x. r\<lparr>ws_Created := x\<rparr>)
          (dec_pointer (dec_struct False created_fields created_store) zero_created v (ws_Created r))
      else map_option (\<lambda>x. r\<lparr>ws_Objects := case_option [] id x\<rparr>) (dec_slice object_info_of_json v))"

definition wire_response_of_json :: "json \<Rightarrow> WireResponse option" where
  "wire_response_of_json v = dec_struct False wire_response_fields wire_response_store v zero_response"

definition omit_created :: "CreatedInfo option \<Rightarrow> (string \<times> json) list" where
  "omit_created c = (case c of None \<Rightarrow> [] | Some c \<Rightarrow> [(''created'', created_json c)])"

definition omit_objects :: "ObjectInfo list \<Rightarrow> (string \<times> json) list" where
  "omit_objects obs = (if obs = [] then [] else [(''objects'', JArr (map object_info_json obs))])"

definition wire_response_json :: "WireResponse \<Rightarrow> json" where
  "wire_response_json r =
     JObj ([(''ok'', JBool (ws_OK r))] @ omit_str ''descriptor'' (ws_Descriptor r) @ omit_num ''exit_code'' (ws_ExitCode r)
       @ omit_bytes ''stdout'' (ws_Stdout r) @ omit_bytes ''stderr'' (ws_Stderr r) @ omit_str ''error'' (ws_Error r)
       @ omit_created (ws_Created r) @ omit_objects (ws_Objects r))"

text \<open>\<open>json.Encoder.Encode\<close>: the value and a newline.\<close>

definition json_line :: "json \<Rightarrow> bytes" where
  "json_line v = Marshal v @ [CHR 0x0A]"

definition writeResp :: "WireResponse \<Rightarrow> bytes" where
  "writeResp r = json_line (wire_response_json r)"

section \<open>What is sent is what is read\<close>

lemma dec_strings_array [simp]: "dec_strings (str_array xs) = Some xs"
  by (simp add: dec_strings_def str_array_def)

text \<open>Reading the members of a written request, one after the other.\<close>

abbreviation "req_read \<equiv> dec_members False wire_request_fields wire_request_store"

lemma request_match: "k \<in> set wire_request_fields \<Longrightarrow> match_field wire_request_fields k = Some k"
  by simp

lemma request_steps:
  "wq_Op r = [] \<Longrightarrow> req_read (omit_str ''op'' s @ ms) r = req_read ms (r\<lparr>wq_Op := s\<rparr>)"
  "wq_Token r = [] \<Longrightarrow> req_read (omit_str ''token'' s @ ms) r = req_read ms (r\<lparr>wq_Token := s\<rparr>)"
  "wq_Scope r = [] \<Longrightarrow> req_read (omit_str ''scope'' s @ ms) r = req_read ms (r\<lparr>wq_Scope := s\<rparr>)"
  "wq_Name r = [] \<Longrightarrow> req_read (omit_str ''name'' s @ ms) r = req_read ms (r\<lparr>wq_Name := s\<rparr>)"
  "wq_Command r = [] \<Longrightarrow> req_read (omit_strs ''command'' xs @ ms) r = req_read ms (r\<lparr>wq_Command := xs\<rparr>)"
  "wq_Origin r = [] \<Longrightarrow> req_read (omit_str ''origin'' s @ ms) r = req_read ms (r\<lparr>wq_Origin := s\<rparr>)"
  "wq_ObjectID r = [] \<Longrightarrow> req_read (omit_str ''object_id'' s @ ms) r = req_read ms (r\<lparr>wq_ObjectID := s\<rparr>)"
  "wq_SourceFile r = [] \<Longrightarrow> req_read (omit_str ''source_file'' s @ ms) r = req_read ms (r\<lparr>wq_SourceFile := s\<rparr>)"
  "wq_ContentType r = [] \<Longrightarrow> req_read (omit_str ''content_type'' s @ ms) r = req_read ms (r\<lparr>wq_ContentType := s\<rparr>)"
  "wq_ScopeList r = [] \<Longrightarrow> req_read (omit_strs ''scope_list'' xs @ ms) r = req_read ms (r\<lparr>wq_ScopeList := xs\<rparr>)"
  "wq_Audience r = [] \<Longrightarrow> req_read (omit_str ''audience'' s @ ms) r = req_read ms (r\<lparr>wq_Audience := s\<rparr>)"
  "wq_TTLSeconds r = 0 \<Longrightarrow> int64 i \<Longrightarrow>
     req_read (omit_num ''ttl_seconds'' i @ ms) r = req_read ms (r\<lparr>wq_TTLSeconds := i\<rparr>)"
  "wq_JTI r = [] \<Longrightarrow> req_read (omit_str ''jti'' s @ ms) r = req_read ms (r\<lparr>wq_JTI := s\<rparr>)"
  "wq_Principal r = [] \<Longrightarrow> req_read (omit_str ''principal'' s) r = Some (r\<lparr>wq_Principal := s\<rparr>)"
  by (cases r; simp add: omit_str_def omit_strs_def omit_num_def request_match wire_request_fields_def
      wire_request_store_def dec_int64_num)+

definition request_texts :: "WireRequest \<Rightarrow> string list" where
  "request_texts r = [wq_Op r, wq_Token r, wq_Scope r, wq_Name r, wq_Origin r, wq_ObjectID r, wq_SourceFile r,
     wq_ContentType r, wq_Audience r, wq_JTI r, wq_Principal r] @ wq_Command r @ wq_ScopeList r"

lemma request_reads: "int64 (wq_TTLSeconds r) \<Longrightarrow> wire_request_of_json (wire_request_json r) = Some r"
  by (simp add: wire_request_of_json_def wire_request_json_def dec_struct_def wire_request_members_def zero_request_def
      request_steps)

lemma json_ok_request:
  assumes "list_all utf8_Valid (request_texts r)" shows "json_ok maxNestingDepth (wire_request_json r)"
proof -
  have "json_ok (Suc (Suc (Suc 0))) (wire_request_json r)"
    using assms unfolding wire_request_json_def wire_request_members_def omit_str_def omit_num_def omit_strs_def request_texts_def
    by (simp add: utf8_literal list_all_iff)
  then show ?thesis by (rule json_ok_max) simp
qed

lemma newline_ends: "num_end [CHR 0x0A]"
  by code_simp

lemma request_survives:
  assumes "list_all utf8_Valid (request_texts r)" and "int64 (wq_TTLSeconds r)"
  shows "Option.bind (Decode (json_line (wire_request_json r))) wire_request_of_json = Some r"
  using Decode_Marshal [OF json_ok_request [OF assms(1)], of "[CHR 0x0A]"] request_reads [OF assms(2)]
    newline_ends
  by (simp add: json_line_def)

abbreviation "resp_read \<equiv> dec_members False wire_response_fields wire_response_store"

lemma created_reads:
  assumes "int64 (ci_Expires c)"
  shows "dec_struct False created_fields created_store (created_json c) zero_created = Some c"
  using dec_int64_num [OF assms]
  by (cases c) (simp add: dec_struct_def created_json_def created_fields_def created_store_def zero_created_def omit_str_def
    omit_num_def omit_strs_def)

lemma object_info_reads: "object_info_of_json (object_info_json ob) = Some ob"
  by (cases ob) (simp add: object_info_of_json_def object_info_json_def dec_struct_def object_info_store_def zero_object_info_def)

lemma dec_objects: "dec_slice object_info_of_json (JArr (map object_info_json obs)) = Some (Some obs)"
  by (simp add: dec_slice_def o_def object_info_reads)

lemma response_match: "k \<in> set wire_response_fields \<Longrightarrow> match_field wire_response_fields k = Some k"
  by simp

lemma response_steps:
  "resp_read ((''ok'', JBool b) # ms) r = resp_read ms (r\<lparr>ws_OK := b\<rparr>)"
  "ws_Descriptor r = [] \<Longrightarrow> resp_read (omit_str ''descriptor'' s @ ms) r = resp_read ms (r\<lparr>ws_Descriptor := s\<rparr>)"
  "ws_ExitCode r = 0 \<Longrightarrow> int64 i \<Longrightarrow> resp_read (omit_num ''exit_code'' i @ ms) r = resp_read ms (r\<lparr>ws_ExitCode := i\<rparr>)"
  "ws_Stdout r = [] \<Longrightarrow> resp_read (omit_bytes ''stdout'' s @ ms) r = resp_read ms (r\<lparr>ws_Stdout := s\<rparr>)"
  "ws_Stderr r = [] \<Longrightarrow> resp_read (omit_bytes ''stderr'' s @ ms) r = resp_read ms (r\<lparr>ws_Stderr := s\<rparr>)"
  "ws_Error r = [] \<Longrightarrow> resp_read (omit_str ''error'' s @ ms) r = resp_read ms (r\<lparr>ws_Error := s\<rparr>)"
  by (cases r; simp add: omit_str_def omit_bytes_def omit_num_def response_match wire_response_fields_def
      wire_response_store_def dec_int64_num dec_bool_def dec_bytes_def)+

lemma response_created:
  assumes "ws_Created r = None" and "case cr of None \<Rightarrow> True | Some c \<Rightarrow> int64 (ci_Expires c)"
  shows "resp_read (omit_created cr @ ms) r = resp_read ms (r\<lparr>ws_Created := cr\<rparr>)"
proof (cases cr)
  case None
  then show ?thesis using assms(1) by (cases r) (simp add: omit_created_def)
next
  case (Some c)
  have "dec_pointer (dec_struct False created_fields created_store) zero_created (created_json c) None = Some (Some c)"
    using created_reads [of c] assms(2) Some by (simp add: dec_pointer_def created_json_def)
  then show ?thesis using Some assms(1)
    by (simp add: omit_created_def response_match wire_response_fields_def wire_response_store_def)
qed

lemma response_objects:
  assumes "ws_Objects r = []" shows "resp_read (omit_objects obs) r = Some (r\<lparr>ws_Objects := obs\<rparr>)"
  using assms dec_objects [of obs]
  by (cases r) (simp add: omit_objects_def response_match wire_response_fields_def wire_response_store_def)

definition response_texts :: "WireResponse \<Rightarrow> string list" where
  "response_texts r = [ws_Descriptor r, ws_Error r]
     @ (case ws_Created r of None \<Rightarrow> [] | Some c \<Rightarrow> [ci_ObjectID c, ci_Folder c, ci_Token c, ci_JTI c] @ ci_Scope c)
     @ concat (map (\<lambda>ob. [oi_ID ob, oi_FolderID ob, oi_OwnerPrincipal ob, oi_ContentType ob, oi_WrappingKID ob, oi_CreatedAt ob])
         (ws_Objects r))"

definition response_numbers :: "WireResponse \<Rightarrow> int list" where
  "response_numbers r = [ws_ExitCode r] @ (case ws_Created r of None \<Rightarrow> [] | Some c \<Rightarrow> [ci_Expires c])"

lemma response_reads:
  assumes "list_all int64 (response_numbers r)" shows "wire_response_of_json (wire_response_json r) = Some r"
proof -
  have "int64 (ws_ExitCode r)" "case ws_Created r of None \<Rightarrow> True | Some c \<Rightarrow> int64 (ci_Expires c)"
    using assms by (auto simp: response_numbers_def split: option.splits)
  then show ?thesis
    by (simp add: wire_response_of_json_def wire_response_json_def dec_struct_def zero_response_def response_steps response_created
      response_objects del: dec_members.simps)
qed

lemma json_ok_created:
  "list_all utf8_Valid ([ci_ObjectID c, ci_Folder c, ci_Token c, ci_JTI c] @ ci_Scope c) \<Longrightarrow>
   json_ok (Suc (Suc (Suc d))) (created_json c)"
  unfolding created_json_def omit_str_def omit_num_def omit_strs_def by (simp add: utf8_literal list_all_iff)

lemma json_ok_object_info:
  "list_all utf8_Valid [oi_ID ob, oi_FolderID ob, oi_OwnerPrincipal ob, oi_ContentType ob, oi_WrappingKID ob, oi_CreatedAt ob] \<Longrightarrow>
   json_ok (Suc (Suc d)) (object_info_json ob)"
  unfolding object_info_json_def by (simp add: utf8_literal)

lemma utf8_base64: "utf8_Valid (EncodeToString e b)"
  by (rule utf8_ascii) (auto dest!: EncodeToString_chars simp: b64_safe_char_def char_class_defs)

lemma json_ok_response:
  assumes "list_all utf8_Valid (response_texts r)" shows "json_ok maxNestingDepth (wire_response_json r)"
proof -
  have o: "json_ok (Suc (Suc (Suc 0))) (object_info_json ob)" if "ob \<in> set (ws_Objects r)" for ob
    using assms that by (intro json_ok_object_info) (auto simp: response_texts_def list_all_iff)
  have c: "json_ok (Suc (Suc (Suc (Suc 0)))) (created_json c)" if "ws_Created r = Some c" for c
    using assms that by (intro json_ok_created) (auto simp: response_texts_def list_all_iff)
  have "json_ok (Suc (Suc (Suc (Suc (Suc 0))))) (wire_response_json r)"
    using assms c o unfolding wire_response_json_def omit_str_def omit_num_def omit_bytes_def omit_created_def omit_objects_def
    by (cases "ws_Created r")
      (auto simp: response_texts_def utf8_literal utf8_base64 intro: json_ok_mono)
  then show ?thesis by (rule json_ok_max) simp
qed

lemma response_survives:
  assumes "list_all utf8_Valid (response_texts r)" and "list_all int64 (response_numbers r)"
  shows "Option.bind (Decode (writeResp r)) wire_response_of_json = Some r"
  using Decode_Marshal [OF json_ok_response [OF assms(1)], of "[CHR 0x0A]"] response_reads [OF assms(2)] newline_ends
  by (simp add: writeResp_def json_line_def)

end
