(* ===== verification/Sidecar_Server.thy ===== *)
theory Sidecar_Server
  imports Sidecar_Wire Creator Inject Resolve
begin

text \<open>
  pkg/sidecar: the server on the Unix socket and its client. The host (files, processes, clock,
  randomness, sockets, the group database) is a record of functions on a state \<open>'w\<close>. The
  injector is an object with a state of its own, so the resolver of the server runs over the
  pair of the injector and the host's state.

  The code handles each connection in its own goroutine; here one is handled after the other.
  The deadline of a connection is not modelled.
\<close>

section \<open>The host\<close>

record 'w host =
  h_os :: "'w os_calls"
  h_fs :: "'w files"
  h_ciphers :: ciphers
  h_rand :: "'w random"
  h_Now :: "'w \<Rightarrow> int"
  h_RFC3339 :: "'w \<Rightarrow> string"
  h_Hostname :: "'w \<Rightarrow> string"
  h_Dial :: "string \<Rightarrow> 'w \<Rightarrow> bool \<times> 'w"
  h_Listen :: "string \<Rightarrow> 'w \<Rightarrow> unit result \<times> 'w"
  h_CloseListener :: "'w \<Rightarrow> 'w"
  h_Chown :: "string \<Rightarrow> int \<Rightarrow> int \<Rightarrow> 'w \<Rightarrow> unit result \<times> 'w"
  h_LookupGroup :: "string \<Rightarrow> 'w \<Rightarrow> string result"

section \<open>Configuration and server\<close>

text \<open>File modes are decimal: 384 is octal 600, 432 octal 660, 493 octal 755.\<close>

definition defaultSocketMode :: nat where "defaultSocketMode = 384"
definition groupSocketMode :: nat where "groupSocketMode = 432"

record 'w Proxy =
  px_ListObjects :: "string \<Rightarrow> 'w \<Rightarrow> ObjectInfo list result \<times> 'w"
  px_RevokeToken :: "string \<Rightarrow> 'w \<Rightarrow> unit result \<times> 'w"

record 'w Config =
  sc_SocketPath :: string
  sc_SocketGroup :: string
  sc_SocketMode :: nat
  sc_PeerGroup :: string
  sc_Audience :: string
  sc_Verify :: "string \<Rightarrow> 'w \<Rightarrow> Header result \<times> 'w"
  sc_Revoked :: "(string \<Rightarrow> 'w \<Rightarrow> (bool \<times> go_error option) \<times> 'w) option"
  sc_Policy :: "(policy_query \<Rightarrow> 'w \<Rightarrow> (bool \<times> string) \<times> 'w) option"
  sc_Load :: "string \<Rightarrow> 'w \<Rightarrow> (ManifestObject \<times> bytes) result \<times> 'w"
  sc_Unwrap :: "(string \<Rightarrow> string \<Rightarrow> 'w \<Rightarrow> bytes result \<times> 'w) option"
  sc_Auditor :: "(AuditRecord \<Rightarrow> 'w \<Rightarrow> 'w) option"
  sc_HostName :: string
  sc_Injector :: "'w ExecInjector option"
  sc_Creator :: "'w Creator option"
  sc_Registry :: "'w Proxy option"

record 'w Sidecar =
  sd_cfg :: "'w Config"
  sd_injector :: "'w ExecInjector"
  sd_host :: string
  sd_listening :: bool
  sd_done :: bool
  sd_logf :: "(string \<Rightarrow> 'w \<Rightarrow> 'w) option"

definition New_sidecar :: "'w host \<Rightarrow> 'w Config \<Rightarrow> 'w \<Rightarrow> 'w Sidecar" where
  "New_sidecar H cfg w =
     \<lparr>sd_cfg = cfg, sd_injector = (case sc_Injector cfg of None \<Rightarrow> NewExecInjector | Some ei \<Rightarrow> ei),
      sd_host = (if sc_HostName cfg = [] then h_Hostname H w else sc_HostName cfg),
      sd_listening = False, sd_done = False, sd_logf = None\<rparr>"

definition SetLogger :: "(string \<Rightarrow> 'w \<Rightarrow> 'w) \<Rightarrow> 'w Sidecar \<Rightarrow> 'w Sidecar" where
  "SetLogger f s = s\<lparr>sd_logf := Some f\<rparr>"

definition logf :: "'w Sidecar \<Rightarrow> string \<Rightarrow> 'w \<Rightarrow> 'w" where
  "logf s msg w = (case sd_logf s of None \<Rightarrow> w | Some f \<Rightarrow> f msg w)"

text \<open>The resolver that \<open>New\<close> builds: its collaborators leave the injector alone.\<close>

definition beside :: "('w \<Rightarrow> 'a \<times> 'w) \<Rightarrow> 'i \<times> 'w \<Rightarrow> 'a \<times> ('i \<times> 'w)" where
  "beside f iw = (case f (snd iw) of (a, w) \<Rightarrow> (a, (fst iw, w)))"

definition resolver_of :: "'w host \<Rightarrow> 'w Sidecar \<Rightarrow> ('w ExecInjector \<times> 'w) Resolver" where
  "resolver_of H s =
     (let cfg = sd_cfg s in
      \<lparr>rv_Audience = sc_Audience cfg,
       rv_Verify = (\<lambda>jws. beside (sc_Verify cfg jws)),
       rv_Revoked = map_option (\<lambda>f jti. beside (f jti)) (sc_Revoked cfg),
       rv_Policy = map_option (\<lambda>f q. beside (f q)) (sc_Policy cfg),
       rv_Inject = (\<lambda>meth name value command (ei, w).
          case Inject (h_os H) meth name value command ei w of (r, ei, w) \<Rightarrow> (r, (ei, w))),
       rv_Load = (\<lambda>sid. beside (sc_Load cfg sid)),
       rv_Unwrap = map_option (\<lambda>f kid wrapped. beside (f kid wrapped)) (sc_Unwrap cfg),
       rv_Auditor = map_option (\<lambda>f rec (ei, w). (ei, f rec w)) (sc_Auditor cfg),
       rv_Now = Some (\<lambda>iw. h_Now H (snd iw)), rv_HostName = sd_host s\<rparr>)"

section \<open>Listening\<close>

text \<open>\<open>strconv.Atoi\<close>: a sign may precede the decimal digits.\<close>

definition Atoi :: "string \<Rightarrow> int option" where
  "Atoi s =
     (if HasPrefix s ''+'' then (if HasPrefix (tl s) ''-'' then None else ParseInt 64 (tl s))
      else ParseInt 64 s)"

definition lookupGID :: "'w host \<Rightarrow> string \<Rightarrow> 'w \<Rightarrow> int result" where
  "lookupGID H grp w =
     (if grp = [] then Inl (Err ''empty group'')
      else
        (case Atoi grp of
           Some gid \<Rightarrow> (if gid < 0 then Inl (Err (''negative gid '' @ itoa gid)) else Inr gid)
         | None \<Rightarrow>
             (case h_LookupGroup H grp w of
                Inl e \<Rightarrow> Inl e
              | Inr g \<Rightarrow>
                  (case Atoi g of
                     None \<Rightarrow> Inl (Err ''group has non-numeric gid'')
                   | Some gid \<Rightarrow> Inr gid))))"

text \<open>A socket that cannot be made safe is closed and removed.\<close>

definition abandon :: "'w host \<Rightarrow> string \<Rightarrow> 'w \<Rightarrow> 'w" where
  "abandon H path w = os_Remove (h_os H) path (h_CloseListener H w)"

definition socket_mode :: "'w Config \<Rightarrow> nat" where
  "socket_mode cfg =
     (if sc_SocketMode cfg = 0 then (if sc_SocketGroup cfg \<noteq> [] then groupSocketMode else defaultSocketMode)
      else sc_SocketMode cfg)"

text \<open>A stale socket file is removed, one that is served is left alone.\<close>

definition clear_stale :: "'w host \<Rightarrow> string \<Rightarrow> 'w \<Rightarrow> unit result \<times> 'w" where
  "clear_stale H path w =
     (case Stat (h_fs H) path w of
        Inl _ \<Rightarrow> (Inr (), w)
      | Inr _ \<Rightarrow>
          (case h_Dial H path w of
             (True, w) \<Rightarrow> (Inl (Err (''sidecar: socket '' @ path @ '' is already in use'')), w)
           | (False, w) \<Rightarrow> (Inr (), os_Remove (h_os H) path w)))"

definition grant_group :: "'w host \<Rightarrow> 'w Config \<Rightarrow> 'w \<Rightarrow> unit result \<times> 'w" where
  "grant_group H cfg w =
     (if sc_SocketGroup cfg = [] then (Inr (), w)
      else
        (case lookupGID H (sc_SocketGroup cfg) w of
           Inl e \<Rightarrow> (Inl (wrapped_error ''sidecar: socket group: '' e), w)
         | Inr gid \<Rightarrow>
             (case h_Chown H (sc_SocketPath cfg) (- 1) gid w of
                (Inl e, w) \<Rightarrow> (Inl (wrapped_error ''sidecar: chgrp socket: '' e), w)
              | (Inr _, w) \<Rightarrow> (Inr (), w))))"

definition Listen :: "'w host \<Rightarrow> 'w Sidecar \<Rightarrow> 'w \<Rightarrow> unit result \<times> 'w Sidecar \<times> 'w" where
  "Listen H s w =
     (let cfg = sd_cfg s; path = sc_SocketPath cfg; mode = socket_mode cfg in
      if path = [] then (Inl (Err ''sidecar: no socket path configured''), s, w)
      else
        (case MkdirAll (h_fs H) (Dir path) 493 w of
           (Inl e, w) \<Rightarrow> (Inl e, s, w)
         | (Inr _, w) \<Rightarrow>
             (case clear_stale H path w of
                (Inl e, w) \<Rightarrow> (Inl e, s, w)
              | (Inr _, w) \<Rightarrow>
                  (case h_Listen H path w of
                     (Inl e, w) \<Rightarrow> (Inl e, s, w)
                   | (Inr _, w) \<Rightarrow>
                       if mode mod 8 \<noteq> 0 then
                         (Inl (Err ''sidecar: refusing socket mode: the socket must not be world-accessible''), s,
                          abandon H path w)
                       else
                         (case grant_group H cfg w of
                            (Inl e, w) \<Rightarrow> (Inl e, s, abandon H path w)
                          | (Inr _, w) \<Rightarrow>
                              (case Chmod (h_os H) path mode w of
                                 (Inl e, w) \<Rightarrow> (Inl e, s, abandon H path w)
                               | (Inr _, w) \<Rightarrow> (Inr (), s\<lparr>sd_listening := True\<rparr>, w)))))))"

section \<open>Peers\<close>

record peerUcred =
  pc_UID :: int
  pc_GID :: int
  pc_Groups :: "int list"

text \<open>
  \<open>getPeerCredentials\<close> on Linux, from what the two calls of \<open>getsockopt\<close> return: the ids, and the
  error number with the buffer and its used size, four bytes a group, lowest byte first.
  macOS reports the effective group only.
\<close>

fun le_groups :: "bytes \<Rightarrow> int list" where
  "le_groups (a # b # c # d # r) =
     int (byte a + 256 * (byte b + 256 * (byte c + 256 * byte d))) # le_groups r"
| "le_groups _ = []"

definition getPeerCredentials :: "(int \<times> int) result \<Rightarrow> nat \<times> bytes \<times> nat \<Rightarrow> peerUcred result" where
  "getPeerCredentials ids groups =
     (case ids of
        Inl e \<Rightarrow> Inl e
      | Inr (uid, gid) \<Rightarrow>
          (case groups of
             (errno, buf, sz) \<Rightarrow>
               Inr \<lparr>pc_UID = uid, pc_GID = gid,
                    pc_Groups = (if errno = 0 \<and> sz > 0 then le_groups (take sz buf) else [gid])\<rparr>))"

definition getPeerCredentials_darwin :: "(int \<times> int) result \<Rightarrow> peerUcred result" where
  "getPeerCredentials_darwin ids =
     (case ids of
        Inl e \<Rightarrow> Inl e
      | Inr (uid, gid) \<Rightarrow> Inr \<lparr>pc_UID = uid, pc_GID = gid, pc_Groups = [gid]\<rparr>)"

text \<open>Credentials that cannot be read (\<open>None\<close>) prove nothing.\<close>

definition peerInGroup :: "peerUcred option \<Rightarrow> int \<Rightarrow> bool" where
  "peerInGroup cred gid =
     (case cred of
        None \<Rightarrow> False
      | Some c \<Rightarrow> if pc_GID c = gid then True else list_ex (\<lambda>g. g = gid) (pc_Groups c))"

section \<open>Requests\<close>

definition denied :: WireResponse where
  "denied = zero_response\<lparr>ws_OK := False, ws_Error := ''denied''\<rparr>"

definition maxRelayedOutput :: nat where "maxRelayedOutput = 4 * 1024"

definition cap_marker :: bytes where
  "cap_marker = ''...[truncated by safekeys: showing last 4 KiB]...'' @ [CHR 0x0A]"

definition capOutput :: "bytes \<Rightarrow> nat \<Rightarrow> bytes" where
  "capOutput out limit =
     (if length out \<le> limit then out
      else
        let keep = (if limit < length cap_marker then 0 else limit - length cap_marker) in
        cap_marker @ drop (length out - keep) out)"

definition create_request :: "WireRequest \<Rightarrow> CreateRequest" where
  "create_request req =
     \<lparr>cq_ObjectID = wq_ObjectID req, cq_SourceFile = wq_SourceFile req, cq_Value = None,
      cq_ContentType = wq_ContentType req, cq_Scope = wq_ScopeList req, cq_Audience = wq_Audience req,
      cq_TTL = duration_seconds (wq_TTLSeconds req), cq_Principal = wq_Principal req, cq_FolderRoot = []\<rparr>"

definition handleCreate ::
  "'w host \<Rightarrow> 'w Sidecar \<Rightarrow> WireRequest \<Rightarrow> memory \<Rightarrow> 'w \<Rightarrow> WireResponse \<times> memory \<times> 'w"
where
  "handleCreate H s req m w =
     (case sc_Creator (sd_cfg s) of
        None \<Rightarrow> (denied, m, w)
      | Some cr \<Rightarrow>
          (case Create (h_fs H) (h_ciphers H) (h_rand H) (h_RFC3339 H) cr (create_request req) m w of
             (Inl e, m, w) \<Rightarrow>
               (denied, m,
                logf s (if ReasonOf e = [] then ''create failed: '' @ Error e
                        else ''create denied: reason='' @ ReasonOf e) w)
           | (Inr res, m, w) \<Rightarrow>
               (zero_response\<lparr>ws_OK := True, ws_Created := Some
                  \<lparr>ci_ObjectID = cx_ObjectID res, ci_Folder = cx_Folder res, ci_Token = cx_Token res,
                   ci_JTI = cx_JTI res, ci_Expires = cx_Expires res, ci_Scope = cx_Scope res\<rparr>\<rparr>, m, w)))"

definition handleList :: "'w Sidecar \<Rightarrow> 'w \<Rightarrow> WireResponse \<times> 'w" where
  "handleList s w =
     (case sc_Registry (sd_cfg s) of
        None \<Rightarrow> (denied, w)
      | Some reg \<Rightarrow>
          (case px_ListObjects reg [] w of
             (Inl _, w) \<Rightarrow> (denied, w)
           | (Inr objs, w) \<Rightarrow> (zero_response\<lparr>ws_OK := True, ws_Objects := objs\<rparr>, w)))"

definition handleRevoke :: "'w Sidecar \<Rightarrow> WireRequest \<Rightarrow> 'w \<Rightarrow> WireResponse \<times> 'w" where
  "handleRevoke s req w =
     (case sc_Registry (sd_cfg s) of
        None \<Rightarrow> (denied, w)
      | Some reg \<Rightarrow>
          if wq_JTI req = [] then (denied, w)
          else
            (case px_RevokeToken reg (wq_JTI req) w of
               (Inl _, w) \<Rightarrow> (denied, w)
             | (Inr _, w) \<Rightarrow> (zero_response\<lparr>ws_OK := True, ws_Descriptor := wq_JTI req\<rparr>, w)))"

definition resolve_request :: "WireRequest \<Rightarrow> Request" where
  "resolve_request req =
     \<lparr>rr_TokenURI = wq_Token req, rr_Scope = wq_Scope req, rr_Name = wq_Name req, rr_Command = wq_Command req,
      rr_Principal = wq_Principal req, rr_Host = [], rr_Origin = wq_Origin req\<rparr>"

definition resolved_response :: "Result \<Rightarrow> WireResponse" where
  "resolved_response res =
     zero_response\<lparr>ws_OK := True, ws_Descriptor := re_Descriptor res, ws_ExitCode := re_ExitCode res,
       ws_Stdout := capOutput (re_Stdout res) maxRelayedOutput,
       ws_Stderr := capOutput (re_Stderr res) maxRelayedOutput\<rparr>"

definition handleResolve ::
  "'w host \<Rightarrow> 'w Sidecar \<Rightarrow> WireRequest \<Rightarrow> memory \<Rightarrow> 'w \<Rightarrow> (WireResponse \<times> memory \<times> 'w Sidecar \<times> 'w) option"
where
  "handleResolve H s req m w =
     (case Resolve (h_ciphers H) (\<lambda>iw. h_Now H (snd iw)) (resolver_of H s) (resolve_request req) m (sd_injector s, w) of
        None \<Rightarrow> None
      | Some (Inl e, m, (ei, w)) \<Rightarrow>
          Some (denied, m, s\<lparr>sd_injector := ei\<rparr>,
            logf s (''resolve denied: reason='' @ ReasonOf e @ '' scope='' @ wq_Scope req) w)
      | Some (Inr res, m, (ei, w)) \<Rightarrow> Some (resolved_response res, m, s\<lparr>sd_injector := ei\<rparr>, w))"

text \<open>\<open>handle\<close>: one request in, one response out; a redaction without end gives no answer.\<close>

definition dispatch ::
  "'w host \<Rightarrow> 'w Sidecar \<Rightarrow> WireRequest \<Rightarrow> memory \<Rightarrow> 'w \<Rightarrow> (WireResponse \<times> memory \<times> 'w Sidecar \<times> 'w) option"
where
  "dispatch H s req m w =
     (if wq_Op req = OpCreate then (case handleCreate H s req m w of (r, m, w) \<Rightarrow> Some (r, m, s, w))
      else if wq_Op req = OpList then (case handleList s w of (r, w) \<Rightarrow> Some (r, m, s, w))
      else if wq_Op req = OpRevoke then (case handleRevoke s req w of (r, w) \<Rightarrow> Some (r, m, s, w))
      else handleResolve H s req m w)"

definition handle ::
  "'w host \<Rightarrow> 'w Sidecar \<Rightarrow> bytes \<Rightarrow> memory \<Rightarrow> 'w \<Rightarrow> (bytes \<times> memory \<times> 'w Sidecar \<times> 'w) option"
where
  "handle H s data m w =
     (case Option.bind (Decode data) wire_request_of_json of
        None \<Rightarrow> Some (writeResp denied, m, s, w)
      | Some req \<Rightarrow>
          (case dispatch H s req m w of
             None \<Rightarrow> None
           | Some (r, m, s, w) \<Rightarrow> Some (writeResp r, m, s, w)))"

section \<open>Serving and stopping\<close>

text \<open>
  \<open>shutdown\<close> works once. It cleans the injector of the configuration; the one \<open>New\<close> made up is
  left as it is.
\<close>

definition shutdown :: "'w host \<Rightarrow> 'w Sidecar \<Rightarrow> 'w \<Rightarrow> 'w Sidecar \<times> 'w" where
  "shutdown H s w =
     (if sd_done s then (s, w)
      else
        let w = (if sd_listening s then h_CloseListener H w else w);
            (ei, w) = (if sc_Injector (sd_cfg s) \<noteq> None then Cleanup (h_os H) (sd_injector s) w
                       else (sd_injector s, w))
        in (s\<lparr>sd_done := True, sd_injector := ei\<rparr>, os_Remove (h_os H) (sc_SocketPath (sd_cfg s)) w))"

text \<open>The check of the peer: a group that cannot be looked up checks nothing.\<close>

definition peer_refused :: "'w host \<Rightarrow> 'w Config \<Rightarrow> peerUcred option \<Rightarrow> 'w \<Rightarrow> bool" where
  "peer_refused H cfg peer w \<longleftrightarrow>
     sc_PeerGroup cfg \<noteq> [] \<and>
     (case lookupGID H (sc_PeerGroup cfg) w of
        Inl _ \<Rightarrow> False
      | Inr gid \<Rightarrow> \<not> peerInGroup peer gid)"

text \<open>One accepted connection: its answer, none when it is closed.\<close>

definition accept_conn ::
  "'w host \<Rightarrow> 'w Sidecar \<Rightarrow> peerUcred option \<Rightarrow> bytes \<Rightarrow> memory \<Rightarrow> 'w
    \<Rightarrow> (bytes option \<times> memory \<times> 'w Sidecar \<times> 'w) option"
where
  "accept_conn H s peer data m w =
     (if peer_refused H (sd_cfg s) peer w then
        Some (None, m, s, logf s (''connection refused: peer credentials not in group '' @ sc_PeerGroup (sd_cfg s)) w)
      else
        (case handle H s data m w of
           None \<Rightarrow> None
         | Some (out, m, s, w) \<Rightarrow> Some (Some out, m, s, w)))"

text \<open>
  What the accept loop meets: connections, errors of \<open>Accept\<close>, and the cancellation of its
  context, which shuts the server down. An error after the shutdown ends the loop, another
  one does not.
\<close>

datatype arrival = Connection "peerUcred option" bytes | Accept_error | Cancelled

fun serve_loop ::
  "'w host \<Rightarrow> arrival list \<Rightarrow> 'w Sidecar \<Rightarrow> memory \<Rightarrow> 'w
    \<Rightarrow> (bytes option list \<times> memory \<times> 'w Sidecar \<times> 'w) option"
where
  "serve_loop H [] s m w = Some ([], m, s, w)"
| "serve_loop H (Connection peer data # as) s m w =
     (if sd_done s then Some ([], m, s, w)
      else
        (case accept_conn H s peer data m w of
           None \<Rightarrow> None
         | Some (out, m, s, w) \<Rightarrow>
             (case serve_loop H as s m w of
                None \<Rightarrow> None
              | Some (outs, r) \<Rightarrow> Some (out # outs, r))))"
| "serve_loop H (Accept_error # as) s m w =
     (if sd_done s then Some ([], m, s, w) else serve_loop H as s m w)"
| "serve_loop H (Cancelled # as) s m w = (case shutdown H s w of (s, w) \<Rightarrow> serve_loop H as s m w)"

definition Serve ::
  "'w host \<Rightarrow> arrival list \<Rightarrow> 'w Sidecar \<Rightarrow> memory \<Rightarrow> 'w
    \<Rightarrow> (go_error option \<times> bytes option list \<times> memory \<times> 'w Sidecar \<times> 'w) option"
where
  "Serve H as s m w =
     (case (if sd_listening s then (Inr (), s, w) else Listen H s w) of
        (Inl e, s, w) \<Rightarrow> Some (Some e, [], m, s, w)
      | (Inr _, s, w) \<Rightarrow> map_option (Pair None) (serve_loop H as s m w))"

section \<open>The client\<close>

text \<open>
  A dialled connection: nobody is there, the exchange breaks off, or an answer comes back.
\<close>

datatype exchange = Unreachable | Broken go_error | Answered bytes

type_synonym 'w dialer = "string \<Rightarrow> bytes \<Rightarrow> 'w \<Rightarrow> exchange \<times> 'w"

definition wire_send :: "'w dialer \<Rightarrow> string \<Rightarrow> WireRequest \<Rightarrow> 'w \<Rightarrow> WireResponse result \<times> 'w" where
  "wire_send dial path req w =
     (case dial path (json_line (wire_request_json req)) w of
        (Unreachable, w) \<Rightarrow> (Inl (NewDenial ReasonNoResolver), w)
      | (Broken e, w) \<Rightarrow> (Inl e, w)
      | (Answered data, w) \<Rightarrow>
          (case Option.bind (Decode data) wire_response_of_json of
             None \<Rightarrow> (Inl (Err ''json''), w)
           | Some resp \<Rightarrow> (Inr resp, w)))"

definition wire_List :: "'w dialer \<Rightarrow> string \<Rightarrow> 'w \<Rightarrow> WireResponse result \<times> 'w" where
  "wire_List dial path = wire_send dial path (zero_request\<lparr>wq_Op := OpList\<rparr>)"

definition wire_Revoke :: "'w dialer \<Rightarrow> string \<Rightarrow> string \<Rightarrow> 'w \<Rightarrow> WireResponse result \<times> 'w" where
  "wire_Revoke dial path jti = wire_send dial path (zero_request\<lparr>wq_Op := OpRevoke, wq_JTI := jti\<rparr>)"

definition wire_Create :: "'w dialer \<Rightarrow> string \<Rightarrow> WireRequest \<Rightarrow> 'w \<Rightarrow> WireResponse result \<times> 'w" where
  "wire_Create dial path req = wire_send dial path (req\<lparr>wq_Op := OpCreate\<rparr>)"

definition wire_Resolve :: "'w dialer \<Rightarrow> string \<Rightarrow> WireRequest \<Rightarrow> 'w \<Rightarrow> WireResponse result \<times> 'w" where
  "wire_Resolve dial path req = wire_send dial path (req\<lparr>wq_Op := OpResolve\<rparr>)"

end
