(* ===== verification/Sidecar_Safety.thy ===== *)
theory Sidecar_Safety
  imports Sidecar_Server
begin

text \<open>
  What the sidecar's socket guarantees: how it is created, whom it serves, what an answer can
  contain, and that the client sees exactly the answer the server computed.
\<close>

section \<open>Answers\<close>

lemma length_cap_marker: "length cap_marker = 50"
  by code_simp

lemma capOutput_length: "length (capOutput out limit) \<le> max limit 50"
  by (auto simp: capOutput_def Let_def length_cap_marker)

lemma capOutput_cases:
  "50 \<le> limit \<Longrightarrow> capOutput out limit = (if length out \<le> limit then out else cap_marker @ drop (length out - (limit - 50)) out)"
  by (auto simp: capOutput_def Let_def length_cap_marker)

text \<open>The form of every answer.\<close>

definition well_formed_response :: "WireResponse \<Rightarrow> bool" where
  "well_formed_response r \<longleftrightarrow>
     (if ws_OK r then ws_Error r = [] else r = denied) \<and>
     length (ws_Stdout r) \<le> maxRelayedOutput \<and> length (ws_Stderr r) \<le> maxRelayedOutput \<and>
     (if ws_Created r \<noteq> None \<or> ws_Objects r \<noteq> []
      then ws_Descriptor r = [] \<and> ws_ExitCode r = 0 \<and> ws_Stdout r = [] \<and> ws_Stderr r = [] else True)"

lemma well_formed_simps:
  "well_formed_response denied"
  "well_formed_response (zero_response\<lparr>ws_OK := True, ws_Created := Some c\<rparr>)"
  "well_formed_response (zero_response\<lparr>ws_OK := True, ws_Objects := obs\<rparr>)"
  "well_formed_response (zero_response\<lparr>ws_OK := True, ws_Descriptor := d\<rparr>)"
  "well_formed_response (resolved_response res)"
  using capOutput_length [of "re_Stdout res" maxRelayedOutput] capOutput_length [of "re_Stderr res" maxRelayedOutput]
  by (simp_all add: well_formed_response_def denied_def zero_response_def resolved_response_def maxRelayedOutput_def)

lemma dispatch_well_formed: "dispatch H s req m w = Some (r, m', s', w') \<Longrightarrow> well_formed_response r"
  unfolding dispatch_def handleCreate_def handleList_def handleRevoke_def handleResolve_def
  by (auto simp: well_formed_simps split: if_splits option.splits prod.splits sum.splits)

text \<open>
  C19. Every answer of the socket has one type, whatever bytes arrive: it is one line of JSON that encodes
  a response in which a refusal is the same "denied" for every cause and carries nothing else,
  each stream is at most four kilobytes, and a response that lists objects or reports a created
  one carries no output of a command. The names of its members are those of a fixed list.
\<close>

theorem every_answer_is_well_formed:
  "case handle H s data m w of
     None \<Rightarrow> True
   | Some (out, _) \<Rightarrow> \<exists>r. out = Marshal (wire_response_json r) @ [CHR 0x0A] \<and> well_formed_response r \<and>
       (case wire_response_json r of JObj ms \<Rightarrow> set (map fst ms) \<subseteq> set wire_response_fields | _ \<Rightarrow> False)"
proof -
  have f: "case wire_response_json r of JObj ms \<Rightarrow> set (map fst ms) \<subseteq> set wire_response_fields | _ \<Rightarrow> False" for r
    by (auto simp: wire_response_json_def wire_response_fields_def omit_str_def omit_num_def omit_bytes_def omit_created_def
        omit_objects_def split: option.splits if_splits)
  show ?thesis
    using f dispatch_well_formed well_formed_simps(1)
    by (fastforce simp: handle_def writeResp_def json_line_def split: option.splits prod.splits)
qed

text \<open>
  What is relayed of a long output is its end: an output within the limit is relayed as it is, a longer
  one as the marker and the last bytes that fit, exactly up to the limit.
\<close>

theorem relayed_output_is_a_bounded_tail:
  "length (capOutput out maxRelayedOutput) = min (length out) maxRelayedOutput \<and>
   (\<exists>dropped tail. out = dropped @ tail \<and>
      capOutput out maxRelayedOutput = (if length out \<le> maxRelayedOutput then out else cap_marker @ tail) \<and>
      length tail = (if length out \<le> maxRelayedOutput then length out else maxRelayedOutput - length cap_marker))"
proof (cases "length out \<le> maxRelayedOutput")
  case True
  then show ?thesis by (auto simp: capOutput_def intro: exI [of _ "[]"])
next
  case False
  let ?n = "length out - (maxRelayedOutput - length cap_marker)"
  have "out = take ?n out @ drop ?n out" by simp
  moreover have "length (drop ?n out) = maxRelayedOutput - length cap_marker"
    using False by (simp add: maxRelayedOutput_def length_cap_marker)
  moreover have "capOutput out maxRelayedOutput = cap_marker @ drop ?n out"
    using False by (simp add: capOutput_def Let_def maxRelayedOutput_def length_cap_marker)
  ultimately show ?thesis
    using False by (intro conjI exI [of _ "take ?n out"] exI [of _ "drop ?n out"])
      (simp_all add: maxRelayedOutput_def length_cap_marker)
qed

section \<open>The value stays out of the answer\<close>

lemma hides_suffix:
  assumes "hides v (a @ b)" shows "hides v b"
proof -
  have "sublist s b \<Longrightarrow> sublist s (a @ b)" for s by (metis sublist_appendI sublist_order.order_trans append_Nil2)
  moreover have "norm_view (a @ b) = norm_view a @ norm_view b" by (simp add: norm_view_def)
  then have "sublist s (norm_view b) \<Longrightarrow> sublist s (norm_view (a @ b))" for s
    by (metis sublist_appendI sublist_order.order_trans append_Nil2)
  ultimately show ?thesis using assms unfolding hides_def by blast
qed

lemma capOutput_hides:
  assumes "hides v out" shows "\<exists>tail. hides v tail \<and> capOutput out limit \<in> {tail, cap_marker @ tail}"
proof (cases "length out \<le> limit")
  case True
  then show ?thesis using assms by (auto simp: capOutput_def)
next
  case False
  let ?n = "length out - (if limit < length cap_marker then 0 else limit - length cap_marker)"
  have "hides v (drop ?n out)" using assms hides_suffix [of v "take ?n out" "drop ?n out"] by simp
  then show ?thesis using False unfolding capOutput_def Let_def by (intro exI [of _ "drop ?n out"]) simp
qed

lemma dispatch_hides:
  assumes "wq_Op req \<notin> {OpCreate, OpList, OpRevoke}"
    and "authorise (\<lambda>iw. h_Now H (snd iw)) (resolver_of H s) (resolve_request req) (sd_injector s, w) = (Inr c, w1)"
    and "unwrap_dek (resolver_of H s) c w1 = (Inr (ob, ct, dek), w2)"
    and "DecryptObject (h_ciphers H) (o_Alg ob) dek ct = Inr pt" and "value_safe pt"
  shows "\<exists>r m' s' w'. dispatch H s req m w = Some (r, m', s', w') \<and>
    (\<exists>out. hides pt out \<and> ws_Stdout r \<in> {out, cap_marker @ out}) \<and>
    (\<exists>err. hides pt err \<and> ws_Stderr r \<in> {err, cap_marker @ err})"
proof -
  have z: "hides pt []" using hides_Nil [OF assms(5)] .
  note h = resolve_hides [OF assms(2-5), of m]
  obtain x where x: "Resolve (h_ciphers H) (\<lambda>iw. h_Now H (snd iw)) (resolver_of H s) (resolve_request req) m (sd_injector s, w)
      = Some x" using h by (cases "Resolve (h_ciphers H) (\<lambda>iw. h_Now H (snd iw)) (resolver_of H s) (resolve_request req) m
        (sd_injector s, w)") auto
  obtain res m' ei w' where x': "x = (res, m', (ei, w'))" by (metis prod.collapse)
  have d: "dispatch H s req m w = handleResolve H s req m w" using assms(1) by (simp add: dispatch_def)
  obtain r s2 w3 where r: "dispatch H s req m w = Some (r, m', s2, w3)"
    "r = (case res of Inl _ \<Rightarrow> denied | Inr v \<Rightarrow> resolved_response v)"
    using x x' d by (cases res) (simp_all add: handleResolve_def)
  have "(\<exists>out. hides pt out \<and> ws_Stdout r \<in> {out, cap_marker @ out}) \<and>
      (\<exists>err. hides pt err \<and> ws_Stderr r \<in> {err, cap_marker @ err})"
  proof (cases res)
    case (Inl e)
    then show ?thesis using r z by (auto simp: denied_def zero_response_def)
  next
    case (Inr v)
    then have "hides pt (re_Stdout v)" "hides pt (re_Stderr v)" using h x x' by simp_all
    then show ?thesis using r Inr capOutput_hides by (simp add: resolved_response_def)
  qed
  then show ?thesis using r(1) by blast
qed

text \<open>
  C10. The value does not come back over the socket: whatever the command printed, when the token was
  accepted and the object decrypted to a value of at least eight bytes that cannot be confused with
  the placeholder (no bracket, no eight bytes of the text the scanner inserts), an answer is
  written, and apart from the fixed marker of a truncation neither of its streams contains eight
  bytes or more of the value in any of the encodings the scanner covers.
\<close>

theorem answer_hides_the_value:
  assumes "Option.bind (Decode data) wire_request_of_json = Some req" and "wq_Op req \<notin> {OpCreate, OpList, OpRevoke}"
    and "authorise (\<lambda>iw. h_Now H (snd iw)) (resolver_of H s) (resolve_request req) (sd_injector s, w) = (Inr c, w1)"
    and "unwrap_dek (resolver_of H s) c w1 = (Inr (ob, ct, dek), w2)"
    and "DecryptObject (h_ciphers H) (o_Alg ob) dek ct = Inr pt" and "value_safe pt"
  shows "\<exists>r m' s' w'. handle H s data m w = Some (writeResp r, m', s', w') \<and>
    (\<exists>out. hides pt out \<and> ws_Stdout r \<in> {out, cap_marker @ out}) \<and>
    (\<exists>err. hides pt err \<and> ws_Stderr r \<in> {err, cap_marker @ err})"
  using dispatch_hides [OF assms(2-6), of m] assms(1) by (auto simp: handle_def)

section \<open>The socket is private\<close>

lemma grant_group_Inr:
  "grant_group H cfg w = (Inr (), w') \<longleftrightarrow>
     (if sc_SocketGroup cfg = [] then w' = w
      else \<exists>gid. lookupGID H (sc_SocketGroup cfg) w = Inr gid \<and> h_Chown H (sc_SocketPath cfg) (- 1) gid w = (Inr (), w'))"
  by (auto simp: grant_group_def split: sum.splits prod.splits)

text \<open>The state in which the socket is bound, if it comes to that.\<close>

definition bound :: "'w host \<Rightarrow> 'w Config \<Rightarrow> 'w \<Rightarrow> 'w option" where
  "bound H cfg w =
     (case MkdirAll (h_fs H) (Dir (sc_SocketPath cfg)) 493 w of
        (Inl _, _) \<Rightarrow> None
      | (Inr _, w) \<Rightarrow>
          (case clear_stale H (sc_SocketPath cfg) w of
             (Inl _, _) \<Rightarrow> None
           | (Inr _, w) \<Rightarrow>
               (case h_Listen H (sc_SocketPath cfg) w of (Inl _, _) \<Rightarrow> None | (Inr _, w) \<Rightarrow> Some w)))"

text \<open>
  A socket that is served is not open to the world. Listening succeeds only when the mode has no
  permission for others, the group was given the socket where one is configured, and the mode was
  set after that as the last step; by default the mode is owner-only, with a group it is the
  group's. After any failure the server does not listen, and a socket that was bound is closed
  and removed.
\<close>

theorem socket_is_never_world_accessible:
  "case Listen H s w of
     (Inr _, s', w') \<Rightarrow> socket_mode (sd_cfg s) mod 8 = 0 \<and> s' = s\<lparr>sd_listening := True\<rparr> \<and>
       (\<exists>w2 w3. bound H (sd_cfg s) w = Some w2 \<and>
          (if sc_SocketGroup (sd_cfg s) = [] then w3 = w2
           else \<exists>gid. lookupGID H (sc_SocketGroup (sd_cfg s)) w2 = Inr gid \<and>
                  h_Chown H (sc_SocketPath (sd_cfg s)) (- 1) gid w2 = (Inr (), w3)) \<and>
          Chmod (h_os H) (sc_SocketPath (sd_cfg s)) (socket_mode (sd_cfg s)) w3 = (Inr (), w'))
   | (Inl _, s', w') \<Rightarrow> s' = s \<and>
       (case if sc_SocketPath (sd_cfg s) = [] then None else bound H (sd_cfg s) w of
          None \<Rightarrow> True
        | Some _ \<Rightarrow> \<exists>w3. w' = os_Remove (h_os H) (sc_SocketPath (sd_cfg s)) (h_CloseListener H w3))"
proof (cases "sc_SocketPath (sd_cfg s) = []")
  case True
  then show ?thesis by (simp add: Listen_def)
next
  case False
  let ?path = "sc_SocketPath (sd_cfg s)"
  obtain a w0 where a: "MkdirAll (h_fs H) (Dir ?path) 493 w = (a, w0)" by fastforce
  obtain b w1 where b: "clear_stale H ?path w0 = (b, w1)" by fastforce
  obtain c w2 where c: "h_Listen H ?path w1 = (c, w2)" by fastforce
  obtain d w3 where d: "grant_group H (sd_cfg s) w2 = (d, w3)" by fastforce
  obtain e w4 where e: "Chmod (h_os H) ?path (socket_mode (sd_cfg s)) w3 = (e, w4)" by fastforce
  have "case Listen H s w of
     (Inr _, s', w') \<Rightarrow> socket_mode (sd_cfg s) mod 8 = 0 \<and> s' = s\<lparr>sd_listening := True\<rparr> \<and>
       (\<exists>w2 w3. bound H (sd_cfg s) w = Some w2 \<and> grant_group H (sd_cfg s) w2 = (Inr (), w3) \<and>
          Chmod (h_os H) ?path (socket_mode (sd_cfg s)) w3 = (Inr (), w'))
   | (Inl _, s', w') \<Rightarrow> s' = s \<and>
       (case if ?path = [] then None else bound H (sd_cfg s) w of
          None \<Rightarrow> True
        | Some _ \<Rightarrow> \<exists>w3. w' = os_Remove (h_os H) ?path (h_CloseListener H w3))"
    using False a b c d e
    by (cases a; cases b; cases c; cases d; cases e) (auto simp: Listen_def bound_def abandon_def Let_def)
  then show ?thesis by (simp only: grant_group_Inr)
qed

section \<open>Whom the sidecar serves\<close>

text \<open>
  With a peer group that exists, strangers get nothing: connections of peers outside it, or whose
  credentials cannot be read, are closed without an answer, whatever they sent; no request of
  theirs is executed, so server and memory stay as they are and the host only gets log lines.
\<close>

theorem strangers_are_not_served:
  assumes "sc_PeerGroup (sd_cfg s) \<noteq> []" and "\<And>w. lookupGID H (sc_PeerGroup (sd_cfg s)) w = Inr gid"
    and "list_all (\<lambda>a. case a of Connection peer data \<Rightarrow> \<not> peerInGroup peer gid | Accept_error \<Rightarrow> True | Cancelled \<Rightarrow> False) as"
    and "\<not> sd_done s"
  shows "\<exists>n. serve_loop H as s m w = Some (replicate n None, m, s,
    (logf s (''connection refused: peer credentials not in group '' @ sc_PeerGroup (sd_cfg s)) ^^ n) w)"
  using assms(3)
proof (induction as arbitrary: w)
  case Nil
  then show ?case by (auto intro!: exI [of _ 0])
next
  case (Cons a as)
  show ?case
  proof (cases a)
    case (Connection peer data)
    let ?l = "logf s (''connection refused: peer credentials not in group '' @ sc_PeerGroup (sd_cfg s))"
    have r: "peer_refused H (sd_cfg s) peer w"
      using assms(1,2) Cons.prems Connection by (simp add: peer_refused_def)
    then have "accept_conn H s peer data m w = Some (None, m, s, ?l w)" by (simp only: accept_conn_def if_True)
    moreover obtain n where "serve_loop H as s m (?l w) = Some (replicate n None, m, s, (?l ^^ n) (?l w))"
      using Cons by auto
    ultimately show ?thesis using assms(4) Connection
      by (intro exI [of _ "Suc n"]) (simp only: serve_loop.simps if_False option.case prod.case replicate_Suc funpow_Suc_right o_apply)
  qed (use Cons assms(4) in auto)
qed

text \<open>
  The check of the peer fails open: when the configured group cannot be looked up, every connection
  is served as if no group were configured.
\<close>

theorem unknown_peer_group_admits_everyone:
  assumes "lookupGID H (sc_PeerGroup (sd_cfg s)) w = Inl e"
  shows "accept_conn H s peer data m w = (case handle H s data m w of
      None \<Rightarrow> None
    | Some (out, m', s', w') \<Rightarrow> Some (Some out, m', s', w'))"
  using assms by (simp add: accept_conn_def peer_refused_def)

section \<open>A sidecar for the instances\<close>

definition stub_fs :: "'w files" where
  "stub_fs = \<lparr>ReadFile = (\<lambda>p w. Inl (Err ''no such file'')), Stat = (\<lambda>p w. Inl (Err ''no such file'')),
     MkdirAll = (\<lambda>p perm w. (Inr (), w)), WriteFile = (\<lambda>p b perm w. (Inr (), w)), Remove = (\<lambda>p w. (Inr (), w))\<rparr>"

definition stub_os :: "'w os_calls" where
  "stub_os = \<lparr>LookupEnv = (\<lambda>k w. None), TempDir = (\<lambda>w. ''/tmp''), CreateTemp = (\<lambda>d p w. (Inr ''/tmp/x'', w)),
     Chmod = (\<lambda>p md w. (Inr (), w)), WriteOpen = (\<lambda>p b w. (Inr (), w)), CloseOpen = (\<lambda>p w. (Inr (), w)),
     os_Remove = (\<lambda>p w. w), Start = (\<lambda>c w. (Inr 0, w)),
     Wait = (\<lambda>pid w. (\<lparr>wt_err = None, wt_stdout = [], wt_stderr = []\<rparr>, w))\<rparr>"

definition stub_host :: "'w os_calls \<Rightarrow> 'w host" where
  "stub_host os = \<lparr>h_os = os, h_fs = stub_fs, h_ciphers = sample_ciphers, h_rand = (\<lambda>n w. (Some (replicate n (CHR ''r'')), w)),
     h_Now = (\<lambda>w. 1500000000000), h_RFC3339 = (\<lambda>w. []), h_Hostname = (\<lambda>w. ''h''), h_Dial = (\<lambda>p w. (False, w)),
     h_Listen = (\<lambda>p w. (Inr (), w)), h_CloseListener = (\<lambda>w. w), h_Chown = (\<lambda>p u g w. (Inr (), w)),
     h_LookupGroup = (\<lambda>g w. Inl (Err ''unknown group''))\<rparr>"

definition sample_config :: "'w Config" where
  "sample_config = \<lparr>sc_SocketPath = ''/run/s.sock'', sc_SocketGroup = [], sc_SocketMode = 0, sc_PeerGroup = ''1001'',
     sc_Audience = ''prod'', sc_Verify = (\<lambda>jws w. (Inr zero_header, w)), sc_Revoked = None, sc_Policy = None,
     sc_Load = (\<lambda>sid w. (Inr (sample_object, sample_sealed), w)), sc_Unwrap = Some (\<lambda>kid wrapped w. (Inr sample_dek, w)),
     sc_Auditor = None, sc_HostName = ''h'', sc_Injector = Some (NewExecInjector\<lparr>in_Capture := True\<rparr>),
     sc_Creator = None, sc_Registry = None\<rparr>"

definition sample_sidecar :: "'w host \<Rightarrow> 'w Config \<Rightarrow> 'w \<Rightarrow> 'w Sidecar" where
  "sample_sidecar H cfg w = (New_sidecar H cfg w)\<lparr>sd_listening := True\<rparr>"

definition sample_wire :: WireRequest where
  "sample_wire = zero_request\<lparr>wq_Op := OpResolve, wq_Token := URI ''obj_1'' sample_jws, wq_Scope := ''unwrap'',
     wq_Name := ''TOKEN'', wq_Command := [''env'']\<rparr>"

lemma sample_wire_texts: "list_all utf8_Valid (request_texts sample_wire)" "int64 (wq_TTLSeconds sample_wire)"
  by code_simp+

lemma sample_wire_decodes:
  "Option.bind (Decode (json_line (wire_request_json sample_wire))) wire_request_of_json = Some sample_wire"
  by (rule request_survives [OF sample_wire_texts])

abbreviation "os_sidecar \<equiv> sample_sidecar (stub_host sample_os) sample_config sample_os_init"

lemma sample_token:
  "ParseURI (URI ''obj_1'' sample_jws) = Inr \<lparr>p_SID = ''obj_1'', p_JWS = sample_jws, p_Version = ''1''\<rparr>" "DecodeClaims sample_jws = Inr sample_claims"
  "validateClaims sample_claims = Inr ()" "ScopeAllows (c_Scope sample_claims) ''unwrap''"
  by code_simp+

lemma sidecar_authorised:
  "authorise (\<lambda>iw. h_Now (stub_host os) (snd iw)) (resolver_of (stub_host os) (sample_sidecar H sample_config w0))
     (resolve_request sample_wire) (ei, w) = (Inr sample_claims, (ei, w))"
  using sample_token
  by (simp add: authorise_def VerifyToken_def resolver_of_def sample_sidecar_def New_sidecar_def sample_config_def beside_def
      resolve_request_def sample_wire_def resolver_now_def stub_host_def Unix_def Second_def sample_claims_def revokedFn_def Let_def)

lemma sidecar_unwrapped:
  "unwrap_dek (resolver_of (stub_host os) (sample_sidecar H sample_config w0)) c (ei, w)
   = (Inr (sample_object, sample_sealed, sample_dek), (ei, w))"
  by (simp add: unwrap_dek_def resolver_of_def sample_sidecar_def New_sidecar_def sample_config_def beside_def Let_def)

lemma answer_hides_the_value_witness:
  "\<exists>r m' s' w' out. handle (stub_host sample_os) os_sidecar (json_line (wire_request_json sample_wire)) [] sample_os_init
      = Some (writeResp r, m', s', w') \<and>
    \<not> sublist ''s3cretvalue'' out \<and> ws_Stdout r \<in> {out, cap_marker @ out}"
proof -
  have op: "wq_Op sample_wire \<notin> {OpCreate, OpList, OpRevoke}" by code_simp
  have d: "DecryptObject (h_ciphers (stub_host sample_os)) (o_Alg sample_object) sample_dek sample_sealed = Inr ''s3cretvalue''"
    using sample_decrypted by (simp add: stub_host_def)
  have v: "value_safe ''s3cretvalue''" by code_simp
  obtain r m' s' w' out where *: "handle (stub_host sample_os) os_sidecar (json_line (wire_request_json sample_wire)) [] sample_os_init
      = Some (writeResp r, m', s', w')" "hides ''s3cretvalue'' out" "ws_Stdout r \<in> {out, cap_marker @ out}"
    using answer_hides_the_value [OF sample_wire_decodes op sidecar_authorised sidecar_unwrapped d v, where m = "[]"] by blast
  have "part ''s3cretvalue'' ''s3cretvalue''" by (simp add: Redact.part_def)
  moreover have "''s3cretvalue'' \<in> set (renderings ''s3cretvalue'')" by (simp add: renderings_def)
  ultimately have "\<not> sublist ''s3cretvalue'' out" using *(2) unfolding hides_def by blast
  then show ?thesis using *(1,3) by blast
qed

lemma strangers_are_not_served_witness:
  "\<exists>n w'. serve_loop (stub_host sample_os)
      [Connection (Some \<lparr>pc_UID = 7, pc_GID = 7, pc_Groups = [7, 8]\<rparr>) ''{}'', Accept_error, Connection None ''{}'']
      os_sidecar [] sample_os_init = Some (replicate n None, [], os_sidecar, w')"
proof -
  have "sc_PeerGroup (sd_cfg os_sidecar) \<noteq> []" by code_simp
  moreover have "lookupGID (stub_host sample_os) (sc_PeerGroup (sd_cfg os_sidecar)) w = Inr 1001" for w
    by code_simp
  moreover have "list_all (\<lambda>a. case a of Connection peer data \<Rightarrow> \<not> peerInGroup peer 1001 | Accept_error \<Rightarrow> True | Cancelled \<Rightarrow> False)
      [Connection (Some \<lparr>pc_UID = 7, pc_GID = 7, pc_Groups = [7, 8]\<rparr>) ''{}'', Accept_error, Connection None ''{}'']"
    by code_simp
  moreover have "\<not> sd_done os_sidecar" by code_simp
  ultimately show ?thesis using strangers_are_not_served [of os_sidecar "stub_host sample_os" 1001] by blast
qed

lemma unknown_peer_group_admits_everyone_witness:
  "accept_conn (stub_host sample_os) (sample_sidecar (stub_host sample_os) (sample_config\<lparr>sc_PeerGroup := ''agents''\<rparr>) sample_os_init)
      None ''{'' [] sample_os_init =
    Some (Some (writeResp denied), [], sample_sidecar (stub_host sample_os) (sample_config\<lparr>sc_PeerGroup := ''agents''\<rparr>) sample_os_init,
      sample_os_init)"
proof -
  have l: "lookupGID (stub_host sample_os) (sc_PeerGroup (sd_cfg (sample_sidecar (stub_host sample_os)
      (sample_config\<lparr>sc_PeerGroup := ''agents''\<rparr>) sample_os_init))) sample_os_init = Inl (Err ''unknown group'')"
    by code_simp
  have d: "Option.bind (Decode ''{'') wire_request_of_json = None" by code_simp
  show ?thesis unfolding unknown_peer_group_admits_everyone [OF l] handle_def d by simp
qed

end
