(* ===== verification/Sidecar_System.thy ===== *)
theory Sidecar_System
  imports Sidecar_Safety Remote
begin

text \<open>
  The sidecar in its deployment: a client at the socket, the sidecar behind it, and behind the
  sidecar the control plane, reached over HTTP.
\<close>

section \<open>Through the socket\<close>

text \<open>The server's socket as a client meets it; the state is the server, its memory and the host's.\<close>

definition socket_of :: "'w host \<Rightarrow> peerUcred option \<Rightarrow> ('w Sidecar \<times> memory \<times> 'w) dialer" where
  "socket_of H peer path data x =
     (case x of (s, m, w) \<Rightarrow>
        if path \<noteq> sc_SocketPath (sd_cfg s) \<or> \<not> sd_listening s \<or> sd_done s then (Unreachable, x)
        else
          (case accept_conn H s peer data m w of
             None \<Rightarrow> (Broken (Err ''timeout''), x)
           | Some (None, m, s, w) \<Rightarrow> (Broken (Err ''EOF''), (s, m, w))
           | Some (Some out, m, s, w) \<Rightarrow> (Answered out, (s, m, w))))"

lemma socket_answers:
  assumes "path = sc_SocketPath (sd_cfg s)" and "sd_listening s" and "\<not> sd_done s" and "\<not> peer_refused H (sd_cfg s) peer w"
    and "list_all utf8_Valid (request_texts req)" and "int64 (wq_TTLSeconds req)"
    and "dispatch H s req m w = Some (r, m', s', w')"
    and "list_all utf8_Valid (response_texts r)" and "list_all int64 (response_numbers r)"
  shows "wire_send (socket_of H peer) path req (s, m, w) = (Inr r, (s', m', w'))"
proof -
  have "handle H s (json_line (wire_request_json req)) m w = Some (writeResp r, m', s', w')"
    using request_survives [OF assms(5,6)] assms(7) by (simp add: handle_def)
  then show ?thesis
    using assms(1-4) response_survives [OF assms(8,9)]
    by (simp add: wire_send_def socket_of_def accept_conn_def)
qed

text \<open>
  C33. The client's call is the server's: over the socket, a request whose texts are UTF-8 is executed
  exactly as the server would execute it, and the client gets exactly the server's response.
\<close>

theorem socket_call_is_the_servers:
  assumes "path = sc_SocketPath (sd_cfg s)" and "sd_listening s" and "\<not> sd_done s" and "\<not> peer_refused H (sd_cfg s) peer w"
    and "list_all utf8_Valid (request_texts req)" and "int64 (wq_TTLSeconds req)"
    and "dispatch H s req m w = Some (r, m', s', w')"
    and "list_all utf8_Valid (response_texts r)" and "list_all int64 (response_numbers r)"
  shows "wire_send (socket_of H peer) path req (s, m, w) = (Inr r, (s', m', w'))"
  using assms by (rule socket_answers)

section \<open>Revocation through the sidecar\<close>

lemma VerifyToken_revoked:
  assumes "\<And>jws w. P w \<Longrightarrow> P (snd (verify jws w))" and "DecodeClaims (p_JWS p) = Inr c"
    and "\<And>w. P w \<Longrightarrow> fst (chk (c_JTI c) w)" and "P w"
  shows "\<exists>e w'. VerifyToken verify p aud t (Some chk) w = (Inl e, w')"
proof -
  obtain h w1 where v: "verify (p_JWS p) w = (h, w1)" by (metis prod.collapse)
  then have "P w1" using assms(1) [OF assms(4), of "p_JWS p"] by simp
  then obtain w' where k: "chk (c_JTI c) w1 = (True, w')" using assms(3) by (metis prod.collapse)
  show ?thesis using v k assms(2) by (cases h) (auto simp: VerifyToken_def split: sum.splits)
qed

definition names_token :: "string \<Rightarrow> string \<Rightarrow> bool" where
  "names_token jti uri \<longleftrightarrow>
     (case ParseURI uri of
        Inl _ \<Rightarrow> False
      | Inr p \<Rightarrow> (case DecodeClaims (p_JWS p) of Inl _ \<Rightarrow> False | Inr c \<Rightarrow> c_JTI c = jti))"

text \<open>
  A sidecar whose checker says revoked denies every request with the token; \<open>P\<close> is what the
  checker's word rests on, and the verifier keeps it.
\<close>

lemma revoked_is_denied:
  assumes "\<And>jws w. P w \<Longrightarrow> P (snd (sc_Verify (sd_cfg s) jws w))" and "sc_Revoked (sd_cfg s) = Some chk"
    and "\<And>w. P w \<Longrightarrow> fst (chk jti w) = (True, None)" and "P w" and "names_token jti (wq_Token req)"
    and "wq_Op req \<notin> {OpCreate, OpList, OpRevoke}"
  shows "\<exists>s' w'. dispatch H s req m w = Some (denied, m, s', w')"
proof -
  let ?r = "resolver_of H s" and ?now = "\<lambda>iw. h_Now H (snd iw)" and ?rq = "resolve_request req" and ?P = "\<lambda>iw. P (snd iw)"
  obtain p c where p: "ParseURI (wq_Token req) = Inr p" "DecodeClaims (p_JWS p) = Inr c" "c_JTI c = jti"
    using assms(5) by (auto simp: names_token_def split: sum.splits)
  have v: "?P x \<Longrightarrow> ?P (snd (rv_Verify ?r jws x))" for jws x
    using assms(1) [of "snd x" jws] by (auto simp: resolver_of_def beside_def Let_def split: prod.splits)
  have k: "?P x \<Longrightarrow> fst (revokedFn ?r (c_JTI c) x)" for x
    using assms(2) assms(3) [of "snd x"] p(3) by (auto simp: revokedFn_def resolver_of_def beside_def Let_def split: prod.splits)
  then obtain e x where "VerifyToken (rv_Verify ?r) p (rv_Audience ?r) (Unix (resolver_now ?now ?r (sd_injector s, w)))
      (Some (revokedFn ?r)) (sd_injector s, w) = (Inl e, x)"
    using VerifyToken_revoked [where P = ?P and verify = "rv_Verify ?r" and chk = "revokedFn ?r", OF v p(2) k] assms(4) by fastforce
  then have "authorise ?now ?r ?rq (sd_injector s, w) = (Inl e, x)"
    using p(1) by (simp add: authorise_def resolve_request_def)
  then obtain e' ei w' where "Resolve (h_ciphers H) ?now ?r ?rq m (sd_injector s, w) = Some (Inl e', m, (ei, w'))"
    by (auto simp: Resolve_eq deny_eq) (metis prod.collapse)
  then show ?thesis using assms(6) by (simp add: dispatch_def handleResolve_def)
qed

text \<open>The sidecar's collaborators in a deployment, over the checker's cache and the control plane.\<close>

definition proxied :: "string \<Rightarrow> 'r Server \<Rightarrow> Client \<Rightarrow> (ControlPlaneChecker \<times> 'r cp_state) Proxy" where
  "proxied origin sv cl =
     \<lparr>px_ListObjects = (\<lambda>who (c, st). case client_ListObjects (serve origin (Handler sv)) cl who st of (r, st) \<Rightarrow> (r, (c, st))),
      px_RevokeToken = (\<lambda>jti (c, st). case client_RevokeToken (serve origin (Handler sv)) cl jti st of (r, st) \<Rightarrow> (r, (c, st)))\<rparr>"

definition checked ::
  "string \<Rightarrow> 'r Server \<Rightarrow> ('r cp_state \<Rightarrow> int) \<Rightarrow> string \<Rightarrow> ControlPlaneChecker \<times> 'r cp_state
    \<Rightarrow> (bool \<times> go_error option) \<times> (ControlPlaneChecker \<times> 'r cp_state)"
where
  "checked origin sv clock jti x =
     (case IsRevoked (serve origin (Handler sv)) clock jti (fst x) (snd x) of (v, c, st) \<Rightarrow> (v, (c, st)))"

text \<open>
  C13. An agent revokes a token through the sidecar: while the database answers, the request is answered
  by the token's id, and the sidecar's next resolve of any request with that token is denied.
  The request, the client's HTTP call, the control plane's handler and its log, the checker's
  query and the resolver all take part.
\<close>

theorem revocation_through_the_sidecar:
  assumes "connected origin sv cl" and "deployed origin sv c" and "db_ok (st_db st)" and "cache_true c (st_db st)"
    and "db_faults (st_db st) = []" and "tokens_jti_format jti"
    and "sc_Registry (sd_cfg s) = Some (proxied origin sv cl)" and "sc_Revoked (sd_cfg s) = Some (checked origin sv clock)"
    and "\<And>jws x. snd (sc_Verify (sd_cfg s) jws x) = x"
    and "names_token jti (wq_Token req)" and "wq_Op req \<notin> {OpCreate, OpList, OpRevoke}"
  shows "\<exists>st'. dispatch H s (zero_request\<lparr>wq_Op := OpRevoke, wq_JTI := jti\<rparr>) m (c, st) =
      Some (zero_response\<lparr>ws_OK := True, ws_Descriptor := jti\<rparr>, m, s, (c, st')) \<and>
    (\<exists>s' w'. dispatch H s req m (c, st') = Some (denied, m, s', w'))"
proof -
  obtain st' where st': "client_RevokeToken (serve origin (Handler sv)) cl jti st = (Inr (), st')"
    "fst (IsRevoked (serve origin (Handler sv)) clock jti c st') = (True, None)"
    using remote_revocation [OF assms(1-6), of clock] by blast
  have j: "jti \<noteq> []" using assms(6) by (auto simp: tokens_jti_format_def)
  have "dispatch H s (zero_request\<lparr>wq_Op := OpRevoke, wq_JTI := jti\<rparr>) m (c, st) =
      Some (zero_response\<lparr>ws_OK := True, ws_Descriptor := jti\<rparr>, m, s, (c, st'))"
    using st'(1) assms(7) j
    by (simp add: dispatch_def handleRevoke_def proxied_def OpCreate_def OpList_def OpRevoke_def)
  moreover have "fst (checked origin sv clock jti (c, st')) = (True, None)"
    using st'(2) by (simp add: checked_def split: prod.split)
  then have "\<exists>s' w'. dispatch H s req m (c, st') = Some (denied, m, s', w')"
    using revoked_is_denied [where P = "\<lambda>x. x = (c, st')", OF _ assms(8) _ refl assms(10,11)] assms(9) by simp
  ultimately show ?thesis by blast
qed

section \<open>Instances\<close>

lemma socket_call_is_the_servers_witness:
  "\<exists>x. wire_send (socket_of (stub_host sample_os) (Some \<lparr>pc_UID = 7, pc_GID = 1001, pc_Groups = []\<rparr>)) ''/run/s.sock''
      (zero_request\<lparr>wq_Op := OpList\<rparr>) (os_sidecar, [], sample_os_init) = (Inr denied, x)"
proof -
  have f: "''/run/s.sock'' = sc_SocketPath (sd_cfg os_sidecar)" "sd_listening os_sidecar" "\<not> sd_done os_sidecar"
    "\<not> peer_refused (stub_host sample_os) (sd_cfg os_sidecar) (Some \<lparr>pc_UID = 7, pc_GID = 1001, pc_Groups = []\<rparr>) sample_os_init"
    "list_all utf8_Valid (request_texts (zero_request\<lparr>wq_Op := OpList\<rparr>))"
    "int64 (wq_TTLSeconds (zero_request\<lparr>wq_Op := OpList\<rparr>))"
    "list_all utf8_Valid (response_texts denied)" "list_all int64 (response_numbers denied)"
    by code_simp+
  have d: "dispatch (stub_host sample_os) os_sidecar (zero_request\<lparr>wq_Op := OpList\<rparr>) [] sample_os_init
      = Some (denied, [], os_sidecar, sample_os_init)"
    by (simp add: dispatch_def handleList_def sample_sidecar_def New_sidecar_def sample_config_def OpCreate_def OpList_def)
  show ?thesis using socket_call_is_the_servers [OF f(1-6) d f(7,8)] by blast
qed

definition agent_sidecar :: "(ControlPlaneChecker \<times> nat cp_state) Sidecar" where
  "agent_sidecar = sample_sidecar (stub_host stub_os)
     (sample_config\<lparr>sc_Registry := Some (proxied ''https://cp'' sample_server \<lparr>cl_BaseURL = ''https://cp'', cl_APIKey = ''k''\<rparr>),
        sc_Revoked := Some (checked ''https://cp'' sample_server st_now)\<rparr>)
     (New_checker ''https://cp'' (sv_apiKey sample_server), sample_state)"

lemma revocation_through_the_sidecar_witness:
  "\<exists>st' s' w'. dispatch (stub_host stub_os) agent_sidecar (zero_request\<lparr>wq_Op := OpRevoke, wq_JTI := ''tok_1''\<rparr>) []
      (New_checker ''https://cp'' (sv_apiKey sample_server), sample_state) =
      Some (zero_response\<lparr>ws_OK := True, ws_Descriptor := ''tok_1''\<rparr>, [], agent_sidecar,
        (New_checker ''https://cp'' (sv_apiKey sample_server), st')) \<and>
    dispatch (stub_host stub_os) agent_sidecar sample_wire [] (New_checker ''https://cp'' (sv_apiKey sample_server), st')
      = Some (denied, [], s', w')"
proof -
  have c: "connected ''https://cp'' sample_server \<lparr>cl_BaseURL = ''https://cp'', cl_APIKey = ''k''\<rparr>" by code_simp
  have f: "db_faults (st_db sample_state) = []" "tokens_jti_format ''tok_1''" by code_simp+
  have s: "sc_Registry (sd_cfg agent_sidecar) = Some (proxied ''https://cp'' sample_server \<lparr>cl_BaseURL = ''https://cp'', cl_APIKey = ''k''\<rparr>)"
    "sc_Revoked (sd_cfg agent_sidecar) = Some (checked ''https://cp'' sample_server st_now)"
    "\<And>jws x. snd (sc_Verify (sd_cfg agent_sidecar) jws x) = x"
    by (simp_all add: agent_sidecar_def sample_sidecar_def New_sidecar_def sample_config_def)
  have n: "names_token ''tok_1'' (wq_Token sample_wire)" "wq_Op sample_wire \<notin> {OpCreate, OpList, OpRevoke}"
    using sample_token by (simp_all add: names_token_def sample_wire_def sample_claims_def OpResolve_def OpCreate_def
      OpList_def OpRevoke_def)
  show ?thesis
    using revocation_through_the_sidecar [OF c sample_deployed sample_db_ok deployed_New f s n,
      where H = "stub_host stub_os" and m = "[]"] by blast
qed

end
