(* ===== verification/Sidecar_Frame.thy ===== *)
theory Sidecar_Frame
  imports Sidecar_Safety
begin

text \<open>
  What a running server leaves alone: a predicate on the state of the world that every call of
  the server's host and of its collaborators keeps is kept by whole sequences of connections.
\<close>

definition keeps :: "('w \<Rightarrow> bool) \<Rightarrow> ('w \<Rightarrow> 'a \<times> 'w) \<Rightarrow> bool" where
  "keeps P f \<longleftrightarrow> (\<forall>w. P w \<longrightarrow> P (snd (f w)))"

definition keeps_effect :: "('w \<Rightarrow> bool) \<Rightarrow> ('w \<Rightarrow> 'w) \<Rightarrow> bool" where
  "keeps_effect P f \<longleftrightarrow> (\<forall>w. P w \<longrightarrow> P (f w))"

lemma keepsD: "keeps P f \<Longrightarrow> f w = (a, w') \<Longrightarrow> P w \<Longrightarrow> P w'"
  unfolding keeps_def by (metis snd_conv)

lemma keeps_effectD: "keeps_effect P f \<Longrightarrow> P w \<Longrightarrow> P (f w)"
  by (simp add: keeps_effect_def)

definition os_keeps :: "('w \<Rightarrow> bool) \<Rightarrow> 'w os_calls \<Rightarrow> bool" where
  "os_keeps P os \<longleftrightarrow>
     (\<forall>d p. keeps P (CreateTemp os d p)) \<and> (\<forall>p n. keeps P (Chmod os p n)) \<and> (\<forall>p b. keeps P (WriteOpen os p b)) \<and>
     (\<forall>p. keeps P (CloseOpen os p)) \<and> (\<forall>p. keeps_effect P (os_Remove os p)) \<and> (\<forall>c. keeps P (Start os c)) \<and>
     (\<forall>n. keeps P (Wait os n))"

definition files_keep :: "('w \<Rightarrow> bool) \<Rightarrow> 'w files \<Rightarrow> bool" where
  "files_keep P fs \<longleftrightarrow>
     (\<forall>p n. keeps P (MkdirAll fs p n)) \<and> (\<forall>p b n. keeps P (WriteFile fs p b n)) \<and> (\<forall>p. keeps P (Remove fs p))"

definition host_keeps :: "('w \<Rightarrow> bool) \<Rightarrow> 'w host \<Rightarrow> bool" where
  "host_keeps P H \<longleftrightarrow>
     os_keeps P (h_os H) \<and> files_keep P (h_fs H) \<and> (\<forall>n. keeps P (h_rand H n)) \<and> (\<forall>p. keeps P (h_Dial H p)) \<and>
     (\<forall>p. keeps P (h_Listen H p)) \<and> keeps_effect P (h_CloseListener H) \<and> (\<forall>p u g. keeps P (h_Chown H p u g))"

definition creator_keeps :: "('w \<Rightarrow> bool) \<Rightarrow> 'w Creator \<Rightarrow> bool" where
  "creator_keeps P cr \<longleftrightarrow>
     (case cr_Wrapper cr of None \<Rightarrow> True | Some wrap \<Rightarrow> \<forall>kid dek. keeps P (wrap kid dek)) \<and>
     (case cr_Registry cr of
        None \<Rightarrow> True
      | Some reg \<Rightarrow> (\<forall>ob. keeps P (rg_CreateObject reg ob)) \<and>
          (\<forall>sid scope aud ttl who. keeps P (rg_IssueToken reg sid scope aud ttl who)))"

definition config_keeps :: "('w \<Rightarrow> bool) \<Rightarrow> 'w Config \<Rightarrow> bool" where
  "config_keeps P cfg \<longleftrightarrow>
     (\<forall>jws. keeps P (sc_Verify cfg jws)) \<and>
     (case sc_Revoked cfg of None \<Rightarrow> True | Some f \<Rightarrow> \<forall>jti. keeps P (f jti)) \<and>
     (case sc_Policy cfg of None \<Rightarrow> True | Some f \<Rightarrow> \<forall>q. keeps P (f q)) \<and>
     (\<forall>sid. keeps P (sc_Load cfg sid)) \<and>
     (case sc_Unwrap cfg of None \<Rightarrow> True | Some f \<Rightarrow> \<forall>kid wrapped. keeps P (f kid wrapped)) \<and>
     (case sc_Auditor cfg of None \<Rightarrow> True | Some f \<Rightarrow> \<forall>rec. keeps_effect P (f rec)) \<and>
     (case sc_Creator cfg of None \<Rightarrow> True | Some cr \<Rightarrow> creator_keeps P cr) \<and>
     (case sc_Registry cfg of
        None \<Rightarrow> True
      | Some reg \<Rightarrow> (\<forall>who. keeps P (px_ListObjects reg who)) \<and> (\<forall>jti. keeps P (px_RevokeToken reg jti)))"

text \<open>The server on such a configuration: its logger and the callback of its injector keep \<open>P\<close> too.\<close>

definition server_on :: "('w \<Rightarrow> bool) \<Rightarrow> 'w Config \<Rightarrow> 'w Sidecar \<Rightarrow> bool" where
  "server_on P cfg s \<longleftrightarrow>
     sd_cfg s = cfg \<and>
     (case sd_logf s of None \<Rightarrow> True | Some f \<Rightarrow> \<forall>msg. keeps_effect P (f msg)) \<and>
     (case in_OnChildStarted (sd_injector s) of None \<Rightarrow> True | Some f \<Rightarrow> \<forall>pid. keeps_effect P (f pid))"

section \<open>Creation\<close>

lemma RandomBytes_keeps: "(\<And>n. keeps P (rand n)) \<Longrightarrow> keeps P (RandomBytes rand n)"
  unfolding keeps_def RandomBytes_def by (auto split: prod.split option.split) (metis snd_conv)+

lemma EncryptObject_keeps:
  assumes "\<And>n. keeps P (rand n)"
  shows "keeps P (EncryptObject C rand alg dek pt)"
  unfolding keeps_def EncryptObject_def
  by (auto split: sum.split prod.split dest: keepsD [OF RandomBytes_keeps [OF assms]])

lemma write_objects_keeps:
  assumes "files_keep P fs"
  shows "write_objects fs C dir pts obs w = (r, obs', w') \<Longrightarrow> P w \<Longrightarrow> P w'"
proof (induction obs arbitrary: r obs' w w')
  case (Cons ob obs)
  have "keeps P (WriteFile fs p b n)" for p b n using assms by (simp add: files_keep_def)
  note k = keepsD [OF this]
  show ?case
    using Cons.prems by (auto simp: Let_def split: option.splits sum.splits prod.splits dest: k Cons.IH)
qed simp

lemma WriteFolder_keeps:
  assumes "files_keep P fs"
  shows "WriteFolder fs C now dir mf pts desc w = (r, mf', w') \<Longrightarrow> P w \<Longrightarrow> P w'"
proof -
  have "keeps P (WriteFile fs p b n)" "keeps P (MkdirAll fs p n)" for p b n using assms by (simp_all add: files_keep_def)
  note k = this [THEN keepsD] write_objects_keeps [OF assms]
  show "WriteFolder fs C now dir mf pts desc w = (r, mf', w') \<Longrightarrow> P w \<Longrightarrow> P w'"
    unfolding WriteFolder_def by (auto simp: Let_def split: sum.splits prod.splits dest: k)
qed

lemma seal_object_keeps:
  assumes "files_keep P fs" and "\<And>n. keeps P (rand n)" and "\<And>kid dek. keeps P (wrap kid dek)"
  shows "keeps P (seal_object fs C rand now cr wrap q objID dek pt)"
  unfolding keeps_def seal_object_def
  by (auto simp del: append.simps split: sum.split prod.split dest: keepsD [OF EncryptObject_keeps [OF assms(2)]]
    keepsD [OF assms(3)] WriteFolder_keeps [OF assms(1)])

lemma register_keeps:
  assumes "creator_keeps P cr" and "cr_Registry cr = Some reg"
  shows "keeps P (register cr reg q objID)"
proof -
  have "keeps P (rg_CreateObject reg ob)" "keeps P (rg_IssueToken reg sid scope aud ttl who)" for ob sid scope aud ttl who
    using assms by (simp_all add: creator_keeps_def)
  note k = this [THEN keepsD]
  show ?thesis unfolding keeps_def register_def by (auto split: sum.split prod.split dest: k)
qed

lemma create_with_key_keeps:
  assumes "files_keep P fs" and "\<And>n. keeps P (rand n)" and "\<And>kid dek. keeps P (wrap kid dek)" and "creator_keeps P cr"
    and "cr_Registry cr = Some reg" and "create_with_key fs C rand now cr wrap reg q pt m w = (r, m', w')" and "P w"
  shows "P w'"
proof -
  have i: "keeps P (choose_id rand q)"
    unfolding keeps_def choose_id_def NewID_def
    by (auto split: sum.split prod.split dest: keepsD [OF RandomBytes_keeps [OF assms(2)]])
  have d: "keeps P (NewDEK rand)" using RandomBytes_keeps [OF assms(2)] by (simp add: keeps_def NewDEK_def)
  note k = keepsD [OF i] keepsD [OF d] keepsD [OF seal_object_keeps [OF assms(1-3)]] keepsD [OF register_keeps [OF assms(4,5)]]
  show ?thesis using assms(6,7) by (auto simp: create_with_key_def split: sum.splits prod.splits) (fastforce dest: k)+
qed

lemma Create_keeps:
  assumes "files_keep P fs" and "\<And>n. keeps P (rand n)" and "creator_keeps P cr"
    and "Create fs C rand now cr q m w = (r, m', w')" and "P w"
  shows "P w'"
proof (cases "cr_Wrapper cr")
  case (Some wrap)
  then have wr: "keeps P (wrap kid dek)" for kid dek using assms(3) by (simp add: creator_keeps_def)
  show ?thesis
  proof (cases "cr_Registry cr")
    case reg: (Some reg)
    note c = create_with_key_keeps [OF assms(1,2) wr assms(3) reg]
    show ?thesis using assms(4,5) Some reg
      by (auto simp: Create_def Let_def split: sum.splits prod.splits if_splits dest: c)
  qed (use assms(4,5) Some in \<open>simp add: Create_def\<close>)
qed (use assms(4,5) in \<open>simp add: Create_def\<close>)

section \<open>Resolution\<close>

definition resolver_keeps :: "('w \<Rightarrow> bool) \<Rightarrow> 'w Resolver \<Rightarrow> bool" where
  "resolver_keeps P r \<longleftrightarrow>
     (\<forall>jws. keeps P (rv_Verify r jws)) \<and>
     (case rv_Revoked r of None \<Rightarrow> True | Some f \<Rightarrow> \<forall>jti. keeps P (f jti)) \<and>
     (case rv_Policy r of None \<Rightarrow> True | Some f \<Rightarrow> \<forall>q. keeps P (f q)) \<and>
     (\<forall>meth name val cmd. keeps P (rv_Inject r meth name val cmd)) \<and>
     (\<forall>sid. keeps P (rv_Load r sid)) \<and>
     (case rv_Unwrap r of None \<Rightarrow> True | Some f \<Rightarrow> \<forall>kid wrapped. keeps P (f kid wrapped)) \<and>
     (case rv_Auditor r of None \<Rightarrow> True | Some f \<Rightarrow> \<forall>rec. keeps_effect P (f rec))"

lemma audit_keeps: "resolver_keeps P r \<Longrightarrow> P w \<Longrightarrow> P (audit r rec w)"
  by (auto simp: resolver_keeps_def audit_def keeps_effect_def split: option.splits)

lemma VerifyToken_keeps:
  assumes "\<And>jws. keeps P (verify jws)" and "\<And>jti. keeps P (chk jti)"
  shows "keeps P (VerifyToken verify p aud t (Some chk))"
  unfolding keeps_def VerifyToken_def
  by (auto split: sum.split prod.split option.split bool.split) (fastforce dest: keepsD [OF assms(1)] keepsD [OF assms(2)])+

lemma authorise_keeps:
  assumes "resolver_keeps P r"
  shows "keeps P (authorise time_Now r req)"
proof -
  have c: "keeps P (revokedFn r jti)" for jti
    using assms unfolding keeps_def revokedFn_def resolver_keeps_def
    by (auto split: option.splits prod.splits) (metis snd_conv)+
  have v: "keeps P (rv_Verify r jws)" for jws using assms by (simp add: resolver_keeps_def)
  note k = keepsD [OF VerifyToken_keeps [OF v c]]
  have q: "rv_Policy r = Some f \<Longrightarrow> keeps P (f x)" for f x using assms by (simp add: resolver_keeps_def)
  show ?thesis unfolding keeps_def authorise_def by (auto split: sum.split prod.split option.split dest: k q [THEN keepsD])
qed

lemma unwrap_dek_keeps:
  assumes "resolver_keeps P r"
  shows "keeps P (unwrap_dek r c)"
proof -
  have l: "keeps P (rv_Load r sid)" and u: "rv_Unwrap r = Some f \<Longrightarrow> keeps P (f kid wrapped)" for sid f kid wrapped
    using assms by (simp_all add: resolver_keeps_def)
  show ?thesis unfolding keeps_def unwrap_dek_def
    by (auto split: sum.split prod.split option.split dest: keepsD [OF l] u [THEN keepsD])
qed

lemma relay_keeps:
  "resolver_keeps P r \<Longrightarrow> relay time_Now r req c v oc w = Some (x, w') \<Longrightarrow> P w \<Longrightarrow> P w'"
  by (auto simp: relay_def scan_stream_def audit_keeps split: option.splits prod.splits if_splits)

lemma deliver_keeps:
  assumes "resolver_keeps P r" and "deliver time_Now r req c v w = Some (x, w')" and "P w"
  shows "P w'"
proof -
  have "keeps P (rv_Inject r meth name val cmd)" for meth name val cmd
    using assms(1) by (simp add: resolver_keeps_def)
  note k = keepsD [OF this] relay_keeps [OF assms(1)]
  show ?thesis using assms
    by (auto simp: deliver_def deny_eq split: sum.splits prod.splits option.splits)
      ((drule k, assumption)+, (rule audit_keeps [OF assms(1)])?, assumption)+
qed

lemma Resolve_keeps:
  assumes "resolver_keeps P r" and "Resolve C time_Now r req m w = Some (x, m', w')" and "P w"
  shows "P w'"
proof -
  note k = keepsD [OF authorise_keeps [OF assms(1)]] keepsD [OF unwrap_dek_keeps [OF assms(1)]] deliver_keeps [OF assms(1)]
  show ?thesis using assms
    by (auto simp: Resolve_def deny_eq Let_def split: sum.splits prod.splits option.splits)
      ((drule k, assumption)+, (rule audit_keeps [OF assms(1)])?, assumption)+
qed

section \<open>The server\<close>

text \<open>
  The contract between a server and its surroundings: whatever the host and the configuration
  are asked to do, \<open>P\<close> holds on.
\<close>

locale undisturbed =
  fixes P :: "'w \<Rightarrow> bool" and H :: "'w host" and cfg :: "'w Config"
  assumes host_laws: "host_keeps P H" and config_laws: "config_keeps P cfg"
begin

lemma os_laws:
  "keeps P (CreateTemp (h_os H) d p)" "keeps P (Chmod (h_os H) p n)" "keeps P (WriteOpen (h_os H) p b)"
  "keeps P (CloseOpen (h_os H) p)" "keeps_effect P (os_Remove (h_os H) p)" "keeps P (Start (h_os H) c)"
  "keeps P (Wait (h_os H) n)"
  using host_laws by (simp_all add: host_keeps_def os_keeps_def)

lemma socket_laws:
  "keeps P (h_Dial H p)" "keeps P (h_Listen H p)" "keeps_effect P (h_CloseListener H)" "keeps P (h_Chown H p u g)"
  "keeps P (MkdirAll (h_fs H) p n)" "files_keep P (h_fs H)" "keeps P (h_rand H n)"
  using host_laws by (simp_all add: host_keeps_def files_keep_def)

lemma Inject_keeps:
  assumes "Inject (h_os H) meth name val cmd ei w = (r, ei', w')" and "P w"
    and "\<And>f pid. in_OnChildStarted ei = Some f \<Longrightarrow> keeps_effect P (f pid)"
  shows "P w' \<and> in_OnChildStarted ei' = in_OnChildStarted ei"
proof -
  note k = os_laws(1-4,6,7) [THEN keepsD]
  note r = keeps_effectD [OF os_laws(5)] os_laws(4) [unfolded keeps_def, rule_format]
  have c: "P (case in_OnChildStarted ei of None \<Rightarrow> w | Some f \<Rightarrow> f pid w)" if "P w" for pid w
    using that assms(3) by (auto simp: keeps_effect_def split: option.split)
  have e: "P w'" if x: "exec (h_os H) ei name val cmd w = (r, w')" for r w' name
  proof -
    obtain st w1 where st: "Start (h_os H) (exec_cmd (h_os H) ei (exec_name name) val cmd w) w = (st, w1)" by fastforce
    note p = keepsD [OF os_laws(6) st assms(2)]
    show ?thesis
    proof (cases st)
      case (Inr pid)
      obtain res w2 where wt: "Wait (h_os H) pid (case in_OnChildStarted ei of None \<Rightarrow> w1 | Some f \<Rightarrow> f pid w1) = (res, w2)" by fastforce
      have "w' = w2" using x st Inr wt by (auto simp: exec_def Let_def split: option.splits wait_error.splits)
      then show ?thesis using keepsD [OF os_laws(7) wt c [OF p]] by simp
    qed (use x st p in \<open>simp add: exec_def Let_def\<close>)
  qed
  have f: "P w'" if "inject_file (h_os H) ei name val w = (r, ei', w')" for r ei' w'
    using that assms(2) unfolding inject_file_def Let_def
    by (auto simp del: append.simps split: sum.splits prod.splits) ((drule k, assumption)+, (intro r)?, assumption)+
  have g: "in_OnChildStarted ei' = in_OnChildStarted ei" if "inject_file (h_os H) ei name val w = (r, ei', w')" for r ei' w'
    using that unfolding inject_file_def Let_def by (auto split: sum.splits prod.splits)
  have "(\<exists>r. exec (h_os H) ei name val cmd w = (r, w') \<and> ei' = ei) \<or>
      (\<exists>r. inject_file (h_os H) ei name val w = (r, ei', w')) \<or> (w' = w \<and> ei' = ei)"
    using assms(1) by (auto simp: Inject_def split: if_splits sum.splits prod.splits)
  then show ?thesis using assms(2) e f g by metis
qed

text \<open>The resolver of the server runs over the pair of the injector and the host's state.\<close>

definition started_ok :: "'w ExecInjector \<times> 'w \<Rightarrow> bool" where
  "started_ok iw \<longleftrightarrow> P (snd iw) \<and>
     (case in_OnChildStarted (fst iw) of None \<Rightarrow> True | Some f \<Rightarrow> \<forall>pid. keeps_effect P (f pid))"

lemma beside_keeps: "keeps P f \<Longrightarrow> keeps started_ok (beside f)"
  unfolding keeps_def started_ok_def beside_def by (auto split: prod.splits)

lemma Inject_started_ok:
  "keeps started_ok (\<lambda>(ei, w). case Inject (h_os H) meth name val cmd ei w of (r, ei, w) \<Rightarrow> (r, (ei, w)))"
proof -
  have "started_ok (ei', w')" if "Inject (h_os H) meth name val cmd ei w = (r, ei', w')" "started_ok (ei, w)" for ei w r ei' w'
    using Inject_keeps [OF that(1)] that(2) unfolding started_ok_def by (fastforce split: option.splits)
  then show ?thesis unfolding keeps_def split_paired_all by (metis (mono_tags, lifting) prod.case prod.collapse snd_conv)
qed

lemma resolver_of_keeps: "sd_cfg s = cfg \<Longrightarrow> resolver_keeps started_ok (resolver_of H s)"
  using config_laws Inject_started_ok
  by (auto simp: resolver_keeps_def resolver_of_def config_keeps_def Let_def beside_keeps keeps_effect_def started_ok_def
    split: option.splits)

lemma handleResolve_keeps:
  assumes "server_on P cfg s" and "handleResolve H s req m w = Some (r, m', s', w')" and "P w"
  shows "P w' \<and> server_on P cfg s'"
proof -
  have k: "resolver_keeps started_ok (resolver_of H s)" and o: "started_ok (sd_injector s, w)"
    and l: "P x \<Longrightarrow> P (logf s msg x)" for msg x
    using assms(1,3) resolver_of_keeps by (auto simp: server_on_def started_ok_def logf_def keeps_effect_def split: option.splits)
  obtain res ei w1 where r: "Resolve (h_ciphers H) (\<lambda>iw. h_Now H (snd iw)) (resolver_of H s) (resolve_request req) m (sd_injector s, w)
      = Some (res, m', (ei, w1))" "s' = s\<lparr>sd_injector := ei\<rparr>"
    "w' = (case res of Inl e \<Rightarrow> logf s (''resolve denied: reason='' @ ReasonOf e @ '' scope='' @ wq_Scope req) w1 | Inr _ \<Rightarrow> w1)"
    using assms(2) unfolding handleResolve_def by (auto simp del: append.simps split: option.splits sum.splits prod.splits)
  have "started_ok (ei, w1)" by (rule Resolve_keeps [OF k r(1) o])
  then show ?thesis using assms(1) r(2,3) l by (auto simp: server_on_def started_ok_def split: sum.split)
qed

lemma handleCreate_keeps:
  assumes "server_on P cfg s" and "handleCreate H s req m w = (r, m', w')" and "P w"
  shows "P w'"
proof (cases "sc_Creator cfg")
  case (Some cr)
  have cr: "creator_keeps P cr" and l: "P x \<Longrightarrow> P (logf s msg x)" for msg x
    using assms(1) config_laws Some by (auto simp: server_on_def logf_def keeps_effect_def config_keeps_def split: option.splits)
  obtain res m1 w1 where c: "Create (h_fs H) (h_ciphers H) (h_rand H) (h_RFC3339 H) cr (create_request req) m w = (res, m1, w1)"
    by (metis prod_cases3)
  have "P w1" by (rule Create_keeps [OF socket_laws(6,7) cr c assms(3)])
  moreover have "w' = w1 \<or> (\<exists>msg. w' = logf s msg w1)"
    using assms(1,2) Some c by (auto simp: handleCreate_def server_on_def split: sum.splits)
  ultimately show ?thesis using l by blast
qed (use assms in \<open>auto simp: handleCreate_def server_on_def\<close>)

lemma registry_keeps:
  assumes "server_on P cfg s" and "P w"
  shows "handleList s w = (r, w') \<Longrightarrow> P w'" and "handleRevoke s req w = (r, w') \<Longrightarrow> P w'"
proof -
  have "sc_Registry cfg = Some reg \<Longrightarrow> keeps P (px_ListObjects reg who)" "sc_Registry cfg = Some reg \<Longrightarrow> keeps P (px_RevokeToken reg jti)"
    and s: "sd_cfg s = cfg" for reg who jti
    using config_laws assms(1) by (simp_all add: config_keeps_def server_on_def)
  note k = this(1,2) [THEN keepsD]
  show "handleList s w = (r, w') \<Longrightarrow> P w'" "handleRevoke s req w = (r, w') \<Longrightarrow> P w'"
    using assms(2) by (auto simp: handleList_def handleRevoke_def s split: option.splits sum.splits prod.splits if_splits
      dest: k)
qed

lemma dispatch_keeps:
  assumes "server_on P cfg s" and "dispatch H s req m w = Some (r, m', s', w')" and "P w"
  shows "P w' \<and> server_on P cfg s'"
  using assms(2) handleCreate_keeps [OF assms(1) _ assms(3)] registry_keeps [OF assms(1,3)]
    handleResolve_keeps [OF assms(1) _ assms(3)] assms(1)
  by (auto simp: dispatch_def split: if_splits prod.splits)

lemma accept_conn_keeps:
  assumes "server_on P cfg s" and "accept_conn H s peer data m w = Some (out, m', s', w')" and "P w"
  shows "P w' \<and> server_on P cfg s'"
proof -
  have l: "P (logf s msg w)" for msg
    using assms(1,3) by (auto simp: server_on_def logf_def keeps_effect_def split: option.splits)
  have h: "handle H s data m w = Some (o', m', s', w') \<Longrightarrow> P w' \<and> server_on P cfg s'" for o'
    using assms(1,3) by (auto simp: handle_def split: option.splits prod.splits dest: dispatch_keeps [OF assms(1) _ assms(3)])
  show ?thesis using assms l by (auto simp: accept_conn_def split: if_splits option.splits prod.splits dest: h)
qed

lemma shutdown_keeps:
  assumes "server_on P cfg s" and "shutdown H s w = (s', w')" and "P w"
  shows "P w' \<and> server_on P cfg s'"
proof -
  have f: "P w \<Longrightarrow> P (fold (\<lambda>(_, p). os_Remove (h_os H) p) ps w)" for ps w
    by (induction ps arbitrary: w) (auto intro: keeps_effectD [OF os_laws(5)])
  note e = keeps_effectD [OF os_laws(5)] keeps_effectD [OF socket_laws(3)]
  show ?thesis using assms
    by (auto simp: shutdown_def Cleanup_def server_on_def Let_def split: if_splits intro!: e f)
qed

lemma serve_loop_keeps:
  "server_on P cfg s \<Longrightarrow> serve_loop H as s m w = Some (outs, m', s', w') \<Longrightarrow> P w \<Longrightarrow> P w' \<and> server_on P cfg s'"
proof (induction as arbitrary: s m w outs)
  case (Cons a as)
  show ?case
  proof (cases a)
    case (Connection peer data)
    show ?thesis using Cons.prems Connection
      by (auto split: if_splits option.splits prod.splits dest: Cons.IH accept_conn_keeps)
  next
    case Accept_error
    then show ?thesis using Cons by (auto split: if_splits)
  next
    case Cancelled
    obtain s1 w1 where x: "shutdown H s w = (s1, w1)" by fastforce
    show ?thesis using Cons.prems Cancelled x Cons.IH shutdown_keeps [OF Cons.prems(1) x Cons.prems(3)] by auto
  qed
qed simp


lemma Listen_keeps:
  assumes "server_on P cfg s" and "Listen H s w = (r, s', w')" and "P w"
  shows "P w' \<and> server_on P cfg s'"
proof -
  have a: "P w \<Longrightarrow> P (abandon H p w)" for p w
    unfolding abandon_def by (intro keeps_effectD [OF os_laws(5)] keeps_effectD [OF socket_laws(3)])
  have c: "clear_stale H p w = (r, w') \<Longrightarrow> P w \<Longrightarrow> P w'" for p w r w'
    by (auto simp: clear_stale_def split: sum.splits prod.splits bool.splits
      dest: keepsD [OF socket_laws(1)] intro!: keeps_effectD [OF os_laws(5)])
  have g: "grant_group H cfg w = (r, w') \<Longrightarrow> P w \<Longrightarrow> P w'" for w r w'
    by (auto simp: grant_group_def split: if_splits sum.splits prod.splits dest: keepsD [OF socket_laws(4)])
  have s: "sd_cfg s = cfg" and o: "server_on P cfg (s\<lparr>sd_listening := True\<rparr>)" using assms(1) by (simp_all add: server_on_def)
  note k = keepsD [OF socket_laws(5)] c keepsD [OF socket_laws(2)] g keepsD [OF os_laws(2)]
  have "(P w \<longrightarrow> P w') \<and> (s' = s \<or> s' = s\<lparr>sd_listening := True\<rparr>)"
    using assms(2) unfolding Listen_def Let_def s
    by (auto split: if_splits sum.splits prod.splits) ((drule k, assumption)+, (rule a)?, assumption)+
  then show ?thesis using assms(1,3) o by auto
qed

lemma Serve_keeps:
  assumes "server_on P cfg s" and "Serve H as s m w = Some (r, outs, m', s', w')" and "P w"
  shows "P w' \<and> server_on P cfg s'"
proof (cases "sd_listening s")
  case True
  then show ?thesis using assms serve_loop_keeps [OF assms(1) _ assms(3)] by (auto simp: Serve_def)
next
  case False
  obtain l s1 w1 where x: "Listen H s w = (l, s1, w1)" by (metis prod_cases3)
  have k: "P w1" "server_on P cfg s1" using Listen_keeps [OF assms(1) x assms(3)] by auto
  show ?thesis using assms(2) False x k serve_loop_keeps [OF k(2) _ k(1)] by (auto simp: Serve_def split: sum.splits)
qed

end

end
