(* ===== verification/Sidecar_Main.thy ===== *)
theory Sidecar_Main
  imports Sidecar_Server Revocation Key_Source Cp_Client Credential
begin

text \<open>
  apps/sidecar/cmd/sidecar/main.go: the start of the sidecar. The process is a record of what
  its start calls (the environment, the home directory, the network, the keychain of macOS, the
  log) beside the host of the server. A call of \<open>log.Fatal\<close> is the error it prints: nothing of
  the process is left to return to.

  The key cache, the policy engine and the revocation checker are objects with a state; the
  started server runs over that state beside the one of the world.
\<close>

section \<open>The process\<close>

text \<open>\<open>d_keychain\<close>: the command \<open>security\<close> and the path of the binary on macOS, none elsewhere.\<close>

record 'w process =
  d_host :: "'w host"
  d_env :: "string \<Rightarrow> string"
  d_UserHomeDir :: "'w \<Rightarrow> string result"
  d_ParseDuration :: "string \<Rightarrow> int result"
  d_Do :: "'w transport"
  d_crypto :: crypto
  d_IsNotExist :: "go_error \<Rightarrow> bool"
  d_keychain :: "('w security \<times> string) option"
  d_Printf :: "string \<Rightarrow> 'w \<Rightarrow> 'w"

text \<open>Nothing sets a variable of the environment.\<close>

definition d_Getenv :: "'w process \<Rightarrow> 'w getenv" where
  "d_Getenv D k w = d_env D k"

definition envOr :: "'w process \<Rightarrow> string \<Rightarrow> string \<Rightarrow> 'w \<Rightarrow> string" where
  "envOr D k def w = (let v = d_Getenv D k w in if v \<noteq> [] then v else def)"

definition envDuration :: "'w process \<Rightarrow> string \<Rightarrow> int \<Rightarrow> 'w \<Rightarrow> int" where
  "envDuration D k def w =
     (let v = d_Getenv D k w in
      if v \<noteq> [] then (case d_ParseDuration D v of Inr d \<Rightarrow> d | Inl _ \<Rightarrow> def) else def)"

definition Minute :: int where "Minute = 60 * Second"

definition under_home :: "'w process \<Rightarrow> string list \<Rightarrow> string list \<Rightarrow> 'w \<Rightarrow> string" where
  "under_home D inside otherwise w =
     (case d_UserHomeDir D w of
        Inl _ \<Rightarrow> Join (TempDir (h_os (d_host D)) w # otherwise)
      | Inr h \<Rightarrow> Join (h # inside))"

definition defaultFolderRoot :: "'w process \<Rightarrow> 'w \<Rightarrow> string" where
  "defaultFolderRoot D = under_home D [''.safekeys'', ''folder''] [''safekeys'', ''folder'']"

definition defaultKeystorePath :: "'w process \<Rightarrow> 'w \<Rightarrow> string" where
  "defaultKeystorePath D = under_home D [''.safekeys'', ''kek''] [''safekeys'', ''kek'']"

text \<open>\<open>apiKey\<close> ends the process when its configured source fails.\<close>

definition apiKey :: "'w process \<Rightarrow> 'w \<Rightarrow> string result" where
  "apiKey D w =
     (case FromEnv (d_Getenv D) (h_fs (d_host D)) ''SAFEKEYS_API_KEY'' ''SAFEKEYS_API_KEY_FILE'' w of
        (_, _, Some err) \<Rightarrow> Inl (Err (''sidecar: '' @ Error err))
      | (v, _, None) \<Rightarrow> Inr v)"

section \<open>The flags\<close>

record flags =
  fl_socket :: string
  fl_socketGrp :: string
  fl_folderDir :: string
  fl_audience :: string
  fl_keyPath :: string
  fl_vaultAddr :: string
  fl_vaultTok :: string
  fl_vaultMount :: string
  fl_vaultKID :: string

text \<open>\<open>flag.Parse\<close>: the value a flag is given last on the command line, else its default.\<close>

definition flag_String :: "(string \<times> string) list \<Rightarrow> string \<Rightarrow> string \<Rightarrow> string" where
  "flag_String given name def = (case map_of (rev given) name of Some v \<Rightarrow> v | None \<Rightarrow> def)"

definition parse_flags :: "'w process \<Rightarrow> (string \<times> string) list \<Rightarrow> 'w \<Rightarrow> flags" where
  "parse_flags D given w =
     \<lparr>fl_socket = flag_String given ''socket'' (envOr D ''SAFEKEYS_SOCKET'' ''/run/safekeys/sidecar.sock'' w),
      fl_socketGrp = flag_String given ''socket-group'' (d_Getenv D ''SAFEKEYS_SOCKET_GROUP'' w),
      fl_folderDir = flag_String given ''folder'' (envOr D ''SAFEKEYS_FOLDER'' (defaultFolderRoot D w) w),
      fl_audience = flag_String given ''audience'' (envOr D ''SAFEKEYS_AUDIENCE'' ''env-local'' w),
      fl_keyPath = flag_String given ''keystore'' (envOr D ''SAFEKEYS_KEYSTORE'' (defaultKeystorePath D w) w),
      fl_vaultAddr = flag_String given ''vault-addr'' (d_Getenv D ''SAFEKEYS_VAULT_ADDR'' w),
      fl_vaultTok = flag_String given ''vault-token'' (d_Getenv D ''SAFEKEYS_VAULT_TOKEN'' w),
      fl_vaultMount = flag_String given ''vault-mount'' (envOr D ''SAFEKEYS_VAULT_MOUNT'' ''transit'' w),
      fl_vaultKID = flag_String given ''vault-kid'' (envOr D ''SAFEKEYS_VAULT_KID'' ''kek-1'' w)\<rparr>"

definition production_settings :: "'w process \<Rightarrow> flags \<Rightarrow> 'w \<Rightarrow> (bool \<times> string) list" where
  "production_settings D fl w =
     [(fl_vaultAddr fl = [], ''no key store configured; set SAFEKEYS_VAULT_ADDR so the KEK never leaves the store''),
      (d_Getenv D ''SAFEKEYS_ALLOW_INSECURE_KEYSTORE'' w = ''1'',
       ''SAFEKEYS_ALLOW_INSECURE_KEYSTORE is set; the KEK must live in the key store''),
      (d_Getenv D ''SAFEKEYS_REVOCATION_OFFLINE'' w = ''1'',
       ''SAFEKEYS_REVOCATION_OFFLINE is set; revocation must be checked on every resolve''),
      (d_Getenv D ''SAFEKEYS_VAULT_TOKEN'' w \<noteq> [] \<and> d_Getenv D ''SAFEKEYS_VAULT_TOKEN_FILE'' w = [],
       ''key store token supplied via the environment; mount it as a file and set SAFEKEYS_VAULT_TOKEN_FILE'')]"

section \<open>The key store\<close>

text \<open>\<open>protocol.KeyWrapper\<close>, by the store behind it. The key of a local store is in memory.\<close>

datatype key_wrapping = In_vault Vault | In_keychain Keychain | In_file Local

definition store_Wrap ::
  "'w process \<Rightarrow> memory \<Rightarrow> key_wrapping \<Rightarrow> string \<Rightarrow> bytes \<Rightarrow> 'w \<Rightarrow> string result \<times> 'w"
where
  "store_Wrap D m st =
     (let C = h_ciphers (d_host D); rand = h_rand (d_host D) in
      case st of
        In_vault v \<Rightarrow> Vault_Wrap (d_Do D) v
      | In_keychain k \<Rightarrow> Keychain_Wrap C rand m k
      | In_file l \<Rightarrow> Local_Wrap C rand m l)"

definition store_Unwrap ::
  "'w process \<Rightarrow> memory \<Rightarrow> key_wrapping \<Rightarrow> string \<Rightarrow> string \<Rightarrow> 'w \<Rightarrow> bytes result \<times> 'w"
where
  "store_Unwrap D m st =
     (let C = h_ciphers (d_host D) in
      case st of
        In_vault v \<Rightarrow> Vault_Unwrap (d_Do D) v
      | In_keychain k \<Rightarrow> Keychain_Unwrap C m k
      | In_file l \<Rightarrow> Local_Unwrap C m l)"

text \<open>The cleanup that \<open>run\<close> defers.\<close>

definition store_Close :: "key_wrapping \<Rightarrow> memory \<Rightarrow> memory" where
  "store_Close st m =
     (case st of
        In_vault _ \<Rightarrow> m
      | In_keychain k \<Rightarrow> snd (Keychain_Close k m)
      | In_file l \<Rightarrow> snd (Local_Close l m))"

definition keychain_service :: string where "keychain_service = ''safekeys''"

definition open_keychain :: "'w process \<Rightarrow> memory \<Rightarrow> 'w \<Rightarrow> Keychain result \<times> memory \<times> 'w" where
  "open_keychain D m w =
     (case d_keychain D of
        None \<Rightarrow> (case NewKeychain_other keychain_service of Inl e \<Rightarrow> (Inl e, m, w) | Inr _ \<Rightarrow> (Inl (Err []), m, w))
      | Some (run, exe) \<Rightarrow> NewKeychain run (h_rand (d_host D)) keychain_service None exe m w)"

definition openKeystore ::
  "'w process \<Rightarrow> flags \<Rightarrow> string \<Rightarrow> memory \<Rightarrow> 'w \<Rightarrow> (key_wrapping \<times> string) result \<times> memory \<times> 'w"
where
  "openKeystore D fl vaultToken m w =
     (if fl_vaultAddr fl \<noteq> [] then
        let v = NewVault (fl_vaultAddr fl) vaultToken (fl_vaultMount fl) in
        (case Vault_Healthy (d_Do D) v w of
           (Inl e, w) \<Rightarrow> (Inl (wrapped_error (''vault at '' @ fl_vaultAddr fl @ '' is not reachable or is sealed: '') e), m, w)
         | (Inr _, w) \<Rightarrow> (Inr (In_vault v, fl_vaultKID fl), m, w))
      else if d_Getenv D ''SAFEKEYS_KEYCHAIN'' w = ''1'' then
        (case open_keychain D m w of
           (Inl e, m, w) \<Rightarrow> (Inl e, m, w)
         | (Inr k, m, w) \<Rightarrow> (Inr (In_keychain k, envOr D ''SAFEKEYS_KID'' ''kek-keychain-1'' w), m, w))
      else
        (case NewLocal (h_fs (d_host D)) (d_IsNotExist D) (h_rand (d_host D)) (d_Getenv D) (fl_keyPath fl) m w of
           (Inl e, m, w) \<Rightarrow> (Inl e, m, w)
         | (Inr l, m, w) \<Rightarrow> (Inr (In_file l, envOr D ''SAFEKEYS_KID'' ''kek-local-1'' w), m, w)))"

section \<open>The verifier, the policy and the revocation checker\<close>

definition control_plane_URL :: "'w process \<Rightarrow> 'w \<Rightarrow> string" where
  "control_plane_URL D = envOr D ''SAFEKEYS_CONTROL_PLANE_URL'' ''http://localhost:8080''"

definition key_fetch :: "'w process \<Rightarrow> string \<Rightarrow> 'w key_fetcher" where
  "key_fetch D base = keys_Fetch (d_Do D) base"

definition static_keys :: "bytes \<Rightarrow> key_cache result" where
  "static_keys raw =
     (case Option.bind (Unmarshal raw) jwks_of_json of
        None \<Rightarrow> Inl (Err ''parse SAFEKEYS_VERIFY_KEYS: json'')
      | Some jwks \<Rightarrow>
          (case NewFromKeys (jwks_Keys jwks) of
             Inl e \<Rightarrow> Inl (wrapped_error ''static keys: '' e)
           | Inr v \<Rightarrow> Inr v))"

definition openVerifier :: "'w process \<Rightarrow> 'w \<Rightarrow> key_cache result \<times> 'w" where
  "openVerifier D w =
     (let path = d_Getenv D ''SAFEKEYS_VERIFY_KEYS'' w; base = control_plane_URL D w in
      if path \<noteq> [] then
        (case ReadFile (h_fs (d_host D)) path w of
           Inl e \<Rightarrow> (Inl (wrapped_error ''read SAFEKEYS_VERIFY_KEYS: '' e), w)
         | Inr raw \<Rightarrow> (static_keys raw, w))
      else
        (case New_key_cache (key_fetch D base) (h_Now (d_host D))
                (envDuration D ''SAFEKEYS_KEY_CACHE_TTL'' (5 * Minute) w) w of
           (Inl e, w) \<Rightarrow> (Inl (wrapped_error (''fetch verification keys from '' @ base @ '': '') e), w)
         | (Inr v, w) \<Rightarrow> (Inr v, w)))"

text \<open>\<open>revocationChecker\<close>: none is \<open>offlineRevocation\<close>, for which nothing is revoked.\<close>

definition revocationChecker :: "'w process \<Rightarrow> 'w \<Rightarrow> ControlPlaneChecker option result" where
  "revocationChecker D w =
     (if d_Getenv D ''SAFEKEYS_REVOCATION_OFFLINE'' w = ''1'' then Inr None
      else
        (case apiKey D w of
           Inl e \<Rightarrow> Inl e
         | Inr key \<Rightarrow>
             Inr (Some (New_checker (control_plane_URL D w) key
               \<lparr>rc_NegativeTTL := envDuration D ''SAFEKEYS_REVOCATION_NEGATIVE_TTL'' 0 w\<rparr>))))"

definition static_policy :: "bytes \<Rightarrow> engine result" where
  "static_policy raw =
     (case Option.bind (Unmarshal raw) (\<lambda>v. map_option (case_option [] id) (dec_slice rule_of_json v)) of
        None \<Rightarrow> Inl (Err ''sidecar: parse SAFEKEYS_POLICY_FILE: json'')
      | Some rules \<Rightarrow> Inr (NewFromRules rules))"

text \<open>The engine, with the address and the key it fetches its rules with.\<close>

definition openPolicy :: "'w process \<Rightarrow> 'w \<Rightarrow> (engine \<times> string \<times> string) result \<times> 'w" where
  "openPolicy D w =
     (let path = d_Getenv D ''SAFEKEYS_POLICY_FILE'' w; base = control_plane_URL D w in
      if path \<noteq> [] then
        (case ReadFile (h_fs (d_host D)) path w of
           Inl e \<Rightarrow> (Inl (wrapped_error ''sidecar: read SAFEKEYS_POLICY_FILE: '' e), w)
         | Inr raw \<Rightarrow>
             (case static_policy raw of
                Inl e \<Rightarrow> (Inl e, w)
              | Inr e \<Rightarrow> (Inr (e, [], []), w)))
      else
        (case apiKey D w of
           Inl e \<Rightarrow> (Inl e, w)
         | Inr key \<Rightarrow>
             (case New_engine (HTTP_Fetch (d_Do D) base key) (h_Now (d_host D))
                     (envDuration D ''SAFEKEYS_POLICY_CACHE_TTL'' Minute w) w of
                (Inl e, w) \<Rightarrow> (Inl (wrapped_error (''sidecar: load resolve-time policy from '' @ base @ '': '') e), w)
              | (Inr e, w) \<Rightarrow> (Inr (e, base, key), w))))"

section \<open>The started process\<close>

text \<open>The state of the objects of the start, with the world.\<close>

record 'w running =
  ru_keys :: key_cache
  ru_policy :: engine
  ru_checker :: "ControlPlaneChecker option"
  ru_world :: 'w

definition on_world :: "('w \<Rightarrow> 'a \<times> 'w) \<Rightarrow> 'w running \<Rightarrow> 'a \<times> 'w running" where
  "on_world f r = (case f (ru_world r) of (a, w) \<Rightarrow> (a, r\<lparr>ru_world := w\<rparr>))"

definition to_world :: "('w \<Rightarrow> 'w) \<Rightarrow> 'w running \<Rightarrow> 'w running" where
  "to_world f r = r\<lparr>ru_world := f (ru_world r)\<rparr>"

definition os_within :: "'w os_calls \<Rightarrow> 'w running os_calls" where
  "os_within os =
     \<lparr>LookupEnv = (\<lambda>k r. LookupEnv os k (ru_world r)), TempDir = (\<lambda>r. TempDir os (ru_world r)),
      CreateTemp = (\<lambda>d p. on_world (CreateTemp os d p)), Chmod = (\<lambda>p n. on_world (Chmod os p n)),
      WriteOpen = (\<lambda>p b. on_world (WriteOpen os p b)), CloseOpen = (\<lambda>p. on_world (CloseOpen os p)),
      os_Remove = (\<lambda>p. to_world (os_Remove os p)), Start = (\<lambda>c. on_world (Start os c)),
      Wait = (\<lambda>n. on_world (Wait os n))\<rparr>"

definition files_within :: "'w files \<Rightarrow> 'w running files" where
  "files_within fs =
     \<lparr>ReadFile = (\<lambda>p r. ReadFile fs p (ru_world r)), Stat = (\<lambda>p r. Stat fs p (ru_world r)),
      MkdirAll = (\<lambda>p n. on_world (MkdirAll fs p n)), WriteFile = (\<lambda>p b n. on_world (WriteFile fs p b n)),
      Remove = (\<lambda>p. on_world (Remove fs p))\<rparr>"

definition host_within :: "'w host \<Rightarrow> 'w running host" where
  "host_within H =
     \<lparr>h_os = os_within (h_os H), h_fs = files_within (h_fs H), h_ciphers = h_ciphers H,
      h_rand = (\<lambda>n. on_world (h_rand H n)), h_Now = (\<lambda>r. h_Now H (ru_world r)),
      h_RFC3339 = (\<lambda>r. h_RFC3339 H (ru_world r)), h_Hostname = (\<lambda>r. h_Hostname H (ru_world r)),
      h_Dial = (\<lambda>p. on_world (h_Dial H p)), h_Listen = (\<lambda>p. on_world (h_Listen H p)),
      h_CloseListener = to_world (h_CloseListener H), h_Chown = (\<lambda>p u g. on_world (h_Chown H p u g)),
      h_LookupGroup = (\<lambda>g r. h_LookupGroup H g (ru_world r))\<rparr>"

section \<open>The collaborators of the server\<close>

definition running_Verify :: "'w process \<Rightarrow> string \<Rightarrow> string \<Rightarrow> 'w running \<Rightarrow> Header result \<times> 'w running" where
  "running_Verify D base jws r =
     (case kv_Verify (d_crypto D) (key_fetch D base) (h_Now (d_host D)) jws (ru_keys r, ru_world r) of
        (h, keys, w) \<Rightarrow> (h, r\<lparr>ru_keys := keys, ru_world := w\<rparr>))"

definition running_Revoked :: "'w process \<Rightarrow> string \<Rightarrow> 'w running \<Rightarrow> (bool \<times> go_error option) \<times> 'w running" where
  "running_Revoked D jti r =
     (case ru_checker r of
        None \<Rightarrow> ((False, None), r)
      | Some c \<Rightarrow>
          (case IsRevoked (d_Do D) (h_Now (d_host D)) jti c (ru_world r) of
             (answer, c, w) \<Rightarrow> (answer, r\<lparr>ru_checker := Some c, ru_world := w\<rparr>)))"

definition running_Allow ::
  "'w process \<Rightarrow> string \<Rightarrow> string \<Rightarrow> policy_query \<Rightarrow> 'w running \<Rightarrow> (bool \<times> string) \<times> 'w running"
where
  "running_Allow D base key q r =
     (case Allow (HTTP_Fetch (d_Do D) base key) (h_Now (d_host D)) q (ru_policy r) (ru_world r) of
        (answer, e, w) \<Rightarrow> (answer, r\<lparr>ru_policy := e, ru_world := w\<rparr>))"

definition audit_line :: "AuditRecord \<Rightarrow> string" where
  "audit_line e =
     ''audit event='' @ ar_Event e @ '' outcome='' @ ar_Outcome e @ '' sid='' @ ar_SID e @ '' jti='' @ ar_JTI e
       @ '' scope='' @ ar_Scope e @ '' reason='' @ ar_Reason e @ '' host='' @ ar_Host e"

definition logAuditor :: "'w process \<Rightarrow> AuditRecord \<Rightarrow> 'w running \<Rightarrow> 'w running" where
  "logAuditor D e = to_world (d_Printf D (audit_line e))"

text \<open>The two clients of the control plane: without its address there is neither.\<close>

definition control_plane_client :: "'w process \<Rightarrow> 'w \<Rightarrow> Client option result" where
  "control_plane_client D w =
     (let base = d_Getenv D ''SAFEKEYS_CONTROL_PLANE_URL'' w in
      if base = [] then Inr None
      else (case apiKey D w of Inl e \<Rightarrow> Inl e | Inr key \<Rightarrow> Inr (Some (New_Client base key))))"

definition proxy_of :: "'w process \<Rightarrow> Client \<Rightarrow> 'w running Proxy" where
  "proxy_of D c =
     \<lparr>px_ListObjects = (\<lambda>who. on_world (client_ListObjects (d_Do D) c who)),
      px_RevokeToken = (\<lambda>jti. on_world (client_RevokeToken (d_Do D) c jti))\<rparr>"

definition registryFor :: "'w process \<Rightarrow> 'w \<Rightarrow> 'w running Proxy option result" where
  "registryFor D w = map_sum id (map_option (proxy_of D)) (control_plane_client D w)"

definition creator_of ::
  "'w process \<Rightarrow> memory \<Rightarrow> key_wrapping \<Rightarrow> string \<Rightarrow> string \<Rightarrow> 'w \<Rightarrow> Client \<Rightarrow> 'w running Creator"
where
  "creator_of D m st kid folderRoot w c =
     \<lparr>cr_Wrapper = Some (\<lambda>k dek. on_world (store_Wrap D m st k dek)), cr_KID = kid,
      cr_Registry = Some \<lparr>rg_CreateObject = (\<lambda>ob. on_world (client_CreateObject (d_Do D) c ob)),
                          rg_IssueToken = (\<lambda>sid scope aud ttl who.
                            on_world (client_IssueToken (d_Do D) c sid scope aud ttl who))\<rparr>,
      cr_FolderRoot = folderRoot, cr_DefaultPrincipal = envOr D ''SAFEKEYS_PRINCIPAL'' ''operator'' w,
      cr_DefaultAudience = envOr D ''SAFEKEYS_AUDIENCE'' ''env-local'' w\<rparr>"

definition creatorFor ::
  "'w process \<Rightarrow> memory \<Rightarrow> key_wrapping \<Rightarrow> string \<Rightarrow> string \<Rightarrow> 'w \<Rightarrow> 'w running Creator option result"
where
  "creatorFor D m st kid folderRoot w =
     map_sum id (map_option (creator_of D m st kid folderRoot w)) (control_plane_client D w)"

section \<open>Starting and serving\<close>

text \<open>
  The configuration: \<open>base\<close> is where the keys are fetched, \<open>rules\<close> the address and the key for
  the rules. No peer group is configured, and the output of a command is captured.
\<close>

definition sidecar_config ::
  "'w process \<Rightarrow> flags \<Rightarrow> string \<Rightarrow> string \<times> string \<Rightarrow> memory \<Rightarrow> key_wrapping
    \<Rightarrow> 'w running Creator option \<Rightarrow> 'w running Proxy option \<Rightarrow> 'w \<Rightarrow> 'w running Config"
where
  "sidecar_config D fl base rules m st creator registry w =
     \<lparr>sc_SocketPath = fl_socket fl, sc_SocketGroup = fl_socketGrp fl, sc_SocketMode = 0, sc_PeerGroup = [],
      sc_Audience = fl_audience fl, sc_Verify = running_Verify D base, sc_Revoked = Some (running_Revoked D),
      sc_Policy = Some (running_Allow D (fst rules) (snd rules)),
      sc_Load = (\<lambda>sid r. (Load (h_fs (d_host D)) (fl_folderDir fl) sid (ru_world r), r)),
      sc_Unwrap = Some (\<lambda>kid wrapped. on_world (store_Unwrap D m st kid wrapped)),
      sc_Auditor = Some (logAuditor D), sc_HostName = h_Hostname (d_host D) w,
      sc_Injector = Some (NewExecInjector\<lparr>in_Capture := True\<rparr>), sc_Creator = creator, sc_Registry = registry\<rparr>"

text \<open>The fields of the configuration that can end the process, in their order.\<close>

definition collaborators ::
  "'w process \<Rightarrow> flags \<Rightarrow> memory \<Rightarrow> key_wrapping \<Rightarrow> string \<Rightarrow> key_cache \<Rightarrow> 'w
    \<Rightarrow> ('w running Config \<times> 'w running) result \<times> 'w"
where
  "collaborators D fl m st kid keys w =
     (let base = control_plane_URL D w in
      case revocationChecker D w of
        Inl e \<Rightarrow> (Inl e, w)
      | Inr checker \<Rightarrow>
          (case openPolicy D w of
             (Inl e, w) \<Rightarrow> (Inl e, w)
           | (Inr (engine, rules), w) \<Rightarrow>
               (case creatorFor D m st kid (fl_folderDir fl) w of
                  Inl e \<Rightarrow> (Inl e, w)
                | Inr creator \<Rightarrow>
                    (case registryFor D w of
                       Inl e \<Rightarrow> (Inl e, w)
                     | Inr registry \<Rightarrow>
                         (Inr (sidecar_config D fl base rules m st creator registry w,
                            \<lparr>ru_keys = keys, ru_policy = engine, ru_checker = checker, ru_world = w\<rparr>), w)))))"

text \<open>What a start hands to the accept loop: the configuration, the open key store and the state.\<close>

definition started ::
  "'w process \<Rightarrow> flags \<Rightarrow> string \<Rightarrow> memory \<Rightarrow> 'w
    \<Rightarrow> ('w running Config \<times> key_wrapping \<times> 'w running) result \<times> memory \<times> 'w"
where
  "started D fl vaultTok m w =
     (case openVerifier D w of
        (Inl e, w) \<Rightarrow> (Inl e, m, w)
      | (Inr keys, w) \<Rightarrow>
          (case openKeystore D fl vaultTok m w of
             (Inl e, m, w) \<Rightarrow> (Inl e, m, w)
           | (Inr (st, kid), m, w) \<Rightarrow>
               (case collaborators D fl m st kid keys w of
                  (Inl e, w) \<Rightarrow> (Inl e, m, w)
                | (Inr (cfg, r), w) \<Rightarrow> (Inr (cfg, st, r), m, w))))"

definition sidecar_start ::
  "'w process \<Rightarrow> (string \<times> string) list \<Rightarrow> memory \<Rightarrow> 'w
    \<Rightarrow> ('w running Config \<times> key_wrapping \<times> 'w running) result \<times> memory \<times> 'w"
where
  "sidecar_start D given m w =
     (let fl = parse_flags D given w in
      case Fail (refuse_all (d_Getenv D) w (production_settings D fl w) zero_check) of
        Some e \<Rightarrow> (Inl e, m, w)
      | None \<Rightarrow>
          (case FromEnv (d_Getenv D) (h_fs (d_host D)) ''SAFEKEYS_VAULT_TOKEN'' ''SAFEKEYS_VAULT_TOKEN_FILE'' w of
             (_, _, Some e) \<Rightarrow> (Inl e, m, w)
           | (tok, _, None) \<Rightarrow> started D fl (if tok \<noteq> [] then tok else fl_vaultTok fl) m w))"

text \<open>\<open>run\<close>: the server over what the start opened, and the store closed when it returns.\<close>

definition started_server :: "'w process \<Rightarrow> 'w running Config \<Rightarrow> 'w running \<Rightarrow> 'w running Sidecar" where
  "started_server D cfg r = SetLogger (\<lambda>msg. to_world (d_Printf D msg)) (New_sidecar (host_within (d_host D)) cfg r)"

definition sidecar_run ::
  "'w process \<Rightarrow> (string \<times> string) list \<Rightarrow> arrival list \<Rightarrow> memory \<Rightarrow> 'w
    \<Rightarrow> (go_error option \<times> bytes option list \<times> memory \<times> 'w) option"
where
  "sidecar_run D given arrivals m w =
     (case sidecar_start D given m w of
        (Inl e, m, w) \<Rightarrow> Some (Some e, [], m, w)
      | (Inr (cfg, st, r), m, _) \<Rightarrow>
          (case Serve (host_within (d_host D)) arrivals (started_server D cfg r) m r of
             None \<Rightarrow> None
           | Some (err, outs, m, _, r) \<Rightarrow> Some (err, outs, store_Close st m, ru_world r)))"

end
