(* ===== verification/Sidecar_Start.thy ===== *)
theory Sidecar_Start
  imports Sidecar_Main Sidecar_Frame Sidecar_System
begin

text \<open>
  What holds of a sidecar that its main function started: the guards of production, and what the
  running server keeps of its keys, its policy and the revocations it has learned of.
\<close>

section \<open>The parts beside the world\<close>

text \<open>A predicate that looks at the keys, the policy and the checker only.\<close>

definition parts_only :: "('w running \<Rightarrow> bool) \<Rightarrow> bool" where
  "parts_only P \<longleftrightarrow> (\<forall>r w. P r \<longrightarrow> P (r\<lparr>ru_world := w\<rparr>))"

lemma parts_only_keeps:
  assumes "parts_only P"
  shows "keeps P (on_world f)" and "keeps_effect P (to_world g)"
  using assms by (auto simp: parts_only_def keeps_def on_world_def keeps_effect_def to_world_def split: prod.split)

lemma host_within_keeps: "parts_only P \<Longrightarrow> host_keeps P (host_within H)"
  by (simp add: host_keeps_def os_keeps_def files_keep_def host_within_def os_within_def files_within_def parts_only_keeps)

lemma sidecar_config_keeps:
  assumes "parts_only P" and "\<And>jws. keeps P (running_Verify D base jws)" and "\<And>jti. keeps P (running_Revoked D jti)"
    and "\<And>q. keeps P (running_Allow D (fst rules) (snd rules) q)"
  shows "config_keeps P (sidecar_config D fl base rules m st (map_option (creator_of D m' st kid root w') co)
    (map_option (proxy_of D) ro) w)"
proof -
  have "keeps P (\<lambda>r. (Load fs root sid (ru_world r), r))" for fs :: "'a files" and root sid by (simp add: keeps_def)
  then show ?thesis
    using assms(2-4)
    by (simp add: parts_only_keeps [OF assms(1)] config_keeps_def sidecar_config_def creator_keeps_def creator_of_def
      proxy_of_def logAuditor_def split: option.split)
qed

text \<open>What a started sidecar knows of a token, and keys and rules that came from files.\<close>

definition knows_revoked :: "string \<Rightarrow> 'w running \<Rightarrow> bool" where
  "knows_revoked jti r \<longleftrightarrow>
     (case ru_checker r of
        None \<Rightarrow> False
      | Some c \<Rightarrow> rc_cache c jti = Some \<lparr>ce_revoked = True, ce_expires = None\<rparr>)"

definition static_parts :: "key_cache \<Rightarrow> engine \<Rightarrow> 'w running \<Rightarrow> bool" where
  "static_parts keys e r \<longleftrightarrow>
     ru_keys r = keys \<and> ru_policy r = e \<and> \<not> kv_hasFetcher keys \<and> \<not> e_hasFetcher e"

lemma parts_only_facts: "parts_only (knows_revoked jti)" "parts_only (static_parts keys e)"
  by (simp_all add: parts_only_def knows_revoked_def static_parts_def)

lemma knows_revoked_keeps:
  "keeps (knows_revoked jti) (running_Verify D base jws)"
  "keeps (knows_revoked jti) (running_Allow D b k q)"
  "keeps (knows_revoked jti) (running_Revoked D jti')"
proof -
  show "keeps (knows_revoked jti) (running_Verify D base jws)" "keeps (knows_revoked jti) (running_Allow D b k q)"
    by (auto simp: keeps_def running_Verify_def running_Allow_def knows_revoked_def split: prod.split)
  show "keeps (knows_revoked jti) (running_Revoked D jti')"
    using IsRevoked_keeps_permanent
    by (fastforce simp: keeps_def running_Revoked_def knows_revoked_def split: prod.split option.splits)
qed

lemma static_kv_refresh: "\<not> kv_hasFetcher v \<Longrightarrow> kv_refresh fetch clock v w = (Inl (Err ''keys: no fetcher configured''), v, w)"
  by (simp add: kv_refresh_def)

lemma static_keySet: "\<not> kv_hasFetcher v \<Longrightarrow> snd (keySet fetch clock v w) = (v, w)"
  by (simp add: keySet_def static_kv_refresh split: option.split)

lemma static_Verify:
  assumes "\<not> kv_hasFetcher v"
  shows "snd (kv_Verify C fetch clock jws (v, w)) = (v, w)"
proof -
  obtain x where "keySet fetch clock v w = (x, v, w)" using static_keySet [OF assms, of fetch clock w] by (metis prod.collapse)
  then show ?thesis
    by (simp add: kv_Verify_def kv_VerifyWith_def static_kv_refresh [OF assms] split: sum.split)
qed

lemma static_Allow: "\<not> e_hasFetcher e \<Longrightarrow> snd (Allow fetch clock q e w) = (e, w)"
  by (auto simp: Allow_def current_def refresh_def split: prod.splits sum.splits option.splits if_splits)

lemma static_parts_keeps:
  "keeps (static_parts keys e) (running_Verify D base jws)"
  "keeps (static_parts keys e) (running_Allow D b k q)"
  "keeps (static_parts keys e) (running_Revoked D jti')"
proof -
  show "keeps (static_parts keys e) (running_Verify D base jws)"
    by (auto simp: keeps_def running_Verify_def static_parts_def split: prod.split dest: static_Verify) (metis static_Verify prod.sel)+
  show "keeps (static_parts keys e) (running_Allow D b k q)"
    by (auto simp: keeps_def running_Allow_def static_parts_def split: prod.split) (metis static_Allow prod.sel)+
  show "keeps (static_parts keys e) (running_Revoked D jti')"
    by (auto simp: keeps_def running_Revoked_def static_parts_def split: prod.split option.split)
qed

interpretation revoked: undisturbed "knows_revoked jti" "host_within H"
    "sidecar_config D fl base rules m st (map_option (creator_of D m' st kid root w') co) (map_option (proxy_of D) ro) w"
  by unfold_locales (intro host_within_keeps sidecar_config_keeps parts_only_facts knows_revoked_keeps)+

interpretation static: undisturbed "static_parts keys e" "host_within H"
    "sidecar_config D fl base rules m st (map_option (creator_of D m' st kid root w') co) (map_option (proxy_of D) ro) w"
  by unfold_locales (intro host_within_keeps sidecar_config_keeps parts_only_facts static_parts_keeps)+

section \<open>What a start returns\<close>

lemma openKeystore_vault:
  "openKeystore D fl tok m w = (Inr (st, kid), m', w') \<Longrightarrow> fl_vaultAddr fl \<noteq> [] \<Longrightarrow>
    st = In_vault (NewVault (fl_vaultAddr fl) tok (fl_vaultMount fl)) \<and> m' = m"
  by (auto simp: openKeystore_def Let_def split: prod.splits sum.splits)

lemma collaborators_Inr:
  assumes "collaborators D fl m st kid keys w = (Inr (cfg, r), w')"
  shows "\<exists>rules co ro w1. cfg = sidecar_config D fl (control_plane_URL D w) rules m st
      (map_option (creator_of D m st kid (fl_folderDir fl) w1) co) (map_option (proxy_of D) ro) w1 \<and>
    control_plane_client D w1 = Inr co \<and> control_plane_client D w1 = Inr ro \<and>
    ru_keys r = keys \<and> revocationChecker D w = Inr (ru_checker r) \<and>
    openPolicy D w = (Inr (ru_policy r, rules), w1)"
  using assms
  by (fastforce simp: collaborators_def Let_def creatorFor_def registryFor_def map_sum_def
      split: sum.splits prod.splits)

lemma sidecar_start_Inr:
  assumes "sidecar_start D given m w = (Inr (cfg, st, r), m', w')"
  shows "Fail (refuse_all (d_Getenv D) w (production_settings D (parse_flags D given w) w) zero_check) = None"
    and "\<exists>tok kid keys w1 w2. openVerifier D w = (Inr keys, w1) \<and>
      openKeystore D (parse_flags D given w) tok m w1 = (Inr (st, kid), m', w2) \<and>
      collaborators D (parse_flags D given w) m' st kid keys w2 = (Inr (cfg, r), w')"
  using assms by (auto simp: sidecar_start_def started_def Let_def split: option.splits prod.splits sum.splits)

lemma revocationChecker_online:
  "revocationChecker D w = Inr c \<Longrightarrow> d_env D ''SAFEKEYS_REVOCATION_OFFLINE'' \<noteq> ''1'' \<Longrightarrow> c \<noteq> None"
  by (auto simp: revocationChecker_def d_Getenv_def split: sum.splits)

text \<open>
  C17. A sidecar that starts in production keeps its key-encryption key in the vault at the address
  it was given, checks revocation, was not told to allow a key file, and found no vault token in
  the environment without a token file.
\<close>

theorem production_start_is_guarded:
  "case sidecar_start D given m w of
     (Inl _, _) \<Rightarrow> True
   | (Inr (cfg, st, r), _) \<Rightarrow>
       let fl = parse_flags D given w in
       if IsProduction (d_Getenv D) w then
         fl_vaultAddr fl \<noteq> [] \<and> (\<exists>tok. st = In_vault (NewVault (fl_vaultAddr fl) tok (fl_vaultMount fl))) \<and>
         ru_checker r \<noteq> None \<and> d_env D ''SAFEKEYS_ALLOW_INSECURE_KEYSTORE'' \<noteq> ''1'' \<and>
         (if d_env D ''SAFEKEYS_VAULT_TOKEN_FILE'' = [] then d_env D ''SAFEKEYS_VAULT_TOKEN'' = [] else True)
       else True"
proof -
  let ?fl = "parse_flags D given w"
  have "fl_vaultAddr ?fl \<noteq> [] \<and> (\<exists>tok. st = In_vault (NewVault (fl_vaultAddr ?fl) tok (fl_vaultMount ?fl))) \<and>
      ru_checker r \<noteq> None \<and> d_env D ''SAFEKEYS_ALLOW_INSECURE_KEYSTORE'' \<noteq> ''1'' \<and>
      (d_env D ''SAFEKEYS_VAULT_TOKEN_FILE'' = [] \<longrightarrow> d_env D ''SAFEKEYS_VAULT_TOKEN'' = [])"
    if p: "IsProduction (d_Getenv D) w" and s: "sidecar_start D given m w = (Inr (cfg, st, r), m', w')" for cfg st r m' w'
  proof -
    have l: "list_all (\<lambda>s. \<not> fst s) (production_settings D ?fl w)"
      using sidecar_start_Inr(1) [OF s] p by (simp add: refuse_all_passes)
    obtain tok kid keys w1 w2 where o: "openKeystore D ?fl tok m w1 = (Inr (st, kid), m', w2)"
      and c: "collaborators D ?fl m' st kid keys w2 = (Inr (cfg, r), w')"
      using sidecar_start_Inr(2) [OF s] by blast
    have "revocationChecker D w2 = Inr (ru_checker r)" using collaborators_Inr [OF c] by blast
    then show ?thesis using l openKeystore_vault [OF o] revocationChecker_online
      by (auto simp: production_settings_def d_Getenv_def)
  qed
  then show ?thesis by (auto simp: Let_def split: sum.split prod.split)
qed

text \<open>
  A start that production refuses ends before anything is touched, whatever else is configured: the
  memory and the world, the network and the files in it, are as they were, and the error lists
  the reason of every setting that is refused, in their order.
\<close>

theorem refused_start_touches_nothing:
  "let refused = map snd (filter fst (production_settings D (parse_flags D given w) w)) in
   if IsProduction (d_Getenv D) w \<and> refused \<noteq> [] then
     sidecar_start D given m w =
       (Inl (Err (''production profile refuses this configuration:'' @ [CHR 0x0A] @ ''  - ''
         @ join_with ([CHR 0x0A] @ ''  - '') refused @ [CHR 0x0A]
         @ ''set these explicitly for production, or unset '' @ EnvVar @ '' for development'')), m, w)
   else True"
proof -
  let ?s = "production_settings D (parse_flags D given w) w"
  have f: "Fail (refuse_all (d_Getenv D) w ?s zero_check) = Some (Err (''production profile refuses this configuration:''
         @ [CHR 0x0A] @ ''  - '' @ join_with ([CHR 0x0A] @ ''  - '') (map snd (filter fst ?s)) @ [CHR 0x0A]
         @ ''set these explicitly for production, or unset '' @ EnvVar @ '' for development''))"
    if "IsProduction (d_Getenv D) w \<and> map snd (filter fst ?s) \<noteq> []"
    using that by (simp add: Fail_def reasons_refuse_all zero_check_def del: append_Cons)
  show ?thesis
  proof (cases "IsProduction (d_Getenv D) w \<and> map snd (filter fst ?s) \<noteq> []")
    case True
    show ?thesis unfolding Let_def sidecar_start_def f [OF True] by (simp only: option.case if_P [OF True])
  qed (simp only: Let_def if_False)
qed

section \<open>What the running sidecar keeps\<close>

text \<open>A server that runs on the configuration of a start, between two connections.\<close>

definition serves :: "'w process \<Rightarrow> 'w running Config \<Rightarrow> 'w running Sidecar \<Rightarrow> bool" where
  "serves D cfg s \<longleftrightarrow>
     sd_cfg s = cfg \<and> sd_logf s = Some (\<lambda>msg. to_world (d_Printf D msg)) \<and> in_OnChildStarted (sd_injector s) = None"

lemma started_server_serves: "sc_Injector cfg = Some (NewExecInjector\<lparr>in_Capture := True\<rparr>) \<Longrightarrow> serves D cfg (started_server D cfg r)"
  by (simp add: serves_def started_server_def SetLogger_def New_sidecar_def NewExecInjector_def)

lemma serves_server_on: "parts_only P \<Longrightarrow> serves D cfg s \<Longrightarrow> server_on P cfg s"
  by (simp add: serves_def server_on_def parts_only_keeps)

lemma started_config:
  assumes "sidecar_start D given m w = (Inr (cfg, st, r), m', w')"
  shows "\<exists>base rules kid root w1 co ro w2. cfg = sidecar_config D (parse_flags D given w) base rules m' st
      (map_option (creator_of D m' st kid root w1) co) (map_option (proxy_of D) ro) w2"
  using sidecar_start_Inr(2) [OF assms] by (blast dest: collaborators_Inr)

lemma started_facts:
  assumes "sidecar_start D given m w = (Inr (cfg, st, r), m', w')"
  shows "sc_Injector cfg = Some (NewExecInjector\<lparr>in_Capture := True\<rparr>)" and "sc_PeerGroup cfg = []"
    and "sc_Revoked cfg = Some (running_Revoked D)" and "\<exists>base. sc_Verify cfg = running_Verify D base"
  using started_config [OF assms] by (auto simp: sidecar_config_def)

lemma started_undisturbed:
  assumes "sidecar_start D given m w = (Inr (cfg, st, r), m', w')"
  shows "undisturbed (knows_revoked jti) (host_within (d_host D)) cfg"
    and "undisturbed (static_parts keys e) (host_within (d_host D)) cfg"
proof -
  obtain base rules kid root w1 co ro w2 where c: "cfg = sidecar_config D (parse_flags D given w) base rules m' st
      (map_option (creator_of D m' st kid root w1) co) (map_option (proxy_of D) ro) w2"
    using started_config [OF assms] by blast
  show "undisturbed (knows_revoked jti) (host_within (d_host D)) cfg"
    unfolding c by (rule revoked.undisturbed_axioms)
  show "undisturbed (static_parts keys e) (host_within (d_host D)) cfg"
    unfolding c by (rule static.undisturbed_axioms)
qed

lemma running_Revoked_known: "knows_revoked jti r \<Longrightarrow> fst (running_Revoked D jti r) = (True, None)"
  by (auto simp: knows_revoked_def running_Revoked_def IsRevoked_def live_def split: option.splits)

text \<open>
  C14. Once the checker of a started sidecar has learned that a token is revoked, the sidecar never
  serves the token again: after whatever connections it has handled since, from whomever, and
  whatever the control plane, the verifier or the network said in them, a request with the
  token is denied.
\<close>

theorem learned_revocation_is_final:
  assumes "sidecar_start D given m0 w0 = (Inr (cfg, st, r0), m1, w1)" and "serves D cfg s" and "knows_revoked jti r"
    and "serve_loop (host_within (d_host D)) arrivals s m r = Some (outs, m', s', r')"
    and "names_token jti (wq_Token req)" and "wq_Op req \<notin> {OpCreate, OpList, OpRevoke}"
  shows "\<exists>s'' r''. dispatch (host_within (d_host D)) s' req m' r' = Some (denied, m', s'', r'')"
proof -
  have k: "knows_revoked jti r'" "sd_cfg s' = cfg"
    using undisturbed.serve_loop_keeps [OF started_undisturbed(1) [OF assms(1)] serves_server_on [OF parts_only_facts(1) assms(2)] assms(4,3)] by (auto simp: server_on_def)
  have v: "knows_revoked jti x \<Longrightarrow> knows_revoked jti (snd (sc_Verify (sd_cfg s') jws x))" for jws x
    using started_facts(4) [OF assms(1)] knows_revoked_keeps(1) [unfolded keeps_def] unfolding k(2) by metis
  have "sc_Revoked (sd_cfg s') = Some (running_Revoked D)" unfolding k(2) by (rule started_facts(3) [OF assms(1)])
  then show ?thesis 
    using revoked_is_denied [where P = "knows_revoked jti" and s = s' and jti = jti and chk = "running_Revoked D", OF v _ running_Revoked_known k(1) assms(5,6)] by blast
qed

lemma static_keys_fetcherless: "static_keys raw = Inr v \<Longrightarrow> \<not> kv_hasFetcher v"
  by (auto simp: static_keys_def NewFromKeys_def split: option.splits sum.splits)

lemma static_policy_fetcherless: "static_policy raw = Inr e \<Longrightarrow> \<not> e_hasFetcher e"
  by (auto simp: static_policy_def NewFromRules_def split: option.splits)

text \<open>
  A sidecar that starts with its keys and its rules in files never takes any others: they are
  what the files said at the start, and stay so over everything it serves, whatever the network
  answers.
\<close>

theorem static_sidecar_stays_static:
  assumes "sidecar_start D given m0 w0 = (Inr (cfg, st, r), m1, w1)"
    and "d_env D ''SAFEKEYS_VERIFY_KEYS'' \<noteq> []" and "d_env D ''SAFEKEYS_POLICY_FILE'' \<noteq> []"
    and "Serve (host_within (d_host D)) arrivals (started_server D cfg r) m r = Some (e, outs, m', s', r')"
  shows "\<exists>w keys_text w' rules_text.
    ReadFile (h_fs (d_host D)) (d_env D ''SAFEKEYS_VERIFY_KEYS'') w = Inr keys_text \<and> static_keys keys_text = Inr (ru_keys r') \<and>
    ReadFile (h_fs (d_host D)) (d_env D ''SAFEKEYS_POLICY_FILE'') w' = Inr rules_text \<and> static_policy rules_text = Inr (ru_policy r')"
proof -
  obtain tok kid keys wk ws where o: "openVerifier D w0 = (Inr keys, wk)"
    and c: "collaborators D (parse_flags D given w0) m1 st kid keys ws = (Inr (cfg, r), w1)"
    using sidecar_start_Inr(2) [OF assms(1)] by blast
  obtain rules wp where p: "openPolicy D ws = (Inr (ru_policy r, rules), wp)" and k: "ru_keys r = keys"
    using collaborators_Inr [OF c] by blast
  obtain raw where raw: "ReadFile (h_fs (d_host D)) (d_env D ''SAFEKEYS_VERIFY_KEYS'') w0 = Inr raw" "static_keys raw = Inr keys"
    using o assms(2) by (auto simp: openVerifier_def d_Getenv_def Let_def split: sum.splits)
  obtain raw' where raw': "ReadFile (h_fs (d_host D)) (d_env D ''SAFEKEYS_POLICY_FILE'') ws = Inr raw'"
    "static_policy raw' = Inr (ru_policy r)"
    using p assms(3) by (auto simp: openPolicy_def d_Getenv_def Let_def split: sum.splits)
  have i: "static_parts keys (ru_policy r) r"
    using static_keys_fetcherless [OF raw(2)] static_policy_fetcherless [OF raw'(2)] k by (simp add: static_parts_def)
  note serves = serves_server_on [OF parts_only_facts(2) started_server_serves [OF started_facts(1) [OF assms(1)]]]
  have "static_parts keys (ru_policy r) r'"
    using undisturbed.Serve_keeps [OF started_undisturbed(2) [OF assms(1)] serves assms(4) i] by simp
  then show ?thesis using raw raw' by (auto simp: static_parts_def)
qed

text \<open>
  Without the address of a control plane a started sidecar answers every request to create, list or
  revoke with the denial and changes nothing; and no started sidecar checks the group of its
  peers, as the check is never configured.
\<close>

theorem unattached_sidecar_refuses_management:
  "case sidecar_start D given m0 w0 of
     (Inl _, _) \<Rightarrow> True
   | (Inr (cfg, st, r0), _) \<Rightarrow>
       let H = host_within (d_host D); s = started_server D cfg r0 in
       (\<forall>peer r. \<not> peer_refused H (sd_cfg s) peer r) \<and>
       (if d_env D ''SAFEKEYS_CONTROL_PLANE_URL'' = [] then
          (\<forall>req m r. dispatch H s (req\<lparr>wq_Op := OpCreate\<rparr>) m r = Some (denied, m, s, r) \<and>
             dispatch H s (req\<lparr>wq_Op := OpList\<rparr>) m r = Some (denied, m, s, r) \<and>
             dispatch H s (req\<lparr>wq_Op := OpRevoke\<rparr>) m r = Some (denied, m, s, r))
        else True)"
proof -
  have p: "\<not> peer_refused (host_within (d_host D)) (sd_cfg (started_server D cfg r0)) peer r"
    if "sidecar_start D given m0 w0 = (Inr (cfg, st, r0), m', w')" for cfg st r0 m' w' peer r
    using started_facts(2) [OF that] by (simp add: peer_refused_def started_server_def SetLogger_def New_sidecar_def)
  have c: "sc_Creator cfg = None" "sc_Registry cfg = None"
    if s: "sidecar_start D given m0 w0 = (Inr (cfg, st, r0), m', w')" and u: "d_env D ''SAFEKEYS_CONTROL_PLANE_URL'' = []" for cfg st r0 m' w'
  proof -
    obtain kid keys w2 where c: "collaborators D (parse_flags D given w0) m' st kid keys w2 = (Inr (cfg, r0), w')"
      using sidecar_start_Inr(2) [OF s] by blast
    have "control_plane_client D w = Inr None" for w using u by (simp add: control_plane_client_def d_Getenv_def)
    then show "sc_Creator cfg = None" "sc_Registry cfg = None" using collaborators_Inr [OF c] by (auto simp: sidecar_config_def)
  qed
  have ops: "OpList \<noteq> OpCreate" "OpRevoke \<noteq> OpCreate" "OpRevoke \<noteq> OpList" by (simp_all add: OpCreate_def OpList_def OpRevoke_def)
  show ?thesis
    using p c ops
    by (auto simp: Let_def dispatch_def handleCreate_def handleList_def handleRevoke_def started_server_def SetLogger_def
      New_sidecar_def split: sum.split prod.split)
qed

section \<open>Instances\<close>

definition sample_env :: "string \<Rightarrow> string" where
  "sample_env k =
     (case map_of [(''SAFEKEYS_PROFILE'', ''production''), (''SAFEKEYS_VAULT_ADDR'', ''https://vault''),
        (''SAFEKEYS_VERIFY_KEYS'', ''/keys''), (''SAFEKEYS_POLICY_FILE'', ''/rules'')] k of
        None \<Rightarrow> [] | Some v \<Rightarrow> v)"

definition sample_keys_file :: bytes where
  "sample_keys_file = Marshal (JObj [(''keys'', JArr [JObj [(''alg'', JStr AlgEdDSA), (''kid'', JStr ''k1''), (''public'', JStr ''AAAA'')]])])"

definition sample_files :: "'w files" where
  "sample_files = stub_fs\<lparr>ReadFile := (\<lambda>p w. if p = ''/keys'' then Inr sample_keys_file else if p = ''/rules'' then Inr ''[]''
     else Inl (Err ''no such file''))\<rparr>"

definition sample_process :: "int process" where
  "sample_process =
     \<lparr>d_host = (stub_host stub_os)\<lparr>h_fs := sample_files\<rparr>, d_env = sample_env, d_UserHomeDir = (\<lambda>w. Inr ''/home/s''),
      d_ParseDuration = (\<lambda>s. Inl (Err ''time: invalid duration'')), d_Do = sample_denylist, d_crypto = sample_crypto,
      d_IsNotExist = (\<lambda>e. True), d_keychain = None, d_Printf = (\<lambda>msg w. w)\<rparr>"

lemma sample_reads:
  "Option.bind (Unmarshal sample_keys_file) jwks_of_json =
     Some \<lparr>jwks_Issuer = [], jwks_Keys = [\<lparr>pk_KID = ''k1'', pk_Alg = AlgEdDSA, pk_Public = ''AAAA''\<rparr>]\<rparr>"
  "Option.bind (Unmarshal ''[]'') (\<lambda>v. map_option (case_option [] id) (dec_slice rule_of_json v)) = Some []"
  by code_simp+

lemma sample_env_simps:
  "sample_env ''SAFEKEYS_VERIFY_KEYS'' = ''/keys''" "sample_env ''SAFEKEYS_POLICY_FILE'' = ''/rules''"
  "sample_env ''SAFEKEYS_VAULT_ADDR'' = ''https://vault''" "sample_env ''SAFEKEYS_REVOCATION_OFFLINE'' = []"
  "sample_env ''SAFEKEYS_API_KEY'' = []" "sample_env ''SAFEKEYS_API_KEY_FILE'' = []" "sample_env ''SAFEKEYS_VAULT_TOKEN'' = []"
  "sample_env ''SAFEKEYS_VAULT_TOKEN_FILE'' = []" "sample_env ''SAFEKEYS_ALLOW_INSECURE_KEYSTORE'' = []"
  "sample_env ''SAFEKEYS_CONTROL_PLANE_URL'' = []" "sample_env ''SAFEKEYS_VAULT_MOUNT'' = []"
  "sample_env ''SAFEKEYS_SOCKET'' = []" "sample_env ''SAFEKEYS_SOCKET_GROUP'' = []"
  "sample_env ''SAFEKEYS_REVOCATION_NEGATIVE_TTL'' = []"
  by code_simp+

lemma sample_passes: "Fail (refuse_all (d_Getenv sample_process) 0 (production_settings sample_process (parse_flags sample_process [] 0) 0) zero_check) = None"
  by (simp add: refuse_all_passes production_settings_def parse_flags_def flag_String_def d_Getenv_def sample_process_def sample_env_simps)

lemma sample_start:
  "sidecar_start sample_process [] [] 0 =
    (Inr (sidecar_config sample_process (parse_flags sample_process [] 0) ''http://localhost:8080'' ([], []) [] (In_vault (NewVault ''https://vault'' [] ''transit'')) None None 1,
       In_vault (NewVault ''https://vault'' [] ''transit''),
       \<lparr>ru_keys = \<lparr>kv_hasFetcher = False, kv_ttl = 0, kv_current =
            Some [(''k1'', \<lparr>pk_KID = ''k1'', pk_Alg = AlgEdDSA, pk_Public = ''AAAA''\<rparr>)], kv_fetched = 0, kv_lastErr = None\<rparr>,
        ru_policy = NewFromRules [], ru_checker = Some (New_checker ''http://localhost:8080'' []), ru_world = 1\<rparr>), [], 1)"
proof -
  let ?fl = "parse_flags sample_process [] 0"
  have keys: "openVerifier sample_process 0 = (Inr \<lparr>kv_hasFetcher = False, kv_ttl = 0, kv_current =
     Some [(''k1'', \<lparr>pk_KID = ''k1'', pk_Alg = AlgEdDSA, pk_Public = ''AAAA''\<rparr>)], kv_fetched = 0, kv_lastErr = None\<rparr>, 0)"
    by (simp add: openVerifier_def d_Getenv_def sample_process_def sample_env_simps sample_files_def stub_host_def static_keys_def
      sample_reads NewFromKeys_def NewKeySetVerifier_def IsAlgorithmAllowed_iff AlgEdDSA_def Let_def)
  have pol: "openPolicy sample_process 1 = (Inr (NewFromRules [], [], []), 1)"
    by (simp add: openPolicy_def d_Getenv_def sample_process_def sample_env_simps sample_files_def stub_host_def static_policy_def
      sample_reads Let_def)
  have key: "apiKey sample_process 1 = Inr []"
    by (simp add: apiKey_def FromEnv_def d_Getenv_def sample_process_def sample_env_simps)
  have st: "openKeystore sample_process ?fl [] [] 0 = (Inr (In_vault (NewVault ''https://vault'' [] ''transit''), fl_vaultKID ?fl), [], 1)"
    by (simp add: openKeystore_def parse_flags_def flag_String_def envOr_def d_Getenv_def sample_process_def sample_env_simps
      Vault_Healthy_def sample_denylist_def Let_def)
  have cp: "control_plane_client sample_process w = Inr None" "control_plane_URL sample_process w = ''http://localhost:8080''" for w
    by (simp_all add: control_plane_client_def control_plane_URL_def envOr_def d_Getenv_def sample_process_def sample_env_simps)
  have rc: "revocationChecker sample_process 1 = Inr (Some (New_checker ''http://localhost:8080'' []))"
    using key cp(2) by (simp add: revocationChecker_def envDuration_def d_Getenv_def New_checker_def)
      (simp add: sample_process_def sample_env_simps)
  have tok: "FromEnv (d_Getenv sample_process) (h_fs (d_host sample_process)) ''SAFEKEYS_VAULT_TOKEN'' ''SAFEKEYS_VAULT_TOKEN_FILE'' 0
      = ([], SourceNone, None)" "fl_vaultTok ?fl = []"
    by (simp_all add: FromEnv_def d_Getenv_def sample_process_def sample_env_simps parse_flags_def flag_String_def)
  show ?thesis
    
    by (simp add: sidecar_start_def sample_passes tok started_def keys st collaborators_def cp rc pol creatorFor_def registryFor_def
      Let_def del: append.simps)
qed

lemma learned_revocation_is_final_witness:
  "\<exists>cfg r s'' r''. dispatch (host_within (d_host sample_process)) (started_server sample_process cfg r) sample_wire []
      (r\<lparr>ru_checker := Some ((New_checker ''u'' ''k'')\<lparr>rc_cache := [''tok_1'' \<mapsto> \<lparr>ce_revoked = True, ce_expires = None\<rparr>]\<rparr>)\<rparr>)
    = Some (denied, [], s'', r'')"
proof -
  obtain cfg st r where s: "sidecar_start sample_process [] [] 0 = (Inr (cfg, st, r), [], 1)" using sample_start by blast
  let ?s = "started_server sample_process cfg r"
  let ?r = "r\<lparr>ru_checker := Some ((New_checker ''u'' ''k'')\<lparr>rc_cache := [''tok_1'' \<mapsto> \<lparr>ce_revoked = True, ce_expires = None\<rparr>]\<rparr>)\<rparr>"
  have k: "knows_revoked ''tok_1'' ?r" by (simp add: knows_revoked_def New_checker_def)
  have n: "names_token ''tok_1'' (wq_Token sample_wire)" "wq_Op sample_wire \<notin> {OpCreate, OpList, OpRevoke}"
    using sample_token by (simp_all add: names_token_def sample_wire_def sample_claims_def OpResolve_def OpCreate_def
      OpList_def OpRevoke_def)
  have "serve_loop (host_within (d_host sample_process)) [] ?s [] ?r = Some ([], [], ?s, ?r)" by simp
  from learned_revocation_is_final [OF s started_server_serves [OF started_facts(1) [OF s]] k this n] show ?thesis by blast
qed

lemma static_sidecar_stays_static_witness:
  "\<exists>cfg st r s' r'. sidecar_start sample_process [] [] 0 = (Inr (cfg, st, r), [], 1) \<and>
    Serve (host_within (d_host sample_process)) [] (started_server sample_process cfg r) [] r = Some (None, [], [], s', r') \<and>
    static_keys sample_keys_file = Inr (ru_keys r')"
proof -
  obtain cfg st r where s: "sidecar_start sample_process [] [] 0 = (Inr (cfg, st, r), [], 1)"
    and c: "cfg = sidecar_config sample_process (parse_flags sample_process [] 0) ''http://localhost:8080'' ([], []) []
      (In_vault (NewVault ''https://vault'' [] ''transit'')) None None 1"
    using sample_start by blast
  let ?s = "started_server sample_process cfg r" and ?H = "host_within (d_host sample_process)"
  have f: "sd_listening ?s = False" "sd_cfg ?s = cfg" "sc_SocketPath cfg = ''/run/safekeys/sidecar.sock''" "sc_SocketGroup cfg = []"
    "sc_SocketMode cfg = 0"
    unfolding c by (simp_all add: started_server_def SetLogger_def New_sidecar_def sidecar_config_def parse_flags_def flag_String_def
      envOr_def d_Getenv_def) (simp_all add: sample_process_def sample_env_simps)
  have h: "MkdirAll (h_fs ?H) p n x = (Inr (), x)" "Stat (h_fs ?H) p x = Inl (Err ''no such file'')" "h_Listen ?H p x = (Inr (), x)"
    "Chmod (h_os ?H) p n x = (Inr (), x)" for p n x
    by (simp_all add: host_within_def os_within_def files_within_def on_world_def sample_process_def stub_host_def stub_os_def
      sample_files_def stub_fs_def)
  have l: "Listen ?H ?s r = (Inr (), ?s\<lparr>sd_listening := True\<rparr>, r)"
    by (simp add: Listen_def f h clear_stale_def grant_group_def socket_mode_def defaultSocketMode_def Let_def)
  have v: "Serve ?H [] ?s [] r = Some (None, [], [], ?s\<lparr>sd_listening := True\<rparr>, r)"
    by (simp add: Serve_def f l)
  have e: "d_env sample_process ''SAFEKEYS_VERIFY_KEYS'' = ''/keys''" "d_env sample_process ''SAFEKEYS_POLICY_FILE'' = ''/rules''"
    "\<And>w. ReadFile (h_fs (d_host sample_process)) ''/keys'' w = Inr sample_keys_file"
    by (simp_all add: sample_process_def sample_env_simps stub_host_def sample_files_def)
  have "static_keys sample_keys_file = Inr (ru_keys r)"
    using static_sidecar_stays_static [OF s _ _ v] by (simp add: e)
  then show ?thesis using s v by blast
qed

end
