(* ===== verification/CP_Main.thy ===== *)
theory CP_Main
  imports Remote Credential
begin

text \<open>
  apps/control-plane/cmd/server/main.go: the start of the control plane. The derivation of a key
  from its seed, the parsing of the database's address and the keychain of macOS are parameters;
  the schema the migrations create is that of the store. A call of \<open>log.Fatal\<close> is the error it
  prints.
\<close>

section \<open>The process\<close>

record 'w cp_process =
  cp_env :: "string \<Rightarrow> string"
  cp_fs :: "'w files"
  cp_keychain :: "'w security option"
  cp_KeyFromSeed :: "bytes \<Rightarrow> bytes"
  cp_crypto :: crypto
  cp_Open :: "string \<Rightarrow> unit result"

definition cp_Getenv :: "'w cp_process \<Rightarrow> 'w getenv" where
  "cp_Getenv D k w = cp_env D k"

definition cp_envOr :: "'w cp_process \<Rightarrow> string \<Rightarrow> string \<Rightarrow> string" where
  "cp_envOr D k def = (let v = cp_env D k in if v \<noteq> [] then v else def)"

definition fatal_credential :: "'w cp_process \<Rightarrow> string \<Rightarrow> string \<Rightarrow> 'w \<Rightarrow> string result" where
  "fatal_credential D k f w =
     (case FromEnv (cp_Getenv D) (cp_fs D) k f w of
        (_, _, Some err) \<Rightarrow> Inl (Err (''control-plane: '' @ Error err))
      | (v, _, None) \<Rightarrow> Inr v)"

definition apiKeyFromEnv :: "'w cp_process \<Rightarrow> 'w \<Rightarrow> string result" where
  "apiKeyFromEnv D = fatal_credential D ''SAFEKEYS_API_KEY'' ''SAFEKEYS_API_KEY_FILE''"

definition dsnFromEnv :: "'w cp_process \<Rightarrow> 'w \<Rightarrow> string result" where
  "dsnFromEnv D = fatal_credential D ''DATABASE_URL'' ''DATABASE_URL_FILE''"

section \<open>The flags and their checks\<close>

record cp_flags =
  cf_addr :: string
  cf_dsn :: string
  cf_issuerURL :: string
  cf_apiKey :: string

text \<open>The value a flag is given last, else its default; the defaults are read in any case.\<close>

definition cp_flag :: "(string \<times> string) list \<Rightarrow> string \<Rightarrow> string \<Rightarrow> string" where
  "cp_flag given name def = (case map_of (rev given) name of Some v \<Rightarrow> v | None \<Rightarrow> def)"

definition parse_cp_flags :: "'w cp_process \<Rightarrow> (string \<times> string) list \<Rightarrow> 'w \<Rightarrow> cp_flags result" where
  "parse_cp_flags D given w =
     (case dsnFromEnv D w of
        Inl e \<Rightarrow> Inl e
      | Inr dsn \<Rightarrow>
          (case apiKeyFromEnv D w of
             Inl e \<Rightarrow> Inl e
           | Inr key \<Rightarrow>
               Inr \<lparr>cf_addr = cp_flag given ''addr'' (cp_envOr D ''SAFEKEYS_ADDR'' '':8080''),
                    cf_dsn = cp_flag given ''database-url'' dsn,
                    cf_issuerURL = cp_flag given ''issuer'' (cp_envOr D ''SAFEKEYS_ISSUER'' ''https://cp.safekeys.local''),
                    cf_apiKey = cp_flag given ''api-key'' key\<rparr>))"

definition check_cp_flags :: "cp_flags \<Rightarrow> go_error option" where
  "check_cp_flags fl =
     (if cf_dsn fl = [] then Some (Err ''DATABASE_URL is required'')
      else if cf_apiKey fl = [] then Some (Err ''SAFEKEYS_API_KEY (or SAFEKEYS_API_KEY_FILE) is required'')
      else if length (cf_issuerURL fl) < 8 \<or> take 8 (cf_issuerURL fl) \<noteq> ''https://'' then
        Some (Err (''issuer must be an https URL, got '' @ cf_issuerURL fl))
      else None)"

definition cp_production_settings :: "'w cp_process \<Rightarrow> (bool \<times> string) list" where
  "cp_production_settings D =
     [(cp_env D ''SAFEKEYS_DEV_SIGNING_KEY'' \<noteq> [] \<and> cp_env D ''SAFEKEYS_DEV_SIGNING_KEY_FILE'' = [],
       ''signing key supplied via the environment; mount it as a file and set SAFEKEYS_DEV_SIGNING_KEY_FILE'')]"

section \<open>The signer\<close>

definition keychain_credential :: "'w cp_process \<Rightarrow> string \<Rightarrow> string \<Rightarrow> 'w \<Rightarrow> (string \<times> bool) result \<times> 'w" where
  "keychain_credential D service account w =
     (case cp_keychain D of
        None \<Rightarrow> (FromKeychain_other service account, w)
      | Some run \<Rightarrow> FromKeychain run service account w)"

text \<open>The ladder: a file, the environment, the keychain.\<close>

definition seed_text :: "'w cp_process \<Rightarrow> 'w \<Rightarrow> (string \<times> credential_source) result \<times> 'w" where
  "seed_text D w =
     (case FromEnv (cp_Getenv D) (cp_fs D) ''SAFEKEYS_DEV_SIGNING_KEY'' ''SAFEKEYS_DEV_SIGNING_KEY_FILE'' w of
        (_, _, Some e) \<Rightarrow> (Inl e, w)
      | (v, src, None) \<Rightarrow>
          if v \<noteq> [] then (Inr (v, src), w)
          else
            (case keychain_credential D ''safekeys'' ''dev-signing-key'' w of
               (Inl e, w) \<Rightarrow> (Inl e, w)
             | (Inr (kc, ok), w) \<Rightarrow> (Inr (if ok then (kc, SourceKeychain) else (v, src)), w)))"

definition decode_seed :: "string \<Rightarrow> bytes option" where
  "decode_seed v =
     (case DecodeString RawStdEncoding v of
        Some b \<Rightarrow> Some b
      | None \<Rightarrow> DecodeString StdEncoding v)"

definition SeedSize :: nat where "SeedSize = 32"

definition signer_of_seed :: "'w cp_process \<Rightarrow> string \<Rightarrow> Ed25519Signer result" where
  "signer_of_seed D v =
     (if v = [] then
        Inl (Err (''no signing key found: set SAFEKEYS_DEV_SIGNING_KEY_FILE, SAFEKEYS_DEV_SIGNING_KEY, '' @
          ''or run scripts/migrate-dev-keys.sh to store it in the macOS Keychain; '' @
          ''production provisions the signing key into an HSM or secure element''))
      else
        (case decode_seed v of
           None \<Rightarrow> Inl (Err ''decode signing key: illegal base64 data'')
         | Some seed \<Rightarrow>
             if length seed \<noteq> SeedSize then Inl (Err ''signing key must be a 32-byte Ed25519 seed'')
             else NewEd25519Signer (cp_envOr D ''SAFEKEYS_KID'' ''dev-key-1'') (cp_KeyFromSeed D seed)))"

definition loadSigner :: "'w cp_process \<Rightarrow> 'w \<Rightarrow> Ed25519Signer result \<times> 'w" where
  "loadSigner D w =
     (case seed_text D w of
        (Inl e, w) \<Rightarrow> (Inl e, w)
      | (Inr (v, _), w) \<Rightarrow> (signer_of_seed D v, w))"

section \<open>The database\<close>

text \<open>Two scripts, the second after the first; either can fail.\<close>

definition applyMigrations :: "db \<Rightarrow> unit result \<times> db" where
  "applyMigrations d =
     (case db_call (\<lambda>d. (Inr (), d)) d of
        (Inl e, d) \<Rightarrow> (Inl e, d)
      | (Inr _, d) \<Rightarrow> db_call (\<lambda>d. (Inr (), d)) d)"

definition bootstrap_rule :: PolicyRule where
  "bootstrap_rule =
     \<lparr>pr_ID = ''bootstrap-allow-operator'', pr_Effect = ''allow'', pr_Principal = [], pr_SID = [],
      pr_Scope = [ScopeRead, ScopeUnwrap, ScopeInjectEnv, ScopeInjectFile], pr_Aud = [], pr_InjectionMethod = [],
      pr_Commands = None, pr_Priority = 0, pr_CreatedAt = 0\<rparr>"

text \<open>An empty policy table gets the rule; the error of the statement is dropped.\<close>

definition bootstrap :: "db \<Rightarrow> db" where
  "bootstrap d =
     (case ListPolicyRules d of
        (Inl _, d) \<Rightarrow> d
      | (Inr rules, d) \<Rightarrow> if length rules = 0 then snd (UpsertPolicyRule bootstrap_rule d) else d)"

section \<open>The start\<close>

definition issuer_of :: "'w cp_process \<Rightarrow> cp_flags \<Rightarrow> Ed25519Signer \<Rightarrow> Issuer" where
  "issuer_of D fl signer =
     \<lparr>is_sign = Ed25519_Sign (cp_crypto D) signer, is_PublicKeys = Ed25519_PublicKeys (cp_crypto D) signer,
      is_issuer = cf_issuerURL fl\<rparr>"

definition open_database :: "'w cp_process \<Rightarrow> cp_flags \<Rightarrow> db \<Rightarrow> unit result \<times> db" where
  "open_database D fl d =
     (case cp_Open D (cf_dsn fl) of
        Inl e \<Rightarrow> (Inl (Err (''open database: '' @ Error e)), d)
      | Inr _ \<Rightarrow>
          (case db_call (\<lambda>d. (Inr (), d)) d of
             (Inl e, d) \<Rightarrow> (Inl (Err (''database unreachable: '' @ Error e)), d)
           | (Inr _, d) \<Rightarrow>
               (case applyMigrations d of
                  (Inl e, d) \<Rightarrow> (Inl (Err (''migrations: '' @ Error e)), d)
                | (Inr _, d) \<Rightarrow> (Inr (), bootstrap d))))"

text \<open>What is started: the server and the address it listens on.\<close>

definition cp_start ::
  "'w cp_process \<Rightarrow> (string \<times> string) list \<Rightarrow> 'r random \<Rightarrow> 'w \<Rightarrow> db \<Rightarrow> ('r Server \<times> string) result \<times> 'w \<times> db"
where
  "cp_start D given rand w d =
     (case parse_cp_flags D given w of
        Inl e \<Rightarrow> (Inl e, w, d)
      | Inr fl \<Rightarrow>
          (case check_cp_flags fl of
             Some e \<Rightarrow> (Inl e, w, d)
           | None \<Rightarrow>
               (case Fail (refuse_all (cp_Getenv D) w (cp_production_settings D) zero_check) of
                  Some e \<Rightarrow> (Inl e, w, d)
                | None \<Rightarrow>
                    (case loadSigner D w of
                       (Inl e, w) \<Rightarrow> (Inl e, w, d)
                     | (Inr signer, w) \<Rightarrow>
                         (case open_database D fl d of
                            (Inl e, d) \<Rightarrow> (Inl e, w, d)
                          | (Inr _, d) \<Rightarrow>
                              (Inr (\<lparr>sv_issuer = issuer_of D fl signer, sv_apiKey = cf_apiKey fl, sv_random = rand\<rparr>,
                                 cf_addr fl), w, d))))))"

section \<open>Seeds\<close>

lemma b64_val_pad: "b64_val url (CHR ''='') = None"
  by (cases url) (simp_all add: b64_val_def char_class_defs)

lemma b64_groups_pad:
  "CHR ''='' \<in> {a, b} \<Longrightarrow> b64_group2 url a b = None" "CHR ''='' \<in> {a, b, c} \<Longrightarrow> b64_group3 url a b c = None"
  "CHR ''='' \<in> {a, b, c, d} \<Longrightarrow> b64_group4 url a b c d = None"
  by (auto simp: b64_group2_def b64_group3_def b64_group4_def b64_val_pad split: option.split)

lemma raw_rejects_padding: "\<not> pd \<Longrightarrow> CHR ''='' \<in> set s \<Longrightarrow> b64_decode_groups url pd s = None"
  by (induction url pd s rule: b64_decode_groups.induct) (auto simp: b64_groups_pad split: option.split intro: ccontr)

lemma encode_pads: "length b mod 3 \<noteq> 0 \<Longrightarrow> CHR ''='' \<in> set (b64_encode_groups url True b)"
  by (induction url True b rule: b64_encode_groups.induct) (auto simp: mod_Suc split: if_splits)

lemma decode_seed_encoded: "length b = SeedSize \<Longrightarrow> e \<in> {RawStdEncoding, StdEncoding} \<Longrightarrow> decode_seed (EncodeToString e b) = Some b"
proof -
  assume l: "length b = SeedSize" and e: "e \<in> {RawStdEncoding, StdEncoding}"
  have "CHR ''='' \<in> set (EncodeToString StdEncoding b)"
    using encode_pads [of b] l by (simp add: EncodeToString_def SeedSize_def)
  then have "CHR ''='' \<in> set (filter (\<lambda>c. \<not> is_crlf c) (EncodeToString StdEncoding b))" by (simp add: is_crlf_def)
  then have "DecodeString RawStdEncoding (EncodeToString StdEncoding b) = None"
    unfolding DecodeString_def by (intro raw_rejects_padding) simp_all
  then show ?thesis using e by (auto simp: decode_seed_def)
qed

text \<open>
  C39. The signing seed is read in either form of base64: whatever source of the ladder delivers it,
  padded or not, the signer holds the key of exactly that seed.
\<close>

theorem signing_seed_survives_its_encoding:
  assumes "length seed = SeedSize" and "e \<in> {RawStdEncoding, StdEncoding}"
    and "seed_text D w = (Inr (EncodeToString e seed, src), w')" and "length (cp_KeyFromSeed D seed) = 64"
  shows "loadSigner D w = (Inr \<lparr>ed_kid = cp_envOr D ''SAFEKEYS_KID'' ''dev-key-1'', ed_prv = cp_KeyFromSeed D seed\<rparr>, w')"
proof -
  have "EncodeToString e seed \<noteq> []" using assms(1) by (intro EncodeToString_nonempty) (auto simp: SeedSize_def)
  then show ?thesis
    using assms by (simp add: loadSigner_def signer_of_seed_def decode_seed_encoded NewEd25519Signer_def)
qed

section \<open>What a start gives\<close>

lemma scan_rows_length: "scan_rows xs = Inr rs \<Longrightarrow> length rs = length xs"
  by (induction xs arbitrary: rs) (auto split: sum.splits)

lemma bootstrap_tables:
  "db_step (tables d) (tables (bootstrap d))" "db_rules d \<noteq> [] \<Longrightarrow> tables (bootstrap d) = tables d"
proof -
  obtain r d1 x d2 where l: "ListPolicyRules d = (r, d1)" and u: "UpsertPolicyRule bootstrap_rule d1 = (x, d2)" by fastforce
  note t = readers(3) [OF l] and s = UpsertPolicyRule_step [OF u]
  show "db_step (tables d) (tables (bootstrap d))"
    using l t s u by (cases r) (auto simp: bootstrap_def idle)
  have "rules \<noteq> []" if "r = Inr rules" "db_rules d \<noteq> []" for rules
    using l that scan_rows_length unfolding ListPolicyRules_def by (elim db_call_cases) (fastforce dest: scan_rows_length)+
  then show "tables (bootstrap d) = tables d" if "db_rules d \<noteq> []"
    using l t that by (cases r) (auto simp: bootstrap_def)
qed

lemma open_database_tables:
  assumes "open_database D fl d = (r, d')"
  shows "db_step (tables d) (tables d')" and "db_rules d \<noteq> [] \<Longrightarrow> tables d' = tables d"
proof -
  have a: "tables d' = tables d" if "applyMigrations d = (r, d')" for d r d'
    using that readers(4) by (fastforce simp: applyMigrations_def split: prod.splits sum.splits)
  have "\<exists>d1. tables d1 = tables d \<and> (d' = d1 \<or> d' = bootstrap d1)"
    using assms readers(4) a unfolding open_database_def by (fastforce split: sum.splits prod.splits)
  then obtain d1 where d1: "tables d1 = tables d" "d' = d1 \<or> d' = bootstrap d1" by blast
  show "db_step (tables d) (tables d')" using d1 bootstrap_tables(1) [of d1] idle by auto
  show "tables d' = tables d" if "db_rules d \<noteq> []"
  proof -
    have "db_rules d1 \<noteq> []" using tables_eqD [OF d1(1)] that by simp
    then show ?thesis using d1 bootstrap_tables(2) by metis
  qed
qed

lemma cp_start_db:
  assumes "cp_start D given rand w d = (r, w', d')"
  shows "d' = d \<or> (\<exists>fl x. open_database D fl d = (x, d'))"
  using assms by (auto simp: cp_start_def split: sum.splits option.splits prod.splits)

text \<open>
  A start, failed or not, is at most one of the abstract steps of the store and so keeps its
  consistency; and a store that has any policy rule, it leaves as it is: neither are stored rules
  replaced nor is one added.
\<close>

theorem start_respects_the_store:
  "case cp_start D given rand w d of (_, _, d') \<Rightarrow>
     db_step (tables d) (tables d') \<and> (if db_ok d then db_ok d' else True) \<and>
     (if db_rules d \<noteq> [] then tables d' = tables d else True)"
proof -
  have "db_step (tables d) (tables d') \<and> (db_ok d \<longrightarrow> db_ok d') \<and> (db_rules d \<noteq> [] \<longrightarrow> tables d' = tables d)"
    if "cp_start D given rand w d = (r, w', d')" for r w' d'
  proof -
    have s: "db_step (tables d) (tables d')" "db_rules d \<noteq> [] \<Longrightarrow> tables d' = tables d"
      using cp_start_db [OF that] open_database_tables idle by auto
    moreover have "db_ok d'" if "db_ok d" using db_step_ok [OF s(1)] that by simp
    ultimately show ?thesis by blast
  qed
  then show ?thesis by (auto split: prod.split)
qed

text \<open>
  A control plane that starts has a key its clients must present, an issuer under https, a signer with
  a private key of the right size whose public half it publishes, and in production a signing
  key that is not in the environment unless a file of it is configured.
\<close>

theorem started_control_plane_is_keyed:
  "case cp_start D given rand w d of
     (Inl _, _) \<Rightarrow> True
   | (Inr (sv, _), _) \<Rightarrow>
       sv_apiKey sv \<noteq> [] \<and> HasPrefix (is_issuer (sv_issuer sv)) ''https://'' \<and>
       (\<exists>signer. signs_with (cp_crypto D) signer sv \<and> length (ed_prv signer) = 64) \<and>
       (if IsProduction (cp_Getenv D) w \<and> cp_env D ''SAFEKEYS_DEV_SIGNING_KEY_FILE'' = []
        then cp_env D ''SAFEKEYS_DEV_SIGNING_KEY'' = [] else True)"
proof -
  have "sv_apiKey sv \<noteq> [] \<and> HasPrefix (is_issuer (sv_issuer sv)) ''https://'' \<and>
       (\<exists>signer. signs_with (cp_crypto D) signer sv \<and> length (ed_prv signer) = 64) \<and>
       (IsProduction (cp_Getenv D) w \<and> cp_env D ''SAFEKEYS_DEV_SIGNING_KEY_FILE'' = [] \<longrightarrow> cp_env D ''SAFEKEYS_DEV_SIGNING_KEY'' = [])"
    if s: "cp_start D given rand w d = (Inr (sv, ad), x)" for sv ad x
  proof -
    obtain fl signer w1 where f: "check_cp_flags fl = None"
      "Fail (refuse_all (cp_Getenv D) w (cp_production_settings D) zero_check) = None" "loadSigner D w = (Inr signer, w1)"
      "sv_issuer sv = issuer_of D fl signer" "sv_apiKey sv = cf_apiKey fl"
      using s by (auto simp: cp_start_def split: sum.splits option.splits prod.splits)
    have "length (ed_prv signer) = 64"
      using f(3) by (auto simp: loadSigner_def signer_of_seed_def NewEd25519Signer_def split: prod.splits sum.splits option.splits if_splits)
    moreover have "signs_with (cp_crypto D) signer sv" using f(4) by (simp add: signs_with_def issuer_of_def)
    moreover have "cf_apiKey fl \<noteq> []" "take 8 (cf_issuerURL fl) = ''https://''"
      using f(1) by (auto simp: check_cp_flags_def split: if_splits)
    ultimately show ?thesis
      using f(2,4,5) by (auto simp: refuse_all_passes cp_production_settings_def issuer_of_def HasPrefix_def take_is_prefix
        simp flip: \<open>take 8 (cf_issuerURL fl) = ''https://''\<close>)
  qed
  then show ?thesis by (auto split: sum.split prod.split)
qed

text \<open>
  A fresh installation admits everyone: the rule a start puts into an empty policy table is called
  after the operator but names no principal, so until an operator replaces it the control plane
  allows every principal every object, every audience and every scope the rule lists.
\<close>

theorem fresh_install_admits_everyone:
  assumes "cp_start D given rand w d = (Inr (sv, ad), w', d')" and "db_rules d = []" and "db_faults d = []"
    and "pq_Scope q \<in> {ScopeRead, ScopeUnwrap, ScopeInjectEnv, ScopeInjectFile}"
  shows "Evaluate (fst (current_engine d')) q = \<lparr>dc_Allow = True, dc_RuleID = ''bootstrap-allow-operator''\<rparr>"
proof -
  let ?r = "bootstrap_rule\<lparr>pr_CreatedAt := db_now d\<rparr>"
  have f: "list_all pg_text ([pr_ID bootstrap_rule, pr_Effect bootstrap_rule, pr_Principal bootstrap_rule, pr_SID bootstrap_rule,
      pr_Aud bootstrap_rule, pr_InjectionMethod bootstrap_rule] @ pr_Scope bootstrap_rule)"
    "int32 (pr_Priority bootstrap_rule)" "pr_Effect bootstrap_rule = ''allow''" "pr_Scope bootstrap_rule \<noteq> []"
    "scope_closed (pr_Scope bootstrap_rule)" "injection_closed (pr_InjectionMethod bootstrap_rule)"
    by code_simp+
  have c: "pr_Commands bootstrap_rule = None" by (simp add: bootstrap_rule_def)
  have u: "UpsertPolicyRule bootstrap_rule d = (Inr (), upsert_row bootstrap_rule d)"
    using f c assms(3) by (simp add: UpsertPolicyRule_def db_stmt_def db_call_def)
  have b: "bootstrap d = d\<lparr>db_rules := [\<lparr>row_rule = ?r, row_commands = None\<rparr>]\<rparr>"
    using assms(2,3) u by (simp add: bootstrap_def ListPolicyRules_def db_call_def order_rows_def upsert_row_def c marshalCommands_def)
  obtain fl where o: "open_database D fl d = (Inr (), d')"
    using assms(1) by (auto simp: cp_start_def split: sum.splits option.splits prod.splits)
  have "d' = bootstrap d"
    using o assms(3) by (cases "cp_Open D (cf_dsn fl)") (simp_all add: open_database_def applyMigrations_def db_call_def)
  then have "fst (current_engine d') = [?r]"
    using b assms(3) c
    by (simp add: current_engine_def LoadPolicy_def ListPolicyRules_def db_call_def order_rows_def unmarshalCommands_def New_Engine_def)
  moreover have "cp_matches ?r q" using assms(4) by (auto simp: cp_matches_def bootstrap_rule_def ScopeAllows_iff)
  ultimately show ?thesis by (simp add: cp_decide_def f(3)) (simp add: bootstrap_rule_def)
qed

text \<open>
  Off macOS a control plane without any signing key fails with the error of the keychain, which is
  not there; the message that tells how to configure a key is not reached.
\<close>

theorem missing_key_is_blamed_on_the_keychain:
  "if cp_keychain D = None \<and> cp_env D ''SAFEKEYS_DEV_SIGNING_KEY'' = [] \<and> cp_env D ''SAFEKEYS_DEV_SIGNING_KEY_FILE'' = []
   then loadSigner D w = (Inl (Err ''keychain: only available on macOS''), w)
   else True"
  by (simp add: loadSigner_def seed_text_def FromEnv_def cp_Getenv_def keychain_credential_def FromKeychain_other_def)

section \<open>Instances\<close>

definition sample_seed :: bytes where "sample_seed = replicate 32 (CHR ''x'')"

definition sample_cp :: "unit cp_process" where
  "sample_cp =
     \<lparr>cp_env = (\<lambda>k. if k = ''DATABASE_URL'' then ''postgres://db'' else if k = ''SAFEKEYS_API_KEY'' then ''k''
        else if k = ''SAFEKEYS_DEV_SIGNING_KEY'' then EncodeToString StdEncoding sample_seed else []),
      cp_fs = \<lparr>ReadFile = (\<lambda>p w. Inl (Err ''no such file'')), Stat = (\<lambda>p w. Inl (Err ''no such file'')),
         MkdirAll = (\<lambda>p perm w. (Inr (), w)), WriteFile = (\<lambda>p b perm w. (Inr (), w)), Remove = (\<lambda>p w. (Inr (), w))\<rparr>,
      cp_keychain = None, cp_KeyFromSeed = (\<lambda>s. s @ s), cp_crypto = sample_crypto, cp_Open = (\<lambda>dsn. Inr ())\<rparr>"

lemma sample_seed_text: "seed_text sample_cp w = (Inr (EncodeToString StdEncoding sample_seed, SourceEnv), w)"
  using EncodeToString_nonempty [of sample_seed StdEncoding]
  by (simp add: seed_text_def FromEnv_def cp_Getenv_def sample_cp_def sample_seed_def)

lemma sample_signer_loads: "loadSigner sample_cp () = (Inr \<lparr>ed_kid = ''dev-key-1'', ed_prv = sample_seed @ sample_seed\<rparr>, ())"
  by (simp add: loadSigner_def sample_seed_text signer_of_seed_def decode_seed_encoded EncodeToString_nonempty sample_seed_def
    SeedSize_def NewEd25519Signer_def cp_envOr_def) (simp add: sample_cp_def)

lemma signing_seed_survives_its_encoding_witness:
  "loadSigner sample_cp () = (Inr \<lparr>ed_kid = ''dev-key-1'', ed_prv = sample_seed @ sample_seed\<rparr>, ())"
  using signing_seed_survives_its_encoding [OF _ _ sample_seed_text, of "()"]
  by (simp add: sample_seed_def SeedSize_def cp_envOr_def) (simp add: sample_cp_def)

lemma sample_cp_starts:
  "\<exists>sv. cp_start sample_cp [] sample_rand () (sample_db\<lparr>db_rules := []\<rparr>) = (Inr (sv, '':8080''), (), bootstrap (sample_db\<lparr>db_rules := []\<rparr>))"
proof -
  have e: "cp_env sample_cp ''DATABASE_URL'' = ''postgres://db''" "cp_env sample_cp ''SAFEKEYS_API_KEY'' = ''k''"
    "cp_env sample_cp ''DATABASE_URL_FILE'' = []" "cp_env sample_cp ''SAFEKEYS_API_KEY_FILE'' = []" "cp_env sample_cp ''SAFEKEYS_PROFILE'' = []"
    "cp_env sample_cp ''SAFEKEYS_ADDR'' = []" "cp_env sample_cp ''SAFEKEYS_ISSUER'' = []" "cp_Open sample_cp dsn = Inr ()" for dsn
    by (simp_all add: sample_cp_def)
  have p: "parse_cp_flags sample_cp [] () = Inr \<lparr>cf_addr = '':8080'', cf_dsn = ''postgres://db'',
      cf_issuerURL = ''https://cp.safekeys.local'', cf_apiKey = ''k''\<rparr>"
    by (simp add: parse_cp_flags_def dsnFromEnv_def apiKeyFromEnv_def fatal_credential_def FromEnv_def cp_Getenv_def e cp_flag_def
      cp_envOr_def)
  have "\<not> IsProduction (cp_Getenv sample_cp) ()"
    by (simp add: IsProduction_def Current_def cp_Getenv_def EnvVar_def e Production_def Dev_def) code_simp
  then have f: "Fail (refuse_all (cp_Getenv sample_cp) () (cp_production_settings sample_cp) zero_check) = None"
    by (simp add: refuse_all_passes)
  have o: "open_database sample_cp fl (sample_db\<lparr>db_rules := []\<rparr>) = (Inr (), bootstrap (sample_db\<lparr>db_rules := []\<rparr>))" for fl
    by (simp add: open_database_def e applyMigrations_def db_call_def sample_db_def)
  show ?thesis
    by (simp add: cp_start_def p f o check_cp_flags_def sample_signer_loads)
qed

lemma fresh_install_admits_everyone_witness:
  "Evaluate (fst (current_engine (bootstrap (sample_db\<lparr>db_rules := []\<rparr>))))
     \<lparr>pq_Principal = ''mallory'', pq_SID = ''obj_1'', pq_Scope = ScopeUnwrap, pq_Aud = ''prod'', pq_InjectionMethod = []\<rparr>
   = \<lparr>dc_Allow = True, dc_RuleID = ''bootstrap-allow-operator''\<rparr>"
proof -
  obtain sv where s: "cp_start sample_cp [] sample_rand () (sample_db\<lparr>db_rules := []\<rparr>) = (Inr (sv, '':8080''), (), bootstrap (sample_db\<lparr>db_rules := []\<rparr>))"
    using sample_cp_starts by blast
  show ?thesis by (rule fresh_install_admits_everyone [OF s]) (simp_all add: sample_db_def)
qed

end
