(* ===== verification/Migrate.thy ===== *)
theory Migrate
  imports Sidecar_Main Sidecar_Safety
begin

text \<open>
  scripts/migrate-dev-keys.internal/main.go: the command that wraps the keys of a development
  folder anew, under another key store. \<open>filepath.Glob\<close> and \<open>os.Rename\<close> are parameters; what it
  prints is not modelled. A call of \<open>fatal\<close> is the error it prints.
\<close>

section \<open>Every key store of a process wraps lawfully\<close>

definition store_laws :: "'w process \<Rightarrow> key_wrapping \<Rightarrow> bool" where
  "store_laws D st =
     (case st of
        In_vault v \<Rightarrow> transit_laws (d_Do D) v
      | _ \<Rightarrow> cipher_laws (h_ciphers (d_host D)) (h_rand (d_host D)))"

interpretation any_store: key_wrapper "store_Wrap D m st" "store_Unwrap D m st" "store_laws D st"
  for D m st
  by (cases st; unfold_locales)
    (auto simp: store_Wrap_def store_Unwrap_def store_laws_def Let_def
      intro: vault.unwrap_wrap keychain.unwrap_wrap local_store.unwrap_wrap)

section \<open>The manifest\<close>

text \<open>\<open>json.Unmarshal\<close> into a manifest: members of other names are skipped.\<close>

definition lax_manifest_store :: "string \<Rightarrow> json \<Rightarrow> Manifest \<Rightarrow> Manifest option" where
  "lax_manifest_store f v m =
     (if f = ''safekeys'' then map_option (\<lambda>x. m\<lparr>m_Safekeys := x\<rparr>) (dec_string v (m_Safekeys m))
      else if f = ''objects'' then
        map_option (\<lambda>x. m\<lparr>m_Objects := case_option [] id x\<rparr>)
          (dec_slice (\<lambda>w. dec_struct False object_fields object_store w zero_object) v)
      else if f = ''folder'' then
        map_option (\<lambda>x. m\<lparr>m_Folder := x\<rparr>)
          (dec_pointer (dec_struct False folder_fields folder_store)
             \<lparr>fo_ID = [], fo_Description = [], fo_Created = []\<rparr> v (m_Folder m))
      else
        map_option (\<lambda>x. m\<lparr>m_Authority := x\<rparr>)
          (dec_pointer (dec_struct False authority_fields authority_store)
             \<lparr>au_Issuer = [], au_Scope = []\<rparr> v (m_Authority m)))"

definition lax_manifest :: "bytes \<Rightarrow> Manifest option" where
  "lax_manifest raw = Option.bind (Unmarshal raw) (\<lambda>v. dec_struct False manifest_fields lax_manifest_store v zero_manifest)"

section \<open>One object\<close>

text \<open>
  The old store's \<open>Unwrap\<close> and the new one's \<open>Wrap\<close> and \<open>Unwrap\<close>. The key is in memory between the
  two and zeroised after the second; the third call checks that the new form can be unwrapped
  and leaves the key it gets in memory.
\<close>

record 'w rewrapper =
  rw_unwrap_old :: "string \<Rightarrow> string \<Rightarrow> 'w \<Rightarrow> bytes result \<times> 'w"
  rw_wrap :: "string \<Rightarrow> bytes \<Rightarrow> 'w \<Rightarrow> string result \<times> 'w"
  rw_unwrap :: "string \<Rightarrow> string \<Rightarrow> 'w \<Rightarrow> bytes result \<times> 'w"
  rw_kid :: string

datatype outcome = Migrated ManifestObject | Skipped | Failed string

definition local_scheme :: string where "local_scheme = ''local:v1:''"

definition rewrap_key :: "'w rewrapper \<Rightarrow> ManifestObject \<Rightarrow> bytes \<Rightarrow> memory \<Rightarrow> 'w \<Rightarrow> outcome \<times> memory \<times> 'w" where
  "rewrap_key R ob dek m w =
     (case alloc dek m of
        (a, m) \<Rightarrow>
          (case rw_wrap R (rw_kid R) (load a m) w of
             (r, w) \<Rightarrow>
               let m = Zero a m in
               (case r of
                  Inl e \<Rightarrow> (Failed (''re-wrap: '' @ Error e), m, w)
                | Inr rewrapped \<Rightarrow>
                    (case rw_unwrap R (rw_kid R) rewrapped w of
                       (Inl e, w) \<Rightarrow> (Failed (''verify unwrap under new key: '' @ Error e), m, w)
                     | (Inr again, w) \<Rightarrow>
                         (Migrated (ob\<lparr>o_WrappedKey := rewrapped, o_WrappingKID := rw_kid R\<rparr>),
                          snd (alloc again m), w)))))"

definition rewrap_object ::
  "'w files \<Rightarrow> 'w rewrapper \<Rightarrow> string \<Rightarrow> ManifestObject \<Rightarrow> memory \<Rightarrow> 'w \<Rightarrow> outcome \<times> memory \<times> 'w"
where
  "rewrap_object fs R objDir ob m w =
     (if \<not> HasPrefix (o_WrappedKey ob) local_scheme then (Skipped, m, w)
      else
        (case Load fs objDir (o_ID ob) w of
           Inl e \<Rightarrow> (Failed (''load: '' @ Error e), m, w)
         | Inr _ \<Rightarrow>
             (case rw_unwrap_old R (o_WrappingKID ob) (o_WrappedKey ob) w of
                (Inl e, w) \<Rightarrow> (Failed (''old KEK cannot unwrap: '' @ Error e), m, w)
              | (Inr dek, w) \<Rightarrow> rewrap_key R ob dek m w)))"

section \<open>One manifest\<close>

record counts =
  n_migrated :: nat
  n_skipped :: nat
  n_failed :: nat

definition count :: "outcome \<Rightarrow> counts \<Rightarrow> counts" where
  "count oc n =
     (case oc of
        Migrated _ \<Rightarrow> n\<lparr>n_migrated := n_migrated n + 1\<rparr>
      | Skipped \<Rightarrow> n\<lparr>n_skipped := n_skipped n + 1\<rparr>
      | Failed _ \<Rightarrow> n\<lparr>n_failed := n_failed n + 1\<rparr>)"

definition moved :: "outcome \<Rightarrow> ManifestObject \<Rightarrow> ManifestObject" where
  "moved oc ob = (case oc of Migrated ob' \<Rightarrow> ob' | _ \<Rightarrow> ob)"

fun rewrap_objects ::
  "'w files \<Rightarrow> 'w rewrapper \<Rightarrow> string \<Rightarrow> ManifestObject list \<Rightarrow> counts \<Rightarrow> memory \<Rightarrow> 'w
    \<Rightarrow> ManifestObject list \<times> counts \<times> memory \<times> 'w"
where
  "rewrap_objects fs R objDir [] n m w = ([], n, m, w)"
| "rewrap_objects fs R objDir (ob # obs) n m w =
     (case rewrap_object fs R objDir ob m w of
        (oc, m, w) \<Rightarrow>
          (case rewrap_objects fs R objDir obs (count oc n) m w of
             (obs', n, m, w) \<Rightarrow> (moved oc ob # obs', n, m, w)))"

text \<open>The manifest is written when an object of it changed, with a newline at its end.\<close>

definition migrate_manifest ::
  "'w files \<Rightarrow> 'w rewrapper \<Rightarrow> string \<Rightarrow> counts \<Rightarrow> memory \<Rightarrow> 'w \<Rightarrow> counts result \<times> memory \<times> 'w"
where
  "migrate_manifest fs R mf n m w =
     (case ReadFile fs mf w of
        Inl e \<Rightarrow> (Inl (Err (''read '' @ mf @ '': '' @ Error e)), m, w)
      | Inr raw \<Rightarrow>
          (case lax_manifest raw of
             None \<Rightarrow> (Inl (Err (''parse '' @ mf @ '': json'')), m, w)
           | Some man \<Rightarrow>
               (case rewrap_objects fs R (Dir mf) (m_Objects man) n m w of
                  (obs, n', m, w) \<Rightarrow>
                    if n_migrated n' = n_migrated n then (Inr n', m, w)
                    else
                      (case WriteFile fs mf (marshal_indent 0 (manifest_json (man\<lparr>m_Objects := obs\<rparr>)) @ [CHR 0x0A]) 384 w of
                         (Inl e, w) \<Rightarrow> (Inl (Err (''write '' @ mf @ '': '' @ Error e)), m, w)
                       | (Inr _, w) \<Rightarrow> (Inr n', m, w)))))"

fun migrate_manifests ::
  "'w files \<Rightarrow> 'w rewrapper \<Rightarrow> string list \<Rightarrow> counts \<Rightarrow> memory \<Rightarrow> 'w \<Rightarrow> counts result \<times> memory \<times> 'w"
where
  "migrate_manifests fs R [] n m w = (Inr n, m, w)"
| "migrate_manifests fs R (mf # mfs) n m w =
     (case migrate_manifest fs R mf n m w of
        (Inl e, m, w) \<Rightarrow> (Inl e, m, w)
      | (Inr n, m, w) \<Rightarrow> migrate_manifests fs R mfs n m w)"

section \<open>The command\<close>

text \<open>
  The custody the keys move to: the store, the name of its key, and for a new key file its path
  and the one it gets at the end.
\<close>

definition mig_Getenv :: "'w process \<Rightarrow> string \<Rightarrow> string" where
  "mig_Getenv D k = d_env D k"

definition open_target ::
  "'w process \<Rightarrow> string \<Rightarrow> memory \<Rightarrow> 'w \<Rightarrow> (key_wrapping \<times> string \<times> (string \<times> string) option) result \<times> memory \<times> 'w"
where
  "open_target D oldPath m w =
     (if mig_Getenv D ''SAFEKEYS_KEYCHAIN'' = ''1'' then
        (case open_keychain D m w of
           (Inl e, m, w) \<Rightarrow> (Inl (Err (''open keychain: '' @ Error e)), m, w)
         | (Inr k, m, w) \<Rightarrow> (Inr (In_keychain k, ''dev-key-1'', None), m, w))
      else if mig_Getenv D ''SAFEKEYS_VAULT_ADDR'' \<noteq> [] then
        let v = NewVault (mig_Getenv D ''SAFEKEYS_VAULT_ADDR'') (mig_Getenv D ''SAFEKEYS_VAULT_TOKEN'')
                  (envOr D ''SAFEKEYS_VAULT_MOUNT'' ''transit'' w) in
        (case Vault_Healthy (d_Do D) v w of
           (Inl e, w) \<Rightarrow> (Inl (Err (''vault unreachable: '' @ Error e)), m, w)
         | (Inr _, w) \<Rightarrow> (Inr (In_vault v, envOr D ''SAFEKEYS_VAULT_KID'' ''kek-1'' w, None), m, w))
      else if mig_Getenv D ''SAFEKEYS_ALLOW_INSECURE_KEYSTORE'' = ''1'' then
        (case NewLocal (h_fs (d_host D)) (d_IsNotExist D) (h_rand (d_host D)) (d_Getenv D) (oldPath @ ''.new'') m w of
           (Inl e, m, w) \<Rightarrow> (Inl (Err (''create new key file: '' @ Error e)), m, w)
         | (Inr l, m, w) \<Rightarrow> (Inr (In_file l, ''kek-local-1'', Some (oldPath @ ''.new'', oldPath @ ''.migrated'')), m, w))
      else (Inl (Err ''no new custody target: set SAFEKEYS_KEYCHAIN=1 or SAFEKEYS_VAULT_ADDR''), m, w))"

definition rewrapper_of :: "'w process \<Rightarrow> memory \<Rightarrow> Local \<Rightarrow> key_wrapping \<Rightarrow> string \<Rightarrow> 'w rewrapper" where
  "rewrapper_of D m old st kid =
     \<lparr>rw_unwrap_old = Local_Unwrap (h_ciphers (d_host D)) m old, rw_wrap = store_Wrap D m st,
      rw_unwrap = store_Unwrap D m st, rw_kid = kid\<rparr>"

text \<open>The deferred calls of a run that returns: the new file is given its last name, the stores closed.\<close>

definition finish ::
  "(string \<Rightarrow> string \<Rightarrow> 'w \<Rightarrow> unit result \<times> 'w) \<Rightarrow> Local \<Rightarrow> key_wrapping \<Rightarrow> (string \<times> string) option
    \<Rightarrow> memory \<Rightarrow> 'w \<Rightarrow> int \<times> memory \<times> 'w"
where
  "finish Rename old st promote m w =
     (case (case promote of None \<Rightarrow> (Inr (), w) | Some (tmp, final) \<Rightarrow> Rename tmp final w) of
        (Inl e, w) \<Rightarrow> (1, m, w)
      | (Inr _, w) \<Rightarrow> (0, snd (Local_Close old (store_Close st m)), w))"

text \<open>
  The exit status with memory and world: \<open>os.Exit\<close> and \<open>fatal\<close> end the process with no deferred
  call. \<open>Glob\<close> finds the manifests of the folders below a root.
\<close>

definition migrate ::
  "'w process \<Rightarrow> (string \<Rightarrow> 'w \<Rightarrow> string list) \<Rightarrow> (string \<Rightarrow> string \<Rightarrow> 'w \<Rightarrow> unit result \<times> 'w)
    \<Rightarrow> string \<Rightarrow> string \<Rightarrow> memory \<Rightarrow> 'w \<Rightarrow> int \<times> memory \<times> 'w"
where
  "migrate D Glob Rename oldPath devDir m w =
     (if oldPath = [] \<or> devDir = [] then (2, m, w)
      else
        (case NewLocal (h_fs (d_host D)) (d_IsNotExist D) (h_rand (d_host D)) (d_Getenv D) oldPath m w of
           (Inl e, m, w) \<Rightarrow> (1, m, w)
         | (Inr old, m, w) \<Rightarrow>
             (case open_target D oldPath m w of
                (Inl e, m, w) \<Rightarrow> (1, m, w)
              | (Inr (st, kid, promote), m, w) \<Rightarrow>
                  let R = rewrapper_of D m old st kid;
                      run = (\<lambda>root n m w. migrate_manifests (h_fs (d_host D)) R (Glob (Join [root, ''*'', ''manifest.json'']) w) n m w) in
                  (case run (Join [devDir, ''folder'']) \<lparr>n_migrated = 0, n_skipped = 0, n_failed = 0\<rparr> m w of
                     (Inl e, m, w) \<Rightarrow> (1, m, w)
                   | (Inr n, m, w) \<Rightarrow>
                       (case run (Join [devDir, ''folder-vault'']) n m w of
                          (Inl e, m, w) \<Rightarrow> (1, m, w)
                        | (Inr n, m, w) \<Rightarrow>
                            if n_failed n > 0 then (1, m, w) else finish Rename old st promote m w)))))"

section \<open>The keys of the objects\<close>

lemma rewrap_key_wraps:
  assumes "rewrap_key R ob dek m w = (Migrated ob', m', w')"
  shows "ob' = ob\<lparr>o_WrappedKey := o_WrappedKey ob', o_WrappingKID := rw_kid R\<rparr> \<and>
    (\<exists>w1. rw_wrap R (rw_kid R) dek w = (Inr (o_WrappedKey ob'), w1))"
  using assms by (auto simp: rewrap_key_def Let_def dest!: load_alloc split: prod.splits sum.splits)

context key_wrapper
begin

text \<open>Whoever wraps with a lawful store moves a key, whatever it did with the old one.\<close>

lemma rewrap_key_moves:
  assumes "lawful" and "rw_wrap R = wrap" and "rewrap_key R ob dek m w = (Migrated ob', m', w')"
  shows "fst (unwrap (rw_kid R) (o_WrappedKey ob') v) = Inr dek"
  using rewrap_key_wraps [OF assms(3)] assms(2) unwrap_wrap [OF assms(1)] by auto

end

text \<open>
  What a migration without a failure does to an object: one of another scheme stays as it is,
  one of the local scheme gets a wrapped key that the new store opens, in any later state, to
  the key the old store opened the old one to; all else of it stays.
\<close>

definition key_moved ::
  "'w process \<Rightarrow> memory \<Rightarrow> Local \<Rightarrow> key_wrapping \<Rightarrow> string \<Rightarrow> ManifestObject \<Rightarrow> ManifestObject \<Rightarrow> bool"
where
  "key_moved D m old st kid ob ob' \<longleftrightarrow>
     (if HasPrefix (o_WrappedKey ob) local_scheme then
        ob' = ob\<lparr>o_WrappedKey := o_WrappedKey ob', o_WrappingKID := kid\<rparr> \<and>
        (\<exists>dek. (\<exists>u. fst (Local_Unwrap (h_ciphers (d_host D)) m old (o_WrappingKID ob) (o_WrappedKey ob) (u :: 'w)) = Inr dek) \<and>
           (\<forall>v. fst (store_Unwrap D m st kid (o_WrappedKey ob') v) = Inr dek))
      else ob' = ob)"

lemma rewrap_object_moves:
  assumes "store_laws D st" and "rewrap_object fs (rewrapper_of D m0 old st kid) dir ob m w = (oc, m', w')"
    and "\<And>e. oc \<noteq> Failed e"
  shows "key_moved D m0 old st kid ob (moved oc ob)"
proof (cases "HasPrefix (o_WrappedKey ob) local_scheme")
  case True
  let ?R = "rewrapper_of D m0 old st kid"
  obtain dek w1 where u: "Local_Unwrap (h_ciphers (d_host D)) m0 old (o_WrappingKID ob) (o_WrappedKey ob) w = (Inr dek, w1)"
    and k: "rewrap_key ?R ob dek m w1 = (oc, m', w')"
    using assms(2,3) True by (auto simp: rewrap_object_def rewrapper_of_def split: sum.splits prod.splits)
  obtain ob' where oc: "oc = Migrated ob'"
    using k assms(3) by (auto simp: rewrap_key_def Let_def split: sum.splits prod.splits)
  have R: "rw_wrap ?R = store_Wrap D m0 st" "rw_kid ?R = kid" by (simp_all add: rewrapper_of_def)
  note r = any_store.rewrap_key_moves [OF assms(1) R(1) k [unfolded oc], unfolded R(2)]
  have "fst (Local_Unwrap (h_ciphers (d_host D)) m0 old (o_WrappingKID ob) (o_WrappedKey ob) w) = Inr dek" using u by simp
  then show ?thesis using True r rewrap_key_wraps [OF k [unfolded oc]] R(2) unfolding key_moved_def oc moved_def by (auto intro: exI [of _ w])
next
  case False
  then show ?thesis using assms(2) by (simp add: rewrap_object_def key_moved_def moved_def)
qed

lemma rewrap_objects_failed: "rewrap_objects fs R dir obs n m w = (obs', n', m', w') \<Longrightarrow> n_failed n \<le> n_failed n'"
proof (induction obs arbitrary: n m w obs' n' m' w')
  case (Cons ob obs)
  then show ?case
    by (fastforce simp: count_def split: prod.splits outcome.splits)
qed simp

lemma rewrap_objects_moves:
  assumes "store_laws D st"
  shows "rewrap_objects fs (rewrapper_of D m0 old st kid) dir obs n m w = (obs', n', m', w') \<Longrightarrow> n_failed n' = n_failed n \<Longrightarrow>
    list_all2 (key_moved D m0 old st kid) obs obs'"
proof (induction obs arbitrary: n m w obs' n' m' w')
  case (Cons ob obs)
  let ?R = "rewrapper_of D m0 old st kid"
  obtain oc m1 w1 where o: "rewrap_object fs ?R dir ob m w = (oc, m1, w1)" by (metis prod_cases3)
  obtain obs1 m2 w2 where r: "rewrap_objects fs ?R dir obs (count oc n) m1 w1 = (obs1, n', m2, w2)" "obs' = moved oc ob # obs1"
    using Cons.prems(1) o by (auto split: prod.splits)
  have c: "n_failed (count oc n) = n_failed n + (case oc of Failed _ \<Rightarrow> 1 | _ \<Rightarrow> 0)" by (simp add: count_def split: outcome.split)
  then have "oc \<noteq> Failed e" for e
    using rewrap_objects_failed [OF r(1)] Cons.prems(2) by auto
  moreover from this have "n_failed (count oc n) = n_failed n" using c by (cases oc) auto
  ultimately show ?case
    using rewrap_object_moves [OF assms o] Cons.IH [OF r(1)] Cons.prems(2) r(2) by simp
qed simp

section \<open>The manifest on disk\<close>

lemma DecodeManifest_line:
  assumes "manifest_utf8 m" and "Validate m = Inr ()"
  shows "DecodeManifest (marshal_indent 0 (manifest_json m) @ [CHR 0x0A]) = Inr m"
proof -
  let ?t = "marshal_indent 0 (manifest_json m)"
  note r = renders_marshal_indent [OF json_ok_manifest [OF assms(1)], of 0]
  have "Decode (?t @ [CHR 0x0A]) = Some (manifest_json m)" by (rule Decode_renders [OF r]) (simp add: num_end_def is_digit_def)
  moreover have "Unmarshal (?t @ [CHR 0x0A]) = Unmarshal ?t"
    using parse_first_renders [OF r, of "[CHR 0x0A]"] parse_first_renders [OF r, of "[]"]
    by (simp add: Unmarshal_def num_end_def skip_ws_def is_digit_def is_space_def)
  ultimately have "DecodeManifest (?t @ [CHR 0x0A]) = DecodeManifest ?t"
    using Decode_manifest_indent(1) [OF assms(1)] unfolding DecodeManifest_def probe_def by metis
  then show ?thesis using DecodeManifest_indent [OF assms] by simp
qed

text \<open>
  C29. A migration without a failure loses no key: the manifest it writes lists every object with the key
  it had, now under the new store, or untouched when it was not under the local one; and where
  the texts of the new manifest are UTF-8 and it satisfies \<open>Validate\<close> (the lax reader of the
  migration also takes manifests that do not), what is written is read back by the strict decoder
  of folders.
\<close>

theorem migrated_manifest_opens_under_the_new_store:
  assumes "store_laws D st" and "fs_laws fs" and "ReadFile fs mf w = Inr raw" and "lax_manifest raw = Some man"
    and "migrate_manifest fs (rewrapper_of D m0 old st kid) mf n m w = (Inr n', m', w')"
    and "n_failed n' = n_failed n" and "n_migrated n' \<noteq> n_migrated n"
  shows "\<exists>obs written. ReadFile fs mf w' = Inr written \<and> list_all2 (key_moved D m0 old st kid) (m_Objects man) obs \<and>
    (if manifest_utf8 (man\<lparr>m_Objects := obs\<rparr>) \<and> Validate (man\<lparr>m_Objects := obs\<rparr>) = Inr ()
     then DecodeManifest written = Inr (man\<lparr>m_Objects := obs\<rparr>) else True)"
proof -
  obtain obs m1 w1 where r: "rewrap_objects fs (rewrapper_of D m0 old st kid) (Dir mf) (m_Objects man) n m w = (obs, n', m1, w1)"
    "WriteFile fs mf (marshal_indent 0 (manifest_json (man\<lparr>m_Objects := obs\<rparr>)) @ [CHR 0x0A]) 384 w1 = (Inr (), w')"
    using assms(3-5,7) by (auto simp: migrate_manifest_def split: prod.splits sum.splits if_splits)
  have "ReadFile fs mf w' = Inr (marshal_indent 0 (manifest_json (man\<lparr>m_Objects := obs\<rparr>)) @ [CHR 0x0A])"
    using assms(2) r(2) unfolding fs_laws_def by blast
  then show ?thesis
    using rewrap_objects_moves [OF assms(1) r(1) assms(6)] DecodeManifest_line by (auto intro!: exI [of _ obs])
qed

text \<open>
  The check of the new wrapped form leaves the key behind: the first copy is zeroised, the one the
  check unwraps is dropped as it is.
\<close>

theorem migration_leaves_the_checked_key:
  assumes "store_laws D st" and "rewrap_key (rewrapper_of D m0 old st kid) ob dek m w = (Migrated ob', m', w')"
  shows "m' = m @ [zeros (length dek), dek]"
proof -
  let ?R = "rewrapper_of D m0 old st kid"
  have R: "rw_wrap ?R = store_Wrap D m0 st" "rw_unwrap ?R = store_Unwrap D m0 st" "rw_kid ?R = kid" by (simp_all add: rewrapper_of_def)
  have z: "Zero (length m) (m @ [dek]) = m @ [zeros (length dek)]" by (simp add: Zero_eq load_def)
  have a: "alloc b x = (length x, x @ [b])" for b x by (simp add: alloc_def)
  obtain r w1 where x: "store_Wrap D m0 st kid dek w = (r, w1)" by fastforce
  obtain wrapped where r: "r = Inr wrapped" using assms(2) R x by (cases r) (simp_all add: rewrap_key_def a z load_def)
  obtain q w2 where y: "store_Unwrap D m0 st kid wrapped w1 = (q, w2)" by fastforce
  then have q: "q = Inr dek" using any_store.unwrap_wrap [OF assms(1) x [unfolded r], of w1] by simp
  show ?thesis using assms(2) R x r y q by (simp add: rewrap_key_def a z load_def)
qed

text \<open>
  A migration to a new key file that failed for one object cannot be taken up again: the keys it
  moved carry the mark of the local scheme again, so the next run takes them for keys of the
  old file; where that cannot open them, each of them fails, and the new file never gets its
  last name.
\<close>

theorem file_migration_is_not_resumed:
  fixes D :: "'w process"
  assumes "rewrap_key (rewrapper_of D m0 old (In_file l) kid) ob dek m w = (Migrated ob', m1, w1)"
    and "\<And>u. is_err (fst (Local_Unwrap (h_ciphers (d_host D)) m2 old2 kid (o_WrappedKey ob') (u :: 'w)))"
  shows "\<exists>why m3 w3. rewrap_object fs (rewrapper_of D m2 old2 st2 kid2) dir ob' m w2 = (Failed why, m3, w3)"
proof -
  have r: "ob' = ob\<lparr>o_WrappedKey := o_WrappedKey ob', o_WrappingKID := kid\<rparr>"
    "\<exists>x. Local_Wrap (h_ciphers (d_host D)) (h_rand (d_host D)) m0 l kid dek w = (Inr (o_WrappedKey ob'), x)"
    using rewrap_key_wraps [OF assms(1)] by (simp_all add: rewrapper_of_def store_Wrap_def Let_def)
  have w: "o_WrappingKID ob' = kid" using arg_cong [OF r(1), of o_WrappingKID] by simp
  have p: "HasPrefix (o_WrappedKey ob') local_scheme"
    using r(2) by (auto simp: local_scheme_def HasPrefix_def dest!: Local_Wrap_Inr)
  obtain e w4 where "Local_Unwrap (h_ciphers (d_host D)) m2 old2 kid (o_WrappedKey ob') w2 = (Inl e, w4)"
    using assms(2) [of w2] by (cases "Local_Unwrap (h_ciphers (d_host D)) m2 old2 kid (o_WrappedKey ob') w2"; cases "fst (Local_Unwrap (h_ciphers (d_host D)) m2 old2 kid (o_WrappedKey ob') w2)") auto
  then show ?thesis using p w
    by (cases "Load fs dir (o_ID ob') w2") (auto simp: rewrap_object_def rewrapper_of_def)
qed

section \<open>Instances\<close>

definition mig_rand :: "(string \<times> bytes) list random" where
  "mig_rand n w = (Some (replicate n (CHR ''r'')), w)"

definition mig_ciphers :: ciphers where
  "mig_ciphers = sample_ciphers\<lparr>aes_gcm := \<lparr>NonceSize = 1, Seal = (\<lambda>k n p. p), Open = (\<lambda>k n b. Some b)\<rparr>\<rparr>"

definition mig_process :: "(string \<times> bytes) list process" where
  "mig_process =
     \<lparr>d_host = (stub_host stub_os)\<lparr>h_fs := sample_fs, h_rand := mig_rand, h_ciphers := mig_ciphers\<rparr>, d_env = (\<lambda>_. []), d_UserHomeDir = (\<lambda>w. Inr ''/home/s''),
      d_ParseDuration = (\<lambda>s. Inl (Err ''time: invalid duration'')), d_Do = (\<lambda>rq w. (Inl (Err ''unreachable''), w)),
      d_crypto = sample_crypto, d_IsNotExist = (\<lambda>e. True), d_keychain = None, d_Printf = (\<lambda>msg w. w)\<rparr>"

definition mig_memory :: memory where
  "mig_memory = [replicate 32 (CHR ''o''), replicate 32 (CHR ''n'')]"

definition mig_store :: "nat \<Rightarrow> Local" where
  "mig_store a = \<lparr>lo_path = ''/k'', lo_kek = Some a\<rparr>"

definition mig_wrapped :: string where
  "mig_wrapped = (case fst (Local_Wrap mig_ciphers mig_rand mig_memory (mig_store 0) ''k'' ''d'' []) of Inl _ \<Rightarrow> [] | Inr s \<Rightarrow> s)"

definition mig_manifest :: Manifest where
  "mig_manifest = zero_manifest\<lparr>m_Safekeys := ''1'',
     m_Objects := [zero_object\<lparr>o_ID := ''obj_1'', o_Path := ''objects/obj_1.enc'', o_Alg := AlgAES256GCM,
       o_WrappedKey := mig_wrapped, o_WrappingKID := ''k''\<rparr>]\<rparr>"

definition mig_world :: "(string \<times> bytes) list" where
  "mig_world = [(''/d/o/manifest.json'', Marshal (manifest_json mig_manifest)), (''/d/o/objects/obj_1.enc'', ''ct'')]"

definition mig_rewrapped :: string where
  "mig_rewrapped = (case fst (Local_Wrap mig_ciphers mig_rand mig_memory (mig_store 1) ''k2'' ''d'' []) of Inl _ \<Rightarrow> [] | Inr s \<Rightarrow> s)"

abbreviation mig_rewrapper :: "(string \<times> bytes) list rewrapper" where
  "mig_rewrapper \<equiv> rewrapper_of mig_process mig_memory (mig_store 0) (In_file (mig_store 1)) ''k2''"

lemma mig_facts:
  "lax_manifest (Marshal (manifest_json mig_manifest)) = Some mig_manifest"
  "Local_Unwrap mig_ciphers mig_memory (mig_store 0) ''k'' mig_wrapped mig_world = (Inr ''d'', mig_world)"
  "Local_Wrap mig_ciphers mig_rand mig_memory (mig_store 1) ''k2'' ''d'' mig_world = (Inr mig_rewrapped, mig_world)"
  "Local_Unwrap mig_ciphers mig_memory (mig_store 1) ''k2'' mig_rewrapped mig_world = (Inr ''d'', mig_world)"
  "case Load sample_fs ''/d/o'' ''obj_1'' mig_world of Inl _ \<Rightarrow> False | Inr _ \<Rightarrow> True"
  "HasPrefix mig_wrapped local_scheme" "Dir ''/d/o/manifest.json'' = ''/d/o''"
  by code_simp+
lemma mig_laws: "store_laws mig_process (In_file l)"
  by (auto simp: store_laws_def cipher_laws_def mig_process_def stub_host_def mig_ciphers_def sample_ciphers_def sample_aead_def
    mig_rand_def)

lemma mig_host: "h_ciphers (d_host mig_process) = mig_ciphers" "h_rand (d_host mig_process) = mig_rand"
  by (simp_all add: mig_process_def stub_host_def)

definition mig_object :: ManifestObject where
  "mig_object = zero_object\<lparr>o_ID := ''obj_1'', o_Path := ''objects/obj_1.enc'', o_Alg := AlgAES256GCM,
     o_WrappedKey := mig_wrapped, o_WrappingKID := ''k''\<rparr>"

lemma mig_calls:
  "rw_wrap mig_rewrapper ''k2'' ''d'' mig_world = (Inr mig_rewrapped, mig_world)"
  "rw_unwrap mig_rewrapper ''k2'' mig_rewrapped mig_world = (Inr ''d'', mig_world)"
  "rw_unwrap_old mig_rewrapper ''k'' mig_wrapped mig_world = (Inr ''d'', mig_world)" "rw_kid mig_rewrapper = ''k2''"
  using mig_facts(2,3,4) by (simp_all add: rewrapper_of_def store_Wrap_def store_Unwrap_def mig_host)

lemma mig_key: "rewrap_key mig_rewrapper ob ''d'' m mig_world =
    (Migrated (ob\<lparr>o_WrappedKey := mig_rewrapped, o_WrappingKID := ''k2''\<rparr>), m @ [zeros (length ''d''), ''d''], mig_world)"
proof -
  have "load (length m) (m @ [''d'']) = ''d''" "Zero (length m) (m @ [''d'']) = m @ [zeros (length ''d'')]"
    by (simp_all add: load_def Zero_eq)
  then show ?thesis by (simp only: rewrap_key_def alloc_def prod.case mig_calls Let_def sum.case snd_conv append_assoc append_Cons append_Nil)
qed

lemma migration_leaves_the_checked_key_witness:
  "\<exists>ob'. rewrap_key mig_rewrapper mig_object ''d'' [] mig_world = (Migrated ob', [zeros (length ''d''), ''d''], mig_world)"
  using migration_leaves_the_checked_key [OF mig_laws mig_key [of mig_object "[]"]] mig_key [of mig_object "[]"] by auto

lemma mig_run:
  "migrate_manifest sample_fs mig_rewrapper ''/d/o/manifest.json'' \<lparr>n_migrated = 0, n_skipped = 0, n_failed = 0\<rparr> mig_memory mig_world =
     (Inr \<lparr>n_migrated = 1, n_skipped = 0, n_failed = 0\<rparr>, mig_memory @ [zeros (length ''d''), ''d''],
      (''/d/o/manifest.json'', marshal_indent 0 (manifest_json (mig_manifest\<lparr>m_Objects :=
         [mig_object\<lparr>o_WrappedKey := mig_rewrapped, o_WrappingKID := ''k2''\<rparr>]\<rparr>)) @ [CHR 0x0A]) # mig_world)"
proof -
  have r: "ReadFile sample_fs ''/d/o/manifest.json'' mig_world = Inr (Marshal (manifest_json mig_manifest))"
    by (simp add: sample_fs_def mig_world_def)
  have o: "m_Objects mig_manifest = [mig_object]" by (simp add: mig_manifest_def mig_object_def)
  obtain x where l: "Load sample_fs ''/d/o'' ''obj_1'' mig_world = Inr x" using mig_facts(5) by (auto split: sum.splits)
  have "rewrap_object sample_fs mig_rewrapper ''/d/o'' mig_object mig_memory mig_world =
      (Migrated (mig_object\<lparr>o_WrappedKey := mig_rewrapped, o_WrappingKID := ''k2''\<rparr>), mig_memory @ [zeros (length ''d''), ''d''], mig_world)"
    using l mig_facts(6) mig_key [of mig_object mig_memory] mig_calls(3)
    unfolding rewrap_object_def by (simp add: mig_object_def del: length_Cons)
  then show ?thesis
    by (simp add: migrate_manifest_def r o mig_facts(1,7) count_def moved_def) (simp add: sample_fs_def)
qed

lemma migrated_manifest_opens_under_the_new_store_witness:
  "\<exists>obs w'. w' = snd (snd (migrate_manifest sample_fs mig_rewrapper ''/d/o/manifest.json''
       \<lparr>n_migrated = 0, n_skipped = 0, n_failed = 0\<rparr> mig_memory mig_world)) \<and>
     list_all2 (key_moved mig_process mig_memory (mig_store 0) (In_file (mig_store 1)) ''k2'') (m_Objects mig_manifest) obs"
proof -
  have r: "ReadFile sample_fs ''/d/o/manifest.json'' mig_world = Inr (Marshal (manifest_json mig_manifest))"
    by (simp add: sample_fs_def mig_world_def)
  show ?thesis
    using migrated_manifest_opens_under_the_new_store [OF mig_laws sample_fs_laws r mig_facts(1) mig_run] by auto
qed

lemma file_migration_is_not_resumed_witness:
  "\<exists>why m3 w3. rewrap_object sample_fs (rewrapper_of mig_process [[]] (mig_store 0) (In_file (mig_store 0)) ''k3'') ''/d/o''
     (mig_object\<lparr>o_WrappedKey := mig_rewrapped, o_WrappingKID := ''k2''\<rparr>) [] mig_world = (Failed why, m3, w3)"
proof -
  have "is_err (fst (Local_Unwrap mig_ciphers [[]] (mig_store 0) ''k2'' mig_rewrapped u))" for u :: "(string \<times> bytes) list"
  proof -
    have "DecryptObject mig_ciphers AlgAES256GCM (kek_bytes (lo_kek (mig_store 0)) [[]]) ct = Inl (Err ''AES-256-GCM requires a 32-byte key'')" for ct
      by (simp add: DecryptObject_def newAEAD_def mig_store_def kek_bytes_def load_def DEKSize_def)
    then show ?thesis by (simp add: Local_Unwrap_def split: option.split)
  qed
  then show ?thesis
    using file_migration_is_not_resumed [OF mig_key, of "[[]]" "mig_store 0"] by (simp add: mig_host)
qed

end
