(* ===== verification/Cli.thy ===== *)
theory Cli
  imports Sidecar_Main
begin

text \<open>
  apps/cli/internal/commands: the operator's command line, over the same process record as the
  sidecar's start. What the commands do on the terminal, on the source file of a creation and
  at the sidecar's socket is a record of calls beside it.
\<close>

section \<open>The terminal\<close>

text \<open>
  \<open>t_Complain\<close> is what the flag package prints of a refused command line, \<open>t_Quote\<close> the quoted form
  of a text, \<open>t_Overwrite\<close> a write from the start of an opened file, \<open>t_Local\<close> a time in seconds
  as RFC 3339 in the local zone.
\<close>

record 'w terminal =
  t_Stdin :: "'w \<Rightarrow> bytes result \<times> 'w"
  t_ModeCharDevice :: "'w \<Rightarrow> bool result"
  t_Stdout :: "bytes \<Rightarrow> 'w \<Rightarrow> 'w"
  t_Stderr :: "bytes \<Rightarrow> 'w \<Rightarrow> 'w"
  t_Complain :: "string \<Rightarrow> string list \<Rightarrow> 'w \<Rightarrow> 'w"
  t_Quote :: "string \<Rightarrow> string"
  t_Size :: "string \<Rightarrow> 'w \<Rightarrow> nat result"
  t_OpenWrite :: "string \<Rightarrow> 'w \<Rightarrow> unit result \<times> 'w"
  t_Overwrite :: "string \<Rightarrow> bytes \<Rightarrow> 'w \<Rightarrow> unit result \<times> 'w"
  t_Local :: "int \<Rightarrow> 'w \<Rightarrow> string"
  t_Dial :: "'w dialer"

definition println :: "string \<Rightarrow> string" where "println s = s @ [CHR 0x0A]"

definition say :: "'w terminal \<Rightarrow> string \<Rightarrow> 'w \<Rightarrow> 'w" where "say T s = t_Stdout T (println s)"

definition warn :: "'w terminal \<Rightarrow> string \<Rightarrow> 'w \<Rightarrow> 'w" where "warn T s = t_Stderr T (println s)"

section \<open>The environment\<close>

definition expandHome :: "'w process \<Rightarrow> string \<Rightarrow> 'w \<Rightarrow> string" where
  "expandHome D p w =
     (if HasPrefix p ''~'' then
        (case d_UserHomeDir D w of Inr h \<Rightarrow> Join [h, tl p] | Inl _ \<Rightarrow> p)
      else p)"

definition cli_envOr :: "'w process \<Rightarrow> string \<Rightarrow> string \<Rightarrow> 'w \<Rightarrow> string" where
  "cli_envOr D k def w =
     (let v = d_Getenv D k w in if v \<noteq> [] then expandHome D v w else expandHome D def w)"

record Env =
  e_ControlPlaneURL :: string
  e_APIKey :: string
  e_SocketPath :: string
  e_FolderDir :: string
  e_KeystorePath :: string
  e_Audience :: string
  e_Principal :: string

definition cli_FromEnv :: "'w process \<Rightarrow> 'w \<Rightarrow> Env" where
  "cli_FromEnv D w =
     \<lparr>e_ControlPlaneURL = cli_envOr D ''SAFEKEYS_CONTROL_PLANE_URL'' ''http://localhost:8080'' w,
      e_APIKey = d_Getenv D ''SAFEKEYS_API_KEY'' w,
      e_SocketPath = cli_envOr D ''SAFEKEYS_SOCKET'' (Join [TempDir (h_os (d_host D)) w, ''safekeys'', ''sidecar.sock'']) w,
      e_FolderDir = cli_envOr D ''SAFEKEYS_FOLDER'' (Join [''~/.safekeys'', ''folder'']) w,
      e_KeystorePath = cli_envOr D ''SAFEKEYS_KEYSTORE'' (Join [''~/.safekeys'', ''kek'']) w,
      e_Audience = cli_envOr D ''SAFEKEYS_AUDIENCE'' ''env-local'' w,
      e_Principal = cli_envOr D ''SAFEKEYS_PRINCIPAL'' ''operator'' w\<rparr>"

definition DefaultFolderRoot :: "'w process \<Rightarrow> 'w \<Rightarrow> string" where
  "DefaultFolderRoot D w =
     (case d_UserHomeDir D w of
        Inl _ \<Rightarrow> Join [TempDir (h_os (d_host D)) w, ''safekeys'', ''folder'']
      | Inr h \<Rightarrow> Join [h, ''.safekeys'', ''folder''])"

section \<open>Command lines\<close>

text \<open>
  \<open>flag.FlagSet.Parse\<close>: options up to the first argument that is none, or up to \<open>--\<close>. The result is
  the values in the order they were given, and the arguments that are left. An option is
  \<open>-name\<close> or \<open>--name\<close>; a value follows after \<open>=\<close> or is the next argument, except for a boolean one.
\<close>

datatype flag_kind = String_flag | Bool_flag | Duration_flag

definition ParseBool :: "string \<Rightarrow> bool option" where
  "ParseBool s =
     (if s \<in> set [''1'', ''t'', ''T'', ''TRUE'', ''true'', ''True''] then Some True
      else if s \<in> set [''0'', ''f'', ''F'', ''FALSE'', ''false'', ''False''] then Some False
      else None)"

definition flag_accepts :: "(string \<Rightarrow> int result) \<Rightarrow> flag_kind \<Rightarrow> string \<Rightarrow> bool" where
  "flag_accepts ParseDuration k v =
     (case k of
        String_flag \<Rightarrow> True
      | Bool_flag \<Rightarrow> ParseBool v \<noteq> None
      | Duration_flag \<Rightarrow> \<not> is_err (ParseDuration v))"

definition is_option :: "string \<Rightarrow> bool" where
  "is_option s \<longleftrightarrow> 2 \<le> length s \<and> HasPrefix s ''-''"

definition option_text :: "string \<Rightarrow> string" where
  "option_text s = (if HasPrefix s ''--'' then drop 2 s else drop 1 s)"

definition option_name :: "string \<Rightarrow> string" where
  "option_name t = takeWhile (\<lambda>c. c \<noteq> CHR ''='') t"

definition option_value :: "string \<Rightarrow> string option" where
  "option_value t = (case dropWhile (\<lambda>c. c \<noteq> CHR ''='') t of [] \<Rightarrow> None | _ # v \<Rightarrow> Some v)"

fun flag_args ::
  "(string \<Rightarrow> int result) \<Rightarrow> (string \<times> flag_kind) list \<Rightarrow> string list \<Rightarrow> ((string \<times> string) list \<times> string list) option"
where
  "flag_args pd formal [] = Some ([], [])"
| "flag_args pd formal (s # args) =
     (if \<not> is_option s then Some ([], s # args)
      else if s = ''--'' then Some ([], args)
      else
        let t = option_text s; n = option_name t in
        if HasPrefix t ''-'' \<or> n = [] then None
        else
          (case (map_of formal n, option_value t) of
             (None, _) \<Rightarrow> None
           | (Some k, Some v) \<Rightarrow>
               if flag_accepts pd k v then map_option (map_prod (Cons (n, v)) id) (flag_args pd formal args) else None
           | (Some Bool_flag, None) \<Rightarrow> map_option (map_prod (Cons (n, ''true'')) id) (flag_args pd formal args)
           | (Some k, None) \<Rightarrow>
               (case args of
                  [] \<Rightarrow> None
                | v # args \<Rightarrow>
                    if flag_accepts pd k v then map_option (map_prod (Cons (n, v)) id) (flag_args pd formal args) else None)))"

definition flag_Bool :: "(string \<times> string) list \<Rightarrow> string \<Rightarrow> bool \<Rightarrow> bool" where
  "flag_Bool given n def = (case map_of (rev given) n of None \<Rightarrow> def | Some v \<Rightarrow> ParseBool v = Some True)"

definition flag_Duration :: "(string \<Rightarrow> int result) \<Rightarrow> (string \<times> string) list \<Rightarrow> string \<Rightarrow> int \<Rightarrow> int" where
  "flag_Duration pd given n def =
     (case map_of (rev given) n of None \<Rightarrow> def | Some v \<Rightarrow> (case pd v of Inr d \<Rightarrow> d | Inl _ \<Rightarrow> def))"

section \<open>create\<close>

text \<open>
  The read value: its array, the text made from it and the array made of the trimmed text. Only
  the last one is the secure buffer's.
\<close>

definition secure_copy :: "bytes \<Rightarrow> memory \<Rightarrow> SecureBuffer \<times> memory" where
  "secure_copy raw m =
     (case alloc raw m of
        (a, m) \<Rightarrow>
          (case alloc (load a m) m of
             (t, m) \<Rightarrow>
               (case alloc (TrimSuffix (load t m) [CHR 0x0A]) m of
                  (b, m) \<Rightarrow> (SecureBufferFrom b, m))))"

definition isTerminal :: "'w terminal \<Rightarrow> 'w \<Rightarrow> bool" where
  "isTerminal T w = (case t_ModeCharDevice T w of Inl _ \<Rightarrow> False | Inr b \<Rightarrow> b)"

definition shred :: "'w os_calls \<Rightarrow> 'w terminal \<Rightarrow> string \<Rightarrow> 'w \<Rightarrow> 'w" where
  "shred os T path w =
     (if path = [] then w
      else
        (case t_Size T path w of
           Inl _ \<Rightarrow> os_Remove os path w
         | Inr n \<Rightarrow>
             (case t_OpenWrite T path w of
                (Inl _, w) \<Rightarrow> os_Remove os path w
              | (Inr _, w) \<Rightarrow>
                  os_Remove os path (snd (CloseOpen os path (snd (t_Overwrite T path (zeros n) w)))))))"

text \<open>The private file for a value from the standard input. Its name, or none with the reason printed.\<close>

definition stage_source :: "'w os_calls \<Rightarrow> 'w terminal \<Rightarrow> bytes \<Rightarrow> 'w \<Rightarrow> string option \<times> 'w" where
  "stage_source os T value w =
     (case CreateTemp os (TempDir os w) ''safekeys-src-*'' w of
        (Inl e, w) \<Rightarrow> (None, warn T (''temp file: '' @ Error e) w)
      | (Inr path, w) \<Rightarrow>
          (case Chmod os path 384 w of
             (Inl e, w) \<Rightarrow> (None, os_Remove os path (snd (CloseOpen os path (warn T (''chmod: '' @ Error e) w))))
           | (Inr _, w) \<Rightarrow>
               (case WriteOpen os path value w of
                  (Inl e, w) \<Rightarrow> (None, os_Remove os path (snd (CloseOpen os path (warn T (''write temp: '' @ Error e) w))))
                | (Inr _, w) \<Rightarrow> (Some path, snd (CloseOpen os path w)))))"

definition create_flags :: "(string \<times> flag_kind) list" where
  "create_flags = [(''object'', String_flag), (''file'', String_flag), (''content-type'', String_flag), (''ttl'', Duration_flag)]"

definition source_request :: "(string \<Rightarrow> int result) \<Rightarrow> Env \<Rightarrow> (string \<times> string) list \<Rightarrow> string \<Rightarrow> string \<Rightarrow> WireRequest" where
  "source_request pd E given objID srcPath =
     zero_request\<lparr>wq_ObjectID := objID, wq_SourceFile := srcPath,
       wq_ContentType := flag_String given ''content-type'' ''text/plain'',
       wq_ScopeList := [ScopeInjectEnv, ScopeRead], wq_Audience := e_Audience E,
       wq_TTLSeconds := whole_seconds (flag_Duration pd given ''ttl'' Hour), wq_Principal := e_Principal E\<rparr>"

definition print_created :: "'w terminal \<Rightarrow> CreatedInfo \<Rightarrow> 'w \<Rightarrow> 'w" where
  "print_created T c w =
     (let w = say T (''object:  '' @ ci_ObjectID c) w;
          w = say T (''folder:  '' @ ci_Folder c) w;
          w = (if ci_Expires c > 0 then say T (''expires: '' @ t_Local T (ci_Expires c) w) w else w) in
      say T (''token:   '' @ ci_Token c) w)"

definition ask_sidecar :: "'w terminal \<Rightarrow> Env \<Rightarrow> WireRequest \<Rightarrow> 'w \<Rightarrow> int \<times> 'w" where
  "ask_sidecar T E req w =
     (case wire_Create (t_Dial T) (e_SocketPath E) req w of
        (Inl e, w) \<Rightarrow>
          (1, warn T ''start it with: make dev'' (warn T (''no sidecar at '' @ e_SocketPath E @ '': '' @ Error e) w))
      | (Inr resp, w) \<Rightarrow>
          (case ws_Created resp of
             None \<Rightarrow> (1, warn T ''denied'' w)
           | Some c \<Rightarrow> if \<not> ws_OK resp then (1, warn T ''denied'' w) else (0, print_created T c w)))"

definition terminal_warning :: string where
  "terminal_warning = ''warning: reading from a terminal echoes the value; prefer --file or a pipe''"

definition create_from :: "'w process \<Rightarrow> 'w terminal \<Rightarrow> Env \<Rightarrow> (string \<times> string) list \<Rightarrow> bytes \<Rightarrow> 'w \<Rightarrow> int \<times> 'w" where
  "create_from D T E given value w =
     (let object = flag_String given ''object'' []; file = flag_String given ''file'' []; os = h_os (d_host D) in
      if value = [] then (2, warn T ''refusing to create an empty secret'' w)
      else
        let w = (if isTerminal T w \<and> file = [] then warn T terminal_warning w else w) in
        (case (if object \<noteq> [] then (Inr object, w) else NewID (h_rand (d_host D)) ''obj'' w) of
           (Inl e, w) \<Rightarrow> (1, warn T (''generate id: '' @ Error e) w)
         | (Inr objID, w) \<Rightarrow>
             if file \<noteq> [] then ask_sidecar T E (source_request (d_ParseDuration D) E given objID file) w
             else
               (case stage_source os T value w of
                  (None, w) \<Rightarrow> (1, w)
                | (Some path, w) \<Rightarrow>
                    (case ask_sidecar T E (source_request (d_ParseDuration D) E given objID path) w of
                       (code, w) \<Rightarrow> (code, shred os T path w)))))"

definition read_value :: "'w process \<Rightarrow> 'w terminal \<Rightarrow> string \<Rightarrow> 'w \<Rightarrow> bytes option \<times> 'w" where
  "read_value D T file w =
     (if file \<noteq> [] then
        (case ReadFile (h_fs (d_host D)) file w of
           Inl e \<Rightarrow> (None, warn T (''read '' @ file @ '': '' @ Error e) w)
         | Inr b \<Rightarrow> (Some b, w))
      else
        (case t_Stdin T w of
           (Inl e, w) \<Rightarrow> (None, warn T (''read stdin: '' @ Error e) w)
         | (Inr b, w) \<Rightarrow> (Some b, w)))"

definition cmdCreate :: "'w process \<Rightarrow> 'w terminal \<Rightarrow> Env \<Rightarrow> string list \<Rightarrow> memory \<Rightarrow> 'w \<Rightarrow> int \<times> memory \<times> 'w" where
  "cmdCreate D T E args m w =
     (case flag_args (d_ParseDuration D) create_flags args of
        None \<Rightarrow> (2, m, t_Complain T ''create'' args w)
      | Some (given, _) \<Rightarrow>
          (case read_value D T (flag_String given ''file'' []) w of
             (None, w) \<Rightarrow> (1, m, w)
           | (Some raw, w) \<Rightarrow>
               (case secure_copy raw m of
                  (secure, m) \<Rightarrow>
                    (case create_from D T E given (Bytes secure m) w of
                       (code, w) \<Rightarrow> (code, snd (Release (Some secure) m), w)))))"

section \<open>exec\<close>

definition write_some :: "(bytes \<Rightarrow> 'w \<Rightarrow> 'w) \<Rightarrow> bytes \<Rightarrow> 'w \<Rightarrow> 'w" where
  "write_some out b w = (if length b > 0 then out b w else w)"

definition loadLocalVerifier :: "'w process \<Rightarrow> Env \<Rightarrow> memory \<Rightarrow> 'w \<Rightarrow> (key_cache \<times> Local) result \<times> memory \<times> 'w" where
  "loadLocalVerifier D E m w =
     (case New_key_cache (key_fetch D (e_ControlPlaneURL E)) (h_Now (d_host D)) (5 * Minute) w of
        (Inl e, w) \<Rightarrow> (Inl (wrapped_error (''fetch verification keys from '' @ e_ControlPlaneURL E @ '': '') e), m, w)
      | (Inr v, w) \<Rightarrow>
          (case NewLocal (h_fs (d_host D)) (d_IsNotExist D) (h_rand (d_host D)) (d_Getenv D) (e_KeystorePath E) m w of
             (Inl e, m, w) \<Rightarrow> (Inl e, m, w)
           | (Inr store, m, w) \<Rightarrow> (Inr (v, store), m, w)))"

text \<open>The token's claims, when it is accepted for this audience and grants the scope.\<close>

definition local_claims ::
  "'w process \<Rightarrow> Env \<Rightarrow> string \<Rightarrow> string \<Rightarrow> key_cache \<Rightarrow> 'w \<Rightarrow> Claims option \<times> 'w"
where
  "local_claims D E tokenURI scope v w =
     (case ParseURI tokenURI of
        Inl _ \<Rightarrow> (None, w)
      | Inr parsed \<Rightarrow>
          (case VerifyToken (kv_Verify (d_crypto D) (key_fetch D (e_ControlPlaneURL E)) (h_Now (d_host D))) parsed
                  (e_Audience E) (Unix (h_Now (d_host D) w)) (Some (\<lambda>_ s. (False, s))) (v, w) of
             (Inl _, _, w) \<Rightarrow> (None, w)
           | (Inr c, _, w) \<Rightarrow> (if ScopeAllows (c_Scope c) scope then Some c else None, w)))"

definition local_run ::
  "'w process \<Rightarrow> 'w terminal \<Rightarrow> string \<Rightarrow> string list \<Rightarrow> addr \<Rightarrow> memory \<Rightarrow> 'w \<Rightarrow> int \<times> memory \<times> 'w"
where
  "local_run D T name command value m w =
     (let secure = SecureBufferFrom value in
      case Inject (h_os (d_host D)) ''env'' name (Bytes secure m) command (NewExecInjector\<lparr>in_Capture := True\<rparr>) w of
        (Inl e, _, w) \<Rightarrow> (1, snd (Release (Some secure) m), warn T (Error e) w)
      | (Inr out, _, w) \<Rightarrow>
          (oc_ExitCode out, snd (Release (Some secure) m),
           write_some (t_Stderr T) (oc_Stderr out) (write_some (t_Stdout T) (oc_Stdout out) w)))"

definition local_object ::
  "'w process \<Rightarrow> 'w terminal \<Rightarrow> string \<Rightarrow> string list \<Rightarrow> Local \<Rightarrow> ManifestObject \<Rightarrow> bytes \<Rightarrow> memory \<Rightarrow> 'w
    \<Rightarrow> int \<times> memory \<times> 'w"
where
  "local_object D T name command store ob ct m w =
     (case Local_Unwrap (h_ciphers (d_host D)) m store (o_WrappingKID ob) (o_WrappedKey ob) w of
        (Inl _, w) \<Rightarrow> (1, m, warn T ''denied: key store unavailable'' w)
      | (Inr dek, w) \<Rightarrow>
          (case alloc dek m of
             (k, m) \<Rightarrow>
               (case DecryptObject (h_ciphers (d_host D)) (o_Alg ob) (load k m) ct of
                  Inl _ \<Rightarrow> (1, Zero k m, warn T ''denied'' w)
                | Inr pt \<Rightarrow>
                    (case alloc pt m of
                       (a, m) \<Rightarrow>
                         (case local_run D T name command a m w of
                            (code, m, w) \<Rightarrow> (code, Zero k m, w))))))"

definition execLocal ::
  "'w process \<Rightarrow> 'w terminal \<Rightarrow> Env \<Rightarrow> string \<Rightarrow> string \<Rightarrow> string \<Rightarrow> string \<Rightarrow> string list \<Rightarrow> memory \<Rightarrow> 'w
    \<Rightarrow> int \<times> memory \<times> 'w"
where
  "execLocal D T E tokenURI scope name folderDir command m w =
     (case loadLocalVerifier D E m w of
        (Inl e, m, w) \<Rightarrow> (1, m, warn T (''signer: '' @ Error e) w)
      | (Inr (v, store), m, w) \<Rightarrow>
          let folderDir = (if folderDir = [] then e_FolderDir E else folderDir) in
          (case local_claims D E tokenURI scope v w of
             (None, w) \<Rightarrow> (1, m, warn T ''denied'' w)
           | (Some c, w) \<Rightarrow>
               (case Load (h_fs (d_host D)) (Join [folderDir, c_SID c]) (c_SID c) w of
                  Inl _ \<Rightarrow> (1, m, warn T ''denied: object unavailable'' w)
                | Inr (ob, ct) \<Rightarrow> local_object D T name command store ob ct m w)))"

definition exec_flags :: "(string \<times> flag_kind) list" where
  "exec_flags = [(''token'', String_flag), (''name'', String_flag), (''scope'', String_flag), (''folder'', String_flag)]"

definition exec_request :: "Env \<Rightarrow> string \<Rightarrow> string \<Rightarrow> string \<Rightarrow> string list \<Rightarrow> WireRequest" where
  "exec_request E token scope name command =
     zero_request\<lparr>wq_Token := token, wq_Scope := scope, wq_Name := name, wq_Command := command, wq_Principal := e_Principal E\<rparr>"

text \<open>The dash is three bytes of UTF-8.\<close>

definition local_warning :: string where
  "local_warning = ''warning: no sidecar reachable '' @ [CHR 0xE2, CHR 0x80, CHR 0x94] @ '' resolving locally (development mode only)''"

definition exec_with ::
  "'w process \<Rightarrow> 'w terminal \<Rightarrow> Env \<Rightarrow> string \<Rightarrow> string \<Rightarrow> string \<Rightarrow> string \<Rightarrow> string list \<Rightarrow> memory \<Rightarrow> 'w
    \<Rightarrow> int \<times> memory \<times> 'w"
where
  "exec_with D T E token scope name folder command m w =
     (case wire_Resolve (t_Dial T) (e_SocketPath E) (exec_request E token scope name command) w of
        (Inr resp, w) \<Rightarrow>
          if ws_OK resp then
            (ws_ExitCode resp, m, write_some (t_Stderr T) (ws_Stderr resp) (write_some (t_Stdout T) (ws_Stdout resp) w))
          else (1, m, warn T ''denied'' w)
      | (Inl _, w) \<Rightarrow> execLocal D T E token scope name folder command m (warn T local_warning w))"

definition cmdExec :: "'w process \<Rightarrow> 'w terminal \<Rightarrow> Env \<Rightarrow> string list \<Rightarrow> memory \<Rightarrow> 'w \<Rightarrow> int \<times> memory \<times> 'w" where
  "cmdExec D T E args m w =
     (case flag_args (d_ParseDuration D) exec_flags args of
        None \<Rightarrow> (2, m, t_Complain T ''exec'' args w)
      | Some (given, command) \<Rightarrow>
          let token = flag_String given ''token'' [] in
          if token = [] \<or> length command = 0 then
            (2, m, warn T ''usage: safekeys exec --token <uri> -- <command...>'' w)
          else
            exec_with D T E token (flag_String given ''scope'' ScopeInjectEnv) (flag_String given ''name'' ''SAFEKEYS_SECRET'')
              (flag_String given ''folder'' []) command m w)"

section \<open>revoke, list, audit\<close>

definition cli_client :: "Env \<Rightarrow> Client" where
  "cli_client E = New_Client (e_ControlPlaneURL E) (e_APIKey E)"

definition cmdRevoke :: "'w process \<Rightarrow> 'w terminal \<Rightarrow> Env \<Rightarrow> string list \<Rightarrow> 'w \<Rightarrow> int \<times> 'w" where
  "cmdRevoke D T E args w =
     (case flag_args (d_ParseDuration D) [(''jti'', String_flag)] args of
        None \<Rightarrow> (2, t_Complain T ''revoke'' args w)
      | Some (given, _) \<Rightarrow>
          let jti = flag_String given ''jti'' [] in
          if jti = [] then (2, warn T ''usage: safekeys revoke --jti <jti>'' w)
          else
            (case client_RevokeToken (d_Do D) (cli_client E) jti w of
               (Inl e, w) \<Rightarrow> (1, warn T (''revoke: '' @ Error e) w)
             | (Inr _, w) \<Rightarrow> (0, say T (''revoked '' @ jti) w)))"

text \<open>\<open>%-28s\<close>: a text padded to a number of runes.\<close>

definition pad_right :: "nat \<Rightarrow> string \<Rightarrow> string" where
  "pad_right n s = s @ replicate (n - length (runes s)) (CHR '' '')"

definition list_line :: "string \<Rightarrow> string \<Rightarrow> string \<Rightarrow> string \<Rightarrow> string" where
  "list_line a b c d = pad_right 28 a @ '' '' @ pad_right 20 b @ '' '' @ pad_right 12 c @ '' '' @ d"

text \<open>A list of no objects is written as \<open>[]\<close>, the form of the answers of the control plane.\<close>

definition cmdList :: "'w process \<Rightarrow> 'w terminal \<Rightarrow> Env \<Rightarrow> string list \<Rightarrow> 'w \<Rightarrow> int \<times> 'w" where
  "cmdList D T E args w =
     (case flag_args (d_ParseDuration D) [(''json'', Bool_flag)] args of
        None \<Rightarrow> (2, t_Complain T ''list'' args w)
      | Some (given, _) \<Rightarrow>
          (case client_ListObjects (d_Do D) (cli_client E) [] w of
             (Inl e, w) \<Rightarrow> (1, warn T (''list: '' @ Error e) w)
           | (Inr objs, w) \<Rightarrow>
               if flag_Bool given ''json'' False then (0, t_Stdout T (json_line (JArr (map object_info_json objs))) w)
               else if length objs = 0 then (0, say T ''no objects'' w)
               else
                 (0, fold (\<lambda>ob. say T (list_line (oi_ID ob) (oi_OwnerPrincipal ob) (oi_WrappingKID ob) (oi_CreatedAt ob))) objs
                       (say T (list_line ''OBJECT'' ''OWNER'' ''KEK'' ''CREATED'') w))))"

definition audit_row :: "string \<Rightarrow> string \<Rightarrow> string \<Rightarrow> string \<Rightarrow> string \<Rightarrow> string" where
  "audit_row a b c d e =
     pad_right 22 a @ '' '' @ pad_right 12 b @ '' '' @ pad_right 8 c @ '' '' @ pad_right 10 d @ '' '' @ e"

definition cmdAudit :: "'w process \<Rightarrow> 'w terminal \<Rightarrow> Env \<Rightarrow> string list \<Rightarrow> 'w \<Rightarrow> int \<times> 'w" where
  "cmdAudit D T E args w =
     (case flag_args (d_ParseDuration D) [(''sid'', String_flag)] args of
        None \<Rightarrow> (2, t_Complain T ''audit'' args w)
      | Some (given, _) \<Rightarrow>
          (case client_Audit (d_Do D) (cli_client E) (flag_String given ''sid'' []) w of
             (Inl e, w) \<Rightarrow> (1, warn T (''audit: '' @ Error e) w)
           | (Inr events, w) \<Rightarrow>
               (0, fold (\<lambda>e. say T (audit_row (ai_At e) (ai_Event e) (ai_Outcome e) (ai_Reason e) (ai_SID e))) events
                     (say T (audit_row ''TIME'' ''EVENT'' ''OUTCOME'' ''REASON'' ''SID'') w))))"

section \<open>The command\<close>

definition usage_text :: string where
  "usage_text = concat (map println
     [''safekeys '' @ [CHR 0xE2, CHR 0x80, CHR 0x94] @ '' encrypted transport for secrets'',
      [],
      ''Usage:'',
      ''  safekeys create --object <id> [--file <path>]     create a secret (plaintext on stdin)'',
      ''  safekeys exec --token <uri> -- <command...>       run a command with a secret injected'',
      ''  safekeys revoke --jti <jti>                       revoke a capability token'',
      ''  safekeys list [--objects|--tokens]                list metadata (never values)'',
      ''  safekeys audit [--sid <id>]                       show the audit log'',
      ''  safekeys version                                  print version'',
      [],
      ''The model never sees a secret: create returns a token, exec returns an exit code.''])"

definition usage :: "'w terminal \<Rightarrow> 'w \<Rightarrow> 'w" where "usage T = t_Stderr T usage_text"

definition Run :: "'w process \<Rightarrow> 'w terminal \<Rightarrow> string list \<Rightarrow> memory \<Rightarrow> 'w \<Rightarrow> int \<times> memory \<times> 'w" where
  "Run D T args m w =
     (case args of
        [] \<Rightarrow> (2, m, usage T w)
      | cmd # rest \<Rightarrow>
          let E = cli_FromEnv D w in
          if cmd = ''create'' then cmdCreate D T E rest m w
          else if cmd = ''exec'' then cmdExec D T E rest m w
          else if cmd = ''revoke'' then (case cmdRevoke D T E rest w of (code, w) \<Rightarrow> (code, m, w))
          else if cmd = ''list'' then (case cmdList D T E rest w of (code, w) \<Rightarrow> (code, m, w))
          else if cmd = ''audit'' then (case cmdAudit D T E rest w of (code, w) \<Rightarrow> (code, m, w))
          else if cmd = ''version'' then (0, m, say T (''safekeys 0.1.0 (protocol v'' @ Version @ '')'') w)
          else if cmd \<in> set [''help'', ''-h'', ''--help''] then (0, m, usage T w)
          else (2, m, usage T (warn T (''unknown command '' @ t_Quote T cmd) w)))"

end
