(* ===== verification/Cli_Safety.thy ===== *)
theory Cli_Safety
  imports Cli Remote Sidecar_Safety
begin

text \<open>
  What the command line may do: when the development fallback of \<open>exec\<close> starts a command, what it
  asks the control plane, what it leaves in memory, and when it is taken.
\<close>

section \<open>The terminal in parts\<close>

lemma output_Dial [simp]:
  "say (T\<lparr>t_Dial := d\<rparr>) = say T" "warn (T\<lparr>t_Dial := d\<rparr>) = warn T"
  by (simp_all add: say_def warn_def fun_eq_iff)

lemma output_Stdin [simp]:
  "say (T\<lparr>t_Stdin := i\<rparr>) = say T" "warn (T\<lparr>t_Stdin := i\<rparr>) = warn T" "isTerminal (T\<lparr>t_Stdin := i\<rparr>) = isTerminal T"
  by (simp_all add: say_def warn_def isTerminal_def fun_eq_iff)

lemma fallback_Dial [simp]: "execLocal D (T\<lparr>t_Dial := d\<rparr>) = execLocal D T"
proof -
  have r: "t_Stderr (T\<lparr>t_Dial := d\<rparr>) = t_Stderr T" "t_Stdout (T\<lparr>t_Dial := d\<rparr>) = t_Stdout T" by simp_all
  show ?thesis by (intro ext; simp only: execLocal_def local_object_def local_run_def output_Dial r)
qed

lemma creation_Stdin [simp]:
  "ask_sidecar (T\<lparr>t_Stdin := i\<rparr>) = ask_sidecar T" "stage_source os (T\<lparr>t_Stdin := i\<rparr>) = stage_source os T"
  "shred os (T\<lparr>t_Stdin := i\<rparr>) = shred os T"
proof -
  have r: "t_Dial (T\<lparr>t_Stdin := i\<rparr>) = t_Dial T" "t_Local (T\<lparr>t_Stdin := i\<rparr>) = t_Local T" "t_Size (T\<lparr>t_Stdin := i\<rparr>) = t_Size T"
    "t_OpenWrite (T\<lparr>t_Stdin := i\<rparr>) = t_OpenWrite T" "t_Overwrite (T\<lparr>t_Stdin := i\<rparr>) = t_Overwrite T" by simp_all
  show "ask_sidecar (T\<lparr>t_Stdin := i\<rparr>) = ask_sidecar T" "stage_source os (T\<lparr>t_Stdin := i\<rparr>) = stage_source os T"
    "shred os (T\<lparr>t_Stdin := i\<rparr>) = shred os T"
    by (intro ext; simp only: ask_sidecar_def stage_source_def shred_def print_created_def output_Stdin r)+
qed

section \<open>The fallback, step by step\<close>

definition with_Start :: "(Cmd \<Rightarrow> 'w \<Rightarrow> nat result \<times> 'w) \<Rightarrow> 'w process \<Rightarrow> 'w process" where
  "with_Start f D = D\<lparr>d_host := (d_host D)\<lparr>h_os := (h_os (d_host D))\<lparr>Start := f\<rparr>\<rparr>\<rparr>"

lemma with_Start_simps [simp]:
  "d_env (with_Start f D) = d_env D" "d_Do (with_Start f D) = d_Do D" "d_crypto (with_Start f D) = d_crypto D"
  "d_Getenv (with_Start f D) = d_Getenv D" "key_fetch (with_Start f D) = key_fetch D"
  "h_fs (d_host (with_Start f D)) = h_fs (d_host D)" "h_Now (d_host (with_Start f D)) = h_Now (d_host D)"
  "h_rand (d_host (with_Start f D)) = h_rand (d_host D)" "d_IsNotExist (with_Start f D) = d_IsNotExist D"
  by (simp_all add: with_Start_def d_Getenv_def key_fetch_def fun_eq_iff)

lemma loadLocalVerifier_Inr:
  assumes "loadLocalVerifier D E m w = (Inr (v, store), m', w')"
  shows "d_env D ''SAFEKEYS_ALLOW_INSECURE_KEYSTORE'' = ''1''"
    "\<exists>ks u. kv_current v = Some ks \<and> fetched_keys (key_fetch D (e_ControlPlaneURL E)) u ks"
    "\<exists>kek. m' = m @ [kek]"
proof -
  obtain v' w1 where n: "New_key_cache (key_fetch D (e_ControlPlaneURL E)) (h_Now (d_host D)) (5 * Minute) w = (Inr v', w1)"
    and l: "NewLocal (h_fs (d_host D)) (d_IsNotExist D) (h_rand (d_host D)) (d_Getenv D) (e_KeystorePath E) m w1 = (Inr store, m', w')"
    and v: "v' = v"
    using assms by (auto simp: loadLocalVerifier_def split: prod.splits sum.splits)
  show "d_env D ''SAFEKEYS_ALLOW_INSECURE_KEYSTORE'' = ''1''" "\<exists>kek. m' = m @ [kek]"
    using l by (auto simp: NewLocal_def d_Getenv_def alloc_def split: if_splits prod.splits sum.splits)
  obtain u where "kv_refresh (key_fetch D (e_ControlPlaneURL E)) (h_Now (d_host D))
      \<lparr>kv_hasFetcher = True, kv_ttl = 5 * Minute, kv_current = None, kv_fetched = 0, kv_lastErr = None\<rparr> w = (Inr u, v, w1)"
    using n v by (auto simp: New_key_cache_def split: prod.splits sum.splits)
  from kv_refresh_Inr [OF this] show "\<exists>ks u. kv_current v = Some ks \<and> fetched_keys (key_fetch D (e_ControlPlaneURL E)) u ks"
    by blast
qed

lemma loadLocalVerifier_Inl: "loadLocalVerifier D E m w = (Inl e, m', w') \<Longrightarrow> m' = m"
  by (auto simp: loadLocalVerifier_def NewLocal_def alloc_def split: if_splits prod.splits sum.splits)

lemma local_claims_Some:
  assumes "local_claims D E uri scope v w = (Some c, w')"
  shows "\<exists>p v' w1. ParseURI uri = Inr p \<and> scope \<in> set (c_Scope c) \<and>
    VerifyToken (kv_Verify (d_crypto D) (key_fetch D (e_ControlPlaneURL E)) (h_Now (d_host D))) p (e_Audience E)
      (Unix (h_Now (d_host D) w)) (Some (\<lambda>_ s. (False, s))) (v, w) = (Inr c, v', w1)"
  using assms by (auto simp: local_claims_def split: sum.splits prod.splits if_splits)

text \<open>An accepted token of the fallback: by a fetched key, in its interval, for the audience, with the scope.\<close>

definition locally_granted :: "'w process \<Rightarrow> Env \<Rightarrow> string \<Rightarrow> string \<Rightarrow> Claims \<Rightarrow> bool" where
  "locally_granted D E uri scope c \<longleftrightarrow>
     (\<exists>p u t. ParseURI uri = Inr p \<and> DecodeClaims (p_JWS p) = Inr c \<and> t = Unix (h_Now (d_host D) u) \<and>
        c_Nbf c \<le> t \<and> t < c_Exp c \<and> c_Aud c = e_Audience E \<and> c_SID c = p_SID p \<and> scope \<in> set (c_Scope c) \<and>
        (\<exists>h ks k p0 p1 p2 sig. split_on (CHR ''.'') (p_JWS p) = [p0, p1, p2] \<and> DecodeHeader (p_JWS p) = Inr h \<and>
           (\<exists>x. fetched_keys (key_fetch D (e_ControlPlaneURL E)) x ks) \<and> map_of ks (h_Kid h) = Some k \<and> pk_Alg k = h_Alg h \<and>
           b64decode p2 = Some sig \<and> signature_valid (d_crypto D) k (p0 @ ''.'' @ p1) sig))"

lemma local_claims_granted:
  assumes "local_claims D E uri scope v w = (Some c, w')"
    and "kv_current v = Some ks0" and "fetched_keys (key_fetch D (e_ControlPlaneURL E)) u0 ks0"
  shows "locally_granted D E uri scope c"
proof -
  let ?fetch = "key_fetch D (e_ControlPlaneURL E)" and ?clock = "h_Now (d_host D)"
  obtain p v' w1 where p: "ParseURI uri = Inr p" "scope \<in> set (c_Scope c)"
    and t: "VerifyToken (kv_Verify (d_crypto D) ?fetch ?clock) p (e_Audience E) (Unix (?clock w)) (Some (\<lambda>_ s. (False, s))) (v, w)
      = (Inr c, v', w1)"
    using local_claims_Some [OF assms(1)] by blast
  from t obtain h s1 where h: "kv_Verify (d_crypto D) ?fetch ?clock (p_JWS p) (v, w) = (Inr h, s1)"
    and c: "DecodeClaims (p_JWS p) = Inr c" "c_Nbf c \<le> Unix (?clock w)" "Unix (?clock w) < c_Exp c"
      "c_Aud c = e_Audience E" "c_SID c = p_SID p"
    unfolding VerifyToken_Inr_iff by auto
  obtain ks k p0 p1 p2 sig where s: "kv_current (fst s1) = Some ks" "map_of ks (h_Kid h) = Some k" "pk_Alg k = h_Alg h"
    "split_on (CHR ''.'') (p_JWS p) = [p0, p1, p2]" "b64decode p2 = Some sig" "DecodeHeader (p_JWS p) = Inr h"
    "signature_valid (d_crypto D) k (p0 @ ''.'' @ p1) sig"
    using published.checked [OF h] verifyWithPublicKey_Inr by blast
  have "origin_ok ?fetch (kv_current v) (kv_current (fst s1))"
    using h s(6) kv_VerifyWith_origin [of "d_crypto D" ?fetch ?clock "h_Kid h" "h_Alg h" "p_JWS p" v w _ "fst s1" "snd s1"]
    by (auto simp: kv_Verify_def)
  then have x: "\<exists>x. fetched_keys ?fetch x ks" using s(1) assms(2,3) by (auto simp: origin_ok_def)
  show ?thesis
    unfolding locally_granted_def
    by (intro exI [of _ p] exI [of _ w] exI [of _ "Unix (?clock w)"] conjI exI [of _ h] exI [of _ ks] exI [of _ k]
      exI [of _ p0] exI [of _ p1] exI [of _ p2] exI [of _ sig] p c s x refl)
qed

text \<open>
  C16. The fallback starts a command only with authority: wherever it would matter to its outcome what
  starting a command does, the insecure key store was opted into, and the token parses, verifies
  under a key fetched from the control plane, is in its interval, for the audience of the command
  line and the object of its URI, and grants the scope.
\<close>

theorem local_run_needs_authority:
  assumes "execLocal (with_Start f D) T E uri scope name dir command m w \<noteq> execLocal D T E uri scope name dir command m w"
  shows "d_env D ''SAFEKEYS_ALLOW_INSECURE_KEYSTORE'' = ''1'' \<and> (\<exists>c. locally_granted D E uri scope c)"
proof -
  have same: "loadLocalVerifier (with_Start f D) = loadLocalVerifier D" "local_claims (with_Start f D) = local_claims D"
    by (intro ext; simp only: loadLocalVerifier_def local_claims_def with_Start_simps)+
  obtain r m1 w1 where l: "loadLocalVerifier D E m w = (r, m1, w1)" by (metis prod_cases3)
  obtain v store where r: "r = Inr (v, store)" using assms l by (cases r) (auto simp: execLocal_def same)
  obtain cl w2 where c: "local_claims D E uri scope v w1 = (cl, w2)" by (metis prod.collapse)
  obtain c where cl: "cl = Some c" using assms l r c by (cases cl) (auto simp: execLocal_def same Let_def)
  show ?thesis
    using loadLocalVerifier_Inr [OF l [unfolded r]] local_claims_granted [OF c [unfolded cl]] by blast
qed

section \<open>What the fallback asks\<close>

definition keys_request :: "Env \<Rightarrow> http_request" where
  "keys_request E = \<lparr>rq_Method = ''GET'', rq_URL = e_ControlPlaneURL E @ ''/v1/keys'', rq_Header = [], rq_Body = []\<rparr>"

text \<open>
  C38. The fallback asks the control plane for nothing but the public keys: with any other network that
  answers this one request alike, it does the same. So it checks neither the revocation of the
  token nor the policy of the resolver, and reports to no one.
\<close>

theorem local_run_asks_only_for_keys:
  assumes "\<And>u. Do' (keys_request E) u = d_Do D (keys_request E) u"
  shows "execLocal (D\<lparr>d_Do := Do'\<rparr>) T E uri scope name dir command m w = execLocal D T E uri scope name dir command m w"
proof -
  let ?D = "D\<lparr>d_Do := Do'\<rparr>"
  have f: "key_fetch ?D (e_ControlPlaneURL E) = key_fetch D (e_ControlPlaneURL E)" "d_Getenv ?D = d_Getenv D"
    "d_host ?D = d_host D" "d_crypto ?D = d_crypto D" "d_IsNotExist ?D = d_IsNotExist D"
    using assms by (simp_all add: key_fetch_def keys_Fetch_def keys_request_def d_Getenv_def fun_eq_iff)
  have g: "loadLocalVerifier ?D E m w = loadLocalVerifier D E m w" "local_claims ?D E uri scope v u = local_claims D E uri scope v u"
    "local_object ?D = local_object D" for v u
    by - (((intro ext)?, simp only: loadLocalVerifier_def local_claims_def local_object_def local_run_def f)+)
  show ?thesis by (simp only: execLocal_def f g)
qed

section \<open>What stays in memory\<close>

lemma local_object_memory:
  "local_object D T name command store ob ct m w = (code, m', w') \<Longrightarrow>
    \<exists>zs. m' = m @ zs \<and> list_all (list_all (\<lambda>x. x = CHR 0x00)) zs"
proof -
  have z: "Zero (length m) (m @ d # x) = m @ zeros (length d) # x" for d :: bytes and x
    by (simp add: Zero_eq load_def list_update_append)
  have z1: "Zero (Suc (length m)) (m @ d # e # x) = m @ d # zeros (length e) # x" for d e :: bytes and x
    by (simp add: Zero_eq load_def list_update_append nth_append)
  have all: "list_all (\<lambda>x. x = CHR 0x00) (zeros n)" for n by (simp add: zeros_def list_all_iff)
  assume "local_object D T name command store ob ct m w = (code, m', w')"
  then show ?thesis
    by (auto simp: local_object_def local_run_def alloc_def Release_def SecureBufferFrom_def Let_def z z1 all
      split: sum.splits prod.splits intro: exI [of _ "[]"])
qed

text \<open>
  Of what the fallback puts into memory only the key of the store stays: the object's key and its
  plaintext are zero when it returns, however it returns; the store itself is never closed.
\<close>

theorem local_run_zeroises:
  "case execLocal D T E uri scope name dir command m w of
     (_, m', _) \<Rightarrow> take (length m) m' = m \<and> list_all (list_all (\<lambda>x. x = CHR 0x00)) (drop (length m + 1) m')"
proof -
  obtain r m1 w1 where l: "loadLocalVerifier D E m w = (r, m1, w1)" by (metis prod_cases3)
  show ?thesis
  proof (cases r)
    case (Inl e)
    then show ?thesis using l loadLocalVerifier_Inl [of D E m w e m1 w1] by (simp add: execLocal_def)
  next
    case (Inr x)
    then obtain v store where r: "r = Inr (v, store)" by (cases x) auto
    obtain kek where m1: "m1 = m @ [kek]" using loadLocalVerifier_Inr(3) [OF l [unfolded r]] by blast
    have "\<exists>code zs w'. execLocal D T E uri scope name dir command m w = (code, m1 @ zs, w') \<and> list_all (list_all (\<lambda>x. x = CHR 0x00)) zs"
    proof -
      obtain cl w2 where c: "local_claims D E uri scope v w1 = (cl, w2)" by (metis prod.collapse)
      show ?thesis
      proof (cases cl)
        case None
        then show ?thesis using l r c by (simp add: execLocal_def Let_def)
      next
        case (Some c')
        let ?dir = "if dir = [] then e_FolderDir E else dir"
        show ?thesis
        proof (cases "Load (h_fs (d_host D)) (Join [?dir, c_SID c']) (c_SID c') w2")
          case (Inl e)
          then show ?thesis using l r c Some by (simp add: execLocal_def Let_def)
        next
          case (Inr y)
          obtain ob ct where y: "y = (ob, ct)" by (cases y)
          obtain code m' w' where o: "local_object D T name command store ob ct m1 w2 = (code, m', w')" by (metis prod_cases3)
          then show ?thesis using l r c Some Inr y local_object_memory [OF o] by (simp add: execLocal_def Let_def)
        qed
      qed
    qed
    then show ?thesis using m1 by auto
  qed
qed

section \<open>Options\<close>

definition typed_values :: "(string \<Rightarrow> int result) \<Rightarrow> (string \<times> flag_kind) list \<Rightarrow> (string \<times> string) list \<Rightarrow> bool" where
  "typed_values pd formal given \<longleftrightarrow>
     list_all (\<lambda>(n, v). case map_of formal n of None \<Rightarrow> False | Some k \<Rightarrow> flag_accepts pd k v) given"

definition command_of :: "string list \<Rightarrow> string list \<Rightarrow> bool" where
  "command_of args rest \<longleftrightarrow>
     (\<exists>opts. args = opts @ rest \<and>
          (rest = [] \<or> (if is_option (hd rest) then opts \<noteq> [] \<and> last opts = ''--'' else True)))"

lemma command_of_append: "command_of args rest \<Longrightarrow> command_of (pre @ args) rest"
  unfolding command_of_def by (metis append.assoc append_is_Nil_conv last_appendR)

definition well_parsed ::
  "(string \<Rightarrow> int result) \<Rightarrow> (string \<times> flag_kind) list \<Rightarrow> string list \<Rightarrow> ((string \<times> string) list \<times> string list) option \<Rightarrow> bool"
where
  "well_parsed pd formal args r =
     (case r of None \<Rightarrow> True | Some (given, rest) \<Rightarrow> typed_values pd formal given \<and> command_of args rest)"

lemma well_parsed_next:
  "well_parsed pd formal args r \<Longrightarrow> map_of formal n = Some k \<Longrightarrow> flag_accepts pd k v \<Longrightarrow>
    well_parsed pd formal (pre @ args) (map_option (map_prod (Cons (n, v)) id) r)"
  by (auto simp: well_parsed_def typed_values_def command_of_append split: option.splits)

lemma well_parsed_flag_args: "well_parsed pd formal args (flag_args pd formal args)"
proof (induction args rule: length_induct)
  case (1 args)
  show ?case
  proof (cases args)
    case Nil
    then show ?thesis by (simp add: well_parsed_def typed_values_def command_of_def)
  next
    case (Cons s as)
    let ?t = "option_text s"
    let ?n = "option_name ?t"
    have IH: "well_parsed pd formal bs (flag_args pd formal bs)" if "length bs \<le> length as" for bs
      using 1 that Cons by auto
    have again: "well_parsed pd formal (pre @ bs) (map_option (map_prod (Cons (?n, v)) id) (flag_args pd formal bs))"
      if "map_of formal ?n = Some k" "flag_accepts pd k v" "length bs \<le> length as" for k v bs pre
      by (rule well_parsed_next [OF IH [OF that(3)] that(1,2)])
    have true: "flag_accepts pd Bool_flag ''true''" by (simp add: flag_accepts_def ParseBool_def)
    consider (plain) "\<not> is_option s" | (dashes) "is_option s" "s = ''--''"
      | (bad) "is_option s" "s \<noteq> ''--''" "HasPrefix ?t ''-'' \<or> ?n = [] \<or> map_of formal ?n = None"
      | (given) k where "is_option s" "s \<noteq> ''--''" "\<not> HasPrefix ?t ''-''" "?n \<noteq> []" "map_of formal ?n = Some k"
      by blast
    then show ?thesis
    proof cases
      case plain
      then show ?thesis using Cons by (simp add: well_parsed_def typed_values_def command_of_def)
    next
      case dashes
      then show ?thesis using Cons by (auto simp: well_parsed_def typed_values_def command_of_def intro: exI [of _ "[''--'']"])
    next
      case bad
      then show ?thesis using Cons by (auto simp: well_parsed_def Let_def)
    next
      case given
      have none: "well_parsed pd formal xs None" for xs by (simp add: well_parsed_def)
      show ?thesis
      proof (cases "option_value ?t")
        case (Some v)
        then show ?thesis
          using Cons given again [OF given(5), of v as "[s]"] none by (cases k) (auto simp: Let_def)
      next
        case None
        show ?thesis
        proof (cases "k = Bool_flag")
          case True
          then show ?thesis using Cons given None again [OF given(5), of "''true''" as "[s]"] true by (simp add: Let_def)
        next
          case False
          then show ?thesis
            using Cons given None again [OF given(5), of "hd as" "tl as" "[s, hd as]"] none
            by (cases k; cases as) (simp_all add: Let_def)
        qed
      qed
    qed
  qed
qed

text \<open>
  A parsed command line is well-typed: every value belongs to an option the command has and is one
  the option's type accepts, and what is left is the end of the command line, which starts with
  no option unless \<open>--\<close> came before it.
\<close>

theorem parsed_options_are_well_typed:
  "case flag_args pd formal args of
     None \<Rightarrow> True
   | Some (given, rest) \<Rightarrow>
       list_all (\<lambda>(n, v). case map_of formal n of None \<Rightarrow> False | Some k \<Rightarrow> flag_accepts pd k v) given \<and>
       (\<exists>opts. args = opts @ rest \<and>
          (rest = [] \<or> (if is_option (hd rest) then opts \<noteq> [] \<and> last opts = ''--'' else True)))"
  using well_parsed_flag_args [of pd formal args] unfolding well_parsed_def typed_values_def command_of_def .

text \<open>What follows \<open>--\<close> is never read as an option.\<close>

lemma exec_options: "flag_args pd exec_flags (''--token'' # uri # ''--'' # command) = Some ([(''token'', uri)], command)"
proof -
  have "is_option ''--token''" "option_text ''--token'' = ''token''" "option_name ''token'' = ''token''"
    "option_value ''token'' = None" "\<not> HasPrefix ''token'' ''-''" "map_of exec_flags ''token'' = Some String_flag" "is_option ''--''"
    by code_simp+
  then show ?thesis by (simp add: flag_accepts_def Let_def)
qed

section \<open>Through the sidecar\<close>

text \<open>A connection that breaks off after the other side has handled the request.\<close>

definition lossy :: "'w dialer \<Rightarrow> 'w dialer" where
  "lossy dial path data w =
     (case dial path data w of
        (Answered _, w) \<Rightarrow> (Broken (Err ''EOF''), w)
      | (x, w) \<Rightarrow> (x, w))"

text \<open>
  C37. A lost answer runs the command a second time: when the sidecar has handled the request and the
  answer does not arrive, the command line goes on to resolve the token itself, in the state the
  sidecar left, whatever the sidecar did or denied.
\<close>

theorem lost_answer_is_resolved_again:
  assumes "wire_Resolve (t_Dial T) (e_SocketPath E) (exec_request E token ScopeInjectEnv ''SAFEKEYS_SECRET'' command) w = (Inr resp, w1)"
    and "token \<noteq> []" and "command \<noteq> []"
  shows "cmdExec D (T\<lparr>t_Dial := lossy (t_Dial T)\<rparr>) E (''--token'' # token # ''--'' # command) m w =
    execLocal D T E token ScopeInjectEnv ''SAFEKEYS_SECRET'' [] command m (warn T local_warning w1)"
proof -
  let ?T = "T\<lparr>t_Dial := lossy (t_Dial T)\<rparr>"
  have "\<exists>e. wire_Resolve (lossy (t_Dial T)) (e_SocketPath E) (exec_request E token ScopeInjectEnv ''SAFEKEYS_SECRET'' command) w = (Inl e, w1)"
    using assms(1) by (auto simp: wire_Resolve_def wire_send_def lossy_def split: prod.splits exchange.splits option.splits)
  moreover have "flag_String [(''token'', token)] ''token'' [] = token" "flag_String [(''token'', token)] ''scope'' x = x"
    "flag_String [(''token'', token)] ''name'' x = x" "flag_String [(''token'', token)] ''folder'' x = x" for x
    by (simp_all add: flag_String_def)
  ultimately show ?thesis using assms(2,3) by (auto simp: cmdExec_def exec_options exec_with_def Let_def simp del: flag_args.simps)
qed

section \<open>A command line for the instances\<close>

text \<open>
  The state is that of the sample operating system; what is written to the standard output is an
  entry of its files. The control plane publishes the key of the sample signer and knows nothing
  else; the sidecar's socket starts a command before its answer comes.
\<close>

definition cli_ciphers :: ciphers where
  "cli_ciphers = sample_ciphers\<lparr>aes_gcm := \<lparr>NonceSize = 1, Seal = (\<lambda>k n p. p), Open = (\<lambda>k n b. Some b)\<rparr>\<rparr>"

definition cli_rand :: "'w random" where
  "cli_rand n w = (Some (replicate n (CHR ''r'')), w)"

definition cli_kek :: bytes where "cli_kek = replicate 32 (CHR ''o'')"

definition cli_store :: Local where "cli_store = \<lparr>lo_path = ''/k'', lo_kek = Some 0\<rparr>"

definition ok_of :: "'a result \<Rightarrow> 'a \<Rightarrow> 'a" where "ok_of r d = (case r of Inl _ \<Rightarrow> d | Inr x \<Rightarrow> x)"

definition cli_object :: ManifestObject where
  "cli_object = zero_object\<lparr>o_ID := ''obj_1'', o_Path := ''objects/obj_1.enc'', o_Alg := AlgAES256GCM,
     o_WrappedKey := ok_of (fst (Local_Wrap cli_ciphers cli_rand [cli_kek] cli_store ''k'' sample_dek ())) [], o_WrappingKID := ''k''\<rparr>"

definition cli_sealed :: bytes where
  "cli_sealed = ok_of (fst (EncryptObject cli_ciphers cli_rand AlgAES256GCM sample_dek ''s3cretvalue'' ())) []"

definition cli_disk :: "(string \<times> bytes) list" where
  "cli_disk = [(''/f/obj_1/manifest.json'', Marshal (manifest_json (zero_manifest\<lparr>m_Safekeys := ''1'', m_Objects := [cli_object]\<rparr>))),
     (''/f/obj_1/objects/obj_1.enc'', cli_sealed), (''/k'', cli_kek)]"

definition cli_fs :: "'w files" where
  "cli_fs = \<lparr>ReadFile = (\<lambda>p w. ReadFile sample_fs p cli_disk), Stat = (\<lambda>p w. Stat sample_fs p cli_disk),
     MkdirAll = (\<lambda>p n w. (Inr (), w)), WriteFile = (\<lambda>p b n w. (Inr (), w)), Remove = (\<lambda>p w. (Inr (), w))\<rparr>"

definition cli_host :: "sample_os_state host" where
  "cli_host = (stub_host sample_os)\<lparr>h_fs := cli_fs, h_rand := cli_rand, h_ciphers := cli_ciphers\<rparr>"

definition cli_jwks :: PublicJWKS where
  "cli_jwks = \<lparr>jwks_Issuer = ''https://cp'', jwks_Keys = Ed25519_PublicKeys sample_crypto sample_signer\<rparr>"

definition cli_net :: "'w transport" where
  "cli_net rq w =
     (if rq_URL rq = ''http://cp/v1/keys'' then
        (Inr \<lparr>rs_StatusCode = StatusOK, rs_Body = Marshal (jwks_json cli_jwks) @ [CHR 0x0A]\<rparr>, w)
      else (Inl (Err ''unreachable''), w))"

definition cli_process :: "sample_os_state process" where
  "cli_process =
     \<lparr>d_host = cli_host, d_env = (\<lambda>k. if k = ''SAFEKEYS_ALLOW_INSECURE_KEYSTORE'' then ''1'' else []),
      d_UserHomeDir = (\<lambda>w. Inr ''/home/s''), d_ParseDuration = (\<lambda>s. Inl (Err ''time: invalid duration'')), d_Do = cli_net,
      d_crypto = sample_crypto, d_IsNotExist = (\<lambda>e. True), d_keychain = None, d_Printf = (\<lambda>msg w. w)\<rparr>"

definition cli_env :: Env where
  "cli_env = \<lparr>e_ControlPlaneURL = ''http://cp'', e_APIKey = ''k'', e_SocketPath = ''/s'', e_FolderDir = ''/f'', e_KeystorePath = ''/k'',
     e_Audience = ''prod'', e_Principal = ''operator''\<rparr>"

definition cli_cmd :: Cmd where
  "cli_cmd = \<lparr>cmd_Args = [''run''], cmd_Env = [], cmd_Stdout = Buffer_writer, cmd_Stderr = Buffer_writer, cmd_Setpgid = True\<rparr>"

definition cli_dial :: "sample_os_state dialer" where
  "cli_dial path data w = (Answered (writeResp (zero_response\<lparr>ws_OK := True\<rparr>)), w\<lparr>so_started := so_started w @ [cli_cmd]\<rparr>)"

definition cli_terminal :: "sample_os_state terminal" where
  "cli_terminal =
     \<lparr>t_Stdin = (\<lambda>w. (Inr ''s3cret'', w)), t_ModeCharDevice = (\<lambda>w. Inr False),
      t_Stdout = (\<lambda>b w. w\<lparr>so_files := (''/dev/stdout'', 0, b) # so_files w\<rparr>), t_Stderr = (\<lambda>b w. w),
      t_Complain = (\<lambda>c args w. w), t_Quote = id, t_Size = (\<lambda>p w. Inr 6), t_OpenWrite = (\<lambda>p w. (Inr (), w)),
      t_Overwrite = (\<lambda>p b w. (Inr (), w)), t_Local = (\<lambda>t w. []), t_Dial = cli_dial\<rparr>"

lemma cli_facts:
  "Local_Unwrap cli_ciphers [cli_kek] cli_store ''k'' (o_WrappedKey cli_object) (w :: sample_os_state) = (Inr sample_dek, w)"
  "DecryptObject cli_ciphers AlgAES256GCM sample_dek cli_sealed = Inr ''s3cretvalue''"
  "x509_MarshalPKIXPublicKey sample_crypto (Ed25519_public (ed25519_Public (ed_prv sample_signer))) =
     Some (CHR ''E'' # ed25519_Public (ed_prv sample_signer))"
  by code_simp+

lemma cli_load: "Load sample_fs ''/f/obj_1'' ''obj_1'' cli_disk = Inr (cli_object, cli_sealed)"
  by code_simp

lemma cli_reads: "Load (h_fs (d_host cli_process)) dir sid w = Load sample_fs dir sid cli_disk"
proof -
  have f: "ReadFile (h_fs (d_host cli_process)) p w = ReadFile sample_fs p cli_disk"
    "Stat (h_fs (d_host cli_process)) p w = Stat sample_fs p cli_disk" for p
    by (simp_all add: cli_process_def cli_host_def cli_fs_def)
  show ?thesis by (simp only: Load_def find_def holds_def isDir_def ReadManifest_def f)
qed

definition cli_jws :: string where
  "cli_jws = ok_of (Ed25519_Sign sample_crypto sample_signer zero_header sample_claims) []"

lemma cli_token:
  "\<exists>ks h. NewKeySetVerifier (jwks_Keys cli_jwks) = Inr ks \<and> KeySet_Verify sample_crypto ks cli_jws = Inr h"
  "DecodeClaims cli_jws = Inr sample_claims"
  "ParseURI (URI ''obj_1'' cli_jws) = Inr \<lparr>p_SID = ''obj_1'', p_JWS = cli_jws, p_Version = Version\<rparr>"
proof -
  obtain jws where j: "Ed25519_Sign sample_crypto sample_signer zero_header sample_claims = Inr jws"
    by (simp add: Ed25519_Sign_def signCompact_def sample_facts IsAlgorithmAllowed_iff Let_def)
  then have c: "cli_jws = jws" by (simp add: cli_jws_def ok_of_def)
  have k: "utf8_Valid (ed_kid sample_signer)" "ed_kid sample_signer \<noteq> []"
    "ed25519_Verify sample_crypto (ed25519_Public (ed_prv sample_signer)) m (ed25519_Sign sample_crypto (ed_prv sample_signer) m)"
    "x509_ParsePKIXPublicKey sample_crypto (CHR ''E'' # ed25519_Public (ed_prv sample_signer)) =
      Some (Ed25519_public (ed25519_Public (ed_prv sample_signer)))" for m
    using sample_facts by (simp_all add: sample_signer_def sample_crypto_def ed25519_Public_def)
  from signed_EdDSA [OF j k(1-3) cli_facts(3) _ k(4)] sample_facts(2)
  show "\<exists>ks h. NewKeySetVerifier (jwks_Keys cli_jwks) = Inr ks \<and> KeySet_Verify sample_crypto ks cli_jws = Inr h"
    "DecodeClaims cli_jws = Inr sample_claims"
    by (auto simp: cli_jwks_def c)
  obtain sig hb where b: "jws = b64 hb @ ''.'' @ b64 (Marshal (claims_json sample_claims)) @ ''.'' @ b64 sig"
    using j unfolding Ed25519_Sign_def by (rule signCompact_Inr) blast
  have "CHR ''%'' \<notin> set (b64 x)" for x
    using EncodeToString_chars [of "CHR ''%''" RawURLEncoding x]
    by (auto simp: b64_def b64_safe_char_def char_class_defs)
  then show "ParseURI (URI ''obj_1'' cli_jws) = Inr \<lparr>p_SID = ''obj_1'', p_JWS = cli_jws, p_Version = Version\<rparr>"
    unfolding c using sample_facts(3) by (intro ParseURI_URI) (auto simp: b sample_claims_def)
qed

lemma cli_fetch: "keys_Fetch cli_net ''http://cp'' w = (Inr cli_jwks, w)"
proof -
  have s: "signs_with sample_crypto sample_signer signing_server" by (simp add: signs_with_def signing_server_def)
  have "keys_text signing_server"
    by (rule published_text [OF s _ _ cli_facts(3)]) (use signing_facts(4) in \<open>simp_all add: signing_server_def sample_signer_def\<close>)
  from jwks_reads [OF this] have r: "Option.bind (Decode (Marshal (jwks_json cli_jwks) @ [CHR 0x0A])) jwks_of_json = Some cli_jwks"
    by (simp add: cli_jwks_def signing_server_def)
  have "length (jwks_Keys cli_jwks) \<noteq> 0" by (simp add: cli_jwks_def Ed25519_PublicKeys_def)
  then show ?thesis unfolding keys_Fetch_def by (simp add: cli_net_def r del: Marshal.simps)
qed

lemma cli_verifier:
  "\<exists>v. loadLocalVerifier cli_process cli_env [] w = (Inr (v, cli_store), [cli_kek], w) \<and>
    local_claims cli_process cli_env (URI ''obj_1'' cli_jws) ''inject-env'' v w = (Some sample_claims, w)"
proof -
  let ?fetch = "key_fetch cli_process ''http://cp''" and ?clock = "h_Now (d_host cli_process)"
  have f: "?fetch u = (Inr cli_jwks, u)" for u by (simp add: key_fetch_def cli_process_def cli_fetch)
  obtain ks h where k: "NewKeySetVerifier (jwks_Keys cli_jwks) = Inr ks" "KeySet_Verify sample_crypto ks cli_jws = Inr h"
    using cli_token(1) by blast
  obtain v where n: "New_key_cache ?fetch ?clock (5 * Minute) w = (Inr v, w)"
    using f [of w] k(1) by (simp add: New_key_cache_def kv_refresh_def)
  obtain v' where kv: "kv_Verify sample_crypto ?fetch ?clock cli_jws (v, w) = (Inr h, v', w)"
    using kv_accepts [OF f k n] by blast
  have l: "NewLocal (h_fs (d_host cli_process)) (d_IsNotExist cli_process) (h_rand (d_host cli_process)) (d_Getenv cli_process) ''/k'' [] w
      = (Inr cli_store, [cli_kek], w)"
    by (simp add: NewLocal_def d_Getenv_def cli_process_def cli_host_def cli_fs_def sample_fs_def cli_disk_def load_or_create_kek_def
      cli_kek_def KEKSize_def alloc_def cli_store_def)
  have lv: "loadLocalVerifier cli_process cli_env [] w = (Inr (v, cli_store), [cli_kek], w)"
    using n l by (simp add: loadLocalVerifier_def cli_env_def)
  have t: "?clock u = 1500000000000" for u by (simp add: cli_process_def cli_host_def stub_host_def)
  have "local_claims cli_process cli_env (URI ''obj_1'' cli_jws) ''inject-env'' v w = (Some sample_claims, w)"
    unfolding local_claims_def cli_token(3)
    using kv cli_token(2) sample_facts(1) t
    by (simp add: VerifyToken_def cli_env_def) (simp add: cli_process_def sample_claims_def Unix_def Second_def)
  then show ?thesis using lv by blast
qed

definition cli_value_cmd :: Cmd where
  "cli_value_cmd = exec_cmd sample_os (NewExecInjector\<lparr>in_Capture := True\<rparr>) ''SAFEKEYS_SECRET'' ''s3cretvalue'' [''env''] sample_os_init"

definition cli_ran :: "sample_os_state \<Rightarrow> sample_os_state" where
  "cli_ran w = w\<lparr>so_files := (''/dev/stdout'', 0, ''PATH=/binSAFEKEYS_SECRET=s3cretvalue'') # so_files w,
     so_started := so_started w @ [cli_value_cmd]\<rparr>"

lemma cli_inject:
  "Inject sample_os ''env'' ''SAFEKEYS_SECRET'' ''s3cretvalue'' [''env''] (NewExecInjector\<lparr>in_Capture := True\<rparr>) w =
    (Inr \<lparr>oc_Descriptor = ''SAFEKEYS_SECRET'', oc_ExitCode = 3, oc_Stdout = ''PATH=/binSAFEKEYS_SECRET=s3cretvalue'', oc_Stderr = []\<rparr>,
     NewExecInjector\<lparr>in_Capture := True\<rparr>, w\<lparr>so_started := so_started w @ [cli_value_cmd]\<rparr>)"
proof -
  have e: "cmd_Env cli_value_cmd = [''PATH=/bin'', ''SAFEKEYS_SECRET=s3cretvalue'']" by code_simp
  have l: "LookupEnv sample_os k w = LookupEnv sample_os k sample_os_init" for k by (simp add: sample_os_def)
  have "ambient sample_os ks w = ambient sample_os ks sample_os_init" for ks by (induction ks) (simp_all add: l split: option.split)
  then have c: "exec_cmd sample_os (NewExecInjector\<lparr>in_Capture := True\<rparr>) ''SAFEKEYS_SECRET'' ''s3cretvalue'' [''env''] w = cli_value_cmd"
    by (simp add: exec_cmd_def scrubbedEnv_def cli_value_cmd_def)
  have "exec sample_os (NewExecInjector\<lparr>in_Capture := True\<rparr>) ''SAFEKEYS_SECRET'' ''s3cretvalue'' [''env''] w =
      (Inr \<lparr>oc_Descriptor = ''SAFEKEYS_SECRET'', oc_ExitCode = 3, oc_Stdout = ''PATH=/binSAFEKEYS_SECRET=s3cretvalue'', oc_Stderr = []\<rparr>,
       w\<lparr>so_started := so_started w @ [cli_value_cmd]\<rparr>)"
    using e by (simp add: exec_def exec_name_def c Let_def) (simp add: sample_os_def NewExecInjector_def)
  then show ?thesis by (simp add: Inject_def)
qed

lemma cli_exec:
  "execLocal cli_process cli_terminal cli_env (URI ''obj_1'' cli_jws) ''inject-env'' ''SAFEKEYS_SECRET'' [] [''env''] [] w =
    (3, [cli_kek, zeros 32, zeros 11], cli_ran w)"
proof -
  obtain v where v: "loadLocalVerifier cli_process cli_env [] w = (Inr (v, cli_store), [cli_kek], w)"
    "local_claims cli_process cli_env (URI ''obj_1'' cli_jws) ''inject-env'' v w = (Some sample_claims, w)"
    using cli_verifier by blast
  have "Join [''/f'', ''obj_1''] = ''/f/obj_1''" by code_simp
  then have l: "Load (h_fs (d_host cli_process)) (Join [e_FolderDir cli_env, c_SID sample_claims]) (c_SID sample_claims) w
      = Inr (cli_object, cli_sealed)"
    using cli_load by (simp add: cli_env_def sample_claims_def cli_reads)
  have h: "h_os (d_host cli_process) = sample_os" "h_ciphers (d_host cli_process) = cli_ciphers"
    by (simp_all add: cli_process_def cli_host_def stub_host_def)
  have ob: "o_WrappingKID cli_object = ''k''" "o_Alg cli_object = AlgAES256GCM" by (simp_all add: cli_object_def)
  let ?m = "[cli_kek, sample_dek, ''s3cretvalue'']"
  have b: "Bytes (SecureBufferFrom 2) ?m = ''s3cretvalue''" "snd (Release (Some (SecureBufferFrom 2)) ?m) = [cli_kek, sample_dek, zeros 11]"
    by (simp_all add: Bytes_def SecureBufferFrom_def load_def Release_def Zero_eq zeros_def numeral_eq_Suc)
  have r: "local_run cli_process cli_terminal ''SAFEKEYS_SECRET'' [''env''] 2 ?m w = (3, [cli_kek, sample_dek, zeros 11], cli_ran w)"
    unfolding local_run_def Let_def h b cli_inject prod.case sum.case
    by (simp add: write_some_def cli_terminal_def) (simp add: cli_ran_def)
  have z: "Zero 1 [cli_kek, sample_dek, zeros 11] = [cli_kek, zeros 32, zeros 11]"
    by (simp add: Zero_eq load_def sample_dek_def)
  have "local_object cli_process cli_terminal ''SAFEKEYS_SECRET'' [''env''] cli_store cli_object cli_sealed [cli_kek] w =
      (3, [cli_kek, zeros 32, zeros 11], cli_ran w)"
    using cli_facts(1,2) r z
    by (simp add: local_object_def h ob alloc_def load_def numeral_2_eq_2)
  then show ?thesis using v l by (simp add: execLocal_def Let_def)
qed

text \<open>
  What the fallback relays is not searched for the value, as the resolver's answer is: the sample
  command prints its environment, and the value is on the standard output.
\<close>

lemma fallback_does_not_redact:
  "sublist ''s3cretvalue'' (snd (snd (hd (so_files (snd (snd (execLocal cli_process cli_terminal cli_env (URI ''obj_1'' cli_jws)
     ''inject-env'' ''SAFEKEYS_SECRET'' [] [''env''] [] sample_os_init)))))))"
proof -
  have "''PATH=/binSAFEKEYS_SECRET=s3cretvalue'' = ''PATH=/binSAFEKEYS_SECRET='' @ ''s3cretvalue'' @ []" by simp
  then have "sublist ''s3cretvalue'' ''PATH=/binSAFEKEYS_SECRET=s3cretvalue''" unfolding sublist_def by blast
  then show ?thesis by (simp add: cli_exec cli_ran_def)
qed

lemma no_start_no_code: "fst (execLocal (with_Start (\<lambda>_ w. (Inl e, w)) D) T E uri scope name dir command m w) = 1"
proof -
  have "fst (local_object (with_Start (\<lambda>_ w. (Inl e, w)) D) T name command store ob ct m w) = 1" for store ob ct m w
    by (auto simp: local_object_def local_run_def Inject_def exec_def with_Start_def Let_def alloc_def split: prod.split sum.split)
  then show ?thesis
    by (auto simp: execLocal_def Let_def split: prod.split sum.split option.split)
qed

lemma local_run_needs_authority_witness:
  "\<exists>c. locally_granted cli_process cli_env (URI ''obj_1'' cli_jws) ''inject-env'' c"
proof -
  have "execLocal (with_Start (\<lambda>_ w. (Inl (Err []), w)) cli_process) cli_terminal cli_env (URI ''obj_1'' cli_jws) ''inject-env''
      ''SAFEKEYS_SECRET'' [] [''env''] [] sample_os_init \<noteq>
    execLocal cli_process cli_terminal cli_env (URI ''obj_1'' cli_jws) ''inject-env'' ''SAFEKEYS_SECRET'' [] [''env''] [] sample_os_init"
    using no_start_no_code [of "Err []" cli_process cli_terminal cli_env "URI ''obj_1'' cli_jws" "''inject-env''" "''SAFEKEYS_SECRET''" "[]"
        "[''env'']" "[]" sample_os_init] by (auto simp: cli_exec)
  from local_run_needs_authority [OF this] show ?thesis by blast
qed

lemma local_run_asks_only_for_keys_witness:
  "fst (execLocal (cli_process\<lparr>d_Do := (\<lambda>rq w. if rq = keys_request cli_env then cli_net rq w else (Inr \<lparr>rs_StatusCode = 200, rs_Body = []\<rparr>, w))\<rparr>)
     cli_terminal cli_env (URI ''obj_1'' cli_jws) ''inject-env'' ''SAFEKEYS_SECRET'' [] [''env''] [] sample_os_init) = 3"
proof -
  have "(if keys_request cli_env = keys_request cli_env then cli_net (keys_request cli_env) u else (Inr \<lparr>rs_StatusCode = 200, rs_Body = []\<rparr>, u))
      = d_Do cli_process (keys_request cli_env) u" for u
    by (simp add: cli_process_def)
  from local_run_asks_only_for_keys [of "\<lambda>rq w. if rq = keys_request cli_env then cli_net rq w else (Inr \<lparr>rs_StatusCode = 200, rs_Body = []\<rparr>, w)",
      OF this]
  show ?thesis by (simp add: cli_exec)
qed

lemma lost_answer_is_resolved_again_witness:
  "length (so_started (snd (snd (cmdExec cli_process (cli_terminal\<lparr>t_Dial := lossy (t_Dial cli_terminal)\<rparr>) cli_env
     (''--token'' # URI ''obj_1'' cli_jws # ''--'' # [''env'']) [] sample_os_init)))) = 2"
proof -
  let ?req = "exec_request cli_env (URI ''obj_1'' cli_jws) ScopeInjectEnv ''SAFEKEYS_SECRET'' [''env'']"
  have t: "list_all utf8_Valid (response_texts (zero_response\<lparr>ws_OK := True\<rparr>))" "list_all int64 (response_numbers (zero_response\<lparr>ws_OK := True\<rparr>))"
    by code_simp+
  have "wire_Resolve (t_Dial cli_terminal) (e_SocketPath cli_env) ?req sample_os_init =
      (Inr (zero_response\<lparr>ws_OK := True\<rparr>), sample_os_init\<lparr>so_started := [cli_cmd]\<rparr>)"
    using response_survives [OF t]
    by (simp add: wire_Resolve_def wire_send_def cli_terminal_def cli_dial_def) (simp add: sample_os_init_def)
  moreover have "URI ''obj_1'' cli_jws \<noteq> []" by (simp add: URI_def)
  ultimately have "cmdExec cli_process (cli_terminal\<lparr>t_Dial := lossy (t_Dial cli_terminal)\<rparr>) cli_env
      (''--token'' # URI ''obj_1'' cli_jws # ''--'' # [''env'']) [] sample_os_init =
    execLocal cli_process cli_terminal cli_env (URI ''obj_1'' cli_jws) ScopeInjectEnv ''SAFEKEYS_SECRET'' [] [''env''] []
      (warn cli_terminal local_warning (sample_os_init\<lparr>so_started := [cli_cmd]\<rparr>))"
    by (intro lost_answer_is_resolved_again) simp_all
  moreover have "warn cli_terminal msg w = w" for msg w by (simp add: warn_def cli_terminal_def)
  ultimately show ?thesis by (simp add: cli_exec cli_ran_def ScopeInjectEnv_def)
qed

end
