(* ===== verification/Cli_Create.thy ===== *)
theory Cli_Create
  imports Cli_Safety
begin

text \<open>
  Where the value of a creation goes, the exit codes of the command line, its revocation through the
  control plane, and its defaults beside those of the sidecar.
\<close>

section \<open>Creation\<close>

definition with_WriteOpen :: "(string \<Rightarrow> bytes \<Rightarrow> 'w \<Rightarrow> unit result \<times> 'w) \<Rightarrow> 'w process \<Rightarrow> 'w process" where
  "with_WriteOpen f D = D\<lparr>d_host := (d_host D)\<lparr>h_os := (h_os (d_host D))\<lparr>WriteOpen := f\<rparr>\<rparr>\<rparr>"

lemma with_WriteOpen_simps [simp]:
  "h_rand (d_host (with_WriteOpen f D)) = h_rand (d_host D)" "d_ParseDuration (with_WriteOpen f D) = d_ParseDuration D"
  "TempDir (h_os (d_host (with_WriteOpen f D))) = TempDir (h_os (d_host D))"
  "CreateTemp (h_os (d_host (with_WriteOpen f D))) = CreateTemp (h_os (d_host D))"
  "Chmod (h_os (d_host (with_WriteOpen f D))) = Chmod (h_os (d_host D))"
  "CloseOpen (h_os (d_host (with_WriteOpen f D))) = CloseOpen (h_os (d_host D))"
  "os_Remove (h_os (d_host (with_WriteOpen f D))) = os_Remove (h_os (d_host D))"
  "WriteOpen (h_os (d_host (with_WriteOpen f D))) = f"
  by (simp_all add: with_WriteOpen_def)

lemma create_from_value:
  assumes "value \<noteq> []" and "value' \<noteq> []"
  shows "create_from (with_WriteOpen (\<lambda>p b. WriteOpen (h_os (d_host D)) p (if b = value' then value else b)) D) T E given value' w =
    create_from D T E given value w"
proof -
  let ?D = "with_WriteOpen (\<lambda>p b. WriteOpen (h_os (d_host D)) p (if b = value' then value else b)) D"
  have g: "stage_source (h_os (d_host ?D)) T value' u = stage_source (h_os (d_host D)) T value u" for u
    by (simp only: stage_source_def with_WriteOpen_simps simp_thms if_True)
  have h: "shred (h_os (d_host ?D)) T p u = shred (h_os (d_host D)) T p u" for p u
    by (simp only: shred_def with_WriteOpen_simps)
  show ?thesis unfolding create_from_def Let_def with_WriteOpen_simps(1,2) g h using assms by (simp only: if_False)
qed

text \<open>
  C25. The value of a creation reaches nothing but the private file: for any two values from the standard
  input, with a file system that writes the one where it is given the other, a creation ends
  with the same code in the same state, so neither the request to the sidecar nor anything
  printed depends on the value.
\<close>

theorem value_reaches_only_its_file:
  assumes "TrimSuffix raw [CHR 0x0A] \<noteq> []" and "TrimSuffix raw' [CHR 0x0A] \<noteq> []"
    and "f = (\<lambda>p b. WriteOpen (h_os (d_host D)) p (if b = TrimSuffix raw' [CHR 0x0A] then TrimSuffix raw [CHR 0x0A] else b))"
  shows "case cmdCreate D (T\<lparr>t_Stdin := (\<lambda>u. (Inr raw, g u))\<rparr>) E args m w of
     (code, _, w') \<Rightarrow>
       (case flag_args (d_ParseDuration D) create_flags args of
          None \<Rightarrow> code = 2
        | Some (given, _) \<Rightarrow>
            if flag_String given ''file'' [] = [] then
              \<exists>m'. cmdCreate (with_WriteOpen f D) (T\<lparr>t_Stdin := (\<lambda>u. (Inr raw', g u))\<rparr>) E args m w = (code, m', w')
            else True)"
proof (cases "flag_args (d_ParseDuration D) create_flags args")
  case None
  then show ?thesis by (simp add: cmdCreate_def)
next
  case (Some x)
  obtain given rest where x: "x = (given, rest)" by (cases x)
  let ?T = "\<lambda>raw. T\<lparr>t_Stdin := (\<lambda>u. (Inr raw, g u))\<rparr>"
  have cp: "\<exists>a m1. secure_copy r m = (a, m1) \<and> Bytes a m1 = TrimSuffix r [CHR 0x0A]" for r m
    by (simp add: secure_copy_def alloc_def Bytes_def SecureBufferFrom_def load_def nth_append)
  have same: "create_from D (?T r) E given v u = create_from D T E given v u" for D r v u
    by (simp only: create_from_def output_Stdin creation_Stdin)
  have e: "flag_String given ''file'' [] = [] \<Longrightarrow> flag_args (d_ParseDuration D0) create_flags args = Some (given, rest) \<Longrightarrow>
      \<exists>m'. cmdCreate D0 (?T r) E args m w = (fst (create_from D0 T E given (TrimSuffix r [CHR 0x0A]) (g w)), m',
        snd (create_from D0 T E given (TrimSuffix r [CHR 0x0A]) (g w)))" for D0 r
    using cp [of r m] same [of D0 r] by (auto simp: cmdCreate_def read_value_def split: prod.splits)
  show ?thesis
  proof (cases "flag_String given ''file'' [] = []")
    case True
    have "create_from (with_WriteOpen f D) T E given (TrimSuffix raw' [CHR 0x0A]) (g w) =
        create_from D T E given (TrimSuffix raw [CHR 0x0A]) (g w)"
      unfolding assms(3) by (rule create_from_value [OF assms(1,2)])
    then show ?thesis using True Some x e [OF True, of D raw] e [OF True, of "with_WriteOpen f D" raw'] by auto
  qed (use Some x in \<open>auto split: prod.splits\<close>)
qed

text \<open>
  A creation clears one of the three copies of the value it makes: the array that was read and the
  text made of it for trimming stay in memory as they are, however the creation ends.
\<close>

theorem creation_leaves_two_copies:
  "case flag_args (d_ParseDuration D) create_flags args of
     None \<Rightarrow> True
   | Some (given, _) \<Rightarrow>
       (case read_value D T (flag_String given ''file'' []) w of
          (None, _) \<Rightarrow> True
        | (Some raw, _) \<Rightarrow>
            fst (snd (cmdCreate D T E args m w)) = m @ [raw, raw, zeros (length (TrimSuffix raw [CHR 0x0A]))])"
proof -
  have r: "case secure_copy raw m of (s, m') \<Rightarrow> snd (Release (Some s) m') = m @ [raw, raw, zeros (length (TrimSuffix raw [CHR 0x0A]))]"
    for raw
    by (simp add: secure_copy_def alloc_def SecureBufferFrom_def Release_def load_def Zero_eq nth_append list_update_append)
  have "fst (snd (cmdCreate D T E args m w)) = m @ [raw, raw, zeros (length (TrimSuffix raw [CHR 0x0A]))]"
    if "flag_args (d_ParseDuration D) create_flags args = Some (given, rest)"
      "read_value D T (flag_String given ''file'' []) w = (Some raw, w1)" for given rest raw w1
    using that r [of raw] by (auto simp: cmdCreate_def split: prod.splits)
  then show ?thesis by (auto split: option.splits prod.splits)
qed

text \<open>
  What the code relies on for the private file: a file that can be opened is overwritten from its
  start and keeps its size, closing changes no content, and a removed file is gone.
\<close>

definition shred_laws :: "'w process \<Rightarrow> 'w terminal \<Rightarrow> bool" where
  "shred_laws D T \<longleftrightarrow>
     (\<forall>p n b u u1 u2. t_Size T p u = Inr n \<longrightarrow> t_OpenWrite T p u = (Inr (), u1) \<longrightarrow> length b = n \<longrightarrow>
        t_Overwrite T p b u1 = (Inr (), u2) \<longrightarrow> ReadFile (h_fs (d_host D)) p (snd (CloseOpen (h_os (d_host D)) p u2)) = Inr b) \<and>
     (\<forall>p u. is_err (ReadFile (h_fs (d_host D)) p (os_Remove (h_os (d_host D)) p u)))"

text \<open>
  The private file does not outlive the creation: whatever the sidecar answers, a value that was
  staged is gone from its file at the end; and where the file could still be opened and written, it
  held only zeros when it was removed.
\<close>

theorem staged_value_is_shredded:
  assumes "shred_laws D T" and "flag_String given ''file'' [] = []" and "flag_String given ''object'' [] = objID" and "objID \<noteq> []"
    and "value \<noteq> []" and "\<not> isTerminal T w"
    and "stage_source (h_os (d_host D)) T value w = (Some path, w1)" and "path \<noteq> []"
    and "ask_sidecar T E (source_request (d_ParseDuration D) E given objID path) w1 = (code, w2)"
  shows "\<exists>w3 w4. create_from D T E given value w = (code, w4) \<and> w4 = os_Remove (h_os (d_host D)) path w3 \<and>
    is_err (ReadFile (h_fs (d_host D)) path w4) \<and>
    (case (t_Size T path w2, t_OpenWrite T path w2) of
       (Inr n, Inr _, u) \<Rightarrow>
         (case t_Overwrite T path (zeros n) u of
            (Inl _, _) \<Rightarrow> True
          | (Inr _, _) \<Rightarrow> ReadFile (h_fs (d_host D)) path w3 = Inr (zeros n))
     | _ \<Rightarrow> True)"
proof -
  let ?os = "h_os (d_host D)"
  have c: "create_from D T E given value w = (code, shred ?os T path w2)"
    using assms by (auto simp: create_from_def Let_def)
  have gone: "is_err (ReadFile (h_fs (d_host D)) path (os_Remove ?os path u))" for u
    using assms(1) by (simp add: shred_laws_def)
  show ?thesis
  proof (cases "t_Size T path w2")
    case (Inl e)
    then show ?thesis using c gone assms(8) by (auto simp: shred_def)
  next
    case n: (Inr n)
    obtain r w5 where o: "t_OpenWrite T path w2 = (r, w5)" by (metis prod.collapse)
    show ?thesis
    proof (cases r)
      case (Inl e)
      then show ?thesis using c gone n o assms(8) by (auto simp: shred_def)
    next
      case (Inr x)
      obtain q w6 where q: "t_Overwrite T path (zeros n) w5 = (q, w6)" by (metis prod.collapse)
      have "ReadFile (h_fs (d_host D)) path (snd (CloseOpen ?os path w6)) = Inr (zeros n)" if "q = Inr ()"
        using assms(1) n o Inr q that unfolding shred_laws_def by (auto simp: zeros_def)
      then show ?thesis using c gone n o Inr q assms(8) by (auto simp: shred_def split: sum.split)
    qed
  qed
qed

section \<open>Exit codes\<close>

lemma create_from_codes: "fst (create_from D T E given value w) \<in> {0, 1, 2}"
proof -
  have a: "fst (ask_sidecar T E req u) \<in> {0, 1, 2}" for req u
    by (auto simp: ask_sidecar_def split: prod.splits sum.splits option.splits)
  have b: "fst (case ask_sidecar T E req u of (code, u) \<Rightarrow> (code, f u)) \<in> {0, 1, 2}" for req u and f :: "'a \<Rightarrow> 'a"
    using a [of req u] by (simp add: split_beta)
  show ?thesis
    unfolding create_from_def Let_def
    by (auto split: prod.split sum.split option.split simp: a b simp del: insert_iff)
qed

lemma command_codes:
  "fst (cmdCreate D T E args m w) \<in> {0, 1, 2}" "fst (cmdRevoke D T E args w) \<in> {0, 1, 2}"
  "fst (cmdList D T E args w) \<in> {0, 1, 2}" "fst (cmdAudit D T E args w) \<in> {0, 1, 2}"
proof -
  have "fst (case create_from D T E given v u of (code, u) \<Rightarrow> (code, f u, u)) \<in> {0, 1, 2}" for given v u and f :: "'a \<Rightarrow> memory"
    using create_from_codes [of D T E given v u] by (simp add: split_beta)
  then show "fst (cmdCreate D T E args m w) \<in> {0, 1, 2}"
    unfolding cmdCreate_def by (auto split: prod.split option.split)
qed (auto simp: cmdRevoke_def cmdList_def cmdAudit_def Let_def split: option.split prod.split sum.split)

text \<open>
  Only \<open>exec\<close> returns a code that is not its own: every other command line, whatever its arguments,
  ends with 0, 1 or 2, and a command line without a command, or with an unknown one, with 2.
\<close>

theorem exit_codes:
  "case args of
     [] \<Rightarrow> fst (Run D T args m w) = 2
   | cmd # _ \<Rightarrow>
       if cmd = ''exec'' then True
       else if cmd \<in> set [''create'', ''revoke'', ''list'', ''audit'', ''version'', ''help'', ''-h'', ''--help''] then
         fst (Run D T args m w) \<in> {0, 1, 2}
       else fst (Run D T args m w) = 2"
proof (cases args)
  case (Cons cmd rest)
  have c: "fst (case f of (code, u) \<Rightarrow> (code, m, u)) = fst f" for f :: "int \<times> 'a" by (simp add: split_beta)
  show ?thesis
    using command_codes [of D T "cli_FromEnv D w" rest] unfolding Run_def Cons Let_def list.case
    by (simp only: c list.set insert_iff empty_iff fst_conv simp_thms split: if_split) auto
qed (simp add: Run_def)

section \<open>Revoking from the command line\<close>

text \<open>
  C31. Revoking from the command line works: while the database answers, \<open>safekeys revoke\<close> exits with 0, and
  the sidecar's very next check of the token answers revoked, without an error.
\<close>

theorem cli_revocation_takes_effect:
  assumes "connected origin sv (cli_client E)" and "deployed origin sv c" and "db_ok (st_db st)" and "cache_true c (st_db st)"
    and "db_faults (st_db st) = []" and "tokens_jti_format jti"
    and "d_Do D = serve origin (Handler sv)" and "\<And>b u. t_Stdout T b u = u"
  shows "\<exists>st'. cmdRevoke D T E [''--jti'', jti] st = (0, st') \<and>
    fst (IsRevoked (serve origin (Handler sv)) clock jti c st') = (True, None)"
proof -
  have "is_option ''--jti''" "option_text ''--jti'' = ''jti''" "option_name ''jti'' = ''jti''" "option_value ''jti'' = None"
    "\<not> HasPrefix ''jti'' ''-''"
    by code_simp+
  then have f: "flag_args (d_ParseDuration D) [(''jti'', String_flag)] [''--jti'', jti] = Some ([(''jti'', jti)], [])"
    by (simp add: flag_accepts_def Let_def)
  have j: "flag_String [(''jti'', jti)] ''jti'' [] = jti" "jti \<noteq> []"
    using assms(6) by (auto simp: flag_String_def tokens_jti_format_def)
  obtain st' where "client_RevokeToken (serve origin (Handler sv)) (cli_client E) jti st = (Inr (), st')"
    "fst (IsRevoked (serve origin (Handler sv)) clock jti c st') = (True, None)"
    using remote_revocation [OF assms(1-6)] by blast
  then show ?thesis using f j assms(7,8) by (simp add: cmdRevoke_def say_def Let_def del: flag_args.simps)
qed

section \<open>The defaults of two programs\<close>

text \<open>
  With nothing configured the command line and the sidecar do not meet: the one dials a socket in the
  temporary directory, the other listens below \<open>/run\<close>. Configured, they agree, unless the path
  starts with a tilde, which only the command line expands.
\<close>

theorem default_sockets_differ:
  assumes "TempDir (h_os (d_host D)) w = ''/tmp''"
  shows "let cli = e_SocketPath (cli_FromEnv D w); sidecar = fl_socket (parse_flags D [] w); v = d_env D ''SAFEKEYS_SOCKET'' in
    if v = [] then cli = ''/tmp/safekeys/sidecar.sock'' \<and> sidecar = ''/run/safekeys/sidecar.sock''
    else sidecar = v \<and> (if HasPrefix v ''~'' then cli = expandHome D v w else cli = v)"
proof -
  have "Join [''/tmp'', ''safekeys'', ''sidecar.sock''] = ''/tmp/safekeys/sidecar.sock''" "\<not> HasPrefix ''/tmp/safekeys/sidecar.sock'' ''~''"
    by code_simp+
  then show ?thesis
    using assms by (simp add: cli_FromEnv_def cli_envOr_def d_Getenv_def expandHome_def parse_flags_def flag_String_def envOr_def Let_def)
qed

text \<open>A tilde before a name is not that user's home: it is taken for one's own.\<close>

lemma tilde_user_is_own_home:
  assumes "d_UserHomeDir D w = Inr ''/home/s''"
  shows "expandHome D ''~alice/kek'' w = ''/home/s/alice/kek''"
proof -
  have "HasPrefix ''~alice/kek'' ''~''" "Join [''/home/s'', tl ''~alice/kek''] = ''/home/s/alice/kek''" by code_simp+
  then show ?thesis using assms by (simp add: expandHome_def)
qed

section \<open>Instances\<close>

lemma value_reaches_only_its_file_witness:
  "\<exists>code m1 m2 w'.
     cmdCreate cli_process (cli_terminal\<lparr>t_Stdin := (\<lambda>u. (Inr ''a'', id u))\<rparr>) cli_env [] [] sample_os_init = (code, m1, w') \<and>
     cmdCreate (with_WriteOpen (\<lambda>p b. WriteOpen (h_os (d_host cli_process)) p
         (if b = TrimSuffix ''b'' [CHR 0x0A] then TrimSuffix ''a'' [CHR 0x0A] else b)) cli_process)
       (cli_terminal\<lparr>t_Stdin := (\<lambda>u. (Inr ''b'', id u))\<rparr>) cli_env [] [] sample_os_init = (code, m2, w')"
proof -
  have t: "TrimSuffix ''a'' [CHR 0x0A] \<noteq> []" "TrimSuffix ''b'' [CHR 0x0A] \<noteq> []" by code_simp+
  obtain code m1 w' where c: "cmdCreate cli_process (cli_terminal\<lparr>t_Stdin := (\<lambda>u. (Inr ''a'', id u))\<rparr>) cli_env [] [] sample_os_init = (code, m1, w')"
    by (metis prod_cases3)
  have f: "flag_args (d_ParseDuration cli_process) create_flags [] = Some ([], [])" "flag_String [] ''file'' [] = []"
    by (simp_all add: flag_String_def)
  from value_reaches_only_its_file [OF t refl, where D = cli_process and T = cli_terminal and g = id and E = cli_env and args = "[]"
      and m = "[]" and w = sample_os_init]
  show ?thesis unfolding c f prod.case option.case by (auto simp: f(2))
qed

text \<open>A file system over the files of the sample operating system.\<close>

definition held_file :: "string \<Rightarrow> sample_os_state \<Rightarrow> bytes result" where
  "held_file p w = (case map_of (so_files w) p of None \<Rightarrow> Inl (Err ''no such file'') | Some (_, b) \<Rightarrow> Inr b)"

definition shredder_process :: "sample_os_state process" where
  "shredder_process = cli_process\<lparr>d_host := cli_host\<lparr>h_fs := cli_fs\<lparr>ReadFile := held_file\<rparr>\<rparr>\<rparr>"

definition shredder_terminal :: "sample_os_state terminal" where
  "shredder_terminal = cli_terminal\<lparr>
     t_Size := (\<lambda>p w. map_sum id length (held_file p w)),
     t_OpenWrite := (\<lambda>p w. (map_sum id (\<lambda>_. ()) (held_file p w), w)),
     t_Overwrite := (\<lambda>p b w. (Inr (), w\<lparr>so_files := map (\<lambda>(q, n, c). (q, n, if q = p then b @ drop (length b) c else c)) (so_files w)\<rparr>))\<rparr>"

lemma map_of_update: "map_of (map (\<lambda>(q, n, c). (q, n, if q = p then f c else c)) xs) p = map_option (\<lambda>(n, c). (n, f c)) (map_of xs p)"
  by (induction xs) auto

lemma map_of_removed: "map_of (filter (\<lambda>(q, _). q \<noteq> p) xs) p = None"
  by (induction xs) auto

lemma shredder_laws: "shred_laws shredder_process shredder_terminal"
proof -
  have c: "CloseOpen (h_os (d_host shredder_process)) p u = (Inr (), u)"
    "os_Remove (h_os (d_host shredder_process)) p u = u\<lparr>so_files := filter (\<lambda>(q, _). q \<noteq> p) (so_files u)\<rparr>"
    "ReadFile (h_fs (d_host shredder_process)) p u = held_file p u" for p u
    by (simp_all add: shredder_process_def cli_host_def stub_host_def sample_os_def)
  have "held_file p (u\<lparr>so_files := map (\<lambda>(q, n, c). (q, n, if q = p then b @ drop (length b) c else c)) (so_files u)\<rparr>) = Inr b"
    if "map_sum id length (held_file p u) = Inr (length b)" for p b u
    using that by (auto simp: held_file_def map_of_update split: option.splits)
  moreover have "is_err (held_file p (u\<lparr>so_files := filter (\<lambda>(q, _). q \<noteq> p) (so_files u)\<rparr>))" for p u
    by (simp add: held_file_def map_of_removed is_err_def)
  ultimately show ?thesis by (auto simp: shred_laws_def c shredder_terminal_def)
qed

lemma staged_value_is_shredded_witness:
  "\<exists>code path w1 w4. stage_source (h_os (d_host shredder_process)) shredder_terminal ''s3cret'' sample_os_init = (Some path, w1) \<and>
     held_file path w1 = Inr ''s3cret'' \<and>
     create_from shredder_process shredder_terminal cli_env [(''object'', ''obj_1'')] ''s3cret'' sample_os_init = (code, w4) \<and>
     is_err (held_file path w4)"
proof -
  have f: "flag_String [(''object'', ''obj_1'')] ''file'' [] = []" "flag_String [(''object'', ''obj_1'')] ''object'' [] = ''obj_1''"
    "(''obj_1'' :: string) \<noteq> []" "(''s3cret'' :: string) \<noteq> []" "\<not> isTerminal shredder_terminal sample_os_init"
    by (simp_all add: flag_String_def isTerminal_def shredder_terminal_def cli_terminal_def)
  let ?p = "''/tmp/safekeys-src-1''"
  have h: "h_os (d_host shredder_process) = sample_os" by (simp add: shredder_process_def cli_host_def stub_host_def)
  have s: "case stage_source sample_os shredder_terminal ''s3cret'' sample_os_init of
      (Some q, w1) \<Rightarrow> q = ?p \<and> held_file q w1 = Inr ''s3cret'' | _ \<Rightarrow> False"
    by code_simp
  then obtain w1 where s: "stage_source sample_os shredder_terminal ''s3cret'' sample_os_init = (Some ?p, w1)" "held_file ?p w1 = Inr ''s3cret''"
    by (auto split: prod.splits option.splits)
  obtain code w2 where a: "ask_sidecar shredder_terminal cli_env
      (source_request (d_ParseDuration shredder_process) cli_env [(''object'', ''obj_1'')] ''obj_1'' ?p) w1 = (code, w2)"
    by (metis prod.collapse)
  have "ReadFile (h_fs (d_host shredder_process)) = held_file" by (simp add: shredder_process_def)
  then show ?thesis
    using staged_value_is_shredded [OF shredder_laws f(1,2,3,4,5) s(1) [folded h] _ a] s unfolding h by fastforce
qed

definition revoking_process :: "nat cp_state process" where
  "revoking_process =
     \<lparr>d_host = stub_host stub_os, d_env = (\<lambda>_. []), d_UserHomeDir = (\<lambda>w. Inr ''/home/s''),
      d_ParseDuration = (\<lambda>s. Inl (Err ''time: invalid duration'')), d_Do = serve ''https://cp'' (Handler sample_server),
      d_crypto = sample_crypto, d_IsNotExist = (\<lambda>e. True), d_keychain = None, d_Printf = (\<lambda>msg w. w)\<rparr>"

definition mute_terminal :: "'w terminal" where
  "mute_terminal =
     \<lparr>t_Stdin = (\<lambda>w. (Inr [], w)), t_ModeCharDevice = (\<lambda>w. Inr False), t_Stdout = (\<lambda>b w. w), t_Stderr = (\<lambda>b w. w),
      t_Complain = (\<lambda>c args w. w), t_Quote = id, t_Size = (\<lambda>p w. Inr 0), t_OpenWrite = (\<lambda>p w. (Inr (), w)),
      t_Overwrite = (\<lambda>p b w. (Inr (), w)), t_Local = (\<lambda>t w. []), t_Dial = (\<lambda>p b w. (Unreachable, w))\<rparr>"

lemma cli_revocation_takes_effect_witness:
  "\<exists>st'. cmdRevoke revoking_process mute_terminal (cli_env\<lparr>e_ControlPlaneURL := ''https://cp''\<rparr>) [''--jti'', ''t1''] sample_state = (0, st') \<and>
    fst (IsRevoked (serve ''https://cp'' (Handler sample_server)) st_now ''t1''
        (New_checker ''https://cp'' (sv_apiKey sample_server)) st') = (True, None)"
proof -
  have c: "connected ''https://cp'' sample_server (cli_client (cli_env\<lparr>e_ControlPlaneURL := ''https://cp''\<rparr>))" by code_simp
  have f: "db_faults (st_db sample_state) = []" "tokens_jti_format ''t1''" by code_simp+
  have d: "d_Do revoking_process = serve ''https://cp'' (Handler sample_server)" "\<And>b u. t_Stdout mute_terminal b u = u"
    by (simp_all add: revoking_process_def mute_terminal_def)
  show ?thesis by (rule cli_revocation_takes_effect [OF c sample_deployed sample_db_ok deployed_New f d])
qed

lemma default_sockets_differ_witness:
  "e_SocketPath (cli_FromEnv revoking_process sample_state) \<noteq> fl_socket (parse_flags revoking_process [] sample_state)"
  using default_sockets_differ [of revoking_process sample_state]
  by (simp add: revoking_process_def stub_host_def stub_os_def)

end
