(* ===== verification/Cli_System.thy ===== *)
theory Cli_System
  imports Cli_Create Sidecar_System
begin

text \<open>
  The command line at the sidecar's own socket: what a user of \<open>safekeys exec\<close> sees of a secret.
\<close>

section \<open>The answer on the wire\<close>

text \<open>The status of a child process fits 64 bits.\<close>

definition exit_status_fits :: "'w os_calls \<Rightarrow> bool" where
  "exit_status_fits os \<longleftrightarrow>
     (\<forall>pid u. case wt_err (fst (Wait os pid u)) of Some (ExitErr n) \<Rightarrow> int64 n | _ \<Rightarrow> True)"

lemma Inject_env_Inr:
  assumes "Inject os ''env'' name v command ei w = (Inr oc, ei', w')" and "exit_status_fits os"
  shows "oc_Descriptor oc = exec_name name \<and> int64 (oc_ExitCode oc)"
proof -
  have e: "\<exists>w'. exec os ei name v command w = (Inr oc, w')"
    using assms(1) by (auto simp: Inject_def split: if_splits prod.splits)
  obtain r w1 where s: "Start os (exec_cmd os ei (exec_name name) v command w) w = (r, w1)" by (metis prod.collapse)
  have fits: "case wt_err (fst (Wait os pid u)) of Some (ExitErr n) \<Rightarrow> int64 n | _ \<Rightarrow> True" for pid u
    using assms(2) by (simp add: exit_status_fits_def)
  have "int64 (oc_ExitCode oc)"
  proof (cases r)
    case (Inr pid)
    let ?u = "case in_OnChildStarted ei of None \<Rightarrow> w1 | Some f \<Rightarrow> f pid w1"
    obtain res w2 where "Wait os pid ?u = (res, w2)" by (metis prod.collapse)
    then show ?thesis
      using e s Inr fits [of pid ?u]
      by (auto simp: exec_def Let_def int64_def split: option.splits wait_error.splits)
  qed (use e s in \<open>auto simp: exec_def Let_def\<close>)
  then show ?thesis using e exec_Inr [of os ei name v command w oc] by blast
qed

lemma exec_response_travels:
  assumes "dispatch H s req m w = Some (r, m', s', w')" and "wq_Op req = OpResolve" and "wq_Scope req = ScopeInjectEnv"
    and "utf8_Valid (wq_Name req)" and "exit_status_fits (h_os H)"
  shows "list_all utf8_Valid (response_texts r) \<and> list_all int64 (response_numbers r)"
proof -
  have d: "dispatch H s req m w = handleResolve H s req m w"
    using assms(2) by (simp add: dispatch_def OpResolve_def OpCreate_def OpList_def OpRevoke_def)
  have t: "utf8_Valid ''denied''" "utf8_Valid ''SAFEKEYS_SECRET''" "utf8_Valid []" by code_simp+
  obtain res ei where x: "Resolve (h_ciphers H) (\<lambda>iw. h_Now H (snd iw)) (resolver_of H s) (resolve_request req) m (sd_injector s, w)
      = Some (res, m', ei)" "r = (case res of Inl _ \<Rightarrow> denied | Inr v \<Rightarrow> resolved_response v)"
    using assms(1) d by (auto simp: handleResolve_def split: option.splits sum.splits prod.splits)
  show ?thesis
  proof (cases res)
    case (Inl e)
    then show ?thesis
      using x t by (simp add: denied_def zero_response_def response_texts_def response_numbers_def int64_def)
  next
    case (Inr v)
    from x(1) [unfolded Inr] obtain c w2 pt where "deliver (\<lambda>iw. h_Now H (snd iw)) (resolver_of H s) (resolve_request req) c pt w2
        = Some (Inr v, ei)"
      by (rule Resolve_Inr)
    from deliver_Inr [OF this] obtain oc w3 where
      "rv_Inject (resolver_of H s) (methodForScope (wq_Scope req)) (wq_Name req) pt (wq_Command req) w2 = (Inr oc, w3)"
      "re_Descriptor v = oc_Descriptor oc" "re_ExitCode v = oc_ExitCode oc"
      by (auto simp: resolve_request_def)
    moreover have "methodForScope (wq_Scope req) = ''env''"
      using assms(3) by (simp add: methodForScope_def ScopeInjectEnv_def ScopeInjectFile_def)
    ultimately obtain ei1 u ei2 u2 where i: "Inject (h_os H) ''env'' (wq_Name req) pt (wq_Command req) ei1 u = (Inr oc, ei2, u2)"
      "re_Descriptor v = oc_Descriptor oc" "re_ExitCode v = oc_ExitCode oc"
      by (cases w3) (auto simp: resolver_of_def Let_def split: prod.splits)
    have "utf8_Valid (exec_name (wq_Name req))" using assms(4) t(2) by (simp add: exec_name_def)
    then show ?thesis
      using x(2) Inr Inject_env_Inr [OF i(1) assms(5)] i(2,3) t
      by (simp add: resolved_response_def zero_response_def response_texts_def response_numbers_def)
  qed
qed

section \<open>What the user sees\<close>

definition relayed :: "bytes \<Rightarrow> bytes \<Rightarrow> bool" where
  "relayed pt out \<longleftrightarrow> (\<exists>x. hides pt x \<and> out \<in> {x, cap_marker @ x})"

text \<open>
  C11. Through the sidecar the command line shows nothing of the value: for a token the sidecar accepts,
  with a value of at least eight bytes that cannot be confused with the placeholder, \<open>safekeys exec\<close> ends in the state the
  sidecar's own handler leaves, having printed either the one line "denied" to standard error or
  exactly the two streams of the handler's answer, each to its own stream and with the exit status
  of the answer. Each stream is the fixed marker of a truncation, where there is one, and bytes that hide the
  value from the scanner's encodings. The command line's own memory stays as it was: it never falls
  back to resolving by itself.
\<close>

theorem exec_through_the_sidecar_hides_the_value:
  assumes "t_Dial T = socket_of H peer" and "e_SocketPath E = sc_SocketPath (sd_cfg s)"
    and "sd_listening s" and "\<not> sd_done s" and "\<not> peer_refused H (sd_cfg s) peer w"
    and "uri \<noteq> []" and "command \<noteq> []" and "list_all utf8_Valid (uri # e_Principal E # command)"
    and "req = (exec_request E uri ScopeInjectEnv ''SAFEKEYS_SECRET'' command)\<lparr>wq_Op := OpResolve\<rparr>"
    and "authorise (\<lambda>iw. h_Now H (snd iw)) (resolver_of H s) (resolve_request req) (sd_injector s, w) = (Inr c, w1)"
    and "unwrap_dek (resolver_of H s) c w1 = (Inr (ob, ct, dek), w2)"
    and "DecryptObject (h_ciphers H) (o_Alg ob) dek ct = Inr pt" and "value_safe pt" and "exit_status_fits (h_os H)"
  shows "\<exists>r m' s' w'. dispatch H s req m0 w = Some (r, m', s', w') \<and>
    relayed pt (ws_Stdout r) \<and> relayed pt (ws_Stderr r) \<and>
    cmdExec D T E (''--token'' # uri # ''--'' # command) m (s, m0, w) =
      (if ws_OK r then
         (ws_ExitCode r, m, write_some (t_Stderr T) (ws_Stderr r) (write_some (t_Stdout T) (ws_Stdout r) (s', m', w')))
       else (1, m, warn T ''denied'' (s', m', w')))"
proof -
  have op: "wq_Op req = OpResolve" "wq_Scope req = ScopeInjectEnv" "wq_Name req = ''SAFEKEYS_SECRET''" "wq_TTLSeconds req = 0"
    using assms(9) by (simp_all add: exec_request_def zero_request_def)
  then have o: "wq_Op req \<notin> {OpCreate, OpList, OpRevoke}" by (simp add: OpResolve_def OpCreate_def OpList_def OpRevoke_def)
  obtain r m' s' w' where d: "dispatch H s req m0 w = Some (r, m', s', w')" "relayed pt (ws_Stdout r)" "relayed pt (ws_Stderr r)"
    using dispatch_hides [OF o assms(10-13), of m0] unfolding relayed_def by blast
  have t: "utf8_Valid OpResolve" "utf8_Valid ScopeInjectEnv" "utf8_Valid ''SAFEKEYS_SECRET''" "utf8_Valid []" by code_simp+
  have q: "list_all utf8_Valid (request_texts req)" "int64 (wq_TTLSeconds req)"
    using assms(8,9) t by (simp_all add: request_texts_def exec_request_def zero_request_def int64_def)
  have a: "list_all utf8_Valid (response_texts r)" "list_all int64 (response_numbers r)"
    using exec_response_travels [OF d(1) op(1,2) _ assms(14)] op(3) t(3) by simp_all
  have "wire_send (socket_of H peer) (e_SocketPath E) req (s, m0, w) = (Inr r, (s', m', w'))"
    by (rule socket_answers [OF assms(2-5) q d(1) a])
  then have "wire_Resolve (t_Dial T) (e_SocketPath E) (exec_request E uri ScopeInjectEnv ''SAFEKEYS_SECRET'' command) (s, m0, w)
      = (Inr r, (s', m', w'))"
    using assms(1,9) by (simp add: wire_Resolve_def)
  moreover have "flag_String [(''token'', uri)] ''token'' [] = uri" "flag_String [(''token'', uri)] ''scope'' x = x"
    "flag_String [(''token'', uri)] ''name'' x = x" "flag_String [(''token'', uri)] ''folder'' x = x" for x
    by (simp_all add: flag_String_def)
  ultimately have "cmdExec D T E (''--token'' # uri # ''--'' # command) m (s, m0, w) =
      (if ws_OK r then (ws_ExitCode r, m, write_some (t_Stderr T) (ws_Stderr r) (write_some (t_Stdout T) (ws_Stdout r) (s', m', w')))
       else (1, m, warn T ''denied'' (s', m', w')))"
    using assms(6,7) by (simp add: cmdExec_def exec_options exec_with_def Let_def del: flag_args.simps)
  then show ?thesis using d by blast
qed

section \<open>An instance\<close>

text \<open>The sidecar of the instances, with a terminal over its state; the sample command prints its environment.\<close>

definition user_process :: "'w process" where
  "user_process =
     \<lparr>d_host = stub_host stub_os, d_env = (\<lambda>_. []), d_UserHomeDir = (\<lambda>w. Inr ''/home/s''),
      d_ParseDuration = (\<lambda>s. Inl (Err ''time: invalid duration'')), d_Do = (\<lambda>rq w. (Inl (Err ''unreachable''), w)),
      d_crypto = sample_crypto, d_IsNotExist = (\<lambda>e. True), d_keychain = None, d_Printf = (\<lambda>msg w. w)\<rparr>"

definition user_request :: WireRequest where
  "user_request = (exec_request (cli_env\<lparr>e_SocketPath := ''/run/s.sock''\<rparr>) (URI ''obj_1'' sample_jws) ScopeInjectEnv ''SAFEKEYS_SECRET'' [''env''])
     \<lparr>wq_Op := OpResolve\<rparr>"

lemma user_facts:
  "sc_SocketPath (sd_cfg os_sidecar) = ''/run/s.sock''" "sd_listening os_sidecar" "\<not> sd_done os_sidecar"
  "\<not> peer_refused (stub_host sample_os) (sd_cfg os_sidecar) (Some \<lparr>pc_UID = 7, pc_GID = 1001, pc_Groups = [1001]\<rparr>) sample_os_init"
  "list_all utf8_Valid (URI ''obj_1'' sample_jws # ''operator'' # [''env''])" "URI ''obj_1'' sample_jws \<noteq> []"
  "''inject-env'' \<in> set (c_Scope sample_claims)" "value_safe ''s3cretvalue''"
  by code_simp+

lemma user_authorised:
  "authorise (\<lambda>iw. h_Now (stub_host os) (snd iw)) (resolver_of (stub_host os) (sample_sidecar H sample_config w0))
     (resolve_request user_request) (ei, w) = (Inr sample_claims, (ei, w))"
  using sample_token user_facts(7)
  by (simp add: authorise_def VerifyToken_def resolver_of_def sample_sidecar_def New_sidecar_def sample_config_def beside_def
      resolve_request_def user_request_def exec_request_def zero_request_def ScopeInjectEnv_def resolver_now_def stub_host_def
      Unix_def Second_def revokedFn_def Let_def) (simp add: sample_claims_def)

lemma user_injected:
  "case rv_Inject (resolver_of (stub_host sample_os) os_sidecar) (methodForScope (rr_Scope (resolve_request user_request)))
      (rr_Name (resolve_request user_request)) ''s3cretvalue'' (rr_Command (resolve_request user_request))
      (sd_injector os_sidecar, sample_os_init) of
     (Inr oc, _) \<Rightarrow> oc_ExitCode oc = 3 | _ \<Rightarrow> False"
  by code_simp

lemma user_answer:
  assumes "dispatch (stub_host sample_os) os_sidecar user_request m sample_os_init = Some (r, m', s', w')"
  shows "ws_OK r \<and> ws_ExitCode r = 3"
proof -
  let ?R = "resolver_of (stub_host sample_os) os_sidecar" and ?q = "resolve_request user_request"
  let ?now = "\<lambda>iw. h_Now (stub_host sample_os) (snd iw)"
  have op: "wq_Op user_request \<notin> {OpCreate, OpList, OpRevoke}" by code_simp
  obtain oc x where i: "rv_Inject ?R (methodForScope (rr_Scope ?q)) (rr_Name ?q) ''s3cretvalue'' (rr_Command ?q)
      (sd_injector os_sidecar, sample_os_init) = (Inr oc, x)" "oc_ExitCode oc = 3"
    using user_injected by (auto split: prod.splits sum.splits)
  have c: "h_ciphers (stub_host sample_os) = sample_ciphers" by (simp add: stub_host_def)
  have e: "Resolve (h_ciphers (stub_host sample_os)) ?now ?R ?q m (sd_injector os_sidecar, sample_os_init) =
      map_option (\<lambda>(res, w). (res, m @ [zeros (length sample_dek), zeros (length ''s3cretvalue'')], w))
        (deliver ?now ?R ?q sample_claims ''s3cretvalue'' (sd_injector os_sidecar, sample_os_init))"
    by (simp only: Resolve_eq user_authorised sidecar_unwrapped c prod.case sum.case sample_decrypted)
  show ?thesis
    using assms op i unfolding dispatch_def handleResolve_def e deliver_def
    by (auto simp: resolved_response_def split: option.splits sum.splits prod.splits if_splits)
qed

text \<open>A terminal that keeps what it is shown, as entries after the files of the state.\<close>

type_synonym user_state = "sample_os_state Sidecar \<times> memory \<times> sample_os_state"

definition shown :: "string \<Rightarrow> bytes \<Rightarrow> user_state \<Rightarrow> user_state" where
  "shown name b = (\<lambda>(s, m, w). (s, m, w\<lparr>so_files := so_files w @ [(name, 0, b)]\<rparr>))"

definition user_terminal :: "user_state terminal" where
  "user_terminal = mute_terminal\<lparr>t_Stdout := shown ''stdout'', t_Stderr := shown ''stderr'',
     t_Dial := socket_of (stub_host sample_os) (Some \<lparr>pc_UID = 7, pc_GID = 1001, pc_Groups = [1001]\<rparr>)\<rparr>"

text \<open>The command prints its environment, the secret in it, and exits with 3: so does the command line.\<close>

lemma exec_through_the_sidecar_hides_the_value_witness:
  "\<exists>r m' s' w' out err. dispatch (stub_host sample_os) os_sidecar user_request [] sample_os_init = Some (r, m', s', w') \<and>
    relayed ''s3cretvalue'' out \<and> relayed ''s3cretvalue'' err \<and>
    cmdExec user_process user_terminal (cli_env\<lparr>e_SocketPath := ''/run/s.sock''\<rparr>)
      (''--token'' # URI ''obj_1'' sample_jws # ''--'' # [''env'']) [] (os_sidecar, [], sample_os_init) =
    (3, [], write_some (shown ''stderr'') err (write_some (shown ''stdout'') out (s', m', w')))"
proof -
  let ?E = "cli_env\<lparr>e_SocketPath := ''/run/s.sock''\<rparr>"
  have d: "DecryptObject (h_ciphers (stub_host sample_os)) (o_Alg sample_object) sample_dek sample_sealed = Inr ''s3cretvalue''"
    using sample_decrypted by (simp add: stub_host_def)
  have e: "exit_status_fits (h_os (stub_host sample_os))"
    by (simp add: exit_status_fits_def stub_host_def sample_os_def int64_def)
  have t: "t_Dial user_terminal = socket_of (stub_host sample_os) (Some \<lparr>pc_UID = 7, pc_GID = 1001, pc_Groups = [1001]\<rparr>)"
    "e_SocketPath ?E = sc_SocketPath (sd_cfg os_sidecar)" "([''env''] :: string list) \<noteq> []"
    "list_all utf8_Valid (URI ''obj_1'' sample_jws # e_Principal ?E # [''env''])"
    using user_facts(1,5) by (simp_all add: cli_env_def user_terminal_def)
  from exec_through_the_sidecar_hides_the_value [OF t(1,2) user_facts(2-4,6) t(3,4) user_request_def user_authorised sidecar_unwrapped d
      user_facts(8) e, where D = user_process and m = "[]" and ?m0.0 = "[]"]
  obtain r m' s' w' where *: "dispatch (stub_host sample_os) os_sidecar user_request [] sample_os_init = Some (r, m', s', w')"
    "relayed ''s3cretvalue'' (ws_Stdout r)" "relayed ''s3cretvalue'' (ws_Stderr r)"
    "cmdExec user_process user_terminal ?E (''--token'' # URI ''obj_1'' sample_jws # ''--'' # [''env'']) [] (os_sidecar, [], sample_os_init) =
      (if ws_OK r then
         (ws_ExitCode r, [], write_some (t_Stderr user_terminal) (ws_Stderr r)
           (write_some (t_Stdout user_terminal) (ws_Stdout r) (s', m', w')))
       else (1, [], warn user_terminal ''denied'' (s', m', w')))"
    by blast
  moreover have "ws_OK r \<and> ws_ExitCode r = 3" using *(1) by (rule user_answer)
  moreover have "t_Stdout user_terminal = shown ''stdout''" "t_Stderr user_terminal = shown ''stderr''"
    by (simp_all add: user_terminal_def)
  ultimately show ?thesis by auto
qed

end
