(* ===== verification/Spec2Isabelle.thy ===== *)
theory Spec2Isabelle
  imports Redact Command_Policy Protocol_Token Local_Policy Folder_Source Key_Store Inject Revocation Key_Source Resolve Durations CP_Store CP_Policy CP_Issuer Times Http_Server CP_Api CP_System Cp_Client Remote Profile Credential Creator Creation Sidecar_Wire Sidecar_Server Sidecar_Safety Sidecar_System Sidecar_Frame Sidecar_Main Sidecar_Start CP_Main Migrate Cli Cli_Safety Cli_Create Cli_System
begin

text \<open>
  Safekeys: secrets travel as encrypted folders and are named by capability tokens; only a
  privileged process beside the agent, the sidecar, turns a token back into a value, and it hands
  the value to a command and never to its caller. This development models the Go code of the
  repository (pkg/, apps/, scripts/migrate-dev-keys.internal) and proves what makes it correct.

  \<^bold>\<open>How the program works.\<close> The control plane registers objects, issues and revokes tokens, keeps the
  policy rules and the audit log in a database, and publishes its public keys over HTTP. The
  sidecar listens on a Unix socket. For a token it verifies the signature under a published key,
  the claims, the audience and the time, asks the control plane's denylist, evaluates the local
  policy, loads the ciphertext from a folder, unwraps its key in the key store, decrypts, injects the
  value into a command, removes every rendering of the value from the command's output and clears the
  memory. The command line creates secrets through the sidecar and runs commands through it.

  \<^bold>\<open>Foundations.\<close> Prelude holds byte strings (a string is a list of bytes), the functions of the
  package strings and generic lemmas; Runes, Encoding, Json, Url_Parse, Times, Durations, Http_Server
  and File_System what the sources use of Go's library, with its corner cases (invalid UTF-8, the
  depth limit of JSON, unpadded base64, 64-bit durations that wrap, \<open>filepath.Clean\<close>). Services holds
  the HTTP client's side and the locales of a cache in front of a fetch and of rules evaluated by the
  first match. State is passed explicitly: a call of the outside world is a function on a state \<open>'w\<close>
  that returns the new one, a fallible one returns \<open>go_error + 'a\<close>, and buffers that are cleared live
  in a memory of byte arrays indexed by address.

  \<^bold>\<open>The protocol.\<close> Protocol_Errors, Protocol_Token, Protocol_Envelope and Protocol_Folder are
  pkg/protocol: denials and their reasons; JWS tokens, claims, signers and verifiers; encryption of
  objects and zeroisation; manifests. Lemmas: acceptance characterised exactly, round trips of
  tokens, URIs, envelopes and folders, and the strictness of decoding.

  \<^bold>\<open>The sidecar's parts.\<close> Redact is pkg/redact: its loops restart after each replacement and are
  partial functions, so that a scan that never ends is \<open>None\<close>; the lemmas show for which values it
  ends and that the value is then gone from the output. Command_Policy is pkg/commandpolicy, with the
  backtracking glob matcher equal to a declarative meaning. Local_Policy, Key_Source, Revocation,
  Folder_Source, Key_Store, Inject, Credential and Profile are the packages of those names; Resolve
  composes them in the order of pkg/resolve. Creator and Creation are pkg/created. Sidecar_Wire and
  Sidecar_Server are pkg/sidecar with its client, Sidecar_Safety what the socket guarantees,
  Sidecar_Frame what a run of the server leaves alone, Sidecar_Main and Sidecar_Start
  apps/sidecar/cmd/sidecar/main.go and what holds of a server it started.

  \<^bold>\<open>The control plane.\<close> CP_Store is the database as lists of rows with the constraints of the
  migrations, the sequence behind the audit ids, and a list of the faults of the coming calls (a
  statement that does not arrive, is rolled back, or is carried out with its reply lost); CP_Policy,
  CP_Issuer, CP_Api and CP_Main are the packages of apps/control-plane. CP_System has the abstract
  specification, a step relation over the tables that every handler refines, the invariants of its
  reachable states (the ids of the audit grow, with gaps where an insert failed), and the meaning of
  the denylist in a run. Cp_Client is pkg/cpclient; Remote runs the clients against the handlers and
  shows that both sides fit, from issuance to verification and from revocation to the refusal.
  Sidecar_System puts the socket in front of it.

  \<^bold>\<open>The commands.\<close> Cli is apps/cli, Cli_Safety and Cli_Create what its fallback and its creation may
  do, Cli_System what a user of it sees through the sidecar's socket; Migrate is
  scripts/migrate-dev-keys.internal.

  \<^bold>\<open>Interfaces.\<close> The contracts between components are locales, interpreted on the code's own
  definitions where these are: \<open>verifier\<close> (key sets, both signers, the fetching verifier), \<open>key_wrapper\<close>
  (the local, Keychain and Vault stores, and the one a process has opened), \<open>fetch_cache\<close> (keys and
  rules), \<open>first_match\<close> (both policy engines), \<open>needle_pass\<close> (both passes of the scanner) and \<open>undisturbed\<close>
  (a started server, for learned revocations and for static settings).

  \<^bold>\<open>What is assumed.\<close> The ciphers, signatures and hashes, the vault, the operating system and the network
  are parameters. Their documented laws are premises with names: \<open>cipher_laws\<close> and \<open>transit_laws\<close> (what
  was sealed opens), \<open>fs_laws\<close> and \<open>shred_laws\<close> (a written file reads back), the verification of what
  the one key in use signed. Every property with premises has an instance that satisfies them.

  \<^bold>\<open>Recursion and bounds.\<close> All functions but the scanner's loops are total. The parser of JSON has
  fuel for twice the length of its text and two more steps, which is proved to be enough, beside
  Go's limit on the depth, which every document the code writes stays below. The glob matcher's
  loop ends by a measure on the positions in pattern and text. Integers of JSON are checked for 64
  bits, durations and times wrap or saturate as in Go.

  \<^bold>\<open>Not modelled.\<close> Goroutines, mutexes, deadlines and signals: a component runs its calls one after the
  other, and a run is a sequence of them. The order of PostgreSQL's collation is that of bytes.
  Redirects and HEAD requests of HTTP, and what is logged while starting. The text of errors
  that come out of Go's JSON decoder. What the flag package prints, and \<open>flag.Parse\<close> in the two
  servers, where the given options are a list of names and values; the command line's options
  are parsed from its arguments. The embedding of the migrations (store/embed.go). The probe of
  the deployment's confinement (tools/hardprobe), which runs no part of the program. The packages in
  TypeScript and Python, the site, the deployment files and the tests.
\<close>

end
